(* ===== verification/Go_Prelude.thy ===== *)
theory Go_Prelude
  imports Main "HOL-Library.Multiset"
begin

text \<open>
  What the components share: the Go types the sources use (signed 64-bit integers with their
  wrap-around, instants and durations in nanoseconds, errors as values), the exchange of two
  slice elements, and the lemmas about them. The theorem collections that the component
  theories fill are declared here:
  \<^item> \<open>status_defs\<close>: the predicates on pipeline statuses;
  \<^item> \<open>pq_simps\<close>: the effect of the priority queue's primitive operations.
\<close>

named_theorems status_defs
named_theorems pq_simps

section \<open>Go types\<close>

text \<open>
  An instant (\<open>time.Time\<close>) is the number of nanoseconds since Go's zero time, so that
  \<open>0\<close> is the value for which \<open>IsZero\<close> holds; \<open>time.Duration\<close> is a number of
  nanoseconds. Go's nil pointer is \<open>None\<close>. A call that returns a value and an error
  returns a sum, \<open>Inl\<close> the error.
\<close>

type_synonym time = int
type_synonym duration = int
type_synonym key = string

definition IsZero :: "time \<Rightarrow> bool" where
  "IsZero t \<longleftrightarrow> t = 0"

text \<open>The value an \<open>int64\<close> computation leaves in a register.\<close>

definition wrap64 :: "int \<Rightarrow> int" where
  "wrap64 x = (x + 2 ^ 63) mod 2 ^ 64 - 2 ^ 63"

definition is_int64 :: "int \<Rightarrow> bool" where
  "is_int64 x \<longleftrightarrow> - (2 ^ 63) \<le> x \<and> x < 2 ^ 63"

lemma is_int64_wrap64 [simp, intro]: "is_int64 (wrap64 x)"
  by (simp add: is_int64_def wrap64_def)

lemma wrap64_id: "is_int64 x \<Longrightarrow> wrap64 x = x"
  by (simp add: is_int64_def wrap64_def)

section \<open>Exchanging two elements of a slice\<close>

definition list_swap :: "'a list \<Rightarrow> nat \<Rightarrow> nat \<Rightarrow> 'a list" where
  "list_swap xs i j = xs[i := xs ! j, j := xs ! i]"

lemma length_list_swap [simp]: "length (list_swap xs i j) = length xs"
  by (simp add: list_swap_def)

lemma list_swap_same [simp]: "list_swap xs i i = xs"
  by (cases "i < length xs") (simp_all add: list_swap_def list_update_beyond)

lemma nth_list_swap:
  assumes "i < length xs" and "j < length xs" and "k < length xs"
  shows "list_swap xs i j ! k = (if k = j then xs ! i else if k = i then xs ! j else xs ! k)"
  using assms by (auto simp: list_swap_def nth_list_update)

lemma mset_list_swap [simp]:
  "i < length xs \<Longrightarrow> j < length xs \<Longrightarrow> mset (list_swap xs i j) = mset xs"
  by (cases "i = j") (simp_all add: list_swap_def mset_swap)

lemma set_list_swap [simp]:
  "i < length xs \<Longrightarrow> j < length xs \<Longrightarrow> set (list_swap xs i j) = set xs"
  by (metis mset_list_swap set_mset_mset)

lemma distinct_list_swap [simp]:
  "i < length xs \<Longrightarrow> j < length xs \<Longrightarrow> distinct (list_swap xs i j) = distinct xs"
  by (metis mset_list_swap mset_eq_imp_distinct_iff)

lemma map_list_swap:
  "i < length xs \<Longrightarrow> j < length xs \<Longrightarrow> map f (list_swap xs i j) = list_swap (map f xs) i j"
  by (simp add: list_swap_def map_update)

lemma take_list_swap_beyond:
  "n \<le> i \<Longrightarrow> n \<le> j \<Longrightarrow> take n (list_swap xs i j) = take n xs"
  by (simp add: list_swap_def)

section \<open>Lists\<close>

lemma length_filter_eq_length_iff: "length (filter P xs) = length xs \<longleftrightarrow> (\<forall>x\<in>set xs. P x)"
proof (induction xs)
  case (Cons x xs)
  have "length (filter P xs) \<noteq> Suc (length xs)"
    by (metis Suc_n_not_le_n length_filter_le)
  with Cons show ?case by auto
qed simp

lemma length_filter_0_iff: "length (filter P xs) = 0 \<longleftrightarrow> (\<forall>x\<in>set xs. \<not> P x)"
  by (simp add: filter_empty_conv)

lemma distinct_map_of_nth_eq:
  "distinct (map f xs) \<Longrightarrow> i < length xs \<Longrightarrow> j < length xs \<Longrightarrow> f (xs ! i) = f (xs ! j) \<Longrightarrow> i = j"
  by (metis distinct_conv_nth length_map nth_map)

end
