(* ===== verification/Go_Float.thy ===== *)
theory Go_Float
  imports Complex_Main
begin

text \<open>
  Go's \<open>float64\<close>, as far as the retry loops use it: conversion from and to \<open>int64\<close>,
  multiplication, comparison, \<open>math.Min\<close> and \<open>math.Pow\<close> with an integral exponent. A
  finite value is the rational it denotes (the two zeros are one value: no operation used here
  tells them apart), and every operation rounds to the nearest representable value, ties to
  even, with 53 bits of precision, gradual underflow and overflow to an infinity. The lemmas
  show that small integers are represented exactly.
\<close>

section \<open>Values and rounding\<close>

datatype float64 = Fin rat | PInf | NInf | NaN

primrec fneg :: "float64 \<Rightarrow> float64" where
  "fneg (Fin q) = Fin (- q)"
| "fneg PInf = NInf"
| "fneg NInf = PInf"
| "fneg NaN = NaN"

definition round_div_even :: "int \<Rightarrow> int \<Rightarrow> int" where
  "round_div_even n d =
     (let q = n div d; r = n mod d
      in if 2 * r < d then q else if 2 * r > d then q + 1 else if even q then q else q + 1)"

text \<open>The number of binary digits of a positive integer.\<close>

function bit_len :: "int \<Rightarrow> int" where
  "bit_len n = (if n \<le> 0 then 0 else 1 + bit_len (n div 2))"
  by pat_completeness auto
termination
  by (relation "measure nat") auto

declare bit_len.simps [simp del]

text \<open>The \<open>e\<close> for which the quotient of \<open>a\<close> and \<open>b\<close> lies between the powers \<open>e\<close> and \<open>e + 1\<close> of two, for positive \<open>a\<close> and \<open>b\<close>.\<close>

definition frac_exponent :: "int \<Rightarrow> int \<Rightarrow> int" where
  "frac_exponent a b =
     (let d = bit_len a - bit_len b
      in if (if d \<ge> 0 then b * 2 ^ nat d \<le> a else b \<le> a * 2 ^ nat (- d)) then d else d - 1)"

definition scale2 :: "rat \<Rightarrow> int \<Rightarrow> rat" where
  "scale2 q e = (if e \<ge> 0 then q * 2 ^ nat e else q / 2 ^ nat (- e))"

definition round_pos :: "int \<Rightarrow> int \<Rightarrow> float64" where
  "round_pos a b =
     (let e = max (frac_exponent a b - 52) (- 1074);
          m = (if e \<ge> 0 then round_div_even a (b * 2 ^ nat e)
               else round_div_even (a * 2 ^ nat (- e)) b)
      in if e > 971 \<or> e = 971 \<and> m \<ge> 2 ^ 53 then PInf else Fin (scale2 (of_int m) e))"

definition fl64 :: "rat \<Rightarrow> float64" where
  "fl64 q =
     (let (a, b) = quotient_of q
      in if a = 0 then Fin 0
         else if a > 0 then round_pos a b
         else fneg (round_pos (- a) b))"

section \<open>Operations\<close>

definition float_of_int :: "int \<Rightarrow> float64" where
  "float_of_int n = fl64 (of_int n)"

definition inf_of_sign :: "bool \<Rightarrow> float64" where
  "inf_of_sign pos = (if pos then PInf else NInf)"

fun fmul :: "float64 \<Rightarrow> float64 \<Rightarrow> float64" where
  "fmul NaN _ = NaN"
| "fmul _ NaN = NaN"
| "fmul (Fin p) (Fin q) = fl64 (p * q)"
| "fmul (Fin p) PInf = (if p = 0 then NaN else inf_of_sign (p > 0))"
| "fmul (Fin p) NInf = (if p = 0 then NaN else inf_of_sign (p < 0))"
| "fmul PInf (Fin q) = (if q = 0 then NaN else inf_of_sign (q > 0))"
| "fmul NInf (Fin q) = (if q = 0 then NaN else inf_of_sign (q < 0))"
| "fmul PInf PInf = PInf"
| "fmul PInf NInf = NInf"
| "fmul NInf PInf = NInf"
| "fmul NInf NInf = PInf"

fun fless :: "float64 \<Rightarrow> float64 \<Rightarrow> bool" where
  "fless NaN _ = False"
| "fless _ NaN = False"
| "fless (Fin p) (Fin q) = (p < q)"
| "fless (Fin p) PInf = True"
| "fless (Fin p) NInf = False"
| "fless PInf _ = False"
| "fless NInf NInf = False"
| "fless NInf _ = True"

text \<open>\<open>math.Min\<close>: a negative infinity wins, then NaN, then the smaller one.\<close>

definition math_Min :: "float64 \<Rightarrow> float64 \<Rightarrow> float64" where
  "math_Min x y =
     (if x = NInf \<or> y = NInf then NInf
      else if x = NaN \<or> y = NaN then NaN
      else if fless x y then x else y)"

definition trunc_rat :: "rat \<Rightarrow> int" where
  "trunc_rat q = (if q \<ge> 0 then \<lfloor>q\<rfloor> else \<lceil>q\<rceil>)"

text \<open>
  The conversion to \<open>int64\<close> drops the fraction. The language leaves the result of an
  out-of-range conversion to the implementation: it is the argument \<open>oor\<close>.
\<close>

definition int64_of_float :: "(float64 \<Rightarrow> int) \<Rightarrow> float64 \<Rightarrow> int" where
  "int64_of_float oor x =
     (case x of
        Fin q \<Rightarrow> if - (2 ^ 63) \<le> trunc_rat q \<and> trunc_rat q < 2 ^ 63 then trunc_rat q else oor x
      | _ \<Rightarrow> oor x)"

section \<open>math.Pow with a non-negative integral exponent\<close>

definition rat_exponent :: "rat \<Rightarrow> int" where
  "rat_exponent q = (let (a, b) = quotient_of \<bar>q\<bar> in frac_exponent a b)"

definition math_Frexp :: "rat \<Rightarrow> rat \<times> int" where
  "math_Frexp q = (if q = 0 then (0, 0) else (scale2 q (- (rat_exponent q + 1)), rat_exponent q + 1))"

definition math_Ldexp :: "rat \<Rightarrow> int \<Rightarrow> float64" where
  "math_Ldexp q e =
     (if q = 0 then Fin 0
      else if rat_exponent q + e < - 1075 then Fin 0
      else if rat_exponent q + e > 1023 then inf_of_sign (q > 0)
      else fl64 (scale2 q e))"

text \<open>The product of two mantissas of \<open>pow\<close>'s loop neither overflows nor is infinite.\<close>

definition mant_mul :: "rat \<Rightarrow> rat \<Rightarrow> rat" where
  "mant_mul p q = (case fl64 (p * q) of Fin v \<Rightarrow> v | _ \<Rightarrow> 0)"

fun pow_loop :: "nat \<Rightarrow> rat \<Rightarrow> int \<Rightarrow> rat \<Rightarrow> int \<Rightarrow> rat \<times> int" where
  "pow_loop i x1 xe a1 ae =
     (if i = 0 then (a1, ae)
      else if xe < - 4096 \<or> 4096 < xe then (a1, ae + xe)
      else
        let (a1, ae) = (if odd i then (mant_mul a1 x1, ae + xe) else (a1, ae));
            x1 = mant_mul x1 x1;
            xe = 2 * xe;
            (x1, xe) = (if x1 < 1 / 2 then (x1 + x1, xe - 1) else (x1, xe))
        in pow_loop (i div 2) x1 xe a1 ae)"

declare pow_loop.simps [simp del]

definition math_Pow :: "float64 \<Rightarrow> nat \<Rightarrow> float64" where
  "math_Pow x y =
     (case float_of_int (int y) of
        Fin yf \<Rightarrow>
          let n = nat \<lfloor>yf\<rfloor>
          in if n = 0 \<or> x = Fin 1 then Fin 1
             else if n = 1 then x
             else (case x of
                NaN \<Rightarrow> NaN
              | PInf \<Rightarrow> PInf
              | NInf \<Rightarrow> if odd n then NInf else PInf
              | Fin q \<Rightarrow>
                  if q = 0 then Fin 0
                  else if int n \<ge> 2 ^ 63
                  then (if q = -1 then Fin 1 else if \<bar>q\<bar> < 1 then Fin 0 else PInf)
                  else (case math_Frexp q of (x1, xe) \<Rightarrow>
                          case pow_loop n x1 xe 1 0 of (a1, ae) \<Rightarrow> math_Ldexp a1 ae))
      | _ \<Rightarrow> NaN)"

section \<open>Exactness\<close>

lemma round_div_even_exact [simp]: "d > 0 \<Longrightarrow> round_div_even (n * d) d = n"
  by (simp add: round_div_even_def Let_def)

lemma round_div_even_1 [simp]: "round_div_even n 1 = n"
  using round_div_even_exact [of 1 n] by simp

lemma bit_len_pos: "0 < n \<Longrightarrow> 0 < bit_len n"
proof -
  have "0 \<le> bit_len k" for k by (induction k rule: bit_len.induct) (subst bit_len.simps, simp)
  then show "0 < n \<Longrightarrow> 0 < bit_len n" by (subst bit_len.simps) (simp add: add_pos_nonneg)
qed

lemma bit_len_bounds: "0 < n \<Longrightarrow> 2 ^ nat (bit_len n - 1) \<le> n \<and> n < 2 ^ nat (bit_len n)"
proof (induction n rule: bit_len.induct)
  case (1 n)
  show ?case
  proof (cases "n = 1")
    case True
    have "bit_len 0 = 0" "bit_len 1 = 1 + bit_len 0" by (subst bit_len.simps, simp)+
    with True show ?thesis by simp
  next
    case False
    with 1(2) have h: "0 < n div 2" by linarith
    have b: "2 ^ nat (bit_len (n div 2) - 1) \<le> n div 2" "n div 2 < 2 ^ nat (bit_len (n div 2))"
      using 1(1) h 1(2) by auto
    have l: "bit_len n = 1 + bit_len (n div 2)" using 1(2) by (subst bit_len.simps) simp
    have e: "nat (bit_len n - 1) = Suc (nat (bit_len (n div 2) - 1))"
      "nat (bit_len n) = Suc (nat (bit_len (n div 2)))"
      using bit_len_pos [OF h] by (simp_all add: l)
    have "2 * 2 ^ nat (bit_len (n div 2) - 1) \<le> n" "n < 2 * 2 ^ nat (bit_len (n div 2))"
      using b by linarith+
    then show ?thesis by (simp only: e power_Suc)
  qed
qed

lemma frac_exponent_int:
  assumes "0 < n" shows "frac_exponent n 1 = bit_len n - 1"
proof -
  have "bit_len 0 = 0" "bit_len 1 = 1 + bit_len 0" by (subst bit_len.simps, simp)+
  then have "bit_len 1 = 1" by simp
  moreover have "2 ^ nat (bit_len n - 1) \<le> n"
    using bit_len_bounds [OF assms] by simp
  ultimately show ?thesis
    using bit_len_pos [OF assms] by (simp add: frac_exponent_def Let_def)
qed

lemma bit_len_le:
  assumes "0 < n" and "n < 2 ^ k" shows "bit_len n \<le> int k"
proof (rule ccontr)
  assume "\<not> ?thesis"
  then have "k \<le> nat (bit_len n - 1)" by linarith
  then have "(2::int) ^ k \<le> 2 ^ nat (bit_len n - 1)" by (simp add: power_increasing)
  with bit_len_bounds [OF assms(1)] assms(2) show False by linarith
qed

lemma round_pos_int:
  assumes "0 < n" and "n < 2 ^ 53" shows "round_pos n 1 = Fin (of_int n)"
proof -
  define e where "e = max (frac_exponent n 1 - 52) (- 1074)"
  have e: "e \<le> 0"
    using bit_len_le [OF assms] frac_exponent_int [OF assms(1)] by (simp add: e_def)
  have "scale2 (of_int (if e \<ge> 0 then round_div_even n (1 * 2 ^ nat e)
          else round_div_even (n * 2 ^ nat (- e)) 1)) e = of_int n"
    using e by (cases "e = 0") (simp_all add: scale2_def)
  then show ?thesis
    unfolding round_pos_def Let_def e_def [symmetric] using e by simp
qed

theorem float_of_int_exact:
  assumes "\<bar>n\<bar> < 2 ^ 53" shows "float_of_int n = Fin (of_int n)"
proof -
  have q: "quotient_of (of_int n :: rat) = (n, 1)" by (metis quotient_of_int Rat.of_int_def)
  consider "n = 0" | "0 < n" | "n < 0" by linarith
  then show ?thesis
    using assms round_pos_int [of n] round_pos_int [of "- n"]
    by cases (simp_all add: float_of_int_def fl64_def q)
qed

lemma round_pos_nonneg:
  assumes "0 < a" and "0 < b"
  shows "round_pos a b = PInf \<or> (\<exists>v. round_pos a b = Fin v \<and> 0 \<le> v)"
proof -
  have m: "0 \<le> round_div_even x y" if "0 \<le> x" "0 < y" for x y
    using that by (simp add: round_div_even_def Let_def pos_imp_zdiv_nonneg_iff)
  have s: "0 \<le> scale2 (of_int k) e" if "0 \<le> k" for k e
    using that by (simp add: scale2_def)
  show ?thesis
    using assms by (auto simp: round_pos_def Let_def intro!: s m)
qed

lemma fl64_nonneg: "0 \<le> q \<Longrightarrow> fl64 q = PInf \<or> (\<exists>v. fl64 q = Fin v \<and> 0 \<le> v)"
proof -
  assume q: "0 \<le> q"
  obtain a b where ab: "quotient_of q = (a, b)" by (cases "quotient_of q")
  then have b: "0 < b" by (rule quotient_of_denom_pos)
  from ab have "q = of_int a / of_int b" by (rule quotient_of_div)
  with q b have "0 \<le> a" by (simp add: zero_le_divide_iff)
  with ab b round_pos_nonneg [of a b] show ?thesis
    by (auto simp: fl64_def)
qed

end
