(* ===== verification/Go_Loop.thy ===== *)
theory Go_Loop
  imports Go_Prelude Go_Float
begin

text \<open>
  The retry loop of \<^verbatim>\<open>src/pkg/loop\<close>, through which the engine makes every call that
  must succeed in the end (database and etcd reads and writes, polling of an executor). The
  body of a loop is a function on the state of the world, \<open>pause d\<close> is what happens while
  the loop sleeps for \<open>d\<close>: it returns the state afterwards and whether the loop's context was
  found done first. \<open>Do\<close> is total, since the loop counter is bounded by \<open>maxTimes\<close>. The
  lemmas bound the sleeping times and give the rule by which a loop is shown to reach its goal.
\<close>

section \<open>Configuration\<close>

definition Millisecond :: duration where "Millisecond = 1000000"
definition Second :: duration where "Second = 1000000000"
definition Minute :: duration where "Minute = 60 * Second"

record Loop =
  lp_maxTimes :: int
  lp_declineRatio :: float64
  lp_declineLimit :: duration
  lp_interval :: duration
  lp_lastSleepTime :: duration
  lp_ctx :: bool

datatype LoopOption =
    WithMaxTimes nat
  | WithDeclineRatio float64
  | WithDeclineLimit duration
  | WithInterval duration
  | WithContext

fun apply_loop_option :: "LoopOption \<Rightarrow> Loop \<Rightarrow> Loop" where
  "apply_loop_option (WithMaxTimes n) l = l\<lparr>lp_maxTimes := int n\<rparr>"
| "apply_loop_option (WithDeclineRatio n) l =
     (if fless n (Fin 1) then l else l\<lparr>lp_declineRatio := n\<rparr>)"
| "apply_loop_option (WithDeclineLimit t) l = (if t < 0 then l else l\<lparr>lp_declineLimit := t\<rparr>)"
| "apply_loop_option (WithInterval t) l = (if t < Millisecond then l else l\<lparr>lp_interval := t\<rparr>)"
| "apply_loop_option WithContext l = l\<lparr>lp_ctx := True\<rparr>"

definition loop_New :: "LoopOption list \<Rightarrow> Loop" where
  "loop_New options =
     (let l = fold apply_loop_option options
                \<lparr>lp_maxTimes = 2 ^ 64 - 1, lp_declineRatio = Fin 1, lp_declineLimit = 0,
                 lp_interval = Second, lp_lastSleepTime = 0, lp_ctx = False\<rparr>
      in l\<lparr>lp_lastSleepTime := lp_interval l\<rparr>)"

section \<open>Running\<close>

definition sleepUntilCtxDone ::
  "(duration \<Rightarrow> 's \<Rightarrow> bool \<times> 's) \<Rightarrow> duration \<Rightarrow> bool \<Rightarrow> 's \<Rightarrow> bool \<times> 's" where
  "sleepUntilCtxDone pause d ctx s =
     (if \<not> ctx then (False, snd (pause d s)) else pause d s)"

text \<open>The time to sleep after a call of the body, stored in \<open>lastSleepTime\<close>.\<close>

definition next_sleep :: "(float64 \<Rightarrow> int) \<Rightarrow> Loop \<Rightarrow> bool \<Rightarrow> duration" where
  "next_sleep oor l failed =
     (if failed then
        let d = int64_of_float oor (fmul (float_of_int (lp_lastSleepTime l)) (lp_declineRatio l))
        in if lp_declineLimit l > 0 \<and> d > lp_declineLimit l then lp_declineLimit l else d
      else lp_interval l)"

function do_loop ::
  "(float64 \<Rightarrow> int) \<Rightarrow> (duration \<Rightarrow> 's \<Rightarrow> bool \<times> 's) \<Rightarrow> ('s \<Rightarrow> (bool \<times> 'e option) \<times> 's)
   \<Rightarrow> int \<Rightarrow> Loop \<Rightarrow> 's \<Rightarrow> 'e option \<times> Loop \<times> 's" where
  "do_loop oor pause f i l s =
     (if i < lp_maxTimes l then
        (case f s of ((abort, err), s) \<Rightarrow>
           if abort then (err, l, s)
           else
             (case sleepUntilCtxDone pause (next_sleep oor l (err \<noteq> None)) (lp_ctx l) s of
                (canceled, s) \<Rightarrow>
                  if canceled
                  then (None, l\<lparr>lp_lastSleepTime := next_sleep oor l (err \<noteq> None)\<rparr>, s)
                  else do_loop oor pause f (i + 1)
                         (l\<lparr>lp_lastSleepTime := next_sleep oor l (err \<noteq> None)\<rparr>) s))
      else (None, l, s))"
  by pat_completeness auto
termination
  by (relation "measure (\<lambda>(oor, pause, f, i, l, s). nat (lp_maxTimes l - i))") auto

declare do_loop.simps [simp del]

text \<open>\<open>ctx_err\<close> says whether the context handed to \<open>WithContext\<close> is already done.\<close>

definition loop_Do ::
  "(float64 \<Rightarrow> int) \<Rightarrow> (duration \<Rightarrow> 's \<Rightarrow> bool \<times> 's) \<Rightarrow> ('s \<Rightarrow> bool) \<Rightarrow> Loop
   \<Rightarrow> ('s \<Rightarrow> (bool \<times> 'e option) \<times> 's) \<Rightarrow> 's \<Rightarrow> 'e option \<times> Loop \<times> 's" where
  "loop_Do oor pause ctx_err l f s =
     (if lp_ctx l \<and> ctx_err s then (None, l, s) else do_loop oor pause f 0 l s)"

definition CalculateInterval :: "(float64 \<Rightarrow> int) \<Rightarrow> Loop \<Rightarrow> nat \<Rightarrow> duration" where
  "CalculateInterval oor l loopedTimes =
     (if loopedTimes = 0 then 0
      else
        let interval = int64_of_float oor
              (fmul (float_of_int (lp_interval l)) (math_Pow (lp_declineRatio l) (loopedTimes - 1)));
            interval = (if interval > lp_declineLimit l then lp_declineLimit l else interval)
        in if interval < 0
           then int64_of_float oor
                  (math_Min (float_of_int (lp_declineLimit l)) (float_of_int (lp_interval l)))
           else interval)"

section \<open>What a configured loop satisfies\<close>

definition loop_ok :: "Loop \<Rightarrow> bool" where
  "loop_ok l \<longleftrightarrow>
     0 \<le> lp_maxTimes l \<and> \<not> fless (lp_declineRatio l) (Fin 1) \<and> 0 \<le> lp_declineLimit l \<and>
     Millisecond \<le> lp_interval l"

lemma loop_ok_apply_option: "loop_ok l \<Longrightarrow> loop_ok (apply_loop_option opt l)"
  by (cases opt) (auto simp: loop_ok_def)

lemma loop_ok_fold: "loop_ok l \<Longrightarrow> loop_ok (fold apply_loop_option options l)"
  by (induction options arbitrary: l) (simp_all add: loop_ok_apply_option)

lemma loop_ok_New [simp]: "loop_ok (loop_New options)"
proof -
  have "loop_ok (fold apply_loop_option options
          \<lparr>lp_maxTimes = 2 ^ 64 - 1, lp_declineRatio = Fin 1, lp_declineLimit = 0,
           lp_interval = Second, lp_lastSleepTime = 0, lp_ctx = False\<rparr>)"
    by (rule loop_ok_fold) (simp add: loop_ok_def Second_def Millisecond_def)
  then show ?thesis by (simp add: loop_New_def Let_def loop_ok_def)
qed

lemma loop_New_lastSleepTime [simp]:
  "lp_lastSleepTime (loop_New options) = lp_interval (loop_New options)"
  by (simp add: loop_New_def Let_def)

lemma float_of_int_nonneg:
  "0 \<le> n \<Longrightarrow> float_of_int n = PInf \<or> (\<exists>v. float_of_int n = Fin v \<and> 0 \<le> v)"
  by (simp add: float_of_int_def fl64_nonneg)

lemma int64_of_float_min_bounds:
  assumes lim: "0 \<le> m" "m < 2 ^ 53" and k: "0 \<le> k"
  shows "0 \<le> int64_of_float oor (math_Min (float_of_int m) (float_of_int k))"
    and "int64_of_float oor (math_Min (float_of_int m) (float_of_int k)) \<le> m"
proof -
  have m: "float_of_int m = Fin (of_int m)" by (rule float_of_int_exact) (use lim in simp)
  from float_of_int_nonneg [OF k] consider
    "float_of_int k = PInf" | v where "float_of_int k = Fin v" "0 \<le> v" by blast
  then have "\<exists>v. math_Min (float_of_int m) (float_of_int k) = Fin v \<and> 0 \<le> v \<and> v \<le> of_int m"
    by cases (use lim in \<open>auto simp: m math_Min_def\<close>)
  then obtain v where v: "math_Min (float_of_int m) (float_of_int k) = Fin v" "0 \<le> v" "v \<le> of_int m"
    by blast
  then have t: "0 \<le> trunc_rat v" "trunc_rat v \<le> m"
    by (auto simp: trunc_rat_def floor_le_iff)
  with lim have "trunc_rat v < 2 ^ 63" by simp
  with t v(1) show "0 \<le> int64_of_float oor (math_Min (float_of_int m) (float_of_int k))"
    and "int64_of_float oor (math_Min (float_of_int m) (float_of_int k)) \<le> m"
    by (simp_all add: int64_of_float_def)
qed


text \<open>
  A loop without \<open>WithDeclineLimit\<close> computes the interval zero, although a limit of zero
  means no limit in \<open>Do\<close>.
\<close>

lemma CalculateInterval_without_limit:
  assumes "lp_declineLimit (loop_New options) = 0"
  shows "CalculateInterval oor (loop_New options) n = 0"
proof -
  have ok: "0 \<le> lp_interval (loop_New options)"
    using loop_ok_New [of options] by (simp add: loop_ok_def Millisecond_def)
  have "0 \<le> CalculateInterval oor (loop_New options) n" "CalculateInterval oor (loop_New options) n \<le> 0"
    using assms int64_of_float_min_bounds [of 0 "lp_interval (loop_New options)" oor] ok
    by (simp_all add: CalculateInterval_def Let_def)
  then show ?thesis by simp
qed

section \<open>What running a loop does\<close>

lemma next_sleep_le:
  assumes "0 < lp_declineLimit l"
  shows "next_sleep oor l failed \<le> max (lp_interval l) (lp_declineLimit l)"
  using assms by (auto simp: next_sleep_def Let_def)

text \<open>
  The rule for retry loops: every call of the body either ends the loop in a good state, or
  leaves a state from which, after any sleep, fewer failures than before are ahead.
\<close>

lemma do_loop_rule:
  assumes step: "\<And>s abort err s'. I s \<Longrightarrow> f s = ((abort, err), s') \<Longrightarrow>
      (if abort then Q err s' else (\<forall>d. I (snd (pause d s')) \<and> m (snd (pause d s')) < m s))"
    and "I s" and "int (m s) < lp_maxTimes l - i" and "\<not> lp_ctx l"
  shows "case do_loop oor pause f i l s of (err, l', s') \<Rightarrow> Q err s'"
  using assms(2-)
proof (induction "m s" arbitrary: i l s rule: less_induct)
  case less
  obtain abort err s' where f: "f s = ((abort, err), s')" by (metis surj_pair)
  have lt: "i < lp_maxTimes l" using less(3) by linarith
  show ?case
  proof (cases abort)
    case True
    with step [OF less(2) f] lt f show ?thesis by (subst do_loop.simps) simp
  next
    case False
    let ?d = "next_sleep oor l (err \<noteq> None)"
    let ?s = "snd (pause ?d s')"
    have dec: "I ?s" "m ?s < m s" using step [OF less(2) f] False by auto
    have sl: "sleepUntilCtxDone pause ?d (lp_ctx l) s' = (False, ?s)"
      using less(4) by (simp add: sleepUntilCtxDone_def)
    have "case do_loop oor pause f (i + 1) (l\<lparr>lp_lastSleepTime := ?d\<rparr>) ?s of
            (err, l', s') \<Rightarrow> Q err s'"
      by (rule less(1) [OF dec(2,1)]) (use dec less(3,4) in simp_all)
    with False lt f sl show ?thesis by (subst do_loop.simps) simp
  qed
qed

lemma loop_Do_rule:
  assumes "\<And>s abort err s'. I s \<Longrightarrow> f s = ((abort, err), s') \<Longrightarrow>
      (if abort then Q err s' else (\<forall>d. I (snd (pause d s')) \<and> m (snd (pause d s')) < m s))"
    and "I s" and "int (m s) < lp_maxTimes l" and "\<not> lp_ctx l"
  shows "case loop_Do oor pause ctx_err l f s of (err, l', s') \<Rightarrow> Q err s'"
  using do_loop_rule [of I f Q pause m s l 0 oor] assms by (simp add: loop_Do_def)

text \<open>What the body and the sleeps keep, the loop keeps.\<close>

lemma do_loop_inv:
  assumes "\<And>s r s'. P s \<Longrightarrow> f s = (r, s') \<Longrightarrow> P s'" and "\<And>s d. P s \<Longrightarrow> P (snd (pause d s))" and "P s"
  shows "P (snd (snd (do_loop oor pause f i l s)))"
  using assms
proof (induction oor pause f i l s rule: do_loop.induct)
  case (1 oor pause f i l s)
  obtain abort err s' where f: "f s = ((abort, err), s')" by (metis surj_pair)
  obtain c s'' where sl: "sleepUntilCtxDone pause (next_sleep oor l (err \<noteq> None)) (lp_ctx l) s' = (c, s'')"
    by (metis surj_pair)
  have P': "P s'" using 1(2) [OF 1(4) f] .
  have "s'' = snd (pause (next_sleep oor l (err \<noteq> None)) s')"
    using sl by (auto simp: sleepUntilCtxDone_def split: if_splits)
  then have P'': "P s''" using 1(3) [OF P'] by simp
  show ?case
  proof (cases "i < lp_maxTimes l \<and> \<not> abort \<and> \<not> c")
    case True
    then have "P (snd (snd (do_loop oor pause f (i + 1)
        (l\<lparr>lp_lastSleepTime := next_sleep oor l (err \<noteq> None)\<rparr>) s'')))"
      using 1(1) [OF _ f [symmetric] refl _ sl [symmetric]] 1(2,3) P'' by blast
    with True f sl show ?thesis by (subst do_loop.simps) simp
  next
    case False
    with f sl P' P'' 1(4) show ?thesis by (subst do_loop.simps) auto
  qed
qed

lemma loop_Do_inv:
  assumes "\<And>s r s'. P s \<Longrightarrow> f s = (r, s') \<Longrightarrow> P s'" and "\<And>s d. P s \<Longrightarrow> P (snd (pause d s))" and "P s"
  shows "P (snd (snd (loop_Do oor pause ctx_err l f s)))"
  using do_loop_inv [of P f pause s oor 0 l] assms by (simp add: loop_Do_def)

text \<open>A record of the sleeps of a loop, kept beside its state.\<close>

definition logged_pause ::
  "(duration \<Rightarrow> 's \<Rightarrow> bool \<times> 's) \<Rightarrow> duration \<Rightarrow> 's \<times> duration list \<Rightarrow> bool \<times> 's \<times> duration list" where
  "logged_pause pause d sl = (case pause d (fst sl) of (c, s) \<Rightarrow> (c, s, snd sl @ [d]))"

definition logged_body ::
  "('s \<Rightarrow> (bool \<times> 'e option) \<times> 's) \<Rightarrow> 's \<times> duration list \<Rightarrow> (bool \<times> 'e option) \<times> 's \<times> duration list" where
  "logged_body f sl = (case f (fst sl) of (r, s) \<Rightarrow> (r, s, snd sl))"

lemma do_loop_sleeps:
  assumes "0 < lp_declineLimit l" and "\<forall>d\<in>set (snd sl). d \<le> max (lp_interval l) (lp_declineLimit l)"
  shows "\<forall>d\<in>set (snd (snd (snd (do_loop oor (logged_pause pause) (logged_body f) i l sl)))).
           d \<le> max (lp_interval l) (lp_declineLimit l)"
  using assms
proof (induction oor "logged_pause pause" "logged_body f" i l sl rule: do_loop.induct)
  case (1 oor i l sl)
  obtain abort err s' where f: "logged_body f sl = ((abort, err), s')" by (metis surj_pair)
  let ?d = "next_sleep oor l (err \<noteq> None)"
  obtain c s'' where sl: "sleepUntilCtxDone (logged_pause pause) ?d (lp_ctx l) s' = (c, s'')"
    by (metis surj_pair)
  have s': "snd s' = snd sl" using f by (auto simp: logged_body_def split: prod.splits)
  have s'': "snd s'' = snd s' @ [?d]"
    using sl by (auto simp: sleepUntilCtxDone_def logged_pause_def split: if_splits prod.splits)
  have bnd: "\<forall>d\<in>set (snd s''). d \<le> max (lp_interval l) (lp_declineLimit l)"
    using s' s'' 1(3) next_sleep_le [OF 1(2)] by auto
  consider "\<not> i < lp_maxTimes l" | "i < lp_maxTimes l" abort | "i < lp_maxTimes l" "\<not> abort" c
    | "i < lp_maxTimes l" "\<not> abort" "\<not> c" by blast
  then show ?case
  proof cases
    case 4
    have "\<forall>d\<in>set (snd (snd (snd (do_loop oor (logged_pause pause) (logged_body f) (i + 1)
              (l\<lparr>lp_lastSleepTime := ?d\<rparr>) s'')))). d \<le> max (lp_interval l) (lp_declineLimit l)"
      using 1(1) [OF 4(1) f [symmetric] refl 4(2) sl [symmetric] 4(3)] bnd 1(2) by simp
    with 4 f sl show ?thesis by (subst do_loop.simps) simp
  qed (use f sl bnd 1(3) s' in \<open>subst do_loop.simps, simp\<close>)+
qed

text \<open>
  a loop configured with a decline limit never sleeps longer than its limit or its
  interval, whichever is longer, whatever its body returns and for as many rounds as it runs.\<close>

theorem Do_sleeps_bounded:
  assumes "0 < lp_declineLimit (loop_New options)"
  shows "\<forall>d\<in>set (snd (snd (snd (loop_Do oor (logged_pause pause) ctx_err (loop_New options)
                                  (logged_body f) (s, []))))).
           d \<le> max (lp_interval (loop_New options)) (lp_declineLimit (loop_New options))"
  using do_loop_sleeps [OF assms, of "(s, [])" oor pause f 0] by (simp add: loop_Do_def)

text \<open>
  The polling loops of the engine sleep 1.5 s after the first failure and then at most 10 s:
  the sleeps of seven failing rounds.
\<close>

definition countdown :: "nat \<Rightarrow> (bool \<times> string option) \<times> nat" where
  "countdown n = (if n = 0 then ((True, None), 0) else ((False, Some ''retry''), n - 1))"

definition poll_options :: "LoopOption list" where
  "poll_options = [WithDeclineRatio (Fin (3 / 2)), WithDeclineLimit (10 * Second)]"

lemma poll_sleeps:
  "snd (snd (loop_Do (\<lambda>_. - (2 ^ 63)) (logged_pause (\<lambda>d n. (False, n))) (\<lambda>_. False)
      (loop_New poll_options) (logged_body countdown) (7, [])))
   = (0, [1500000000, 2250000000, 3375000000, 5062500000, 7593750000, 10000000000, 10000000000])"
  by code_simp

theorem Do_sleeps_bounded_witness:
  "0 < lp_declineLimit (loop_New poll_options) \<and>
   list_all (\<lambda>d. d \<le> 10000000000) (snd (snd (snd (loop_Do (\<lambda>_. - (2 ^ 63)) (logged_pause (\<lambda>d n. (False, n))) (\<lambda>_. False)
      (loop_New poll_options) (logged_body countdown) (7, [])))))"
proof -
  have "0 < lp_declineLimit (loop_New poll_options)"
    and "max (lp_interval (loop_New poll_options)) (lp_declineLimit (loop_New poll_options)) = 10000000000"
    by code_simp+
  with Do_sleeps_bounded [of poll_options] show ?thesis by (simp add: list_all_iff)
qed


end
