(* ===== verification/Go_Strconv.thy ===== *)
theory Go_Strconv
  imports Go_Prelude
begin

text \<open>
  The conversions of Go's \<open>strconv\<close> and \<open>strings\<close> that the sources use: unsigned decimal
  numbers as text and back, and joining and splitting text.
\<close>

section \<open>Unsigned decimals\<close>

function FormatUint :: "nat \<Rightarrow> string" where
  "FormatUint n =
     (if n < 10 then [char_of (48 + n)] else FormatUint (n div 10) @ [char_of (48 + n mod 10)])"
  by pat_completeness auto
termination
  by (relation "measure id") auto

declare FormatUint.simps [simp del]

definition is_digit :: "char \<Rightarrow> bool" where
  "is_digit c \<longleftrightarrow> 48 \<le> (of_char c :: nat) \<and> (of_char c :: nat) \<le> 57"

definition digit_val :: "char \<Rightarrow> nat" where
  "digit_val c = of_char c - 48"

text \<open>\<open>bits\<close> is the size of the result; \<open>None\<close> is Go's syntax or range error.\<close>

fun parse_digits :: "nat \<Rightarrow> nat \<Rightarrow> string \<Rightarrow> nat option" where
  "parse_digits bits acc [] = Some acc"
| "parse_digits bits acc (c # cs) =
     (if is_digit c \<and> int (10 * acc + digit_val c) < 2 ^ bits
      then parse_digits bits (10 * acc + digit_val c) cs else None)"

definition ParseUint :: "string \<Rightarrow> nat option" where
  "ParseUint s = (if s = [] then None else parse_digits 64 0 s)"

lemma int_less_power: "int n < 2 ^ b \<longleftrightarrow> n < 2 ^ b"
  by (metis of_nat_less_iff of_nat_numeral of_nat_power)

lemma parse_digits_Cons [simp]:
  "parse_digits bits acc (c # cs) =
     (if is_digit c \<and> 10 * acc + digit_val c < 2 ^ bits
      then parse_digits bits (10 * acc + digit_val c) cs else None)"
  by (simp only: parse_digits.simps int_less_power)

declare parse_digits.simps(2) [simp del]

lemma of_char_digit: "d < 10 \<Longrightarrow> of_char (char_of (48 + d) :: char) = 48 + (d::nat)"
  by (simp add: of_char_of)

lemma is_digit_char_of [simp]: "d < 10 \<Longrightarrow> is_digit (char_of (48 + (d::nat)))"
  by (simp add: is_digit_def of_char_digit)

lemma digit_val_char_of [simp]: "d < 10 \<Longrightarrow> digit_val (char_of (48 + (d::nat))) = d"
  by (simp add: digit_val_def of_char_digit)

lemma parse_digits_append:
  "parse_digits b acc (xs @ ys) = Option.bind (parse_digits b acc xs) (\<lambda>a. parse_digits b a ys)"
  by (induction xs arbitrary: acc) auto

lemma FormatUint_not_Nil [simp]: "FormatUint n \<noteq> []"
  by (subst FormatUint.simps) simp

lemma parse_FormatUint: "n < 2 ^ b \<Longrightarrow> parse_digits b 0 (FormatUint n) = Some n"
proof (induction n rule: FormatUint.induct)
  case (1 n)
  show ?case
  proof (cases "n < 10")
    case True
    with "1.prems" show ?thesis by (subst FormatUint.simps) simp
  next
    case False
    have "n div 10 < 2 ^ b" using "1.prems" by (meson div_le_dividend le_less_trans)
    with False 1 have "parse_digits b 0 (FormatUint (n div 10)) = Some (n div 10)" by simp
    with False "1.prems" show ?thesis
      by (subst FormatUint.simps) (simp add: parse_digits_append)
  qed
qed

lemma ParseUint_FormatUint [simp]: "n < 2 ^ 64 \<Longrightarrow> ParseUint (FormatUint n) = Some n"
  by (simp add: ParseUint_def parse_FormatUint)

lemma FormatUint_inj: "FormatUint m = FormatUint n \<Longrightarrow> m = n"
proof -
  assume *: "FormatUint m = FormatUint n"
  obtain b where "m < 2 ^ b" "n < 2 ^ b"
    by (metis less_exp less_le_trans max.cobounded1 max.cobounded2 one_le_numeral power_increasing)
  with * show ?thesis by (metis option.inject parse_FormatUint)
qed

lemma FormatUint_eq_iff [simp]: "FormatUint m = FormatUint n \<longleftrightarrow> m = n"
  using FormatUint_inj by blast

end
