(* ===== verification/Go_Strings.thy ===== *)
theory Go_Strings
  imports Go_Strconv "HOL-Library.Sublist"
begin

text \<open>
  The functions of Go's \<open>strings\<close> package and of \<^verbatim>\<open>src/pkg/strutil\<close> that the engine
  uses, on strings as byte lists. Case folding is that of ASCII letters. The lemmas relate
  \<open>Contains\<close> to sublists and to joined texts.
\<close>

section \<open>Package strings\<close>

fun strings_Join :: "string list \<Rightarrow> string \<Rightarrow> string" where
  "strings_Join [] sep = ''''"
| "strings_Join [s] sep = s"
| "strings_Join (s # t # ss) sep = s @ sep @ strings_Join (t # ss) sep"

fun strings_Contains :: "string \<Rightarrow> string \<Rightarrow> bool" where
  "strings_Contains [] sub = (sub = [])"
| "strings_Contains (c # s) sub = (prefix sub (c # s) \<or> strings_Contains s sub)"

text \<open>The index of the last occurrence, or -1.\<close>

fun strings_LastIndex :: "string \<Rightarrow> string \<Rightarrow> int" where
  "strings_LastIndex [] sub = (if sub = [] then 0 else - 1)"
| "strings_LastIndex (c # s) sub =
     (let i = strings_LastIndex s sub
      in if i \<ge> 0 then i + 1 else if prefix sub (c # s) then 0 else - 1)"

definition lower_char :: "char \<Rightarrow> char" where
  "lower_char c =
     (if 65 \<le> (of_char c :: nat) \<and> (of_char c :: nat) \<le> 90 then char_of ((of_char c :: nat) + 32) else c)"

definition strings_ToLower :: "string \<Rightarrow> string" where
  "strings_ToLower s = map lower_char s"

definition strings_EqualFold :: "string \<Rightarrow> string \<Rightarrow> bool" where
  "strings_EqualFold s t \<longleftrightarrow> strings_ToLower s = strings_ToLower t"

definition strings_TrimPrefix :: "string \<Rightarrow> string \<Rightarrow> string" where
  "strings_TrimPrefix s p = (if prefix p s then drop (length p) s else s)"

definition strings_TrimSuffix :: "string \<Rightarrow> string \<Rightarrow> string" where
  "strings_TrimSuffix s p = (if suffix p s then take (length s - length p) s else s)"

text \<open>\<open>strings.Trim\<close> with a set of bytes.\<close>

definition strings_Trim :: "string \<Rightarrow> string \<Rightarrow> string" where
  "strings_Trim s cutset =
     rev (dropWhile (\<lambda>c. c \<in> set cutset) (rev (dropWhile (\<lambda>c. c \<in> set cutset) s)))"

section \<open>Package strutil\<close>

definition strutil_Join :: "string list \<Rightarrow> string \<Rightarrow> bool \<Rightarrow> string" where
  "strutil_Join ss sep omitEmpty =
     (if \<not> omitEmpty then strings_Join ss sep
      else strings_Join (filter (\<lambda>s. s \<noteq> []) ss) sep)"

fun TrimPrefixes :: "string \<Rightarrow> string list \<Rightarrow> string" where
  "TrimPrefixes s [] = s"
| "TrimPrefixes s (p # ps) =
     (if length (strings_TrimPrefix s p) \<noteq> length s then strings_TrimPrefix s p
      else TrimPrefixes s ps)"

fun dedup_loop :: "bool \<Rightarrow> string list \<Rightarrow> string list \<Rightarrow> string list" where
  "dedup_loop omitEmpty result [] = result"
| "dedup_loop omitEmpty result (s # ss) =
     (if s = [] \<and> omitEmpty then dedup_loop omitEmpty result ss
      else if s \<in> set result then dedup_loop omitEmpty result ss
      else dedup_loop omitEmpty (result @ [s]) ss)"

definition DedupSlice :: "string list \<Rightarrow> bool \<Rightarrow> string list" where
  "DedupSlice ss omitEmpty = dedup_loop omitEmpty [] ss"

section \<open>Text of a duration\<close>

text \<open>
  \<open>time.Duration.String\<close>: \<open>fmt_frac\<close> prints the last \<open>prec\<close> decimal digits of a number
  as a fraction without trailing zeros, and returns the remaining digits.
\<close>

fun fmt_frac :: "nat \<Rightarrow> bool \<Rightarrow> string \<Rightarrow> int \<Rightarrow> string \<times> int" where
  "fmt_frac 0 printing acc v = ((if printing then ''.'' @ acc else acc), v)"
| "fmt_frac (Suc prec) printing acc v =
     (let printing = (printing \<or> v mod 10 \<noteq> 0)
      in fmt_frac prec printing
           (if printing then FormatUint (nat (v mod 10)) @ acc else acc) (v div 10))"

definition Duration_abs_String :: "int \<Rightarrow> string" where
  "Duration_abs_String u =
     (if u < 1000000000 then
        (if u = 0 then ''0s''
         else if u < 1000 then FormatUint (nat u) @ ''ns''
         else if u < 1000000
         then (case fmt_frac 3 False '''' u of (fr, v) \<Rightarrow>
                 FormatUint (nat v) @ fr @ [char_of (194 :: nat), char_of (181 :: nat)] @ ''s'')
         else (case fmt_frac 6 False '''' u of (fr, v) \<Rightarrow> FormatUint (nat v) @ fr @ ''ms''))
      else
        (case fmt_frac 9 False '''' u of (fr, v) \<Rightarrow>
           (if v div 60 > 0
            then (if v div 60 div 60 > 0 then FormatUint (nat (v div 60 div 60)) @ ''h'' else '''')
                 @ FormatUint (nat (v div 60 mod 60)) @ ''m'' else '''')
           @ FormatUint (nat (v mod 60)) @ fr @ ''s''))"

definition Duration_String :: "int \<Rightarrow> string" where
  "Duration_String d =
     (if d < 0 then ''-'' @ Duration_abs_String (- d) else Duration_abs_String d)"

section \<open>Lemmas\<close>

lemma strings_Contains_sublist: "strings_Contains s sub \<longleftrightarrow> sublist sub s"
  by (induction s) (simp_all add: sublist_Cons_right)

lemma strings_Contains_refl [simp]: "strings_Contains s s"
  by (simp add: strings_Contains_sublist)

lemma sublist_across_separator:
  assumes "c \<notin> set p"
  shows "sublist p (a @ c # b) \<longleftrightarrow> sublist p a \<or> sublist p b"
proof
  assume "sublist p (a @ c # b)"
  then consider "sublist p a" | "sublist p (c # b)"
    | x y where "p = x @ y" "suffix x a" "prefix y (c # b)"
    by (auto simp: sublist_append)
  then show "sublist p a \<or> sublist p b"
  proof cases
    case 2
    then show ?thesis using assms by (cases p) (auto simp: sublist_Cons_right)
  next
    case 3
    with assms have "y = []" by (cases y) auto
    with 3 show ?thesis by (auto simp: suffix_imp_sublist)
  qed simp
next
  assume "sublist p a \<or> sublist p b"
  then show "sublist p (a @ c # b)"
    by (auto simp: sublist_append sublist_Cons_right)
qed

lemma sublist_append_no_overlap:
  assumes "\<not> sublist p a" and "\<And>x y. p = x @ y \<Longrightarrow> x \<noteq> [] \<Longrightarrow> y \<noteq> [] \<Longrightarrow> \<not> suffix x a"
  shows "sublist p (a @ b) \<longleftrightarrow> sublist p b"
proof
  assume "sublist p (a @ b)"
  then consider "sublist p a" | "sublist p b" | x y where "p = x @ y" "suffix x a" "prefix y b"
    by (auto simp: sublist_append)
  then show "sublist p b"
  proof cases
    case 3
    then have "x = [] \<or> y = []" using assms(2) by blast
    with 3 assms(1) show ?thesis by (auto simp: suffix_imp_sublist prefix_imp_sublist)
  qed (use assms(1) in auto)
qed (auto simp: sublist_append)

text \<open>A text without the separator is in a joined text iff it is in one of the parts.\<close>

lemma Contains_Join:
  assumes "c \<notin> set p" and "p \<noteq> []"
  shows "strings_Contains (strings_Join ss [c]) p \<longleftrightarrow> (\<exists>s\<in>set ss. strings_Contains s p)"
  using assms
  by (induction ss "[c]" rule: strings_Join.induct)
     (simp_all add: strings_Contains_sublist sublist_across_separator)

lemma Contains_strutil_Join:
  assumes "c \<notin> set p" and "p \<noteq> []"
  shows "strings_Contains (strutil_Join ss [c] omitEmpty) p \<longleftrightarrow> (\<exists>s\<in>set ss. strings_Contains s p)"
proof -
  have "\<not> strings_Contains [] p" using assms(2) by simp
  then show ?thesis by (auto simp: strutil_Join_def Contains_Join [OF assms])
qed

lemma strings_EqualFold_refl [simp]: "strings_EqualFold s s"
  by (simp add: strings_EqualFold_def)

lemma strings_EqualFold_sym: "strings_EqualFold s t \<longleftrightarrow> strings_EqualFold t s"
  by (auto simp: strings_EqualFold_def)

lemma TrimPrefixes_single: "p \<noteq> [] \<Longrightarrow> TrimPrefixes (p @ s) [p] = s"
  by (simp add: strings_TrimPrefix_def)

lemma strings_LastIndex_bounds:
  "- 1 \<le> strings_LastIndex s sub \<and> strings_LastIndex s sub \<le> int (length s)"
  by (induction s) (auto simp: Let_def)

lemma strings_LastIndex_prefix:
  "strings_LastIndex s sub \<ge> 0 \<Longrightarrow> prefix sub (drop (nat (strings_LastIndex s sub)) s)"
proof (induction s)
  case (Cons c s)
  show ?case
  proof (cases "strings_LastIndex s sub \<ge> 0")
    case True
    then have "nat (strings_LastIndex (c # s) sub) = Suc (nat (strings_LastIndex s sub))"
      by (simp add: Let_def nat_add_distrib)
    with True Cons.IH show ?thesis by simp
  next
    case False
    with Cons.prems show ?thesis by (auto simp: Let_def split: if_splits)
  qed
qed (simp split: if_splits)

lemma strings_LastIndex_neg: "strings_LastIndex s sub = - 1 \<longleftrightarrow> \<not> strings_Contains s sub"
proof (induction s)
  case (Cons c s)
  then show ?case
    using strings_LastIndex_bounds [of s sub] by (auto simp: Let_def)
qed simp

lemma set_dedup_loop:
  "set (dedup_loop om result ss) = set result \<union> {s \<in> set ss. \<not> (s = [] \<and> om)}"
  by (induction om result ss rule: dedup_loop.induct) auto

lemma distinct_dedup_loop: "distinct result \<Longrightarrow> distinct (dedup_loop om result ss)"
  by (induction om result ss rule: dedup_loop.induct) auto

end
