(* ===== verification/Errorsx.thy ===== *)
theory Errorsx
  imports Go_Strings
begin

text \<open>
  The engine's errors (\<^verbatim>\<open>src/modules/pipeline/pkg/errorsx/errors.go\<close>): an error carries a
  type, and \<open>IsContainUserError\<close> searches the text of an error, since errors are joined into
  new ones on their way up. A user error stops the task, any other one is retried.
\<close>

datatype go_error =
    Fundamental (fund_msg: string) (fund_errType: string)
  | OtherError string

definition platformAbnormalError :: string where "platformAbnormalError = ''platform-error''"
definition userAbnormalError :: string where "userAbnormalError = ''user-error''"
definition sessionNotFoundError :: string where "sessionNotFoundError = ''failed to find session''"

fun Error :: "go_error \<Rightarrow> string" where
  "Error (Fundamental msg errType) = ''errType: '' @ errType @ '', '' @ msg"
| "Error (OtherError msg) = msg"

text \<open>The message is the formatted one.\<close>

definition errorsx_New :: "string \<Rightarrow> go_error" where
  "errorsx_New msg = Fundamental msg ''''"

definition Errorf :: "string \<Rightarrow> go_error" where
  "Errorf msg = Fundamental msg ''''"

definition PlatformErrorf :: "string \<Rightarrow> go_error" where
  "PlatformErrorf msg = Fundamental msg platformAbnormalError"

definition UserErrorf :: "string \<Rightarrow> go_error" where
  "UserErrorf msg = Fundamental msg userAbnormalError"

definition IsPlatformError :: "go_error option \<Rightarrow> bool" where
  "IsPlatformError err \<longleftrightarrow>
     (case err of
        Some (Fundamental _ t) \<Rightarrow> t = platformAbnormalError
      | _ \<Rightarrow> False)"

definition IsUserError :: "go_error option \<Rightarrow> bool" where
  "IsUserError err \<longleftrightarrow>
     (case err of
        Some (Fundamental _ t) \<Rightarrow> t = userAbnormalError
      | _ \<Rightarrow> False)"

text \<open>The predicates below read the text of a non-nil error only, which is their argument.\<close>

definition IsContainUserError :: "string \<Rightarrow> bool" where
  "IsContainUserError err = strings_Contains err (''errType: '' @ userAbnormalError)"

definition IsSessionNotFound :: "string \<Rightarrow> bool" where
  "IsSessionNotFound err = strings_Contains (strings_ToLower err) sessionNotFoundError"

definition IsTimeoutError :: "string \<Rightarrow> bool" where
  "IsTimeoutError err =
     (strings_Contains (strings_ToLower err) ''timeout'' \<or>
      strings_Contains (strings_ToLower err) ''time out'')"

definition IsNetworkError :: "string \<Rightarrow> bool" where
  "IsNetworkError err = (IsSessionNotFound err \<or> IsTimeoutError err)"

section \<open>Classification\<close>

lemma IsContainUserError_sublist:
  "IsContainUserError s \<longleftrightarrow> sublist ''errType: user-error'' s"
  by (simp add: IsContainUserError_def strings_Contains_sublist userAbnormalError_def)

lemma IsContainUserError_appendI: "IsContainUserError t \<Longrightarrow> IsContainUserError (s @ t)"
  by (simp add: IsContainUserError_sublist sublist_append)

lemma UserErrorf_is_contained: "IsContainUserError (Error (UserErrorf msg))"
  by (simp add: IsContainUserError_def UserErrorf_def userAbnormalError_def prefix_def)

text \<open>
  The text of the error an operation of a task returns: its parts joined by newlines, behind a
  fixed text naming the operation. Neither the joining nor the text in front can produce or
  hide the mark of a user error.
\<close>

definition op_error :: "string \<Rightarrow> string list \<Rightarrow> string" where
  "op_error op errs = ''failed to '' @ op @ '' task, err: '' @ strutil_Join errs ''\<newline>'' True"

lemma no_overlap_with_prefix:
  assumes "''errType: user-error'' = x @ y" and "x \<noteq> []" and "y \<noteq> []"
  shows "\<not> suffix x (z @ ''task, err: '')"
proof -
  from assms(1) have "x @ y = ''errType: user-error''" by simp
  then show ?thesis
    using assms(2,3) by (auto simp: append_eq_Cons_conv suffix_to_prefix)
qed

lemma IsContainUserError_op_error:
  assumes "\<not> IsContainUserError (''failed to '' @ op @ '' task, err: '')"
  shows "IsContainUserError (op_error op errs) \<longleftrightarrow> (\<exists>e\<in>set errs. IsContainUserError e)"
proof -
  let ?p = "''errType: user-error''" and ?j = "strutil_Join errs ''\<newline>'' True"
  let ?a = "(''failed to '' @ op @ '' '') @ ''task, err: ''"
  have a: "\<not> sublist ?p ?a" using assms by (simp add: IsContainUserError_sublist)
  have "IsContainUserError (op_error op errs) \<longleftrightarrow> sublist ?p (?a @ ?j)"
    by (simp add: IsContainUserError_sublist op_error_def)
  also have "\<dots> \<longleftrightarrow> sublist ?p ?j"
    by (rule sublist_append_no_overlap [OF a]) (rule no_overlap_with_prefix)
  also have "\<dots> \<longleftrightarrow> (\<exists>e\<in>set errs. IsContainUserError e)"
    using Contains_strutil_Join [of "CHR ''\<newline>''" ?p errs True]
    by (simp add: IsContainUserError_sublist strings_Contains_sublist)
  finally show ?thesis .
qed

end
