(* ===== verification/Go_Heap.thy ===== *)
theory Go_Heap
  imports Go_Prelude
begin

text \<open>
  The array algorithms of Go's \<open>container/heap\<close> and \<open>sort\<close> packages over a list of keys:
  sifting an element up or down a binary heap, and insertion sort. The priority queue's
  operations are these algorithms driven by its own \<open>Less\<close> and \<open>Swap\<close>; the facts about the
  heap order are proved here once, for keys of any linear order.
\<close>

section \<open>The algorithms\<close>

abbreviation parent :: "nat \<Rightarrow> nat" where
  "parent k \<equiv> (k - 1) div 2"

function sift_up :: "'a::linorder list \<Rightarrow> nat \<Rightarrow> 'a list" where
  "sift_up ks j =
     (let i = parent j in
      if i = j \<or> \<not> ks ! j < ks ! i then ks else sift_up (list_swap ks i j) i)"
  by pat_completeness auto
termination
  by (relation "measure (\<lambda>(ks, j). j)") auto

function sift_down :: "'a::linorder list \<Rightarrow> nat \<Rightarrow> nat \<Rightarrow> 'a list \<times> nat" where
  "sift_down ks i n =
     (let j1 = 2 * i + 1 in
      if j1 \<ge> n then (ks, i)
      else let j = (if j1 + 1 < n \<and> ks ! (j1 + 1) < ks ! j1 then j1 + 1 else j1) in
        if \<not> ks ! j < ks ! i then (ks, i) else sift_down (list_swap ks i j) j n)"
  by pat_completeness auto
termination
  by (relation "measure (\<lambda>(ks, i, n). n - i)") (auto split: if_splits)

text \<open>The inner loop of insertion sort moves the element at \<open>j\<close> down while it is smaller than
  its left neighbour; the outer one does so for each position.\<close>

fun sink_left :: "'a::linorder list \<Rightarrow> nat \<Rightarrow> 'a list" where
  "sink_left ks 0 = ks"
| "sink_left ks (Suc j) =
     (if ks ! Suc j < ks ! j then sink_left (list_swap ks (Suc j) j) j else ks)"

fun insertion_sort_from :: "'a::linorder list \<Rightarrow> nat \<Rightarrow> nat \<Rightarrow> 'a list" where
  "insertion_sort_from ks i 0 = ks"
| "insertion_sort_from ks i (Suc m) = insertion_sort_from (sink_left ks i) (Suc i) m"

declare sift_up.simps [simp del] sift_down.simps [simp del]

section \<open>Heap order\<close>

definition is_heap :: "'a::linorder list \<Rightarrow> nat \<Rightarrow> bool" where
  "is_heap ks n \<longleftrightarrow> n \<le> length ks \<and> (\<forall>k<n. 0 < k \<longrightarrow> ks ! parent k \<le> ks ! k)"

text \<open>
  A heap but for one position. \<open>heap_but_up ks j n\<close>: the element at \<open>j\<close> may be smaller than
  its parent. \<open>heap_but_down ks i n\<close>: it may be greater than its children.
  \<open>heap_but ks i n\<close>: both. In each case the children of the position are in order with its
  parent.
\<close>

definition skip_ok :: "'a::linorder list \<Rightarrow> nat \<Rightarrow> nat \<Rightarrow> bool" where
  "skip_ok ks i n \<longleftrightarrow> (\<forall>k<n. 0 < k \<longrightarrow> 0 < i \<longrightarrow> parent k = i \<longrightarrow> ks ! parent i \<le> ks ! k)"

definition heap_but :: "'a::linorder list \<Rightarrow> nat \<Rightarrow> nat \<Rightarrow> bool" where
  "heap_but ks i n \<longleftrightarrow> n \<le> length ks \<and> i < n \<and> skip_ok ks i n \<and>
     (\<forall>k<n. 0 < k \<longrightarrow> k \<noteq> i \<longrightarrow> parent k \<noteq> i \<longrightarrow> ks ! parent k \<le> ks ! k)"

definition heap_but_up :: "'a::linorder list \<Rightarrow> nat \<Rightarrow> nat \<Rightarrow> bool" where
  "heap_but_up ks j n \<longleftrightarrow> n \<le> length ks \<and> j < n \<and> skip_ok ks j n \<and>
     (\<forall>k<n. 0 < k \<longrightarrow> k \<noteq> j \<longrightarrow> ks ! parent k \<le> ks ! k)"

definition heap_but_down :: "'a::linorder list \<Rightarrow> nat \<Rightarrow> nat \<Rightarrow> bool" where
  "heap_but_down ks i n \<longleftrightarrow> n \<le> length ks \<and> i < n \<and> skip_ok ks i n \<and>
     (\<forall>k<n. 0 < k \<longrightarrow> parent k \<noteq> i \<longrightarrow> ks ! parent k \<le> ks ! k)"

lemmas heap_but_defs = heap_but_def heap_but_up_def heap_but_down_def skip_ok_def

lemma parent_less: "0 < k \<Longrightarrow> parent k < k"
  by arith

lemma parent_eq_iff: "0 < k \<Longrightarrow> parent k = i \<longleftrightarrow> k = 2 * i + 1 \<or> k = 2 * i + 2"
  by arith

lemma is_heap_root: "is_heap ks n \<Longrightarrow> k < n \<Longrightarrow> ks ! 0 \<le> ks ! k"
proof (induction k rule: less_induct)
  case (less k)
  show ?case
  proof (cases "k = 0")
    case False
    then have "parent k < k" by arith
    with less have "ks ! 0 \<le> ks ! parent k" by simp
    also have "\<dots> \<le> ks ! k" using less.prems False by (simp add: is_heap_def)
    finally show ?thesis .
  qed simp
qed

lemma sorted_is_heap: "sorted ks \<Longrightarrow> n \<le> length ks \<Longrightarrow> is_heap ks n"
  by (auto simp: is_heap_def intro!: sorted_nth_mono)

lemma is_heap_take: "is_heap ks n \<Longrightarrow> is_heap (take n ks) n"
  by (auto simp: is_heap_def)

section \<open>Sifting up\<close>

lemma mset_sift_up: "j < length ks \<Longrightarrow> mset (sift_up ks j) = mset ks"
proof (induction ks j rule: sift_up.induct)
  case (1 ks j)
  then show ?case
    by (subst sift_up.simps) (auto simp: Let_def)
qed

lemma heap_but_up_step:
  assumes "heap_but_up ks j n" and "0 < j" and less: "ks ! j < ks ! i" and i: "parent j = i"
  shows "heap_but_up (list_swap ks i j) i n"
proof -
  from assms have n: "n \<le> length ks" "j < n" "i < j"
    and skip: "\<And>k. k < n \<Longrightarrow> 0 < k \<Longrightarrow> parent k = j \<Longrightarrow> ks ! i \<le> ks ! k"
    and ord: "\<And>k. k < n \<Longrightarrow> 0 < k \<Longrightarrow> k \<noteq> j \<Longrightarrow> ks ! parent k \<le> ks ! k"
    by (auto simp: heap_but_defs)
  have sw: "list_swap ks i j ! k = (if k = j then ks ! i else if k = i then ks ! j else ks ! k)"
    if "k < n" for k
    using that n by (subst nth_list_swap) auto
  show ?thesis
    unfolding heap_but_up_def skip_ok_def
  proof (intro conjI allI impI)
    show "n \<le> length (list_swap ks i j)" "i < n" using n by auto
  next
    fix k assume k: "k < n" "0 < k" "0 < i" "parent k = i"
    have pi: "parent i < i" using k(3) by arith
    then have pn: "parent i < n" "parent i \<noteq> i" "parent i \<noteq> j" using n by linarith+
    have 1: "ks ! parent i \<le> ks ! i" using ord [of i] n k(3) by auto
    have 2: "ks ! parent i \<le> ks ! k" if "k \<noteq> j"
      using ord [of k] k that 1 by (metis order.trans)
    have "k \<noteq> i" using k by linarith
    with 1 2 show "list_swap ks i j ! parent i \<le> list_swap ks i j ! k"
      unfolding sw [OF pn(1)] sw [OF k(1)] using pn by (simp split: if_split)
  next
    fix k assume k: "k < n" "0 < k" "k \<noteq> i"
    have pk: "parent k < k" using k(2) by arith
    then have pn: "parent k < n" using k by linarith
    show "list_swap ks i j ! parent k \<le> list_swap ks i j ! k"
    proof (cases "k = j")
      case True
      then show ?thesis
        unfolding sw [OF pn] sw [OF k(1)] using less i n by simp
    next
      case False
      have le: "ks ! j \<le> ks ! k" if "parent k = i"
        using ord [of k] k False that less by simp
      show ?thesis
        unfolding sw [OF pn] sw [OF k(1)]
        using False k pk le skip [of k] ord [of k] by (simp split: if_split)
    qed
  qed
qed

lemma sift_up_heap: "heap_but_up ks j n \<Longrightarrow> is_heap (sift_up ks j) n"
proof (induction ks j rule: sift_up.induct)
  case (1 ks j)
  show ?case
  proof (cases "parent j = j \<or> \<not> ks ! j < ks ! parent j")
    case True
    have "is_heap ks n"
      unfolding is_heap_def
    proof (intro conjI allI impI)
      show "n \<le> length ks" using "1.prems" by (simp add: heap_but_up_def)
    next
      fix k assume "k < n" "0 < k"
      then show "ks ! parent k \<le> ks ! k"
        using "1.prems" True by (cases "k = j") (auto simp: heap_but_up_def)
    qed
    with True show ?thesis by (subst sift_up.simps) (simp add: Let_def)
  next
    case False
    then have "0 < j" by (cases j) auto
    with False "1.prems" have "heap_but_up (list_swap ks (parent j) j) (parent j) n"
      by (intro heap_but_up_step) auto
    with "1.IH" [OF refl] False show ?thesis
      by (subst sift_up.simps) (simp add: Let_def)
  qed
qed

lemma length_sift_up [simp]: "length (sift_up ks j) = length ks"
proof (induction ks j rule: sift_up.induct)
  case (1 ks j)
  then show ?case by (subst sift_up.simps) (auto simp: Let_def)
qed

lemma drop_sift_up: "j < n \<Longrightarrow> drop n (sift_up ks j) = drop n ks"
proof (induction ks j rule: sift_up.induct)
  case (1 ks j)
  then show ?case
    by (subst sift_up.simps) (auto simp: Let_def list_swap_def)
qed

section \<open>Sifting down\<close>

lemma heap_but_down_imp: "heap_but_down ks i n \<Longrightarrow> heap_but ks i n"
  by (auto simp: heap_but_defs)

lemma heap_but_down_step:
  assumes "heap_but ks i n" and less: "ks ! j < ks ! i" and j: "j < n" "0 < j" "parent j = i"
    and least: "\<And>k. k < n \<Longrightarrow> 0 < k \<Longrightarrow> parent k = i \<Longrightarrow> ks ! j \<le> ks ! k"
  shows "heap_but_down (list_swap ks i j) j n"
proof -
  from assms have n: "n \<le> length ks" "i < n" "i < j"
    and skip: "\<And>k. k < n \<Longrightarrow> 0 < k \<Longrightarrow> 0 < i \<Longrightarrow> parent k = i \<Longrightarrow> ks ! parent i \<le> ks ! k"
    and ord: "\<And>k. k < n \<Longrightarrow> 0 < k \<Longrightarrow> k \<noteq> i \<Longrightarrow> parent k \<noteq> i \<Longrightarrow> ks ! parent k \<le> ks ! k"
    by (auto simp: heap_but_defs)
  have sw: "list_swap ks i j ! k = (if k = j then ks ! i else if k = i then ks ! j else ks ! k)"
    if "k < n" for k
    using that n j by (subst nth_list_swap) auto
  show ?thesis
    unfolding heap_but_down_def skip_ok_def
  proof (intro conjI allI impI)
    show "n \<le> length (list_swap ks i j)" "j < n" using n j by auto
  next
    fix k assume k: "k < n" "0 < k" "0 < j" "parent k = j"
    then have "k \<noteq> j" "k \<noteq> i" using n by linarith+
    moreover have "ks ! j \<le> ks ! k" using ord [of k] k n \<open>k \<noteq> i\<close> by simp
    ultimately show "list_swap ks i j ! parent j \<le> list_swap ks i j ! k"
      unfolding j(3) sw [OF n(2)] sw [OF k(1)] using n by simp
  next
    fix k assume k: "k < n" "0 < k" "parent k \<noteq> j"
    have pk: "parent k < k" using k(2) by arith
    then have pn: "parent k < n" using k by linarith
    consider "k = j" | "k \<noteq> j" "parent k = i" | "k = i" "parent k \<noteq> i"
      | "k \<noteq> j" "k \<noteq> i" "parent k \<noteq> i" by blast
    then show "list_swap ks i j ! parent k \<le> list_swap ks i j ! k"
      unfolding sw [OF pn] sw [OF k(1)]
      using k pk less j n least [of k] skip [of j] ord [of k] by cases auto
  qed
qed

definition min_child :: "'a::linorder list \<Rightarrow> nat \<Rightarrow> nat \<Rightarrow> nat" where
  "min_child ks i n =
     (if 2 * i + 2 < n \<and> ks ! (2 * i + 2) < ks ! (2 * i + 1) then 2 * i + 2 else 2 * i + 1)"

lemma sift_down_unfold:
  "sift_down ks i n =
     (if n \<le> 2 * i + 1 \<or> \<not> ks ! min_child ks i n < ks ! i then (ks, i)
      else sift_down (list_swap ks i (min_child ks i n)) (min_child ks i n) n)"
  by (subst sift_down.simps) (simp add: min_child_def Let_def)

lemma min_child:
  assumes "2 * i + 1 < n"
  shows "min_child ks i n < n" "0 < min_child ks i n" "parent (min_child ks i n) = i"
    "i < min_child ks i n"
  using assms by (auto simp: min_child_def)

lemma min_child_least:
  assumes "k < n" and "0 < k" and "parent k = i"
  shows "ks ! min_child ks i n \<le> ks ! k"
proof -
  have "k = 2 * i + 1 \<or> k = 2 * i + 2" using assms(2,3) by arith
  with assms(1) show ?thesis by (auto simp: min_child_def)
qed

lemma sift_down_stop:
  "n \<le> 2 * i + 1 \<or> \<not> ks ! min_child ks i n < ks ! i \<Longrightarrow> sift_down ks i n = (ks, i)"
  by (subst sift_down_unfold) simp

lemma sift_down_step:
  "2 * i + 1 < n \<Longrightarrow> ks ! min_child ks i n < ks ! i \<Longrightarrow>
   sift_down ks i n = sift_down (list_swap ks i (min_child ks i n)) (min_child ks i n) n"
  by (subst sift_down_unfold) simp

lemma sift_down_rule [case_names stop step]:
  assumes stop: "\<And>ks i. n \<le> 2 * i + 1 \<or> \<not> ks ! min_child ks i n < ks ! i \<Longrightarrow> P ks i"
    and step: "\<And>ks i. 2 * i + 1 < n \<Longrightarrow> ks ! min_child ks i n < ks ! i \<Longrightarrow>
      P (list_swap ks i (min_child ks i n)) (min_child ks i n) \<Longrightarrow> P ks i"
  shows "P ks i"
proof (induction "n - i" arbitrary: ks i rule: less_induct)
  case less
  show ?case
  proof (cases "n \<le> 2 * i + 1 \<or> \<not> ks ! min_child ks i n < ks ! i")
    case False
    then have 1: "2 * i + 1 < n" "ks ! min_child ks i n < ks ! i" by auto
    with min_child [of i n ks] have "n - min_child ks i n < n - i" by linarith
    from step [OF 1 less [OF this]] show ?thesis .
  qed (rule stop)
qed

lemma sift_down_le: "i \<le> snd (sift_down ks i n)"
proof (induction ks i rule: sift_down_rule [of n])
  case (step ks i)
  then show ?case using min_child(4) [of i n ks] by (simp add: sift_down_step)
qed (simp add: sift_down_stop)

lemma length_sift_down [simp]: "length (fst (sift_down ks i n)) = length ks"
  by (induction ks i rule: sift_down_rule [of n]) (simp_all add: sift_down_stop sift_down_step)

lemma mset_sift_down:
  "i < n \<Longrightarrow> n \<le> length ks \<Longrightarrow> mset (fst (sift_down ks i n)) = mset ks"
proof (induction ks i rule: sift_down_rule [of n])
  case (step ks i)
  then show ?case using min_child(1) [of i n ks] by (simp add: sift_down_step)
qed (simp add: sift_down_stop)

lemma drop_sift_down:
  "i < n \<Longrightarrow> drop n (fst (sift_down ks i n)) = drop n ks"
proof (induction ks i rule: sift_down_rule [of n])
  case (step ks i)
  then show ?case using min_child(1) [of i n ks] by (simp add: sift_down_step) (simp add: list_swap_def)
qed (simp add: sift_down_stop)

lemma sift_down_heap: "heap_but_down ks i n \<Longrightarrow> is_heap (fst (sift_down ks i n)) n"
proof (induction ks i rule: sift_down_rule [of n])
  case (stop ks i)
  show ?case
    unfolding is_heap_def sift_down_stop [OF stop(1)] fst_conv
  proof (intro conjI allI impI)
    show "n \<le> length ks" using stop by (simp add: heap_but_down_def)
  next
    fix k assume k: "k < n" "0 < k"
    show "ks ! parent k \<le> ks ! k"
    proof (cases "parent k = i")
      case True
      then have "2 * i + 1 < n" using k by arith
      with stop have "ks ! i \<le> ks ! min_child ks i n" by auto
      with min_child_least [OF k True, of ks] True show ?thesis by simp
    qed (use stop k in \<open>auto simp: heap_but_down_def\<close>)
  qed
next
  case (step ks i)
  then have "heap_but_down (list_swap ks i (min_child ks i n)) (min_child ks i n) n"
    by (intro heap_but_down_step heap_but_down_imp min_child min_child_least)
  with step show ?case by (simp add: sift_down_step)
qed

text \<open>What \<open>heap.Fix\<close> and \<open>heap.Remove\<close> rest on: when the element moves down the order is
  restored, and when it does not, it is in order with its children and only has to move up.\<close>

lemma sift_down_moved:
  assumes "heap_but ks i n" and "i < snd (sift_down ks i n)"
  shows "is_heap (fst (sift_down ks i n)) n"
proof (cases "n \<le> 2 * i + 1 \<or> \<not> ks ! min_child ks i n < ks ! i")
  case True
  with assms(2) show ?thesis by (subst (asm) sift_down_unfold) (simp split: if_splits)
next
  case False
  then have "heap_but_down (list_swap ks i (min_child ks i n)) (min_child ks i n) n"
    using assms(1) by (intro heap_but_down_step min_child min_child_least) auto
  from sift_down_heap [OF this] False show ?thesis by (subst sift_down_unfold) simp
qed

lemma sift_down_not_moved:
  assumes "heap_but ks i n" and "\<not> i < snd (sift_down ks i n)"
  shows "fst (sift_down ks i n) = ks" and "heap_but_up ks i n"
proof -
  have stop: "n \<le> 2 * i + 1 \<or> \<not> ks ! min_child ks i n < ks ! i"
  proof (rule ccontr)
    assume *: "\<not> ?thesis"
    then have "min_child ks i n \<le> snd (sift_down ks i n)"
      by (subst sift_down_unfold) (simp add: sift_down_le)
    with * assms(2) min_child(4) [of i n ks] show False by auto
  qed
  then show "fst (sift_down ks i n) = ks" by (subst sift_down_unfold) simp
  show "heap_but_up ks i n"
    unfolding heap_but_up_def
  proof (intro conjI allI impI)
    show "n \<le> length ks" "i < n" "skip_ok ks i n" using assms by (simp_all add: heap_but_def)
  next
    fix k assume k: "k < n" "0 < k" "k \<noteq> i"
    show "ks ! parent k \<le> ks ! k"
    proof (cases "parent k = i")
      case True
      then have "2 * i + 1 < n" using k by arith
      with stop have "ks ! i \<le> ks ! min_child ks i n" by auto
      with min_child_least [OF k(1,2) True, of ks] True show ?thesis by simp
    qed (use assms(1) k in \<open>auto simp: heap_but_def\<close>)
  qed
qed

text \<open>\<open>down\<close> followed, if nothing moved, by \<open>up\<close>.\<close>

definition sift_fix :: "'a::linorder list \<Rightarrow> nat \<Rightarrow> nat \<Rightarrow> 'a list" where
  "sift_fix ks i n =
     (let (ks', j) = sift_down ks i n in if i < j then ks' else sift_up ks' i)"

lemma sift_fix_heap: "heap_but ks i n \<Longrightarrow> is_heap (sift_fix ks i n) n"
  using sift_down_moved [of ks i n] sift_down_not_moved [of ks i n] sift_up_heap
  by (auto simp: sift_fix_def split: prod.split)

lemma length_sift_fix [simp]: "length (sift_fix ks i n) = length ks"
  by (auto simp: sift_fix_def split_def Let_def)

lemma mset_sift_fix: "i < n \<Longrightarrow> n \<le> length ks \<Longrightarrow> mset (sift_fix ks i n) = mset ks"
  by (auto simp: sift_fix_def mset_sift_up mset_sift_down split_def Let_def)

lemma drop_sift_fix: "i < n \<Longrightarrow> drop n (sift_fix ks i n) = drop n ks"
  using drop_sift_down [of i n ks] by (auto simp: sift_fix_def drop_sift_up split: prod.split)

text \<open>Changing one key of a heap, and dropping the last element.\<close>

lemma heap_but_update:
  assumes "is_heap ks n" and "i < n"
  shows "heap_but (ks[i := x]) i n"
proof -
  have n: "n \<le> length ks" and ord: "\<And>k. k < n \<Longrightarrow> 0 < k \<Longrightarrow> ks ! parent k \<le> ks ! k"
    using assms by (auto simp: is_heap_def)
  have "ks ! parent i \<le> ks ! k" if "k < n" "0 < k" "0 < i" "parent k = i" for k
    using ord [OF that(1,2)] ord [OF assms(2) that(3)] that(4) by (metis order.trans)
  then show ?thesis
    using assms(2) n ord by (auto simp: heap_but_def skip_ok_def nth_list_update)
qed

lemma heap_but_swap_last:
  assumes "is_heap ks (Suc n)" and "i < n"
  shows "heap_but (list_swap ks i n) i n"
proof -
  have "is_heap ks n" using assms(1) by (auto simp: is_heap_def)
  from heap_but_update [OF this assms(2), of "ks ! n"]
  have "heap_but (ks[i := ks ! n]) i n" .
  then show ?thesis by (auto simp: list_swap_def heap_but_def skip_ok_def)
qed

lemma heap_but_up_append:
  assumes "is_heap ks (length ks)"
  shows "heap_but_up (ks @ [x]) (length ks) (Suc (length ks))"
  using assms by (auto simp: heap_but_up_def skip_ok_def is_heap_def nth_append)

section \<open>Insertion sort\<close>

lemma length_sink_left [simp]: "length (sink_left ks j) = length ks"
  by (induction ks j rule: sink_left.induct) auto

lemma mset_sink_left: "j < length ks \<Longrightarrow> mset (sink_left ks j) = mset ks"
  by (induction ks j rule: sink_left.induct) auto

lemma drop_sink_left: "j < n \<Longrightarrow> drop n (sink_left ks j) = drop n ks"
  by (induction ks j rule: sink_left.induct) (auto simp: list_swap_def)

text \<open>Sorted up to and including position \<open>i\<close> but for the element at \<open>j\<close>, which is not greater
  than those to its right.\<close>

definition sorted_but :: "'a::linorder list \<Rightarrow> nat \<Rightarrow> nat \<Rightarrow> bool" where
  "sorted_but ks j i \<longleftrightarrow> i < length ks \<and> j \<le> i \<and>
     (\<forall>a b. a < b \<longrightarrow> b \<le> i \<longrightarrow> b \<noteq> j \<longrightarrow> a \<noteq> j \<longrightarrow> ks ! a \<le> ks ! b) \<and>
     (\<forall>b. j < b \<longrightarrow> b \<le> i \<longrightarrow> ks ! j \<le> ks ! b)"

lemma sorted_but_swap:
  assumes "sorted_but ks (Suc j) i" and "ks ! Suc j < ks ! j"
  shows "sorted_but (list_swap ks (Suc j) j) j i"
proof -
  from assms(1) have i: "i < length ks" "Suc j \<le> i"
    and 1: "\<And>a b. a < b \<Longrightarrow> b \<le> i \<Longrightarrow> b \<noteq> Suc j \<Longrightarrow> a \<noteq> Suc j \<Longrightarrow> ks ! a \<le> ks ! b"
    and 2: "\<And>b. Suc j < b \<Longrightarrow> b \<le> i \<Longrightarrow> ks ! Suc j \<le> ks ! b"
    by (auto simp: sorted_but_def)
  have sw: "list_swap ks (Suc j) j ! k =
      (if k = j then ks ! Suc j else if k = Suc j then ks ! j else ks ! k)" if "k \<le> i" for k
    using that i by (subst nth_list_swap) auto
  show ?thesis
    unfolding sorted_but_def
  proof (intro conjI allI impI)
    show "i < length (list_swap ks (Suc j) j)" "j \<le> i" using i by auto
  next
    fix a b assume ab: "a < b" "b \<le> i" "b \<noteq> j" "a \<noteq> j"
    then have "a \<le> i" by simp
    have "ks ! j \<le> ks ! b" if "a = Suc j" using 1 [of j b] ab that by auto
    moreover have "ks ! a \<le> ks ! j" if "b = Suc j" using 1 [of a j] ab that i by auto
    ultimately show "list_swap ks (Suc j) j ! a \<le> list_swap ks (Suc j) j ! b"
      unfolding sw [OF \<open>a \<le> i\<close>] sw [OF ab(2)] using 1 [of a b] ab by auto
  next
    fix b assume b: "j < b" "b \<le> i"
    show "list_swap ks (Suc j) j ! j \<le> list_swap ks (Suc j) j ! b"
      unfolding sw [OF b(2)] using sw [of j] 2 [of b] assms(2) b i by auto
  qed
qed

lemma sink_left_sorted: "sorted_but ks j i \<Longrightarrow> sorted (take (Suc i) (sink_left ks j))"
proof (induction ks j rule: sink_left.induct)
  case (1 ks)
  then show ?case
    by (auto simp: sorted_but_def sorted_iff_nth_mono_less) (metis less_Suc_eq_le not_gr_zero)
next
  case (2 ks j)
  show ?case
  proof (cases "ks ! Suc j < ks ! j")
    case True
    with 2 show ?thesis by (simp add: sorted_but_swap)
  next
    case False
    from "2.prems" have i: "i < length ks" "Suc j \<le> i"
      and 1: "\<And>a b. a < b \<Longrightarrow> b \<le> i \<Longrightarrow> b \<noteq> Suc j \<Longrightarrow> a \<noteq> Suc j \<Longrightarrow> ks ! a \<le> ks ! b"
      and 3: "\<And>b. Suc j < b \<Longrightarrow> b \<le> i \<Longrightarrow> ks ! Suc j \<le> ks ! b"
      by (auto simp: sorted_but_def)
    have "ks ! a \<le> ks ! b" if "a < b" "b \<le> i" for a b
    proof (cases "b = Suc j")
      case True
      have "ks ! a \<le> ks ! j" using 1 [of a j] that True i by (cases "a = j") auto
      with False True show ?thesis by simp
    qed (use 1 [of a b] 3 [of b] that in \<open>cases "a = Suc j"; simp\<close>)
    with False i show ?thesis by (simp add: sorted_iff_nth_mono_less)
  qed
qed

lemma sorted_but_start:
  assumes "sorted (take i ks)" and "i < length ks"
  shows "sorted_but ks i i"
  using assms by (auto simp: sorted_but_def sorted_iff_nth_mono_less)

lemma insertion_sort_from:
  "i + m = length ks \<Longrightarrow> sorted (take i ks) \<Longrightarrow>
   sorted (insertion_sort_from ks i m) \<and> mset (insertion_sort_from ks i m) = mset ks"
proof (induction ks i m rule: insertion_sort_from.induct)
  case (2 ks i m)
  then have "sorted (take (Suc i) (sink_left ks i))"
    by (intro sink_left_sorted sorted_but_start) auto
  with 2 show ?case by (simp add: mset_sink_left)
qed simp

lemma insertion_sort_from_0:
  "insertion_sort_from ks 0 (length ks) = sort ks"
  using insertion_sort_from [of 0 "length ks" ks]
  by (metis add_0 sorted_list_of_multiset_mset sorted_sort_id sorted_wrt.simps(1) take_0)

end
