(* ===== verification/Priority_Queue.thy ===== *)
theory Priority_Queue
  imports Go_Heap "HOL-Library.Product_Lexorder"
begin

text \<open>
  The priority queue of the pipeline engine (\<open>pipengine/queue/priorityqueue\<close>): a binary heap
  with an index by key, kept with Go's \<open>container/heap\<close> and re-sorted after each \<open>Add\<close>.

  The items are shared by pointer between the slice and the map, and \<open>Add\<close> of a known key
  changes the priority through the map while the slice sees it, so the items live in an
  explicit store: the slice and the map hold references. A reference returned to a caller is
  modelled by the value of the item at that moment.

  After the operations: the invariant each of them keeps, their effect on the abstract
  contents (a map from keys to priority and creation time), and the order in which items are
  served.
\<close>

section \<open>State\<close>

record defaultItem =
  di_key :: string
  di_priority :: int
  di_creationTime :: time
  di_index :: int

type_synonym ref = nat

record priorityQueue =
  pq_items :: "ref list"
  pq_itemByKey :: "key \<rightharpoonup> ref"
  pq_store :: "ref \<Rightarrow> defaultItem"
  pq_fresh :: ref

definition NewItem :: "string \<Rightarrow> int \<Rightarrow> time \<Rightarrow> defaultItem" where
  "NewItem k p t = \<lparr>di_key = k, di_priority = p, di_creationTime = t, di_index = 0\<rparr>"

text \<open>\<open>Round(0)\<close> strips the monotonic clock reading, which an instant of the model has not.\<close>

definition convertItem :: "defaultItem \<Rightarrow> defaultItem" where
  "convertItem it =
     \<lparr>di_key = di_key it, di_priority = di_priority it,
      di_creationTime = di_creationTime it, di_index = 0\<rparr>"

definition NewPriorityQueue :: priorityQueue where
  "NewPriorityQueue =
     \<lparr>pq_items = [], pq_itemByKey = Map.empty,
      pq_store = (\<lambda>_. NewItem '''' 0 0), pq_fresh = 0\<rparr>"

abbreviation item_at :: "priorityQueue \<Rightarrow> nat \<Rightarrow> defaultItem" where
  "item_at q i \<equiv> pq_store q (pq_items q ! i)"

section \<open>The methods that \<open>container/heap\<close> and \<open>sort\<close> call\<close>

definition pq_Len :: "priorityQueue \<Rightarrow> nat" where
  "pq_Len q = length (pq_items q)"

definition Less :: "priorityQueue \<Rightarrow> nat \<Rightarrow> nat \<Rightarrow> bool" where
  "Less q i j =
     (if di_priority (item_at q i) = di_priority (item_at q j)
      then di_creationTime (item_at q i) < di_creationTime (item_at q j)
      else di_priority (item_at q i) > di_priority (item_at q j))"

definition SetIndex :: "priorityQueue \<Rightarrow> ref \<Rightarrow> int \<Rightarrow> priorityQueue" where
  "SetIndex q r i = q\<lparr>pq_store := (pq_store q)(r := (pq_store q r)\<lparr>di_index := i\<rparr>)\<rparr>"

definition SetPriority :: "priorityQueue \<Rightarrow> ref \<Rightarrow> int \<Rightarrow> priorityQueue" where
  "SetPriority q r p = q\<lparr>pq_store := (pq_store q)(r := (pq_store q r)\<lparr>di_priority := p\<rparr>)\<rparr>"

definition Swap :: "priorityQueue \<Rightarrow> nat \<Rightarrow> nat \<Rightarrow> priorityQueue" where
  "Swap q i j =
     (let q1 = q\<lparr>pq_items := list_swap (pq_items q) i j\<rparr>;
          q2 = SetIndex q1 (pq_items q1 ! i) (int i)
      in SetIndex q2 (pq_items q2 ! j) (int j))"

text \<open>\<open>Push\<close> receives the pointer of a new item; the model allocates it here.\<close>

definition pq_Push :: "priorityQueue \<Rightarrow> defaultItem \<Rightarrow> priorityQueue" where
  "pq_Push q it =
     (let r = pq_fresh q; n = length (pq_items q) in
      q\<lparr>pq_store := (pq_store q)(r := it\<lparr>di_index := int n\<rparr>),
        pq_fresh := Suc r,
        pq_items := pq_items q @ [r],
        pq_itemByKey := (pq_itemByKey q)(di_key it \<mapsto> r)\<rparr>)"

definition pq_Pop :: "priorityQueue \<Rightarrow> defaultItem \<times> priorityQueue" where
  "pq_Pop q =
     (let old = pq_items q; n = length old; r = old ! (n - 1);
          q1 = SetIndex q r (- 1);
          q2 = q1\<lparr>pq_items := take (n - 1) old,
                  pq_itemByKey := (pq_itemByKey q1)(di_key (pq_store q1 r) := None)\<rparr>
      in (pq_store q2 r, q2))"

section \<open>\<open>container/heap\<close> and \<open>sort\<close>\<close>

text \<open>The functions of Go's standard library over the methods above. \<open>heap_down\<close> returns
  whether the element moved.\<close>

function heap_up :: "priorityQueue \<Rightarrow> nat \<Rightarrow> priorityQueue" where
  "heap_up q j =
     (let i = parent j in if i = j \<or> \<not> Less q j i then q else heap_up (Swap q i j) i)"
  by pat_completeness auto
termination
  by (relation "measure (\<lambda>(q, j). j)") auto

function heap_down_loop :: "priorityQueue \<Rightarrow> nat \<Rightarrow> nat \<Rightarrow> priorityQueue \<times> nat" where
  "heap_down_loop q i n =
     (let j1 = 2 * i + 1 in
      if j1 \<ge> n then (q, i)
      else let j = (if j1 + 1 < n \<and> Less q (j1 + 1) j1 then j1 + 1 else j1) in
        if \<not> Less q j i then (q, i) else heap_down_loop (Swap q i j) j n)"
  by pat_completeness auto
termination
  by (relation "measure (\<lambda>(q, i, n). n - i)") (auto split: if_splits)

declare heap_up.simps [simp del] heap_down_loop.simps [simp del]

definition heap_down :: "priorityQueue \<Rightarrow> nat \<Rightarrow> nat \<Rightarrow> priorityQueue \<times> bool" where
  "heap_down q i0 n = (let (q', i) = heap_down_loop q i0 n in (q', i > i0))"

definition heap_Push :: "priorityQueue \<Rightarrow> defaultItem \<Rightarrow> priorityQueue" where
  "heap_Push q it = (let q' = pq_Push q it in heap_up q' (pq_Len q' - 1))"

definition heap_Pop :: "priorityQueue \<Rightarrow> defaultItem \<times> priorityQueue" where
  "heap_Pop q = (let n = pq_Len q - 1 in pq_Pop (fst (heap_down (Swap q 0 n) 0 n)))"

definition heap_Fix :: "priorityQueue \<Rightarrow> nat \<Rightarrow> priorityQueue" where
  "heap_Fix q i =
     (let (q', moved) = heap_down q i (pq_Len q) in if moved then q' else heap_up q' i)"

definition heap_Remove :: "priorityQueue \<Rightarrow> nat \<Rightarrow> defaultItem \<times> priorityQueue" where
  "heap_Remove q i =
     (let n = pq_Len q - 1 in
      if n \<noteq> i then
        let (q', moved) = heap_down (Swap q i n) i n in
        pq_Pop (if moved then q' else heap_up q' i)
      else pq_Pop q)"

text \<open>\<open>sort.Sort\<close> promises a slice sorted by \<open>Less\<close>, reached by calls of \<open>Swap\<close>, and leaves the
  order of equal elements open. The model sorts by insertion, the algorithm Go uses on short
  slices; nothing below depends on the order of equal elements.\<close>

fun sort_sink :: "priorityQueue \<Rightarrow> nat \<Rightarrow> priorityQueue" where
  "sort_sink q 0 = q"
| "sort_sink q (Suc j) =
     (if Less q (Suc j) j then sort_sink (Swap q (Suc j) j) j else q)"

fun sort_from :: "priorityQueue \<Rightarrow> nat \<Rightarrow> nat \<Rightarrow> priorityQueue" where
  "sort_from q i 0 = q"
| "sort_from q i (Suc m) = sort_from (sort_sink q i) (Suc i) m"

definition sort_Sort :: "priorityQueue \<Rightarrow> priorityQueue" where
  "sort_Sort q = sort_from q 0 (pq_Len q)"

section \<open>Operations\<close>

definition Get :: "priorityQueue \<Rightarrow> key \<Rightarrow> defaultItem option" where
  "Get q k = map_option (pq_store q) (pq_itemByKey q k)"

definition Peek :: "priorityQueue \<Rightarrow> defaultItem option" where
  "Peek q = (if length (pq_items q) = 0 then None else Some (item_at q 0))"

definition Pop :: "priorityQueue \<Rightarrow> defaultItem option \<times> priorityQueue" where
  "Pop q =
     (if length (pq_items q) = 0 then (None, q)
      else let (it, q') = heap_Pop q in (Some it, q'))"

definition Add :: "priorityQueue \<Rightarrow> defaultItem \<Rightarrow> priorityQueue" where
  "Add q it =
     sort_Sort
       (case pq_itemByKey q (di_key it) of
          Some res \<Rightarrow>
            if di_priority (pq_store q res) \<noteq> di_priority it
            then let q' = SetPriority q res (di_priority it)
                 in heap_Fix q' (nat (di_index (pq_store q' res)))
            else q
        | None \<Rightarrow> heap_Push q (convertItem it))"

definition Remove :: "priorityQueue \<Rightarrow> key \<Rightarrow> defaultItem option \<times> priorityQueue" where
  "Remove q k =
     (case pq_itemByKey q k of
        Some r \<Rightarrow>
          let q1 = q\<lparr>pq_itemByKey := (pq_itemByKey q)(k := None)\<rparr>;
              (it, q2) = heap_Remove q1 (nat (di_index (pq_store q1 r)))
          in (Some it, q2)
      | None \<Rightarrow> (None, q))"

definition Len :: "priorityQueue \<Rightarrow> nat" where
  "Len q = pq_Len q"

text \<open>\<open>Range\<close> calls \<open>f\<close> on the items in slice order until it returns true. The callback is a
  state transformer of the caller's state that also returns whether to stop.\<close>

fun Range_items :: "('s \<Rightarrow> defaultItem \<Rightarrow> 's \<times> bool) \<Rightarrow> 's \<Rightarrow> defaultItem list \<Rightarrow> 's" where
  "Range_items f s [] = s"
| "Range_items f s (it # its) =
     (let (s', stopRange) = f s it in if stopRange then s' else Range_items f s' its)"

definition pq_Range :: "('s \<Rightarrow> defaultItem \<Rightarrow> 's \<times> bool) \<Rightarrow> 's \<Rightarrow> priorityQueue \<Rightarrow> 's" where
  "pq_Range f s q = Range_items f s (map (pq_store q) (pq_items q))"

definition LeftHasHigherOrder :: "priorityQueue \<Rightarrow> key \<Rightarrow> key \<Rightarrow> bool" where
  "LeftHasHigherOrder q left right =
     (case (pq_itemByKey q left, pq_itemByKey q right) of
        (None, None) \<Rightarrow> False
      | (None, Some _) \<Rightarrow> False
      | (Some _, None) \<Rightarrow> True
      | (Some l, Some r) \<Rightarrow> di_index (pq_store q l) < di_index (pq_store q r))"

text \<open>A snapshot is the JSON text of the list of the items; the model keeps the list, a JSON
  codec of Go's standard library being lossless on strings, integers and instants.\<close>

record pq_SnapshotObj =
  so_Key :: string
  so_Priority :: int
  so_CreationTime :: time
  so_Index :: int

definition pq_Export :: "priorityQueue \<Rightarrow> pq_SnapshotObj list" where
  "pq_Export q =
     map (\<lambda>r. let it = pq_store q r in
            \<lparr>so_Key = di_key it, so_Priority = di_priority it,
             so_CreationTime = di_creationTime it, so_Index = di_index it\<rparr>)
       (pq_items q)"

definition convert2DefaultItem :: "pq_SnapshotObj \<Rightarrow> defaultItem" where
  "convert2DefaultItem so =
     \<lparr>di_key = so_Key so, di_priority = so_Priority so,
      di_creationTime = so_CreationTime so, di_index = so_Index so\<rparr>"

definition import_step :: "priorityQueue \<Rightarrow> pq_SnapshotObj \<Rightarrow> priorityQueue" where
  "import_step q obj =
     (let r = pq_fresh q in
      q\<lparr>pq_store := (pq_store q)(r := convert2DefaultItem obj),
        pq_fresh := Suc r,
        pq_items := pq_items q @ [r],
        pq_itemByKey := (pq_itemByKey q)(so_Key obj \<mapsto> r)\<rparr>)"

definition pq_Import :: "priorityQueue \<Rightarrow> pq_SnapshotObj list \<Rightarrow> priorityQueue" where
  "pq_Import q objs =
     foldl import_step (q\<lparr>pq_items := [], pq_itemByKey := Map.empty\<rparr>) objs"

section \<open>Rearranging the slice\<close>

text \<open>The order of service: a higher priority first, then an earlier creation time.\<close>

definition rank :: "defaultItem \<Rightarrow> int \<times> int" where
  "rank it = (- di_priority it, di_creationTime it)"

definition ranks :: "priorityQueue \<Rightarrow> (int \<times> int) list" where
  "ranks q = map (\<lambda>r. rank (pq_store q r)) (pq_items q)"

definition idx_ok :: "priorityQueue \<Rightarrow> bool" where
  "idx_ok q \<longleftrightarrow> distinct (pq_items q) \<and>
     (\<forall>i<length (pq_items q). di_index (item_at q i) = int i)"

text \<open>What calls of \<open>Swap\<close> within the slice leave unchanged.\<close>

definition rearranged :: "priorityQueue \<Rightarrow> priorityQueue \<Rightarrow> bool" where
  "rearranged q q' \<longleftrightarrow>
     mset (pq_items q') = mset (pq_items q) \<and> pq_itemByKey q' = pq_itemByKey q \<and>
     pq_fresh q' = pq_fresh q \<and> (idx_ok q \<longrightarrow> idx_ok q') \<and>
     (\<forall>r. di_key (pq_store q' r) = di_key (pq_store q r) \<and>
          di_priority (pq_store q' r) = di_priority (pq_store q r) \<and>
          di_creationTime (pq_store q' r) = di_creationTime (pq_store q r))"

lemma length_ranks [simp]: "length (ranks q) = length (pq_items q)"
  by (simp add: ranks_def)

lemma Less_ranks [pq_simps]:
  "i < length (pq_items q) \<Longrightarrow> j < length (pq_items q) \<Longrightarrow>
   Less q i j \<longleftrightarrow> ranks q ! i < ranks q ! j"
  by (auto simp: Less_def ranks_def rank_def)

lemma rearranged_refl [simp]: "rearranged q q"
  by (simp add: rearranged_def)

lemma rearranged_trans: "rearranged q q' \<Longrightarrow> rearranged q' q'' \<Longrightarrow> rearranged q q''"
  by (auto simp: rearranged_def)

lemma rearranged_length: "rearranged q q' \<Longrightarrow> length (pq_items q') = length (pq_items q)"
  by (metis rearranged_def size_mset)

lemma rearranged_set: "rearranged q q' \<Longrightarrow> set (pq_items q') = set (pq_items q)"
  by (metis rearranged_def set_mset_mset)

lemma rearranged_rank: "rearranged q q' \<Longrightarrow> rank (pq_store q' r) = rank (pq_store q r)"
  by (simp add: rearranged_def rank_def)

lemma pq_items_Swap [pq_simps]: "pq_items (Swap q i j) = list_swap (pq_items q) i j"
  by (simp add: Swap_def SetIndex_def Let_def)

lemma idx_ok_Swap:
  assumes "idx_ok q" and "i < length (pq_items q)" and "j < length (pq_items q)"
  shows "idx_ok (Swap q i j)"
proof -
  let ?xs = "list_swap (pq_items q) i j"
  have d: "distinct ?xs" using assms by (simp add: idx_ok_def)
  have "di_index (pq_store (Swap q i j) (?xs ! k)) = int k" if k: "k < length ?xs" for k
  proof (cases "k = i \<or> k = j")
    case True
    then show ?thesis
      using d assms k by (auto simp: Swap_def SetIndex_def Let_def nth_eq_iff_index_eq)
  next
    case False
    then have "?xs ! k = pq_items q ! k" using assms k by (simp add: nth_list_swap)
    moreover have "?xs ! k \<noteq> ?xs ! i" "?xs ! k \<noteq> ?xs ! j"
      using False d assms k by (simp_all add: nth_eq_iff_index_eq)
    ultimately show ?thesis
      using assms(1) k by (simp add: Swap_def SetIndex_def Let_def idx_ok_def)
  qed
  with d show ?thesis by (simp add: idx_ok_def pq_items_Swap)
qed

lemma rearranged_Swap:
  assumes "i < length (pq_items q)" and "j < length (pq_items q)"
  shows "rearranged q (Swap q i j)"
  using assms idx_ok_Swap [OF _ assms]
  by (auto simp: rearranged_def pq_items_Swap) (simp_all add: Swap_def SetIndex_def Let_def)

lemma ranks_Swap [pq_simps]:
  assumes "i < length (pq_items q)" and "j < length (pq_items q)"
  shows "ranks (Swap q i j) = list_swap (ranks q) i j"
  using rearranged_rank [OF rearranged_Swap [OF assms]] assms
  by (simp add: ranks_def pq_items_Swap map_list_swap)

lemma length_Swap [simp]: "length (pq_items (Swap q i j)) = length (pq_items q)"
  by (simp add: pq_items_Swap)

lemma heap_up_sift:
  "j < length (pq_items q) \<Longrightarrow> ranks (heap_up q j) = sift_up (ranks q) j \<and> rearranged q (heap_up q j)"
proof (induction q j rule: heap_up.induct)
  case (1 q j)
  then have i: "parent j < length (pq_items q)" by linarith
  show ?case
  proof (cases "parent j = j \<or> \<not> Less q j (parent j)")
    case True
    with 1 i show ?thesis
      by (subst (1 2) heap_up.simps, subst sift_up.simps) (auto simp: Let_def pq_simps)
  next
    case False
    with "1.IH" [OF refl False] i have
      "ranks (heap_up (Swap q (parent j) j) (parent j)) =
         sift_up (list_swap (ranks q) (parent j) j) (parent j)"
      "rearranged (Swap q (parent j) j) (heap_up (Swap q (parent j) j) (parent j))"
      using ranks_Swap [OF i "1.prems"] by simp_all
    moreover have "ranks q ! j < ranks q ! parent j"
      using False Less_ranks [OF "1.prems" i] by simp
    ultimately show ?thesis
      using False rearranged_trans [OF rearranged_Swap [OF i "1.prems"]]
      by (subst (1 2) heap_up.simps, subst sift_up.simps) (simp add: Let_def)
  qed
qed

lemma heap_down_loop_sift:
  "n \<le> length (pq_items q) \<Longrightarrow> i < length (pq_items q) \<Longrightarrow>
   ranks (fst (heap_down_loop q i n)) = fst (sift_down (ranks q) i n) \<and>
   snd (heap_down_loop q i n) = snd (sift_down (ranks q) i n) \<and>
   rearranged q (fst (heap_down_loop q i n))"
proof (induction q i n rule: heap_down_loop.induct)
  case (1 q i n)
  show ?case
  proof (cases "2 * i + 1 \<ge> n")
    case True
    then show ?thesis
      by (subst (1 2 3) heap_down_loop.simps, subst (1 2) sift_down.simps) (simp add: Let_def)
  next
    case in_range: False
    define j where "j = min_child (ranks q) i n"
    have j: "j < length (pq_items q)" "j < n" "i < j"
      using min_child [of i n "ranks q"] in_range "1.prems" by (simp_all add: j_def)
    have j': "j = (if 2 * i + 1 + 1 < n \<and> Less q (2 * i + 1 + 1) (2 * i + 1)
        then 2 * i + 1 + 1 else 2 * i + 1)"
      using in_range "1.prems" by (simp add: j_def min_child_def Less_ranks)
    have unf: "heap_down_loop q i n =
        (if \<not> Less q j i then (q, i) else heap_down_loop (Swap q i j) j n)"
      using in_range by (subst heap_down_loop.simps) (simp only: Let_def j' if_False)
    show ?thesis
    proof (cases "Less q j i")
      case False
      then have "sift_down (ranks q) i n = (ranks q, i)"
        using "1.prems" j by (intro sift_down_stop) (simp add: Less_ranks j_def)
      with False unf show ?thesis by simp
    next
      case True
      then have sd: "sift_down (ranks q) i n = sift_down (list_swap (ranks q) i j) j n"
        using "1.prems" j in_range unfolding j_def
        by (intro sift_down_step) (simp_all add: Less_ranks)
      from "1.IH" [OF refl in_range j'] True "1.prems" j
      show ?thesis
        using rearranged_trans [OF rearranged_Swap [OF "1.prems"(2) j(1)]]
        by (simp add: unf sd ranks_Swap)
    qed
  qed
qed

lemma sort_sink_sift:
  "j < length (pq_items q) \<Longrightarrow>
   ranks (sort_sink q j) = sink_left (ranks q) j \<and> rearranged q (sort_sink q j)"
proof (induction q j rule: sort_sink.induct)
  case (2 q j)
  then show ?case
    using rearranged_trans [OF rearranged_Swap [of "Suc j" q j]]
    by (auto simp: pq_simps)
qed simp

lemma sort_from_sift:
  "i + m = length (pq_items q) \<Longrightarrow>
   ranks (sort_from q i m) = insertion_sort_from (ranks q) i m \<and> rearranged q (sort_from q i m)"
proof (induction q i m rule: sort_from.induct)
  case (2 q i m)
  then have s: "ranks (sort_sink q i) = sink_left (ranks q) i" "rearranged q (sort_sink q i)"
    using sort_sink_sift [of i q] by auto
  with 2 show ?case
    using rearranged_trans [OF s(2)] rearranged_length [OF s(2)] by auto
qed simp

lemma sort_Sort:
  shows ranks_sort_Sort: "ranks (sort_Sort q) = sort (ranks q)"
    and rearranged_sort_Sort: "rearranged q (sort_Sort q)"
  using sort_from_sift [of 0 "length (pq_items q)" q] insertion_sort_from_0 [of "ranks q"]
  by (simp_all add: sort_Sort_def pq_Len_def)

section \<open>The invariant\<close>

text \<open>
  The map holds exactly the items of the slice under their keys, every item knows its
  position, references are below the allocation bound, and the slice is a heap.
\<close>

definition keys_ok :: "(key \<rightharpoonup> ref) \<Rightarrow> priorityQueue \<Rightarrow> bool" where
  "keys_ok m q \<longleftrightarrow> (\<forall>k r. m k = Some r \<longleftrightarrow> r \<in> set (pq_items q) \<and> di_key (pq_store q r) = k)"

definition fresh_ok :: "priorityQueue \<Rightarrow> bool" where
  "fresh_ok q \<longleftrightarrow> (\<forall>r\<in>set (pq_items q). r < pq_fresh q)"

definition pq_wf :: "priorityQueue \<Rightarrow> bool" where
  "pq_wf q \<longleftrightarrow> idx_ok q \<and> fresh_ok q \<and> keys_ok (pq_itemByKey q) q"

definition pq_inv :: "priorityQueue \<Rightarrow> bool" where
  "pq_inv q \<longleftrightarrow> pq_wf q \<and> is_heap (ranks q) (length (pq_items q))"

text \<open>The abstract contents: priority and creation time by key.\<close>

definition contents :: "priorityQueue \<Rightarrow> key \<rightharpoonup> int \<times> time" where
  "contents q k =
     map_option (\<lambda>r. (di_priority (pq_store q r), di_creationTime (pq_store q r))) (pq_itemByKey q k)"

lemma rearranged_keys_ok: "rearranged q q' \<Longrightarrow> keys_ok m q' \<longleftrightarrow> keys_ok m q"
  using rearranged_set [of q q'] by (auto simp: keys_ok_def rearranged_def)

lemma rearranged_fresh_ok: "rearranged q q' \<Longrightarrow> fresh_ok q' \<longleftrightarrow> fresh_ok q"
  using rearranged_set [of q q'] by (auto simp: fresh_ok_def rearranged_def)

lemma rearranged_wf: "rearranged q q' \<Longrightarrow> pq_wf q \<Longrightarrow> pq_wf q'"
  using rearranged_keys_ok [of q q'] rearranged_fresh_ok [of q q']
  by (simp add: pq_wf_def) (simp add: rearranged_def)

lemma rearranged_contents: "rearranged q q' \<Longrightarrow> contents q' = contents q"
  by (auto simp: contents_def rearranged_def fun_eq_iff)

lemma heap_up_drop: "j < n \<Longrightarrow> drop n (pq_items (heap_up q j)) = drop n (pq_items q)"
proof (induction q j rule: heap_up.induct)
  case (1 q j)
  then show ?case
    by (subst heap_up.simps) (auto simp: Let_def pq_items_Swap list_swap_def)
qed

lemma heap_down_loop_drop:
  "i < n \<Longrightarrow> drop n (pq_items (fst (heap_down_loop q i n))) = drop n (pq_items q)"
proof (induction q i n rule: heap_down_loop.induct)
  case (1 q i n)
  show ?case
    using "1.IH" [OF refl _ refl] "1.prems"
    by (subst heap_down_loop.simps) (auto simp: Let_def pq_items_Swap list_swap_def)
qed

text \<open>\<open>down\<close>, then \<open>up\<close> when nothing moved, from a position where the order may be broken.\<close>

definition fix_at :: "priorityQueue \<Rightarrow> nat \<Rightarrow> nat \<Rightarrow> priorityQueue" where
  "fix_at q i n = (let (q', moved) = heap_down q i n in if moved then q' else heap_up q' i)"

lemma fix_at:
  assumes "heap_but (ranks q) i n" and "n \<le> length (pq_items q)"
  shows "rearranged q (fix_at q i n)" and "is_heap (ranks (fix_at q i n)) n"
    and "drop n (pq_items (fix_at q i n)) = drop n (pq_items q)"
proof -
  have i: "i < n" using assms(1) by (simp add: heap_but_def)
  then have il: "i < length (pq_items q)" using assms(2) by simp
  note d = heap_down_loop_sift [OF assms(2) il]
  then have len: "length (pq_items (fst (heap_down_loop q i n))) = length (pq_items q)"
    using rearranged_length by blast
  with il have "i < length (pq_items (fst (heap_down_loop q i n)))" by simp
  note u = heap_up_sift [OF this]
  show "rearranged q (fix_at q i n)"
    using d u rearranged_trans by (auto simp: fix_at_def heap_down_def split_def Let_def)
  have "ranks (fix_at q i n) = sift_fix (ranks q) i n"
    using d u by (simp add: fix_at_def heap_down_def sift_fix_def split_def Let_def)
  with sift_fix_heap [OF assms(1)] show "is_heap (ranks (fix_at q i n)) n" by simp
  show "drop n (pq_items (fix_at q i n)) = drop n (pq_items q)"
    using heap_down_loop_drop [OF i] heap_up_drop [OF i]
    by (auto simp: fix_at_def heap_down_def split_def Let_def)
qed

lemma heap_Fix_fix_at: "heap_Fix q i = fix_at q i (length (pq_items q))"
  by (simp add: heap_Fix_def fix_at_def pq_Len_def)

lemma last_of_drop:
  "length xs = Suc n \<Longrightarrow> length ys = Suc n \<Longrightarrow> drop n xs = drop n ys \<Longrightarrow> xs ! n = ys ! n"
  by (metis Cons_nth_drop_Suc lessI list.inject)

text \<open>Both removals end in \<open>Pop\<close> on a queue whose last item is the one removed and whose other
  items are a heap.\<close>

lemma heap_Remove_pops:
  assumes "i < length (pq_items q)" and "is_heap (ranks q) (length (pq_items q))"
  obtains q' where "heap_Remove q i = pq_Pop q'" and "rearranged q q'"
    and "pq_items q' ! (length (pq_items q) - 1) = pq_items q ! i"
    and "is_heap (ranks q') (length (pq_items q) - 1)"
proof (cases "length (pq_items q) - 1 = i")
  case True
  have "is_heap (ranks q) (length (pq_items q) - 1)" using assms(2) by (simp add: is_heap_def)
  with True that [of q] show ?thesis by (simp add: heap_Remove_def pq_Len_def)
next
  case False
  obtain n where n: "length (pq_items q) = Suc n" using assms(1) by (cases "length (pq_items q)") auto
  with False assms have "i < n" by auto
  let ?q1 = "Swap q i n" and ?q2 = "fix_at (Swap q i n) i n"
  have sw: "ranks ?q1 = list_swap (ranks q) i n" "rearranged q ?q1"
    using assms n by (simp_all add: ranks_Swap rearranged_Swap)
  have "heap_but (ranks ?q1) i n"
    using assms n \<open>i < n\<close> by (simp add: sw heap_but_swap_last)
  note f = fix_at [OF this] 
  have "heap_Remove q i = pq_Pop ?q2"
    using False n by (auto simp: heap_Remove_def pq_Len_def fix_at_def split_def Let_def)
  moreover have r: "rearranged q ?q2" using rearranged_trans [OF sw(2) f(1)] n by simp
  moreover have "pq_items ?q2 ! n = pq_items ?q1 ! n"
    using f(3) n rearranged_length [OF r] by (intro last_of_drop) simp_all
  then have "pq_items ?q2 ! n = pq_items q ! i"
    using n assms(1) by (simp add: pq_items_Swap nth_list_swap)
  ultimately show ?thesis using that [of ?q2] f(2) n by simp
qed

lemma heap_Pop_pops:
  assumes "pq_items q \<noteq> []" and "is_heap (ranks q) (length (pq_items q))"
  obtains q' where "heap_Pop q = pq_Pop q'" and "rearranged q q'"
    and "pq_items q' ! (length (pq_items q) - 1) = pq_items q ! 0"
    and "is_heap (ranks q') (length (pq_items q) - 1)"
proof (cases "length (pq_items q) = 1")
  case True
  have "fst (heap_down (Swap q 0 0) 0 0) = Swap q 0 0"
    by (subst heap_down_def, subst heap_down_loop.simps) simp
  moreover have "rearranged q (Swap q 0 0)" using True by (intro rearranged_Swap) simp_all
  ultimately show ?thesis
    using that [of "Swap q 0 0"] True by (simp add: heap_Pop_def pq_Len_def pq_items_Swap is_heap_def)
next
  case False
  obtain n where n: "length (pq_items q) = Suc n" using assms(1) by (cases "pq_items q") auto
  with False have "0 < n" by auto
  let ?q1 = "Swap q 0 n"
  have sw: "ranks ?q1 = list_swap (ranks q) 0 n" "rearranged q ?q1"
    using assms n by (simp_all add: ranks_Swap rearranged_Swap)
  have "heap_but (ranks ?q1) 0 n"
    using assms n \<open>0 < n\<close> by (simp add: sw heap_but_swap_last)
  then have "heap_but_down (ranks ?q1) 0 n"
    by (auto simp: heap_but_defs)
  note h = sift_down_heap [OF this]
  let ?q2 = "fst (heap_down_loop ?q1 0 n)"
  have d: "ranks ?q2 = fst (sift_down (ranks ?q1) 0 n)" "rearranged ?q1 ?q2"
    using heap_down_loop_sift [of n ?q1 0] n by simp_all
  have "heap_Pop q = pq_Pop ?q2"
    using n by (simp add: heap_Pop_def pq_Len_def heap_down_def split_def Let_def)
  moreover have r: "rearranged q ?q2" by (rule rearranged_trans [OF sw(2) d(2)])
  moreover have "pq_items ?q2 ! n = pq_items ?q1 ! n"
    using heap_down_loop_drop [OF \<open>0 < n\<close>, of ?q1] n rearranged_length [OF r]
    by (intro last_of_drop) simp_all
  then have "pq_items ?q2 ! n = pq_items q ! 0"
    using n by (simp add: pq_items_Swap nth_list_swap)
  ultimately show ?thesis using that [of ?q2] h d n by simp
qed

section \<open>The operations keep the invariant\<close>

lemma keys_okD:
  "keys_ok m q \<Longrightarrow> m k = Some r \<Longrightarrow> r \<in> set (pq_items q)"
  "keys_ok m q \<Longrightarrow> m k = Some r \<Longrightarrow> di_key (pq_store q r) = k"
  "keys_ok m q \<Longrightarrow> r \<in> set (pq_items q) \<Longrightarrow> m (di_key (pq_store q r)) = Some r"
  by (simp_all add: keys_ok_def)

lemma wf_index:
  assumes "pq_wf q" and "pq_itemByKey q k = Some r"
  shows "nat (di_index (pq_store q r)) < length (pq_items q)"
    and "pq_items q ! nat (di_index (pq_store q r)) = r"
    and "di_key (pq_store q r) = k"
    and "0 \<le> di_index (pq_store q r)"
proof -
  from assms obtain i where "i < length (pq_items q)" "pq_items q ! i = r"
    by (auto simp: pq_wf_def in_set_conv_nth dest!: keys_okD(1))
  moreover from this assms have "di_index (pq_store q r) = int i"
    by (auto simp: pq_wf_def idx_ok_def)
  ultimately show "nat (di_index (pq_store q r)) < length (pq_items q)"
    and "pq_items q ! nat (di_index (pq_store q r)) = r"
    and "0 \<le> di_index (pq_store q r)" by simp_all
  show "di_key (pq_store q r) = k" using assms by (auto simp: pq_wf_def dest: keys_okD(2))
qed

text \<open>\<open>Pop\<close> of the last item, with the key of that item possibly deleted from the map already.\<close>

lemma pq_Pop_wf:
  assumes idx: "idx_ok q" and fresh: "fresh_ok q" and keys: "keys_ok m q"
    and len: "length (pq_items q) = Suc n" and r: "pq_items q ! n = r"
    and k: "k = di_key (pq_store q r)"
    and m: "pq_itemByKey q = m \<or> pq_itemByKey q = m(k := None)"
  shows "fst (pq_Pop q) = (pq_store q r)\<lparr>di_index := - 1\<rparr>"
    and "pq_itemByKey (snd (pq_Pop q)) = m(k := None)"
    and "ranks (snd (pq_Pop q)) = take n (ranks q)"
    and "pq_wf (snd (pq_Pop q))"
    and "contents (snd (pq_Pop q)) = (contents q)(k := None)"
    and "mset (pq_items q) = add_mset r (mset (pq_items (snd (pq_Pop q))))"
proof -
  let ?q = "snd (pq_Pop q)"
  have items: "pq_items ?q = take n (pq_items q)" and fr: "pq_fresh ?q = pq_fresh q"
    and st: "pq_store ?q = (pq_store q)(r := (pq_store q r)\<lparr>di_index := - 1\<rparr>)"
    using len r by (simp_all add: pq_Pop_def SetIndex_def Let_def)
  show m': "pq_itemByKey ?q = m(k := None)"
    using len r k m by (auto simp: pq_Pop_def SetIndex_def Let_def)
  show "fst (pq_Pop q) = (pq_store q r)\<lparr>di_index := - 1\<rparr>"
    using len r by (simp add: pq_Pop_def SetIndex_def Let_def)
  have split: "pq_items q = take n (pq_items q) @ [r]"
    using len r by (metis lessI take_Suc_conv_app_nth take_all_iff order_refl)
  then show "mset (pq_items q) = add_mset r (mset (pq_items ?q))"
    unfolding items by (metis add_mset_add_single mset.simps mset_append)
  have distinct: "distinct (take n (pq_items q))" "r \<notin> set (take n (pq_items q))"
    using idx split by (metis idx_ok_def distinct_append distinct_take, metis idx_ok_def disjoint_insert(1) distinct_append list.simps(15))
  have set: "r' \<in> set (pq_items q) \<longleftrightarrow> r' = r \<or> r' \<in> set (take n (pq_items q))" for r'
    by (subst split) auto
  have uniq: "r' = r" if "r' \<in> set (take n (pq_items q))" "di_key (pq_store q r') = di_key (pq_store q r)" for r'
    using keys_okD(3) [OF keys] set that by (metis option.inject)
  show "ranks ?q = take n (ranks q)"
    using distinct by (auto simp: ranks_def items st take_map rank_def)
  have "idx_ok ?q"
    using idx distinct by (auto simp: idx_ok_def items st in_set_conv_nth)
  moreover have "fresh_ok ?q"
    using fresh by (auto simp: fresh_ok_def items fr set)
  moreover have "keys_ok (m(k := None)) ?q"
    using keys k distinct uniq by (auto simp: keys_ok_def items st set)
  ultimately show "pq_wf ?q" by (simp add: pq_wf_def m')
  show "contents ?q = (contents q)(k := None)"
  proof
    fix k'
    have "m k' \<noteq> Some r" if "k' \<noteq> k" using keys k that by (auto simp: keys_ok_def)
    then show "contents ?q k' = ((contents q)(k := None)) k'"
      using m by (cases "m k'") (auto simp: contents_def m' st)
  qed
qed

lemma Remove_None: "pq_itemByKey q k = None \<Longrightarrow> Remove q k = (None, q)"
  by (simp add: Remove_def)

lemma Remove_Some:
  assumes inv: "pq_inv q" and r: "pq_itemByKey q k = Some r"
  shows "\<exists>it. fst (Remove q k) = Some it \<and> di_key it = k \<and>
      di_priority it = di_priority (pq_store q r) \<and>
      di_creationTime it = di_creationTime (pq_store q r)"
    and "pq_inv (snd (Remove q k))"
    and "contents (snd (Remove q k)) = (contents q)(k := None)"
    and "pq_Len q = Suc (pq_Len (snd (Remove q k)))"
proof -
  let ?q1 = "q\<lparr>pq_itemByKey := (pq_itemByKey q)(k := None)\<rparr>"
  have wf: "pq_wf q" and heap: "is_heap (ranks q) (length (pq_items q))"
    using inv by (auto simp: pq_inv_def)
  define i where "i = nat (di_index (pq_store q r))"
  have i: "i < length (pq_items q)" "pq_items q ! i = r" and k: "di_key (pq_store q r) = k"
    using wf_index [OF wf r] by (simp_all add: i_def)
  have same: "ranks ?q1 = ranks q" "idx_ok ?q1" "fresh_ok ?q1" "keys_ok (pq_itemByKey q) ?q1"
    using wf by (simp_all add: ranks_def pq_wf_def idx_ok_def fresh_ok_def keys_ok_def)
  obtain n where n: "length (pq_items q) = Suc n" using i by (cases "length (pq_items q)") auto
  obtain q' where q': "heap_Remove ?q1 i = pq_Pop q'" "rearranged ?q1 q'"
      "pq_items q' ! n = r" "is_heap (ranks q') n"
    using heap_Remove_pops [of i ?q1] i heap same(1) n by auto
  have rem: "Remove q k = (Some (fst (pq_Pop q')), snd (pq_Pop q'))"
    using r q'(1) by (simp add: Remove_def i_def split_def Let_def)
  have re: "idx_ok q'" "fresh_ok q'" "keys_ok (pq_itemByKey q) q'" "length (pq_items q') = Suc n"
      "pq_itemByKey q' = (pq_itemByKey q)(k := None)" "k = di_key (pq_store q' r)"
      "di_priority (pq_store q' r) = di_priority (pq_store q r)"
      "di_creationTime (pq_store q' r) = di_creationTime (pq_store q r)"
    using q'(2) same n k rearranged_keys_ok [OF q'(2)] rearranged_fresh_ok [OF q'(2)]
      rearranged_length [OF q'(2)] by (auto simp: rearranged_def)
  note pop = pq_Pop_wf [OF re(1-4) q'(3) re(6) disjI2 [OF re(5)]]
  show "\<exists>it. fst (Remove q k) = Some it \<and> di_key it = k \<and>
      di_priority it = di_priority (pq_store q r) \<and>
      di_creationTime it = di_creationTime (pq_store q r)"
    using rem pop(1) re by simp
  have len: "length (pq_items (snd (pq_Pop q'))) = n"
    using pop(3) re(4) by (metis diff_Suc_1 length_ranks length_take lessI less_or_eq_imp_le min.absorb2 min.commute)
  then show "pq_inv (snd (Remove q k))"
    using pop(3,4) is_heap_take [OF q'(4)] by (simp add: rem pq_inv_def)
  show "pq_Len q = Suc (pq_Len (snd (Remove q k)))" using n len by (simp add: rem pq_Len_def)
  have "contents q' = (contents q)(k := None)"
    using rearranged_contents [OF q'(2)] by (auto simp: contents_def fun_eq_iff)
  with pop(5) show "contents (snd (Remove q k)) = (contents q)(k := None)"
    by (simp add: rem)
qed

lemma Pop_Some:
  assumes inv: "pq_inv q" and ne: "pq_items q \<noteq> []"
  defines "first \<equiv> item_at q 0"
  shows "fst (Pop q) = Some (first\<lparr>di_index := - 1\<rparr>)"
    and "pq_inv (snd (Pop q))"
    and "contents (snd (Pop q)) = (contents q)(di_key first := None)"
proof -
  have wf: "idx_ok q" "fresh_ok q" "keys_ok (pq_itemByKey q) q"
    and heap: "is_heap (ranks q) (length (pq_items q))"
    using inv by (auto simp: pq_inv_def pq_wf_def)
  obtain n where n: "length (pq_items q) = Suc n" using ne by (cases "pq_items q") auto
  define r where "r = pq_items q ! 0"
  obtain q' where q': "heap_Pop q = pq_Pop q'" "rearranged q q'"
      "pq_items q' ! n = r" "is_heap (ranks q') n"
    using heap_Pop_pops [OF ne heap] n by (auto simp: r_def)
  have re: "idx_ok q'" "fresh_ok q'" "keys_ok (pq_itemByKey q') q'" "length (pq_items q') = Suc n"
    using q'(2) wf n rearranged_keys_ok [OF q'(2)] rearranged_fresh_ok [OF q'(2)]
      rearranged_length [OF q'(2)] by (auto simp: rearranged_def)
  note pop = pq_Pop_wf [OF re q'(3) refl disjI1 [OF refl]]
  have st: "(pq_store q' r)\<lparr>di_index := - 1\<rparr> = first\<lparr>di_index := - 1\<rparr>" "di_key (pq_store q' r) = di_key first"
    using q'(2) by (simp_all add: rearranged_def first_def r_def)
  have res: "Pop q = (Some (fst (pq_Pop q')), snd (pq_Pop q'))"
    using ne q'(1) by (simp add: Pop_def split_def Let_def)
  show "fst (Pop q) = Some (first\<lparr>di_index := - 1\<rparr>)" using res pop(1) st by simp
  have "length (pq_items (snd (pq_Pop q'))) = n"
    using arg_cong [OF pop(3), of length] re(4) by simp
  then show "pq_inv (snd (Pop q))"
    using pop(3,4) is_heap_take [OF q'(4)] by (simp add: res pq_inv_def)
  show "contents (snd (Pop q)) = (contents q)(di_key first := None)"
    using pop(5) rearranged_contents [OF q'(2)] st(2) by (simp add: res)
qed

lemma pq_Push_wf:
  assumes wf: "pq_wf q" and new: "pq_itemByKey q (di_key it) = None"
  shows "pq_wf (pq_Push q it)"
    and "ranks (pq_Push q it) = ranks q @ [rank it]"
    and "contents (pq_Push q it) = (contents q)(di_key it \<mapsto> (di_priority it, di_creationTime it))"
proof -
  let ?q = "pq_Push q it" and ?r = "pq_fresh q"
  have fresh: "?r \<notin> set (pq_items q)" using wf by (auto simp: pq_wf_def fresh_ok_def)
  have q: "pq_items ?q = pq_items q @ [?r]" "pq_fresh ?q = Suc ?r"
      "pq_store ?q = (pq_store q)(?r := it\<lparr>di_index := int (length (pq_items q))\<rparr>)"
      "pq_itemByKey ?q = (pq_itemByKey q)(di_key it \<mapsto> ?r)"
    by (simp_all add: pq_Push_def Let_def)
  show "ranks ?q = ranks q @ [rank it]"
    using fresh by (auto simp: ranks_def q rank_def)
  have "idx_ok ?q"
    using wf fresh by (auto simp: pq_wf_def idx_ok_def q nth_append less_Suc_eq dest: nth_mem)
  moreover have "fresh_ok ?q"
    using wf by (auto simp: pq_wf_def fresh_ok_def q)
  moreover have "keys_ok (pq_itemByKey ?q) ?q"
    using wf new fresh by (auto simp: pq_wf_def keys_ok_def q split: if_splits) (metis option.distinct(1))+
  ultimately show "pq_wf ?q" by (simp add: pq_wf_def)
  have "pq_itemByKey q k \<noteq> Some ?r" for k
    using wf fresh by (auto simp: pq_wf_def dest: keys_okD(1))
  then show "contents ?q = (contents q)(di_key it \<mapsto> (di_priority it, di_creationTime it))"
    by (auto simp: contents_def q fun_eq_iff option.map_comp intro!: map_option_cong)
qed

lemma SetPriority_wf:
  assumes wf: "pq_wf q" and i: "i < length (pq_items q)" and r: "r = pq_items q ! i"
  shows "pq_wf (SetPriority q r p)"
    and "ranks (SetPriority q r p) = (ranks q)[i := (- p, di_creationTime (pq_store q r))]"
    and "contents (SetPriority q r p) =
      (contents q)(di_key (pq_store q r) \<mapsto> (p, di_creationTime (pq_store q r)))"
proof -
  let ?q = "SetPriority q r p"
  have d: "distinct (pq_items q)" using wf by (simp add: pq_wf_def idx_ok_def)
  have "idx_ok ?q" "fresh_ok ?q" "keys_ok (pq_itemByKey ?q) ?q"
    using wf by (auto simp: pq_wf_def idx_ok_def fresh_ok_def keys_ok_def SetPriority_def)
  then show "pq_wf ?q" by (simp add: pq_wf_def)
  show "ranks ?q = (ranks q)[i := (- p, di_creationTime (pq_store q r))]"
    using d i r by (auto simp: ranks_def SetPriority_def rank_def nth_list_update nth_eq_iff_index_eq
        intro!: nth_equalityI)
  have m: "pq_itemByKey q (di_key (pq_store q r)) = Some r"
    using wf i r by (auto simp: pq_wf_def intro!: keys_okD(3))
  have other: "pq_itemByKey q k \<noteq> Some r" if "k \<noteq> di_key (pq_store q r)" for k
    using wf that by (auto simp: pq_wf_def dest: keys_okD(2))
  show "contents ?q = (contents q)(di_key (pq_store q r) \<mapsto> (p, di_creationTime (pq_store q r)))"
  proof
    fix k
    show "contents ?q k =
        ((contents q)(di_key (pq_store q r) \<mapsto> (p, di_creationTime (pq_store q r)))) k"
    proof (cases "k = di_key (pq_store q r)")
      case True
      then show ?thesis using m by (simp add: contents_def SetPriority_def)
    next
      case False
      with other [OF False] show ?thesis
        by (cases "pq_itemByKey q k") (simp_all add: contents_def SetPriority_def)
    qed
  qed
qed

text \<open>\<open>Add\<close>: an existing key gets the new priority and keeps its creation time.\<close>

definition added :: "(key \<rightharpoonup> int \<times> time) \<Rightarrow> key \<Rightarrow> int \<Rightarrow> time \<Rightarrow> (key \<rightharpoonup> int \<times> time)" where
  "added m k p t = m(k \<mapsto> (p, case m k of None \<Rightarrow> t | Some (_, t') \<Rightarrow> t'))"

lemma Add_before_sort:
  assumes inv: "pq_inv q"
  obtains q' where "Add q it = sort_Sort q'" and "pq_wf q'"
    and "contents q' = added (contents q) (di_key it) (di_priority it) (di_creationTime it)"
proof (cases "pq_itemByKey q (di_key it)")
  case None
  let ?q = "pq_Push q (convertItem it)"
  have wf: "pq_wf q" using inv by (simp add: pq_inv_def)
  have new: "pq_itemByKey q (di_key (convertItem it)) = None" using None by (simp add: convertItem_def)
  note push = pq_Push_wf [OF wf new]
  have "rearranged ?q (heap_up ?q (pq_Len ?q - 1))"
    using heap_up_sift [of "pq_Len ?q - 1" ?q] by (simp add: pq_Len_def pq_Push_def Let_def)
  with push that [of "heap_Push q (convertItem it)"] None show ?thesis
    using rearranged_wf rearranged_contents
    by (simp add: Add_def heap_Push_def Let_def added_def contents_def convertItem_def)
next
  case (Some r)
  have wf: "pq_wf q" using inv by (simp add: pq_inv_def)
  note ix = wf_index [OF wf Some]
  have c: "contents q (di_key it) = Some (di_priority (pq_store q r), di_creationTime (pq_store q r))"
    using Some by (simp add: contents_def)
  show ?thesis
  proof (cases "di_priority (pq_store q r) = di_priority it")
    case True
    with Some wf c that [of q] show ?thesis
      by (simp add: Add_def added_def fun_upd_idem)
  next
    case False
    let ?q = "SetPriority q r (di_priority it)"
    define i where "i = nat (di_index (pq_store q r))"
    note set = SetPriority_wf [OF wf ix(1) ix(2) [symmetric], of "di_priority it"]
    have len: "length (pq_items ?q) = length (pq_items q)" by (simp add: SetPriority_def)
    have "heap_but (ranks ?q) i (length (pq_items q))"
      using inv ix(1) set(2) unfolding i_def by (simp add: pq_inv_def heap_but_update)
    note f = fix_at [OF this]
    have "Add q it = sort_Sort (heap_Fix ?q i)"
      using Some False by (simp add: Add_def Let_def SetPriority_def i_def)
    with that [of "heap_Fix ?q i"] show ?thesis
      using f(1) len rearranged_wf set rearranged_contents ix(3) c
      by (simp add: heap_Fix_fix_at added_def)
  qed
qed

lemma Add_inv:
  assumes "pq_inv q"
  shows "pq_inv (Add q it)" and "sorted (ranks (Add q it))"
    and "contents (Add q it) = added (contents q) (di_key it) (di_priority it) (di_creationTime it)"
proof -
  obtain q' where q': "Add q it = sort_Sort q'" "pq_wf q'"
    "contents q' = added (contents q) (di_key it) (di_priority it) (di_creationTime it)"
    by (rule Add_before_sort [OF assms])
  note s = ranks_sort_Sort [of q'] rearranged_sort_Sort [of q']
  show sorted: "sorted (ranks (Add q it))" using q'(1) s by simp
  show "pq_inv (Add q it)"
    using sorted rearranged_wf [OF s(2) q'(2)] q'(1)
    by (auto simp: pq_inv_def intro!: sorted_is_heap)
  show "contents (Add q it) = added (contents q) (di_key it) (di_priority it) (di_creationTime it)"
    using rearranged_contents [OF s(2)] q' by simp
qed

section \<open>The contract of a priority queue\<close>

text \<open>What the enhanced queue relies on: the contents, by key, of the queue after each
  operation. \<open>move\<close> is the step by which an item goes from one queue to another.\<close>

locale keyed_queue =
  fixes inv :: "'q \<Rightarrow> bool"
    and cont :: "'q \<Rightarrow> key \<rightharpoonup> int \<times> time"
    and new :: 'q
    and add :: "'q \<Rightarrow> defaultItem \<Rightarrow> 'q"
    and remove :: "'q \<Rightarrow> key \<Rightarrow> defaultItem option \<times> 'q"
    and len :: "'q \<Rightarrow> nat"
  assumes inv_new: "inv new" and cont_new: "cont new = Map.empty"
    and inv_add: "inv q \<Longrightarrow> inv (add q it)"
    and cont_add: "inv q \<Longrightarrow>
      cont (add q it) = added (cont q) (di_key it) (di_priority it) (di_creationTime it)"
    and inv_remove: "inv q \<Longrightarrow> inv (snd (remove q k))"
    and cont_remove: "inv q \<Longrightarrow> cont (snd (remove q k)) = (cont q)(k := None)"
    and fst_remove: "inv q \<Longrightarrow>
      map_option (\<lambda>it. (di_key it, di_priority it, di_creationTime it)) (fst (remove q k)) =
      map_option (\<lambda>(p, t). (k, p, t)) (cont q k)"
    and finite_cont: "inv q \<Longrightarrow> finite (dom (cont q))"
    and len_cont: "inv q \<Longrightarrow> len q = card (dom (cont q))"
begin

lemma remove_None_iff: "inv q \<Longrightarrow> fst (remove q k) = None \<longleftrightarrow> cont q k = None"
  using fst_remove [of q k] by (cases "fst (remove q k)"; cases "cont q k") auto

lemma remove_SomeD:
  assumes "inv q" and "fst (remove q k) = Some it"
  shows "di_key it = k" and "cont q k = Some (di_priority it, di_creationTime it)"
  using fst_remove [OF assms(1), of k] assms(2) by (cases "cont q k"; simp)+

definition move :: "'q \<Rightarrow> 'q \<Rightarrow> key \<Rightarrow> 'q \<times> 'q" where
  "move p w k =
     (case remove p k of (None, p') \<Rightarrow> (p', w) | (Some it, p') \<Rightarrow> (p', add w it))"

lemma inv_move: "inv p \<Longrightarrow> inv w \<Longrightarrow> inv (fst (move p w k)) \<and> inv (snd (move p w k))"
  using inv_remove [of p k] inv_add by (auto simp: move_def split: prod.splits option.splits)

lemma cont_fst_move: "inv p \<Longrightarrow> cont (fst (move p w k)) = (cont p)(k := None)"
  using cont_remove [of p k] by (auto simp: move_def split: prod.splits option.splits)

lemma cont_snd_move:
  assumes "inv p" and "inv w" and "dom (cont p) \<inter> dom (cont w) = {}"
  shows "cont (snd (move p w k)) = (if cont p k = None then cont w else (cont w)(k := cont p k))"
proof (cases "fst (remove p k)")
  case None
  then show ?thesis
    using remove_None_iff [OF assms(1), of k] by (auto simp: move_def split: prod.splits option.splits)
next
  case (Some it)
  note it = remove_SomeD [OF assms(1) Some]
  then have "cont w k = None" using assms(3) by auto
  with it Some cont_add [OF assms(2), of it] show ?thesis
    by (auto simp: move_def added_def split: prod.splits option.splits)
qed

text \<open>A move between disjoint queues loses nothing, duplicates nothing and keeps them disjoint.\<close>

lemma move_contents:
  assumes "inv p" and "inv w" and "dom (cont p) \<inter> dom (cont w) = {}"
  shows "cont (fst (move p w k)) ++ cont (snd (move p w k)) = cont p ++ cont w"
    and "dom (cont (fst (move p w k))) \<inter> dom (cont (snd (move p w k))) = {}"
proof -
  have w: "cont w k = None" if "cont p k \<noteq> None" using assms(3) that by auto
  show "cont (fst (move p w k)) ++ cont (snd (move p w k)) = cont p ++ cont w"
    unfolding cont_fst_move [OF assms(1)] cont_snd_move [OF assms]
    using w by (auto simp: fun_eq_iff map_add_def split: option.split)
  show "dom (cont (fst (move p w k))) \<inter> dom (cont (snd (move p w k))) = {}"
    unfolding cont_fst_move [OF assms(1)] cont_snd_move [OF assms]
    using assms(3) by (auto split: if_splits)
qed

lemma len_new: "len new = 0"
  by (simp add: len_cont inv_new cont_new)

lemma len_add:
  "inv q \<Longrightarrow> len (add q it) = (if cont q (di_key it) = None then Suc (len q) else len q)"
  using finite_cont [of q]
  by (auto simp: len_cont inv_add cont_add added_def insert_absorb domIff)

lemma len_remove:
  "inv q \<Longrightarrow> len (snd (remove q k)) = (if cont q k = None then len q else len q - 1)"
  using finite_cont [of q]
  by (auto simp: len_cont inv_remove cont_remove dom_fun_upd card_Diff_singleton_if domIff)

end

lemma pq_inv_New: "pq_inv NewPriorityQueue"
  by (simp add: NewPriorityQueue_def pq_inv_def pq_wf_def idx_ok_def fresh_ok_def keys_ok_def
      is_heap_def)

lemma contents_New: "contents NewPriorityQueue = Map.empty"
  by (simp add: NewPriorityQueue_def contents_def fun_eq_iff)

lemma contents_None_iff: "contents q k = None \<longleftrightarrow> pq_itemByKey q k = None"
  by (simp add: contents_def)

lemma dom_contents:
  assumes "pq_inv q"
  shows "dom (contents q) = (\<lambda>r. di_key (pq_store q r)) ` set (pq_items q)"
proof -
  have "keys_ok (pq_itemByKey q) q" using assms by (simp add: pq_inv_def pq_wf_def)
  then show ?thesis by (force simp: contents_def keys_ok_def dom_def)
qed

lemma card_dom_contents:
  assumes "pq_inv q"
  shows "pq_Len q = card (dom (contents q))"
proof -
  have "distinct (pq_items q)" and keys: "keys_ok (pq_itemByKey q) q"
    using assms by (auto simp: pq_inv_def pq_wf_def idx_ok_def)
  moreover have "inj_on (\<lambda>r. di_key (pq_store q r)) (set (pq_items q))"
    by (rule inj_onI) (metis keys_okD(3) [OF keys] option.inject)
  ultimately show ?thesis
    by (simp add: dom_contents [OF assms] card_image distinct_card pq_Len_def)
qed

interpretation pq: keyed_queue pq_inv contents NewPriorityQueue Add Remove Len
proof
  fix q k it
  assume inv: "pq_inv q"
  show "pq_inv (snd (Remove q k))"
    using inv Remove_Some(2) [OF inv] by (cases "pq_itemByKey q k") (simp_all add: Remove_None)
  show "contents (snd (Remove q k)) = (contents q)(k := None)"
    using Remove_Some(3) [OF inv, of k] contents_None_iff [of q k]
    by (cases "pq_itemByKey q k") (simp_all add: Remove_None fun_upd_idem)
  show "map_option (\<lambda>it. (di_key it, di_priority it, di_creationTime it)) (fst (Remove q k)) =
      map_option (\<lambda>(p, t). (k, p, t)) (contents q k)"
    using Remove_Some(1) [OF inv, of k]
    by (cases "pq_itemByKey q k") (auto simp: Remove_None contents_def)
  show "finite (dom (contents q))" using dom_contents [OF inv] by simp
  show "Len q = card (dom (contents q))" using card_dom_contents [OF inv] by (simp add: Len_def)
qed (simp_all add: pq_inv_New contents_New Add_inv)

section \<open>Snapshots\<close>

definition distinct_keys :: "pq_SnapshotObj list \<Rightarrow> bool" where
  "distinct_keys objs \<longleftrightarrow> distinct (map so_Key objs)"

lemma import_fold:
  fixes q :: priorityQueue
  assumes "distinct_keys objs"
  defines "q' \<equiv> foldl import_step (q\<lparr>pq_items := [], pq_itemByKey := Map.empty\<rparr>) objs"
  shows "pq_items q' = [pq_fresh q..<pq_fresh q + length objs] \<and>
    pq_fresh q' = pq_fresh q + length objs \<and>
    (\<forall>i<length objs. pq_store q' (pq_fresh q + i) = convert2DefaultItem (objs ! i)) \<and>
    keys_ok (pq_itemByKey q') q'"
  using assms(1) unfolding q'_def
proof (induction objs rule: rev_induct)
  case Nil
  then show ?case by (simp add: keys_ok_def)
next
  case (snoc obj objs)
  define q1 where "q1 = foldl import_step (q\<lparr>pq_items := [], pq_itemByKey := Map.empty\<rparr>) objs"
  let ?q = q1 and ?r = "pq_fresh q + length objs"
  have new: "so_Key obj \<notin> set (map so_Key objs)" and d: "distinct_keys objs"
    using snoc.prems by (auto simp: distinct_keys_def)
  note IH = snoc.IH [OF d, folded q1_def]
  have step: "import_step ?q obj = ?q\<lparr>pq_store := (pq_store ?q)(?r := convert2DefaultItem obj),
      pq_fresh := Suc ?r, pq_items := pq_items ?q @ [?r],
      pq_itemByKey := (pq_itemByKey ?q)(so_Key obj \<mapsto> ?r)\<rparr>"
    using IH by (simp add: import_step_def [of q1] Let_def)
  have "di_key (pq_store ?q r) \<noteq> so_Key obj" if "r \<in> set (pq_items ?q)" for r
  proof -
    from that IH obtain i where "r = pq_fresh q + i" "i < length objs"
      by (auto simp: nat_le_iff_add)
    with IH new show ?thesis by (auto simp: convert2DefaultItem_def) (metis image_eqI nth_mem)
  qed
  moreover have "?r \<notin> set (pq_items ?q)" using IH by simp
  ultimately have "keys_ok (pq_itemByKey (import_step ?q obj)) (import_step ?q obj)"
    using IH unfolding step keys_ok_def
    by (auto simp: convert2DefaultItem_def split: if_splits)
  moreover have "pq_items (import_step ?q obj) = [pq_fresh q..<pq_fresh q + length (objs @ [obj])]"
    "pq_fresh (import_step ?q obj) = pq_fresh q + length (objs @ [obj])"
    "\<forall>i<length (objs @ [obj]). pq_store (import_step ?q obj) (pq_fresh q + i) =
       convert2DefaultItem ((objs @ [obj]) ! i)"
    using IH by (simp_all add: step nth_append less_Suc_eq)
  ultimately show ?case
    by (simp only: foldl_append foldl.simps q1_def [symmetric])
qed

lemma Import_Export_inv:
  fixes q0 :: priorityQueue
  assumes inv: "pq_inv q"
  defines "q' \<equiv> pq_Import q0 (pq_Export q)"
  shows "pq_Export q' = pq_Export q" and "pq_inv q'" and "contents q' = contents q"
    and "ranks q' = ranks q"
proof -
  let ?n = "length (pq_items q)" and ?f = "pq_fresh q0"
  have idx: "idx_ok q" and keys: "keys_ok (pq_itemByKey q) q"
    and heap: "is_heap (ranks q) ?n" using inv by (auto simp: pq_inv_def pq_wf_def)
  have len: "length (pq_Export q) = ?n" by (simp add: pq_Export_def)
  have "inj_on (\<lambda>r. di_key (pq_store q r)) (set (pq_items q))"
    by (rule inj_onI) (metis keys_okD(3) [OF keys] option.inject)
  then have "distinct_keys (pq_Export q)"
    using idx by (simp add: distinct_keys_def pq_Export_def idx_ok_def distinct_map comp_def Let_def)
  note imp = import_fold [OF this, of q0, folded pq_Import_def, folded q'_def, unfolded len]
  have conv: "convert2DefaultItem (pq_Export q ! i) = item_at q i" if "i < ?n" for i
    using that by (simp add: pq_Export_def convert2DefaultItem_def Let_def)
  have at: "item_at q' i = item_at q i" if "i < ?n" for i
    using that imp conv by simp
  have len': "length (pq_items q') = ?n" using imp by simp
  show "ranks q' = ranks q" using at len' by (auto simp: ranks_def intro!: nth_equalityI)
  then show "pq_inv q'"
    using at len' imp idx heap by (auto simp: pq_inv_def pq_wf_def idx_ok_def fresh_ok_def)
  show "pq_Export q' = pq_Export q"
    using at len' by (auto simp: pq_Export_def intro!: nth_equalityI)
  have keys': "keys_ok (pq_itemByKey q') q'" using imp by simp
  show "contents q' = contents q"
  proof
    fix k
    have by_key: "contents p k = Some (di_priority (item_at p i), di_creationTime (item_at p i))"
      if "keys_ok (pq_itemByKey p) p" "i < length (pq_items p)" "di_key (item_at p i) = k" for p i
      using keys_okD(3) [OF that(1), of "pq_items p ! i"] that by (simp add: contents_def)
    have no_key: "contents p k = None"
      if "keys_ok (pq_itemByKey p) p" "\<And>i. i < length (pq_items p) \<Longrightarrow> di_key (item_at p i) \<noteq> k" for p
    proof (rule ccontr)
      assume "contents p k \<noteq> None"
      then obtain r where "pq_itemByKey p k = Some r" by (auto simp: contents_def)
      with keys_okD [OF that(1)] that(2) show False by (metis in_set_conv_nth)
    qed
    show "contents q' k = contents q k"
    proof (cases "\<exists>i<?n. di_key (item_at q i) = k")
      case True
      with by_key [OF keys] by_key [OF keys'] at len' show ?thesis by metis
    next
      case False
      with no_key [OF keys] no_key [OF keys'] at len' show ?thesis by metis
    qed
  qed
qed

section \<open>What a removal leaves of the store and the slice\<close>

lemma pq_Pop_store_key: "di_key (pq_store (snd (pq_Pop q)) r) = di_key (pq_store q r)"
  by (simp add: pq_Pop_def SetIndex_def Let_def)

lemma set_pq_Pop_items: "set (pq_items (snd (pq_Pop q))) \<subseteq> set (pq_items q)"
  by (auto simp: pq_Pop_def SetIndex_def Let_def dest: in_set_takeD)

lemma Remove_store:
  assumes "pq_inv q"
  shows "di_key (pq_store (snd (Remove q k)) r) = di_key (pq_store q r)"
    and "set (pq_items (snd (Remove q k))) \<subseteq> set (pq_items q)"
proof -
  have "di_key (pq_store (snd (Remove q k)) r) = di_key (pq_store q r) \<and>
      set (pq_items (snd (Remove q k))) \<subseteq> set (pq_items q)"
  proof (cases "pq_itemByKey q k")
    case None
    then show ?thesis by (simp add: Remove_None)
  next
    case (Some s)
    let ?q1 = "q\<lparr>pq_itemByKey := (pq_itemByKey q)(k := None)\<rparr>"
    have wf: "pq_wf q" and heap: "is_heap (ranks ?q1) (length (pq_items ?q1))"
      using assms by (auto simp: pq_inv_def ranks_def)
    have i: "nat (di_index (pq_store q s)) < length (pq_items ?q1)"
      using wf_index(1) [OF wf Some] by simp
    obtain q' where q': "heap_Remove ?q1 (nat (di_index (pq_store q s))) = pq_Pop q'" "rearranged ?q1 q'"
      using heap_Remove_pops [OF i heap] by blast
    have "snd (Remove q k) = snd (pq_Pop q')"
      using Some q'(1) by (simp add: Remove_def split_def Let_def)
    with q'(2) rearranged_set [OF q'(2)] set_pq_Pop_items [of q'] show ?thesis
      by (simp add: pq_Pop_store_key rearranged_def)
  qed
  then show "di_key (pq_store (snd (Remove q k)) r) = di_key (pq_store q r)"
    and "set (pq_items (snd (Remove q k))) \<subseteq> set (pq_items q)" by simp_all
qed

section \<open>Sequences of operations\<close>

datatype pq_op = OpAdd defaultItem | OpPop | OpRemove key

fun run_op :: "priorityQueue \<Rightarrow> pq_op \<Rightarrow> priorityQueue" where
  "run_op q (OpAdd it) = Add q it"
| "run_op q OpPop = snd (Pop q)"
| "run_op q (OpRemove k) = snd (Remove q k)"

definition run_ops :: "pq_op list \<Rightarrow> priorityQueue" where
  "run_ops ops = foldl run_op NewPriorityQueue ops"

lemma Pop_inv: "pq_inv q \<Longrightarrow> pq_inv (snd (Pop q))"
  using Pop_Some(2) [of q] by (cases "pq_items q = []") (simp_all add: Pop_def)

lemma run_ops_inv: "pq_inv (run_ops ops)"
proof -
  have "pq_inv q \<Longrightarrow> pq_inv (foldl run_op q ops)" for q
  proof (induction ops arbitrary: q)
    case (Cons op ops)
    then show ?case
      by (cases op) (simp_all add: pq.inv_add pq.inv_remove Pop_inv)
  qed simp
  with pq_inv_New show ?thesis by (simp add: run_ops_def)
qed

lemma contents_item:
  assumes "pq_inv q" and "contents q k = Some (p, t)"
  obtains i where "i < length (pq_items q)" and "di_key (item_at q i) = k"
    and "rank (item_at q i) = (- p, t)"
proof -
  from assms(2) obtain r where r: "pq_itemByKey q k = Some r" "di_priority (pq_store q r) = p"
    "di_creationTime (pq_store q r) = t" by (auto simp: contents_def)
  have "pq_wf q" using assms(1) by (simp add: pq_inv_def)
  from wf_index [OF this r(1)] r that show ?thesis by (simp add: rank_def)
qed

lemma first_item_least:
  assumes "pq_inv q" and "contents q k = Some (p, t)"
  shows "pq_items q \<noteq> []" and "rank (item_at q 0) \<le> (- p, t)"
proof -
  obtain i where i: "i < length (pq_items q)" "rank (item_at q i) = (- p, t)"
    using contents_item [OF assms] by metis
  then show ne: "pq_items q \<noteq> []" by auto
  have "ranks q ! 0 \<le> ranks q ! i"
    using is_heap_root [of "ranks q" "length (pq_items q)" i] assms(1) i by (simp add: pq_inv_def)
  with i ne show "rank (item_at q 0) \<le> (- p, t)" by (simp add: ranks_def)
qed

lemma contents_first:
  assumes "pq_inv q" and "pq_items q \<noteq> []"
  shows "contents q (di_key (item_at q 0)) =
    Some (di_priority (item_at q 0), di_creationTime (item_at q 0))"
proof -
  have "keys_ok (pq_itemByKey q) q" using assms by (simp add: pq_inv_def pq_wf_def)
  from keys_okD(3) [OF this, of "pq_items q ! 0"] assms(2) show ?thesis
    by (simp add: contents_def)
qed

section \<open>Properties\<close>

text \<open>
  C18: after any sequence of \<open>Add\<close>, \<open>Pop\<close> and \<open>Remove\<close> on a new priority queue, the map and the
  slice hold the same items, every item's index is its position, and the slice is a heap for
  the order (higher priority, then earlier creation).\<close>

theorem pq_operations_keep_invariant: "pq_inv (run_ops ops)"
  by (rule run_ops_inv)

text \<open>
  C19: \<open>Add\<close> inserts a new key with its priority and creation time, changes only the priority of
  a key that is present, leaves every other key as it is, and leaves the slice sorted.\<close>

theorem Add_refines_map_update:
  assumes "pq_inv q"
  shows "contents (Add q it) =
      (contents q)(di_key it \<mapsto>
        (di_priority it,
         case contents q (di_key it) of None \<Rightarrow> di_creationTime it | Some (p, t) \<Rightarrow> t)) \<and>
    sorted (ranks (Add q it)) \<and> pq_inv (Add q it)"
  using Add_inv [OF assms, of it] by (simp add: added_def)

theorem Add_refines_map_update_witness:
  "pq_inv NewPriorityQueue \<and>
   contents (Add NewPriorityQueue (NewItem ''k1'' 5 7)) ''k1'' = Some (5, 7)"
  using Add_refines_map_update [OF pq_inv_New, of "NewItem ''k1'' 5 7"]
  by (simp add: pq_inv_New contents_New NewItem_def)

text \<open>
  \<open>Remove\<close> returns the item stored under the key, and nil when there is none; it removes that
  key and no other, and keeps the invariant.\<close>

theorem Remove_refines_map_delete:
  assumes "pq_inv q"
  shows "map_option (\<lambda>it. (di_key it, di_priority it, di_creationTime it)) (fst (Remove q k)) =
      map_option (\<lambda>(p, t). (k, p, t)) (contents q k) \<and>
    contents (snd (Remove q k)) = (contents q)(k := None) \<and>
    Len (snd (Remove q k)) = (if contents q k = None then Len q else Len q - 1) \<and>
    pq_inv (snd (Remove q k))"
  using assms pq.fst_remove pq.cont_remove pq.inv_remove pq.len_remove by blast

theorem Remove_refines_map_delete_witness:
  "Len (snd (Remove (Add NewPriorityQueue (NewItem ''k1'' 5 7)) ''k1'')) = 0"
  using Remove_refines_map_delete
    [OF pq.inv_add [OF pq_inv_New, of "NewItem ''k1'' 5 7"], of "''k1''"]
  by (simp add: pq.cont_add pq.len_add pq_inv_New contents_New pq.len_new NewItem_def added_def)

text \<open>
  C11: \<open>Pop\<close> returns nil on an empty queue; otherwise it removes and returns the item that \<open>Peek\<close>
  shows, and no key of the queue has a higher priority, or the same priority and an earlier
  creation time.\<close>

theorem Pop_serves_highest_priority:
  assumes "pq_inv q"
  shows "case Pop q of
      (None, q') \<Rightarrow> Peek q = None \<and> contents q = Map.empty \<and> q' = q
    | (Some it, q') \<Rightarrow>
        map_option (\<lambda>i. i\<lparr>di_index := - 1\<rparr>) (Peek q) = Some it \<and>
        contents q (di_key it) = Some (di_priority it, di_creationTime it) \<and>
        contents q' = (contents q)(di_key it := None) \<and> pq_inv q' \<and>
        (\<forall>k p t. contents q k = Some (p, t) \<longrightarrow>
          p < di_priority it \<or> (p = di_priority it \<and> di_creationTime it \<le> t))"
proof (cases "pq_items q = []")
  case True
  then have "contents q = Map.empty"
    using dom_contents [OF assms] by simp
  with True show ?thesis by (simp add: Pop_def Peek_def)
next
  case False
  note pop = Pop_Some [OF assms False]
  have least: "p < di_priority (item_at q 0) \<or>
      (p = di_priority (item_at q 0) \<and> di_creationTime (item_at q 0) \<le> t)"
    if "contents q k = Some (p, t)" for k p t
    using first_item_least(2) [OF assms that] by (auto simp: rank_def)
  obtain q' where q': "Pop q = (Some ((item_at q 0)\<lparr>di_index := - 1\<rparr>), q')"
    using pop(1) by (cases "Pop q") simp
  have "\<forall>k p t. contents q k = Some (p, t) \<longrightarrow>
      p < di_priority (item_at q 0) \<or>
      (p = di_priority (item_at q 0) \<and> di_creationTime (item_at q 0) \<le> t)"
    using least by blast
  with q' pop(2,3) contents_first [OF assms False] False show ?thesis
    by (simp add: Peek_def)
qed

theorem Pop_serves_highest_priority_witness:
  "(let q = Add (Add NewPriorityQueue (NewItem ''a'' 1 3)) (NewItem ''b'' 2 9) in
     case fst (Pop q) of None \<Rightarrow> contents q = Map.empty | Some it \<Rightarrow> contents q (di_key it) \<noteq> None)"
  using Pop_serves_highest_priority
    [OF pq.inv_add [OF pq.inv_add [OF pq_inv_New, of "NewItem ''a'' 1 3"], of "NewItem ''b'' 2 9"]]
  by (auto simp: Let_def split: prod.splits option.splits)



text \<open>
  right after an \<open>Add\<close>, \<open>LeftHasHigherOrder\<close> of two present keys with different ranks says
  whether the left one is served first.\<close>

theorem LeftHasHigherOrder_after_Add:
  assumes inv: "pq_inv q"
    and l: "contents (Add q it) l = Some (pl, sl)" and r: "contents (Add q it) r = Some (pr, sr)"
    and ne: "(pl, sl) \<noteq> (pr, sr)"
  shows "LeftHasHigherOrder (Add q it) l r \<longleftrightarrow> pr < pl \<or> (pl = pr \<and> sl < sr)"
proof -
  let ?q = "Add q it"
  have inv': "pq_inv ?q" and sorted: "sorted (ranks ?q)" by (rule Add_inv [OF inv])+
  have wf: "pq_wf ?q" using inv' by (simp add: pq_inv_def)
  obtain rl rr where refs: "pq_itemByKey ?q l = Some rl" "pq_itemByKey ?q r = Some rr"
      "rank (pq_store ?q rl) = (- pl, sl)" "rank (pq_store ?q rr) = (- pr, sr)"
    using l r by (auto simp: contents_def rank_def)
  define i where "i = nat (di_index (pq_store ?q rl))"
  define j where "j = nat (di_index (pq_store ?q rr))"
  have i: "i < length (pq_items ?q)" "ranks ?q ! i = (- pl, sl)" "di_index (pq_store ?q rl) = int i"
    and j: "j < length (pq_items ?q)" "ranks ?q ! j = (- pr, sr)" "di_index (pq_store ?q rr) = int j"
    using wf_index [OF wf refs(1)] wf_index [OF wf refs(2)] refs wf
    by (auto simp: i_def j_def ranks_def pq_wf_def idx_ok_def)
  have "LeftHasHigherOrder ?q l r \<longleftrightarrow> i < j"
    using refs i j by (simp add: LeftHasHigherOrder_def)
  moreover have "i < j \<Longrightarrow> (- pl, sl) \<le> (- pr, sr)"
    using sorted_nth_mono [OF sorted, of i j] i j by simp
  moreover have "j \<le> i \<Longrightarrow> (- pr, sr) \<le> (- pl, sl)"
    using sorted_nth_mono [OF sorted, of j i] i j by simp
  ultimately show ?thesis using ne by (cases "i < j") auto
qed

theorem LeftHasHigherOrder_after_Add_witness:
  "LeftHasHigherOrder (Add (Add NewPriorityQueue (NewItem ''a'' 1 3)) (NewItem ''b'' 2 9)) ''b'' ''a''"
  using LeftHasHigherOrder_after_Add
    [of "Add NewPriorityQueue (NewItem ''a'' 1 3)" "NewItem ''b'' 2 9" "''b''" 2 9 "''a''" 1 3]
  by (simp add: pq.inv_add pq.cont_add pq_inv_New contents_New NewItem_def added_def)

text \<open>
  A removal only restores the heap, not the sorted slice: from priorities 10, 9, 8, 7, 6 the
  removal of the first leaves the key of priority 7 before that of priority 8, and
  \<open>LeftHasHigherOrder\<close> prefers the lower priority until the next \<open>Add\<close>.\<close>

theorem LeftHasHigherOrder_wrong_after_Remove:
  "let q = run_ops [OpAdd (NewItem ''a'' 10 0), OpAdd (NewItem ''b'' 9 0), OpAdd (NewItem ''c'' 8 0),
             OpAdd (NewItem ''d'' 7 0), OpAdd (NewItem ''e'' 6 0), OpRemove ''a'']
   in contents q ''c'' = Some (8, 0) \<and> contents q ''d'' = Some (7, 0) \<and>
      LeftHasHigherOrder q ''d'' ''c''"
  by code_simp

end
