(* ===== verification/Enhanced_Queue.thy ===== *)
theory Enhanced_Queue
  imports Priority_Queue
begin

text \<open>
  The enhanced queue (\<open>pipengine/queue/enhancedqueue\<close>): a pending and a processing priority
  queue, and the window that bounds how many keys are processed at a time. The methods hold
  the queue's lock for their whole body, so each is one step of the state; \<open>dryRun\<close> is the
  list of the variadic argument. An empty string is the source's answer for "nothing popped".
\<close>

section \<open>State and operations\<close>

record EnhancedQueue =
  eq_pending :: priorityQueue
  eq_processing :: priorityQueue
  eq_processingWindow :: int

definition NewEnhancedQueue :: "int \<Rightarrow> EnhancedQueue" where
  "NewEnhancedQueue window =
     \<lparr>eq_pending = NewPriorityQueue, eq_processing = NewPriorityQueue, eq_processingWindow = window\<rparr>"

definition PendingQueue :: "EnhancedQueue \<Rightarrow> priorityQueue" where
  "PendingQueue eq = eq_pending eq"

definition ProcessingQueue :: "EnhancedQueue \<Rightarrow> priorityQueue" where
  "ProcessingQueue eq = eq_processing eq"

definition inProcessing :: "EnhancedQueue \<Rightarrow> key \<Rightarrow> bool" where
  "inProcessing eq k \<longleftrightarrow> Get (eq_processing eq) k \<noteq> None"

definition inPending :: "EnhancedQueue \<Rightarrow> key \<Rightarrow> bool" where
  "inPending eq k \<longleftrightarrow> Get (eq_pending eq) k \<noteq> None"

definition InProcessing :: "EnhancedQueue \<Rightarrow> key \<Rightarrow> bool" where
  "InProcessing eq k = inProcessing eq k"

definition InPending :: "EnhancedQueue \<Rightarrow> key \<Rightarrow> bool" where
  "InPending eq k = inPending eq k"

definition InQueue :: "EnhancedQueue \<Rightarrow> key \<Rightarrow> bool" where
  "InQueue eq k \<longleftrightarrow> inPending eq k \<or> inProcessing eq k"

definition eq_Add :: "EnhancedQueue \<Rightarrow> key \<Rightarrow> int \<Rightarrow> time \<Rightarrow> EnhancedQueue" where
  "eq_Add eq k priority creationTime =
     eq\<lparr>eq_pending := Add (eq_pending eq) (NewItem k priority creationTime)\<rparr>"

definition is_dryRun :: "bool list \<Rightarrow> bool" where
  "is_dryRun dryRun \<longleftrightarrow> length dryRun > 0 \<and> dryRun ! 0"

definition popPendingKeyWithoutLock ::
    "EnhancedQueue \<Rightarrow> key \<Rightarrow> bool list \<Rightarrow> string \<times> EnhancedQueue" where
  "popPendingKeyWithoutLock eq popKey dryRun =
     (if int (Len (eq_processing eq)) \<ge> eq_processingWindow eq then ('''', eq)
      else if is_dryRun dryRun then (popKey, eq)
      else case Remove (eq_pending eq) popKey of
        (None, pending) \<Rightarrow> ('''', eq\<lparr>eq_pending := pending\<rparr>)
      | (Some poppedItem, pending) \<Rightarrow>
          (di_key poppedItem,
           eq\<lparr>eq_pending := pending, eq_processing := Add (eq_processing eq) poppedItem\<rparr>))"

definition PopPending :: "EnhancedQueue \<Rightarrow> bool list \<Rightarrow> string \<times> EnhancedQueue" where
  "PopPending eq dryRun =
     (case Peek (eq_pending eq) of
        None \<Rightarrow> ('''', eq)
      | Some peeked \<Rightarrow> popPendingKeyWithoutLock eq (di_key peeked) dryRun)"

definition PopPendingKey :: "EnhancedQueue \<Rightarrow> key \<Rightarrow> bool list \<Rightarrow> string \<times> EnhancedQueue" where
  "PopPendingKey eq k dryRun = popPendingKeyWithoutLock eq k dryRun"

definition PopProcessing :: "EnhancedQueue \<Rightarrow> key \<Rightarrow> bool list \<Rightarrow> string \<times> EnhancedQueue" where
  "PopProcessing eq k dryRun =
     (if \<not> inProcessing eq k then ('''', eq)
      else if is_dryRun dryRun then (k, eq)
      else (k, eq\<lparr>eq_processing := snd (Remove (eq_processing eq) k)\<rparr>))"

definition ProcessingWindow :: "EnhancedQueue \<Rightarrow> int" where
  "ProcessingWindow eq = eq_processingWindow eq"

definition SetProcessingWindow :: "EnhancedQueue \<Rightarrow> int \<Rightarrow> EnhancedQueue" where
  "SetProcessingWindow eq newWindow = eq\<lparr>eq_processingWindow := newWindow\<rparr>"

definition RangePending ::
    "('s \<Rightarrow> defaultItem \<Rightarrow> 's \<times> bool) \<Rightarrow> 's \<Rightarrow> EnhancedQueue \<Rightarrow> 's" where
  "RangePending f s eq = pq_Range f s (eq_pending eq)"

record eq_SnapshotObj =
  so_Pending :: "pq_SnapshotObj list"
  so_Processing :: "pq_SnapshotObj list"
  so_ProcessingWindow :: int

definition eq_Export :: "EnhancedQueue \<Rightarrow> eq_SnapshotObj" where
  "eq_Export eq =
     \<lparr>so_Pending = pq_Export (eq_pending eq), so_Processing = pq_Export (eq_processing eq),
      so_ProcessingWindow = eq_processingWindow eq\<rparr>"

definition eq_Import :: "EnhancedQueue \<Rightarrow> eq_SnapshotObj \<Rightarrow> EnhancedQueue" where
  "eq_Import eq obj =
     eq\<lparr>eq_pending := pq_Import NewPriorityQueue (so_Pending obj),
        eq_processing := pq_Import NewPriorityQueue (so_Processing obj),
        eq_processingWindow := so_ProcessingWindow obj\<rparr>"

section \<open>Invariant and abstract view\<close>

definition eq_inv :: "EnhancedQueue \<Rightarrow> bool" where
  "eq_inv eq \<longleftrightarrow> pq_inv (eq_pending eq) \<and> pq_inv (eq_processing eq)"

abbreviation pending_of :: "EnhancedQueue \<Rightarrow> key \<rightharpoonup> int \<times> time" where
  "pending_of eq \<equiv> contents (eq_pending eq)"

abbreviation processing_of :: "EnhancedQueue \<Rightarrow> key \<rightharpoonup> int \<times> time" where
  "processing_of eq \<equiv> contents (eq_processing eq)"

definition eq_disjoint :: "EnhancedQueue \<Rightarrow> bool" where
  "eq_disjoint eq \<longleftrightarrow> dom (pending_of eq) \<inter> dom (processing_of eq) = {}"

lemma inPending_contents: "inPending eq k \<longleftrightarrow> pending_of eq k \<noteq> None"
  by (simp add: inPending_def Get_def contents_def)

lemma inProcessing_contents: "inProcessing eq k \<longleftrightarrow> processing_of eq k \<noteq> None"
  by (simp add: inProcessing_def Get_def contents_def)

lemma eq_inv_New [simp]: "eq_inv (NewEnhancedQueue w)"
  by (simp add: eq_inv_def NewEnhancedQueue_def pq_inv_New)

lemma eq_inv_Add [simp]: "eq_inv eq \<Longrightarrow> eq_inv (eq_Add eq k p t)"
  by (simp add: eq_inv_def eq_Add_def pq.inv_add)

lemma eq_inv_SetProcessingWindow [simp]: "eq_inv (SetProcessingWindow eq w) = eq_inv eq"
  by (simp add: eq_inv_def SetProcessingWindow_def)

text \<open>The step of a pop is the queue contract's \<open>move\<close>.\<close>

lemma popPendingKey_move:
  assumes "int (Len (eq_processing eq)) < eq_processingWindow eq" and "\<not> is_dryRun dryRun"
  shows "snd (popPendingKeyWithoutLock eq k dryRun) =
    eq\<lparr>eq_pending := fst (pq.move (eq_pending eq) (eq_processing eq) k),
       eq_processing := snd (pq.move (eq_pending eq) (eq_processing eq) k)\<rparr>"
  using assms by (auto simp: popPendingKeyWithoutLock_def pq.move_def split: prod.split option.split)

lemma popPendingKey_idle:
  "int (Len (eq_processing eq)) \<ge> eq_processingWindow eq \<or> is_dryRun dryRun \<Longrightarrow>
   snd (popPendingKeyWithoutLock eq k dryRun) = eq"
  by (auto simp: popPendingKeyWithoutLock_def)

lemma popPendingKey_window [simp]:
  "eq_processingWindow (snd (popPendingKeyWithoutLock eq k dryRun)) = eq_processingWindow eq"
  by (auto simp: popPendingKeyWithoutLock_def split: prod.split option.split)

lemma eq_inv_popPendingKey [simp]:
  assumes "eq_inv eq"
  shows "eq_inv (snd (popPendingKeyWithoutLock eq k dryRun))"
proof (cases "int (Len (eq_processing eq)) \<ge> eq_processingWindow eq \<or> is_dryRun dryRun")
  case False
  then show ?thesis
    using assms pq.inv_move [of "eq_pending eq" "eq_processing eq" k]
    by (simp add: popPendingKey_move eq_inv_def)
qed (simp add: assms popPendingKey_idle)

lemma eq_inv_PopPending [simp]: "eq_inv eq \<Longrightarrow> eq_inv (snd (PopPending eq dryRun))"
  by (simp add: PopPending_def split: option.split)

lemma eq_inv_PopProcessing [simp]: "eq_inv eq \<Longrightarrow> eq_inv (snd (PopProcessing eq k dryRun))"
  by (simp add: PopProcessing_def eq_inv_def pq.inv_remove)

text \<open>The whole effect of a pop of a given key.\<close>

lemma popPendingKey_effect:
  fixes k :: key
  assumes "eq_inv eq" and "eq_disjoint eq"
    and "int (Len (eq_processing eq)) < eq_processingWindow eq" and "\<not> is_dryRun dryRun"
  defines "eq' \<equiv> snd (popPendingKeyWithoutLock eq k dryRun)"
  shows "pending_of eq' = (pending_of eq)(k := None)"
    and "processing_of eq' =
      (if pending_of eq k = None then processing_of eq else (processing_of eq)(k := pending_of eq k))"
    and "fst (popPendingKeyWithoutLock eq k dryRun) = (if pending_of eq k = None then '''' else k)"
    and "eq_disjoint eq'" and "pending_of eq' ++ processing_of eq' = pending_of eq ++ processing_of eq"
proof -
  have inv: "pq_inv (eq_pending eq)" "pq_inv (eq_processing eq)"
    and disj: "dom (pending_of eq) \<inter> dom (processing_of eq) = {}"
    using assms(1,2) by (simp_all add: eq_inv_def eq_disjoint_def)
  have eq': "eq_pending eq' = fst (pq.move (eq_pending eq) (eq_processing eq) k)"
    "eq_processing eq' = snd (pq.move (eq_pending eq) (eq_processing eq) k)"
    using assms(3,4) by (simp_all add: eq'_def popPendingKey_move)
  show "pending_of eq' = (pending_of eq)(k := None)"
    using inv by (simp add: eq' pq.cont_fst_move)
  show "processing_of eq' =
      (if pending_of eq k = None then processing_of eq else (processing_of eq)(k := pending_of eq k))"
    using pq.cont_snd_move [OF inv disj] by (simp add: eq')
  show "eq_disjoint eq'" "pending_of eq' ++ processing_of eq' = pending_of eq ++ processing_of eq"
    using pq.move_contents [OF inv disj] by (simp_all add: eq' eq_disjoint_def)
  show "fst (popPendingKeyWithoutLock eq k dryRun) = (if pending_of eq k = None then '''' else k)"
    using assms(3,4) pq.remove_None_iff [OF inv(1), of k] pq.remove_SomeD(1) [OF inv(1), of k]
    by (auto simp: popPendingKeyWithoutLock_def split: prod.splits option.splits)
qed

section \<open>Runs with a fixed window\<close>

text \<open>The steps other goroutines may take on a queue whose window is not changed.\<close>

inductive eq_step :: "EnhancedQueue \<Rightarrow> EnhancedQueue \<Rightarrow> bool" where
  step_Add: "eq_step eq (eq_Add eq k p t)"
| step_PopPending: "eq_step eq (snd (PopPending eq dryRun))"
| step_PopPendingKey: "eq_step eq (snd (PopPendingKey eq k dryRun))"
| step_PopProcessing: "eq_step eq (snd (PopProcessing eq k dryRun))"

definition within_window :: "EnhancedQueue \<Rightarrow> bool" where
  "within_window eq \<longleftrightarrow> int (Len (eq_processing eq)) \<le> max 0 (eq_processingWindow eq)"

lemma popPendingKey_within_window:
  assumes "eq_inv eq" and "within_window eq"
  shows "within_window (snd (popPendingKeyWithoutLock eq k dryRun))"
proof (cases "int (Len (eq_processing eq)) \<ge> eq_processingWindow eq \<or> is_dryRun dryRun")
  case False
  obtain o' p' where r: "Remove (eq_pending eq) k = (o', p')" by (cases "Remove (eq_pending eq) k")
  show ?thesis
    using False assms pq.len_add [of "eq_processing eq"] r
    by (auto simp: within_window_def popPendingKeyWithoutLock_def eq_inv_def split: option.split)
qed (simp add: assms popPendingKey_idle)

lemma eq_step_invariant:
  assumes "eq_step eq eq'" and "eq_inv eq" and "within_window eq"
  shows "eq_inv eq' \<and> within_window eq' \<and> eq_processingWindow eq' = eq_processingWindow eq"
  using assms(1)
proof cases
  case (step_Add k p t)
  then show ?thesis using assms by (simp add: within_window_def eq_Add_def eq_inv_def pq.inv_add)
next
  case (step_PopPending dryRun)
  then show ?thesis
    using assms popPendingKey_within_window by (simp add: PopPending_def split: option.split)
next
  case (step_PopPendingKey k dryRun)
  then show ?thesis using assms popPendingKey_within_window by (simp add: PopPendingKey_def)
next
  case (step_PopProcessing k dryRun)
  then show ?thesis
    using assms pq.len_remove [of "eq_processing eq" k]
    by (auto simp: PopProcessing_def within_window_def eq_inv_def pq.inv_remove split: if_splits)
qed

lemma eq_steps_invariant:
  assumes "eq_step\<^sup>*\<^sup>* eq eq'" and "eq_inv eq" and "within_window eq"
  shows "eq_inv eq' \<and> within_window eq' \<and> eq_processingWindow eq' = eq_processingWindow eq"
  using assms(1)
proof induction
  case (step y z)
  then show ?case using eq_step_invariant [of y z] by auto
qed (use assms in simp)

section \<open>Properties\<close>

text \<open>
  C14: as long as the window is not changed, every interleaving of additions and pops on a new
  enhanced queue keeps at most \<open>window\<close> keys in processing (none for a negative window).\<close>

theorem processing_within_window:
  assumes "eq_step\<^sup>*\<^sup>* (NewEnhancedQueue w) eq"
  shows "int (Len (ProcessingQueue eq)) \<le> max 0 w \<and> ProcessingWindow eq = w"
proof -
  have "within_window (NewEnhancedQueue w)" "eq_processingWindow (NewEnhancedQueue w) = w"
    by (simp_all add: within_window_def NewEnhancedQueue_def pq.len_new)
  with eq_steps_invariant [OF assms] show ?thesis
    by (auto simp: within_window_def ProcessingQueue_def ProcessingWindow_def)
qed

theorem processing_within_window_witness:
  "int (Len (ProcessingQueue (snd (PopPending (eq_Add (NewEnhancedQueue 1) ''k'' 5 7) [])))) \<le> 1"
proof -
  have "eq_step\<^sup>*\<^sup>* (NewEnhancedQueue 1) (snd (PopPending (eq_Add (NewEnhancedQueue 1) ''k'' 5 7) []))"
    using step_Add [of "NewEnhancedQueue 1" "''k''" 5 7] step_PopPending
    by (meson rtranclp.rtrancl_into_rtrancl rtranclp.rtrancl_refl)
  from processing_within_window [OF this] show ?thesis by simp
qed

text \<open>
  popping a key of the pending queue while the window has room moves it, with its priority and
  creation time, to the processing queue; nothing else changes and no key is lost or held
  twice. A key that is not pending pops nothing.\<close>

theorem PopPendingKey_moves:
  assumes "eq_inv eq" and "eq_disjoint eq" and "int (Len (eq_processing eq)) < eq_processingWindow eq"
  shows "case PopPendingKey eq k [] of (popped, eq') \<Rightarrow>
    popped = (if InPending eq k then k else '''') \<and>
    pending_of eq' = (pending_of eq)(k := None) \<and>
    processing_of eq' =
      (if InPending eq k then (processing_of eq)(k := pending_of eq k) else processing_of eq) \<and>
    eq_disjoint eq' \<and> eq_inv eq' \<and>
    pending_of eq' ++ processing_of eq' = pending_of eq ++ processing_of eq"
  using popPendingKey_effect [OF assms, of "[]" k] eq_inv_popPendingKey [OF assms(1), of k "[]"]
  by (auto simp: PopPendingKey_def is_dryRun_def InPending_def inPending_contents split: prod.split)

theorem PopPendingKey_moves_witness:
  "fst (PopPendingKey (eq_Add (NewEnhancedQueue 1) ''k'' 5 7) ''k'' []) = ''k''"
proof -
  let ?eq = "eq_Add (NewEnhancedQueue 1) ''k'' 5 7"
  have "eq_disjoint ?eq" "int (Len (eq_processing ?eq)) < eq_processingWindow ?eq" "InPending ?eq ''k''"
    by (simp_all add: eq_disjoint_def eq_Add_def NewEnhancedQueue_def contents_New pq.len_new
        InPending_def inPending_contents pq.cont_add pq_inv_New added_def NewItem_def)
  with PopPendingKey_moves [of ?eq "''k''"] show ?thesis by (auto split: prod.splits)
qed

text \<open>
  A dry run of \<open>PopPending\<close> answers exactly what the real pop would answer, and changes
  nothing.\<close>

theorem PopPending_dryRun_predicts:
  assumes "eq_inv eq"
  shows "PopPending eq [True] = (fst (PopPending eq []), eq)"
proof (cases "pq_items (eq_pending eq) = []")
  case True
  then show ?thesis by (simp add: PopPending_def Peek_def)
next
  case False
  have inv: "pq_inv (eq_pending eq)" using assms by (simp add: eq_inv_def)
  let ?k = "di_key (item_at (eq_pending eq) 0)"
  have "fst (Remove (eq_pending eq) ?k) \<noteq> None"
    using pq.remove_None_iff [OF inv] contents_first [OF inv False] by simp
  then obtain it where it: "fst (Remove (eq_pending eq) ?k) = Some it" by blast
  from pq.remove_SomeD(1) [OF inv it] it False show ?thesis
    by (auto simp: PopPending_def Peek_def popPendingKeyWithoutLock_def is_dryRun_def
        split: prod.splits option.splits)
qed

theorem PopPending_dryRun_predicts_witness:
  "fst (PopPending (eq_Add (NewEnhancedQueue 0) ''k'' 5 7) [True]) =
   fst (PopPending (eq_Add (NewEnhancedQueue 0) ''k'' 5 7) [])"
  using PopPending_dryRun_predicts [of "eq_Add (NewEnhancedQueue 0) ''k'' 5 7"] by simp

text \<open>
  the dry run of \<open>PopPendingKey\<close> does not look into the pending queue: with room in the window
  it answers that any key at all can be popped, where the real pop answers that nothing was
  popped.\<close>

lemma PopPendingKey_dryRun_unchecked:
  "let eq = NewEnhancedQueue 1 in
   fst (PopPendingKey eq ''absent'' [True]) = ''absent'' \<and> fst (PopPendingKey eq ''absent'' []) = ''''"
  by code_simp

text \<open>
  \<open>PopProcessing\<close> removes a key that is being processed and returns it, and otherwise changes
  nothing; a dry run answers the same and changes nothing.\<close>

theorem PopProcessing_effect:
  assumes "eq_inv eq"
  shows "case PopProcessing eq k [] of (popped, eq') \<Rightarrow>
    popped = (if InProcessing eq k then k else '''') \<and>
    processing_of eq' = (processing_of eq)(k := None) \<and>
    eq_pending eq' = eq_pending eq \<and> \<not> InProcessing eq' k \<and> eq_inv eq' \<and>
    PopProcessing eq k [True] = (popped, eq)"
  using assms pq.cont_remove [of "eq_processing eq" k] pq.inv_remove [of "eq_processing eq" k]
  by (cases "processing_of eq k") (auto simp: PopProcessing_def is_dryRun_def InProcessing_def
      inProcessing_contents eq_inv_def fun_upd_idem split: prod.split)

theorem PopProcessing_effect_witness:
  "fst (PopProcessing (NewEnhancedQueue 1) ''k'' []) = ''''"
  using PopProcessing_effect [OF eq_inv_New [of 1], of "''k''"]
  by (simp add: InProcessing_def inProcessing_contents NewEnhancedQueue_def contents_New
      split: prod.splits)

text \<open>
  adding a key that is being processed puts it in the pending queue as well: the enhanced queue
  does not keep the two queues disjoint by itself.\<close>

lemma Add_of_processing_key_is_held_twice:
  "let eq = snd (PopPending (eq_Add (NewEnhancedQueue 1) ''k'' 5 7) []);
       eq' = eq_Add eq ''k'' 5 7
   in InProcessing eq ''k'' \<and> \<not> InPending eq ''k'' \<and> InProcessing eq' ''k'' \<and> InPending eq' ''k''"
  by code_simp

text \<open>
  restoring an enhanced queue from its snapshot gives the same contents of both queues and the
  same window, whatever the queue it is restored into.\<close>

theorem eq_snapshot_roundtrip:
  assumes "eq_inv eq"
  shows "eq_Export (eq_Import eq0 (eq_Export eq)) = eq_Export eq \<and>
    pending_of (eq_Import eq0 (eq_Export eq)) = pending_of eq \<and>
    processing_of (eq_Import eq0 (eq_Export eq)) = processing_of eq \<and>
    ProcessingWindow (eq_Import eq0 (eq_Export eq)) = ProcessingWindow eq \<and>
    eq_inv (eq_Import eq0 (eq_Export eq))"
  using assms Import_Export_inv [of "eq_pending eq"] Import_Export_inv [of "eq_processing eq"]
  by (simp add: eq_Export_def eq_Import_def ProcessingWindow_def eq_inv_def)

theorem eq_snapshot_roundtrip_witness:
  "ProcessingWindow (eq_Import (NewEnhancedQueue 0) (eq_Export (NewEnhancedQueue 10))) = 10"
  using eq_snapshot_roundtrip [OF eq_inv_New [of 10], of "NewEnhancedQueue 0"]
  by (simp add: ProcessingWindow_def NewEnhancedQueue_def)

end
