(* ===== verification/Throttler.thy ===== *)
theory Throttler
  imports Enhanced_Queue
begin

text \<open>
  The throttler (\<open>pipengine/queue/throttler\<close>): named enhanced queues, and for every key the
  queues it was added to. A key is popped from all its queues or from none.

  The two maps share the queues by pointer, so the queues live in a store and the maps hold
  references. Go's \<open>range\<close> over a map visits the keys in an order the program cannot know; the
  operations that do so take that order as an argument, a list of the map's keys. The theorems
  hold for every order, and \<open>PopPending\<close> and \<open>PopProcessing\<close> are shown not to depend on it.
\<close>

section \<open>State\<close>

record AddKeyToQueueRequest =
  ar_QueueName :: string
  ar_QueueWindow :: "int option"
  ar_Priority :: int
  ar_CreationTime :: time

record PopDetail =
  pd_QueueName :: string
  pd_CanPop :: bool
  pd_Reason :: string

type_synonym queue_refs = "string \<rightharpoonup> nat"

record throttler =
  th_name :: string
  th_queueByName :: queue_refs
  th_keyRelatedQueues :: "key \<rightharpoonup> queue_refs"
  th_store :: "nat \<Rightarrow> EnhancedQueue"
  th_fresh :: nat

definition newPopDetail :: "string \<Rightarrow> bool \<Rightarrow> string \<Rightarrow> PopDetail" where
  "newPopDetail qName canPop reason =
     \<lparr>pd_QueueName = qName, pd_CanPop = canPop, pd_Reason = reason\<rparr>"

definition set_queue :: "throttler \<Rightarrow> nat \<Rightarrow> EnhancedQueue \<Rightarrow> throttler" where
  "set_queue t r eq = t\<lparr>th_store := (th_store t)(r := eq)\<rparr>"

definition defaultQueueWindow :: int where
  "defaultQueueWindow = 100"

section \<open>Adding queues and keys\<close>

definition addQueue :: "throttler \<Rightarrow> string \<Rightarrow> int \<Rightarrow> nat \<times> throttler" where
  "addQueue t name window =
     (case th_queueByName t name of
        Some r \<Rightarrow>
          (r, (set_queue t r (SetProcessingWindow (th_store t r) window))
                \<lparr>th_queueByName := (th_queueByName t)(name \<mapsto> r)\<rparr>)
      | None \<Rightarrow>
          let r = th_fresh t in
          (r, (set_queue t r (NewEnhancedQueue window))
                \<lparr>th_fresh := Suc r, th_queueByName := (th_queueByName t)(name \<mapsto> r)\<rparr>))"

definition AddQueue :: "throttler \<Rightarrow> string \<Rightarrow> int \<Rightarrow> throttler" where
  "AddQueue t name window = snd (addQueue t name window)"

definition addKeyToQueue :: "throttler \<Rightarrow> key \<Rightarrow> AddKeyToQueueRequest \<Rightarrow> throttler" where
  "addKeyToQueue t k req =
     (let (r, t1) =
        (case th_queueByName t (ar_QueueName req) of
           None \<Rightarrow>
             let queueWindow =
               (case ar_QueueWindow req of None \<Rightarrow> defaultQueueWindow | Some w \<Rightarrow> w)
             in addQueue t (ar_QueueName req) queueWindow
         | Some r \<Rightarrow>
             (r, case ar_QueueWindow req of
                   None \<Rightarrow> t
                 | Some w \<Rightarrow>
                     if w \<noteq> ProcessingWindow (th_store t r)
                     then set_queue t r (SetProcessingWindow (th_store t r) w) else t));
        t2 = set_queue t1 r (eq_Add (th_store t1 r) k (ar_Priority req) (ar_CreationTime req));
        keyQueueByName =
          (case th_keyRelatedQueues t2 k of None \<Rightarrow> Map.empty | Some m \<Rightarrow> m)
      in t2\<lparr>th_keyRelatedQueues :=
              (th_keyRelatedQueues t2)(k \<mapsto> keyQueueByName(ar_QueueName req \<mapsto> r))\<rparr>)"

definition AddKeyToQueues :: "throttler \<Rightarrow> key \<Rightarrow> AddKeyToQueueRequest list \<Rightarrow> throttler" where
  "AddKeyToQueues t k reqs = foldl (\<lambda>t req. addKeyToQueue t k req) t reqs"

definition empty_throttler :: "string \<Rightarrow> throttler" where
  "empty_throttler name =
     \<lparr>th_name = name, th_queueByName = Map.empty, th_keyRelatedQueues = Map.empty,
      th_store = (\<lambda>_. NewEnhancedQueue 0), th_fresh = 0\<rparr>"

text \<open>\<open>initQueues\<close> is the map as the list of its entries in the order of the iteration.\<close>

definition NewNamedThrottler :: "string \<Rightarrow> (string \<times> int) list \<Rightarrow> throttler" where
  "NewNamedThrottler name initQueues =
     foldl (\<lambda>t (qName, window). AddQueue t qName window) (empty_throttler name) initQueues"

definition th_Name :: "throttler \<Rightarrow> string" where
  "th_Name t = th_name t"

section \<open>Popping\<close>

text \<open>The first loop of each pop asks every related queue by a dry run, the second one pops.\<close>

fun dry_loop ::
    "(EnhancedQueue \<Rightarrow> string \<times> EnhancedQueue) \<Rightarrow> string \<Rightarrow> key \<Rightarrow> queue_refs \<Rightarrow> string list \<Rightarrow>
     throttler \<Rightarrow> bool \<Rightarrow> PopDetail list \<Rightarrow> bool \<times> PopDetail list \<times> throttler" where
  "dry_loop pop reason k rq [] t canPop details = (canPop, details, t)"
| "dry_loop pop reason k rq (qName # qs) t canPop details =
     (case rq qName of
        None \<Rightarrow> dry_loop pop reason k rq qs t canPop details
      | Some r \<Rightarrow>
          let (poppedKey, eq) = pop (th_store t r); t' = set_queue t r eq in
          if poppedKey \<noteq> k
          then dry_loop pop reason k rq qs t' False (details @ [newPopDetail qName False reason])
          else dry_loop pop reason k rq qs t' canPop (details @ [newPopDetail qName True '''']))"

fun pop_loop ::
    "(EnhancedQueue \<Rightarrow> string \<times> EnhancedQueue) \<Rightarrow> queue_refs \<Rightarrow> string list \<Rightarrow> throttler \<Rightarrow> throttler" where
  "pop_loop pop rq [] t = t"
| "pop_loop pop rq (qName # qs) t =
     (case rq qName of
        None \<Rightarrow> pop_loop pop rq qs t
      | Some r \<Rightarrow> pop_loop pop rq qs (set_queue t r (snd (pop (th_store t r)))))"

definition th_PopPending ::
    "string list \<Rightarrow> string list \<Rightarrow> throttler \<Rightarrow> key \<Rightarrow> bool \<times> PopDetail list \<times> throttler" where
  "th_PopPending ord1 ord2 t k =
     (case th_keyRelatedQueues t k of
        None \<Rightarrow> (True, [newPopDetail '''' True ''no related queues''], t)
      | Some relatedQueues \<Rightarrow>
          let (canPop, popDetails, t1) =
            dry_loop (\<lambda>eq. PopPending eq [True]) ''cannot pop pending now, waiting for next time''
              k relatedQueues ord1 t True []
          in (canPop, popDetails,
              if canPop then pop_loop (\<lambda>eq. PopPending eq []) relatedQueues ord2 t1 else t1))"

definition th_PopProcessing ::
    "string list \<Rightarrow> string list \<Rightarrow> throttler \<Rightarrow> key \<Rightarrow> bool \<times> PopDetail list \<times> throttler" where
  "th_PopProcessing ord1 ord2 t k =
     (case th_keyRelatedQueues t k of
        None \<Rightarrow> (True, [], t)
      | Some relatedQueues \<Rightarrow>
          let (canPop, popDetails, t1) =
            dry_loop (\<lambda>eq. PopProcessing eq k [True]) ''cannot pop processing now, waiting for next time''
              k relatedQueues ord1 t True []
          in (canPop, popDetails,
              if canPop
              then let t2 = pop_loop (\<lambda>eq. PopProcessing eq k []) relatedQueues ord2 t1
                   in t2\<lparr>th_keyRelatedQueues := (th_keyRelatedQueues t2)(k := None)\<rparr>
              else t1))"

section \<open>Snapshots\<close>

record th_SnapshotObj =
  so_Name :: string
  so_QueueByName :: "string \<rightharpoonup> eq_SnapshotObj"
  so_KeyRelatedQueues :: "key \<rightharpoonup> string list"

text \<open>\<open>qs\<close>, \<open>ks\<close> and \<open>ns k\<close> are the iteration orders over the queues, the keys, and the queues of
  key \<open>k\<close>. A key related to no queue gets no entry, as \<open>append\<close> is never called for it.\<close>

definition th_Export ::
    "string list \<Rightarrow> key list \<Rightarrow> (key \<Rightarrow> string list) \<Rightarrow> throttler \<Rightarrow> th_SnapshotObj" where
  "th_Export qs ks ns t =
     \<lparr>so_Name = th_name t,
      so_QueueByName =
        foldl (\<lambda>m qName. case th_queueByName t qName of
                 None \<Rightarrow> m | Some r \<Rightarrow> m(qName \<mapsto> eq_Export (th_store t r))) Map.empty qs,
      so_KeyRelatedQueues =
        foldl (\<lambda>m k. case th_keyRelatedQueues t k of
                 None \<Rightarrow> m
               | Some rq \<Rightarrow> (let names = filter (\<lambda>n. rq n \<noteq> None) (ns k) in
                   if names = [] then m else m(k \<mapsto> names))) Map.empty ks\<rparr>"

definition import_queue :: "th_SnapshotObj \<Rightarrow> throttler \<Rightarrow> string \<Rightarrow> throttler" where
  "import_queue obj t qName =
     (case so_QueueByName obj qName of
        None \<Rightarrow> t
      | Some raw \<Rightarrow>
          let r = th_fresh t; eq = eq_Import (NewEnhancedQueue 0) raw in
          (set_queue t r eq)\<lparr>th_fresh := Suc r, th_queueByName := (th_queueByName t)(qName \<mapsto> r)\<rparr>)"

definition import_key :: "th_SnapshotObj \<Rightarrow> throttler \<Rightarrow> key \<Rightarrow> throttler" where
  "import_key obj t k =
     (case so_KeyRelatedQueues obj k of
        None \<Rightarrow> t
      | Some names \<Rightarrow>
          t\<lparr>th_keyRelatedQueues := (th_keyRelatedQueues t)
              (k \<mapsto> foldl (\<lambda>m n. m(n := th_queueByName t n)) Map.empty names)\<rparr>)"

definition th_Import :: "string list \<Rightarrow> key list \<Rightarrow> throttler \<Rightarrow> th_SnapshotObj \<Rightarrow> throttler" where
  "th_Import qs ks t obj =
     (let nt = NewNamedThrottler (so_Name obj) [];
          t1 = t\<lparr>th_name := th_name nt, th_queueByName := Map.empty\<rparr>;
          t2 = foldl (import_queue obj) t1 qs;
          t3 = t2\<lparr>th_keyRelatedQueues := Map.empty\<rparr>
      in foldl (import_key obj) t3 ks)"

section \<open>The loops\<close>

lemma set_queue_same [simp]: "set_queue t r (th_store t r) = t"
  by (simp add: set_queue_def)

lemma dry_loop:
  assumes dry: "\<And>eq. snd (pop eq) = eq"
  shows "fst (dry_loop pop reason k rq qs t c ds) \<longleftrightarrow>
      c \<and> list_all (\<lambda>n. case rq n of None \<Rightarrow> True | Some r \<Rightarrow> fst (pop (th_store t r)) = k) qs"
    and "snd (snd (dry_loop pop reason k rq qs t c ds)) = t"
proof (induction qs arbitrary: c ds)
  case (Cons n qs)
  { case 1 show ?case using Cons dry
      by (cases "rq n") (auto simp: split_def Let_def) }
  { case 2 show ?case using Cons dry
      by (cases "rq n") (auto simp: split_def Let_def) }
qed simp_all

definition pop_all ::
    "(EnhancedQueue \<Rightarrow> string \<times> EnhancedQueue) \<Rightarrow> nat set \<Rightarrow> throttler \<Rightarrow> throttler" where
  "pop_all pop rs t = t\<lparr>th_store := (\<lambda>r. if r \<in> rs then snd (pop (th_store t r)) else th_store t r)\<rparr>"

definition enumerates :: "'a list \<Rightarrow> ('a \<rightharpoonup> 'b) \<Rightarrow> bool" where
  "enumerates xs m \<longleftrightarrow> distinct xs \<and> set xs = dom m"

lemma ran_enumerates: "set xs = dom m \<Longrightarrow> {r. \<exists>n\<in>set xs. m n = Some r} = ran m"
  by (auto simp: ran_def)

lemma pop_loop_set:
  assumes "inj_on rq (dom rq)" and "distinct qs"
  shows "pop_loop pop rq qs t = pop_all pop {r. \<exists>n\<in>set qs. rq n = Some r} t"
  using assms(2)
proof (induction qs arbitrary: t)
  case Nil
  then show ?case by (simp add: pop_all_def)
next
  case (Cons n qs)
  show ?case
  proof (cases "rq n")
    case None
    then have "{r. \<exists>m\<in>set (n # qs). rq m = Some r} = {r. \<exists>m\<in>set qs. rq m = Some r}" by auto
    with Cons None show ?thesis by simp
  next
    case (Some r)
    have notin: "r \<notin> {r. \<exists>m\<in>set qs. rq m = Some r}"
      using inj_onD [OF assms(1), of _ n] Cons.prems Some by fastforce
    have all: "{r. \<exists>m\<in>set (n # qs). rq m = Some r} = insert r {r. \<exists>m\<in>set qs. rq m = Some r}"
      using Some by auto
    from Cons Some notin show ?thesis
      unfolding all by (auto simp: pop_all_def set_queue_def fun_eq_iff)
  qed
qed

lemma pop_loop:
  "inj_on rq (dom rq) \<Longrightarrow> enumerates qs rq \<Longrightarrow> pop_loop pop rq qs t = pop_all pop (ran rq) t"
  using ran_enumerates [of qs rq] by (auto simp: pop_loop_set enumerates_def)

section \<open>Invariant\<close>

text \<open>Distinct names have distinct queues, every queue is well-formed, and a key is related only
  to queues of the throttler, under their names.\<close>

definition th_inv :: "throttler \<Rightarrow> bool" where
  "th_inv t \<longleftrightarrow>
     inj_on (th_queueByName t) (dom (th_queueByName t)) \<and>
     (\<forall>r\<in>ran (th_queueByName t). r < th_fresh t \<and> eq_inv (th_store t r)) \<and>
     (\<forall>rq\<in>ran (th_keyRelatedQueues t). rq \<subseteq>\<^sub>m th_queueByName t)"

lemma th_invD:
  assumes "th_inv t"
  shows "inj_on (th_queueByName t) (dom (th_queueByName t))"
    and "th_queueByName t n = Some r \<Longrightarrow> r < th_fresh t \<and> eq_inv (th_store t r)"
    and "th_keyRelatedQueues t k = Some rq \<Longrightarrow> rq \<subseteq>\<^sub>m th_queueByName t"
  using assms by (auto simp: th_inv_def ran_def)

lemma related_inj:
  assumes "th_inv t" and "th_keyRelatedQueues t k = Some rq"
  shows "inj_on rq (dom rq)"
proof (rule inj_onI)
  fix x y assume *: "x \<in> dom rq" "y \<in> dom rq" "rq x = rq y"
  have le: "rq \<subseteq>\<^sub>m th_queueByName t" using th_invD(3) assms by blast
  then have "th_queueByName t x = th_queueByName t y" using * unfolding map_le_def by metis
  with th_invD(1) [OF assms(1)] * le show "x = y"
    unfolding map_le_def inj_on_def by (metis domIff)
qed

lemma related_queue:
  assumes "th_inv t" and "th_keyRelatedQueues t k = Some rq" and "rq n = Some r"
  shows "th_queueByName t n = Some r" and "eq_inv (th_store t r)"
proof -
  show q: "th_queueByName t n = Some r"
    using th_invD(3) [OF assms(1,2)] assms(3) by (metis domI map_le_def)
  show "eq_inv (th_store t r)" using th_invD(2) [OF assms(1) q] by simp
qed

lemma th_inv_set_queue: "th_inv t \<Longrightarrow> eq_inv eq \<Longrightarrow> th_inv (set_queue t r eq)"
  by (auto simp: th_inv_def set_queue_def)

lemma th_inv_pop_all:
  assumes "th_inv t" and "\<And>eq. eq_inv eq \<Longrightarrow> eq_inv (snd (pop eq))"
  shows "th_inv (pop_all pop rs t)"
  using assms by (auto simp: th_inv_def pop_all_def)

lemma inj_on_upd_fresh:
  fixes f :: nat
  assumes "inj_on m (dom m)" and "\<forall>r\<in>ran m. r < f"
  shows "inj_on (m(n \<mapsto> f)) (dom (m(n \<mapsto> f)))"
proof (rule inj_onI)
  fix x y assume *: "x \<in> dom (m(n \<mapsto> f))" "y \<in> dom (m(n \<mapsto> f))" "(m(n \<mapsto> f)) x = (m(n \<mapsto> f)) y"
  have "m x \<noteq> Some f" for x using assms(2) by (metis less_irrefl ranI)
  with * show "x = y"
    using inj_onD [OF assms(1), of x y] by (auto split: if_splits)
qed

lemma addQueue_inv:
  assumes "th_inv t"
  shows "th_inv (snd (addQueue t n w))"
    and "th_queueByName (snd (addQueue t n w)) n = Some (fst (addQueue t n w))"
proof -
  show "th_queueByName (snd (addQueue t n w)) n = Some (fst (addQueue t n w))"
    by (simp add: addQueue_def Let_def split: option.split)
  show "th_inv (snd (addQueue t n w))"
  proof (cases "th_queueByName t n")
    case None
    have inj: "inj_on ((th_queueByName t)(n \<mapsto> th_fresh t)) (dom ((th_queueByName t)(n \<mapsto> th_fresh t)))"
      using assms by (intro inj_on_upd_fresh) (auto simp: th_inv_def)
    have le: "rq \<subseteq>\<^sub>m (th_queueByName t)(n \<mapsto> th_fresh t)" if "rq \<subseteq>\<^sub>m th_queueByName t" for rq
      using that None unfolding map_le_def by (auto simp: domIff) (metis domIff)
    show ?thesis
      using assms None inj le
      by (auto simp: th_inv_def addQueue_def set_queue_def Let_def ran_def less_Suc_eq split: if_splits)
  next
    case (Some r)
    then have "(th_queueByName t)(n \<mapsto> r) = th_queueByName t" by (simp add: fun_upd_idem)
    with assms Some th_invD(2) [OF assms Some] show ?thesis
      by (auto simp: th_inv_def addQueue_def set_queue_def)
  qed
qed

lemma addKeyToQueue_inv:
  assumes "th_inv t"
  shows "th_inv (addKeyToQueue t k req)"
proof -
  define rt where "rt =
    (case th_queueByName t (ar_QueueName req) of
       None \<Rightarrow>
         let queueWindow = (case ar_QueueWindow req of None \<Rightarrow> defaultQueueWindow | Some w \<Rightarrow> w)
         in addQueue t (ar_QueueName req) queueWindow
     | Some r \<Rightarrow>
         (r, case ar_QueueWindow req of
               None \<Rightarrow> t
             | Some w \<Rightarrow>
                 if w \<noteq> ProcessingWindow (th_store t r)
                 then set_queue t r (SetProcessingWindow (th_store t r) w) else t))"
  obtain r t1 where rt': "rt = (r, t1)" by (cases rt)
  have t1: "th_inv t1 \<and> th_queueByName t1 (ar_QueueName req) = Some r"
  proof (cases "th_queueByName t (ar_QueueName req)")
    case None
    then have "(r, t1) = addQueue t (ar_QueueName req)
        (case ar_QueueWindow req of None \<Rightarrow> defaultQueueWindow | Some w \<Rightarrow> w)"
      using rt' by (simp add: rt_def Let_def)
    with addQueue_inv [OF assms, of "ar_QueueName req"] show ?thesis
      by (metis fst_conv snd_conv)
  next
    case (Some r')
    then show ?thesis
      using rt_def rt' assms th_invD(2) [OF assms Some]
      by (auto simp: th_inv_set_queue split: option.splits if_splits) (auto simp: set_queue_def)
  qed
  let ?t2 = "set_queue t1 r (eq_Add (th_store t1 r) k (ar_Priority req) (ar_CreationTime req))"
  have t2: "th_inv ?t2" "th_queueByName ?t2 (ar_QueueName req) = Some r"
    using t1 th_invD(2) [of t1] by (auto intro!: th_inv_set_queue) (simp add: set_queue_def)
  let ?m = "case th_keyRelatedQueues ?t2 k of None \<Rightarrow> Map.empty | Some m \<Rightarrow> m"
  have "?m \<subseteq>\<^sub>m th_queueByName ?t2"
    using th_invD(3) [OF t2(1), of k] by (auto split: option.split)
  then have "?m(ar_QueueName req \<mapsto> r) \<subseteq>\<^sub>m th_queueByName ?t2"
    using t2(2) by (simp add: map_le_def)
  moreover have "addKeyToQueue t k req =
      ?t2\<lparr>th_keyRelatedQueues := (th_keyRelatedQueues ?t2)(k \<mapsto> ?m(ar_QueueName req \<mapsto> r))\<rparr>"
    using rt' by (simp add: addKeyToQueue_def rt_def [symmetric]) (simp add: Let_def)
  ultimately show ?thesis using t2(1) by (auto simp: th_inv_def ran_def)
qed

lemma AddKeyToQueues_inv: "th_inv t \<Longrightarrow> th_inv (AddKeyToQueues t k reqs)"
  by (induction reqs arbitrary: t) (simp_all add: AddKeyToQueues_def addKeyToQueue_inv)

lemma empty_throttler_inv: "th_inv (empty_throttler n)"
  by (simp add: th_inv_def empty_throttler_def)

lemma NewNamedThrottler_inv: "th_inv (NewNamedThrottler n qs)"
proof -
  have "th_inv t \<Longrightarrow> th_inv (foldl (\<lambda>t (qName, window). AddQueue t qName window) t qs)" for t
    by (induction qs arbitrary: t) (auto simp: AddQueue_def addQueue_inv)
  then show ?thesis by (simp add: NewNamedThrottler_def empty_throttler_inv)
qed

section \<open>The pops\<close>

lemma PopPending_dry: "snd (PopPending eq [True]) = eq"
  by (auto simp: PopPending_def popPendingKey_idle is_dryRun_def split: option.split)

lemma PopProcessing_dry: "snd (PopProcessing eq k [True]) = eq"
  by (simp add: PopProcessing_def is_dryRun_def)

definition all_related :: "(EnhancedQueue \<Rightarrow> bool) \<Rightarrow> throttler \<Rightarrow> queue_refs \<Rightarrow> bool" where
  "all_related P t rq \<longleftrightarrow> (\<forall>r\<in>ran rq. P (th_store t r))"

lemma list_all_enumerates:
  "enumerates qs rq \<Longrightarrow>
   list_all (\<lambda>n. case rq n of None \<Rightarrow> True | Some r \<Rightarrow> Q (th_store t r)) qs \<longleftrightarrow> all_related Q t rq"
  by (fastforce simp: all_related_def enumerates_def list_all_iff ran_def dom_def split: option.split)

lemma th_PopPending_related:
  assumes "th_inv t" and "th_keyRelatedQueues t k = Some rq"
    and "enumerates o1 rq" and "enumerates o2 rq"
  shows "fst (th_PopPending o1 o2 t k) \<longleftrightarrow> all_related (\<lambda>eq. fst (PopPending eq [True]) = k) t rq"
    and "snd (snd (th_PopPending o1 o2 t k)) =
      (if fst (th_PopPending o1 o2 t k) then pop_all (\<lambda>eq. PopPending eq []) (ran rq) t else t)"
proof -
  let ?d = "dry_loop (\<lambda>eq. PopPending eq [True]) ''cannot pop pending now, waiting for next time''
              k rq o1 t True []"
  have d: "fst ?d \<longleftrightarrow> all_related (\<lambda>eq. fst (PopPending eq [True]) = k) t rq" "snd (snd ?d) = t"
    using list_all_enumerates [OF assms(3)] by (simp_all add: dry_loop PopPending_dry)
  then show "fst (th_PopPending o1 o2 t k) \<longleftrightarrow> all_related (\<lambda>eq. fst (PopPending eq [True]) = k) t rq"
    using assms(2) by (simp add: th_PopPending_def split_def Let_def)
  show "snd (snd (th_PopPending o1 o2 t k)) =
      (if fst (th_PopPending o1 o2 t k) then pop_all (\<lambda>eq. PopPending eq []) (ran rq) t else t)"
    using assms(2) d(2) pop_loop [OF related_inj [OF assms(1,2)] assms(4)]
    by (auto simp: th_PopPending_def split_def Let_def)
qed

lemma th_PopProcessing_related:
  assumes "th_inv t" and "th_keyRelatedQueues t k = Some rq"
    and "enumerates o1 rq" and "enumerates o2 rq"
  shows "fst (th_PopProcessing o1 o2 t k) \<longleftrightarrow>
      all_related (\<lambda>eq. fst (PopProcessing eq k [True]) = k) t rq"
    and "snd (snd (th_PopProcessing o1 o2 t k)) =
      (if fst (th_PopProcessing o1 o2 t k)
       then (pop_all (\<lambda>eq. PopProcessing eq k []) (ran rq) t)
              \<lparr>th_keyRelatedQueues := (th_keyRelatedQueues t)(k := None)\<rparr>
       else t)"
proof -
  let ?d = "dry_loop (\<lambda>eq. PopProcessing eq k [True])
              ''cannot pop processing now, waiting for next time'' k rq o1 t True []"
  have d: "fst ?d \<longleftrightarrow> all_related (\<lambda>eq. fst (PopProcessing eq k [True]) = k) t rq"
      "snd (snd ?d) = t"
    using list_all_enumerates [OF assms(3)] by (simp_all add: dry_loop PopProcessing_dry)
  then show "fst (th_PopProcessing o1 o2 t k) \<longleftrightarrow>
      all_related (\<lambda>eq. fst (PopProcessing eq k [True]) = k) t rq"
    using assms(2) by (simp add: th_PopProcessing_def split_def Let_def)
  have "th_keyRelatedQueues (pop_all pop rs t) = th_keyRelatedQueues t" for pop rs
    by (simp add: pop_all_def)
  then show "snd (snd (th_PopProcessing o1 o2 t k)) =
      (if fst (th_PopProcessing o1 o2 t k)
       then (pop_all (\<lambda>eq. PopProcessing eq k []) (ran rq) t)
              \<lparr>th_keyRelatedQueues := (th_keyRelatedQueues t)(k := None)\<rparr>
       else t)"
    using assms(2) d(2) pop_loop [OF related_inj [OF assms(1,2)] assms(4)]
    by (auto simp: th_PopProcessing_def split_def Let_def)
qed

lemma PopPending_dry_key:
  assumes "eq_inv eq" and "fst (PopPending eq [True]) = k" and "k \<noteq> ''''"
  shows "PopPending eq [] = PopPendingKey eq k []" and "InPending eq k"
    and "int (Len (eq_processing eq)) < eq_processingWindow eq"
proof -
  from assms(2,3) obtain it where it: "Peek (eq_pending eq) = Some it" "di_key it = k"
    and win: "int (Len (eq_processing eq)) < eq_processingWindow eq"
    by (auto simp: PopPending_def popPendingKeyWithoutLock_def is_dryRun_def
        split: option.splits if_splits)
  then show "PopPending eq [] = PopPendingKey eq k []"
    and "int (Len (eq_processing eq)) < eq_processingWindow eq"
    by (simp_all add: PopPending_def PopPendingKey_def)
  have "pq_items (eq_pending eq) \<noteq> []" "it = item_at (eq_pending eq) 0"
    using it(1) by (auto simp: Peek_def split: if_splits)
  with contents_first [of "eq_pending eq"] assms(1) it(2) show "InPending eq k"
    by (simp add: InPending_def inPending_contents eq_inv_def)
qed

lemma PopPendingKey_InProcessing:
  assumes "eq_inv eq" and "InPending eq k" and "int (Len (eq_processing eq)) < eq_processingWindow eq"
  shows "InProcessing (snd (PopPendingKey eq k [])) k \<and> \<not> InPending (snd (PopPendingKey eq k [])) k"
proof -
  have inv: "pq_inv (eq_pending eq)" "pq_inv (eq_processing eq)" using assms by (simp_all add: eq_inv_def)
  have "pending_of eq k \<noteq> None" using assms(2) by (simp add: InPending_def inPending_contents)
  with pq.remove_None_iff [OF inv(1)] obtain it where it: "fst (Remove (eq_pending eq) k) = Some it"
    by fastforce
  then obtain p where p: "Remove (eq_pending eq) k = (Some it, p)"
    by (cases "Remove (eq_pending eq) k") simp
  with pq.cont_remove [OF inv(1), of k] pq.remove_SomeD(1) [OF inv(1) it] assms(3)
  show ?thesis
    by (simp add: PopPendingKey_def popPendingKeyWithoutLock_def is_dryRun_def InProcessing_def
        InPending_def inPending_contents inProcessing_contents pq.cont_add [OF inv(2)] added_def)
qed

lemma ran_fun_upd_None: "ran (m(k := None)) \<subseteq> ran m"
  by (auto simp: ran_def split: if_splits)

section \<open>Properties\<close>

text \<open>
  C10: \<open>PopPending\<close> of a key is all or nothing and does not depend on the order in which the maps are
  visited: it succeeds exactly when the key heads every queue it is related to and each has room
  in its window; then the key moves from pending to processing in every one of them and no
  other queue changes; otherwise nothing changes.\<close>

theorem throttler_PopPending_all_or_nothing:
  assumes "th_inv t" and "th_keyRelatedQueues t k = Some rq" and "k \<noteq> ''''"
    and "enumerates o1 rq" and "enumerates o2 rq"
  shows "case th_PopPending o1 o2 t k of (canPop, details, t') \<Rightarrow>
    (canPop \<longleftrightarrow> (\<forall>r\<in>ran rq. fst (PopPending (th_store t r) [True]) = k)) \<and>
    (\<not> canPop \<longrightarrow> t' = t) \<and>
    (canPop \<longrightarrow>
       t' = t\<lparr>th_store := (\<lambda>r. if r \<in> ran rq then snd (PopPendingKey (th_store t r) k []) else th_store t r)\<rparr> \<and>
       (\<forall>r\<in>ran rq. InProcessing (th_store t' r) k \<and> \<not> InPending (th_store t' r) k)) \<and>
    th_inv t'"
proof -
  obtain c ds t' where res: "th_PopPending o1 o2 t k = (c, ds, t')" by (cases "th_PopPending o1 o2 t k")
  note rel = th_PopPending_related [OF assms(1,2,4,5), unfolded res fst_conv snd_conv]
  have inv: "eq_inv (th_store t r)" if "r \<in> ran rq" for r
    using that related_queue(2) [OF assms(1,2)] by (auto simp: ran_def)
  have c: "c \<longleftrightarrow> (\<forall>r\<in>ran rq. fst (PopPending (th_store t r) [True]) = k)"
    using rel(1) by (simp add: all_related_def)
  have same: "PopPending (th_store t r) [] = PopPendingKey (th_store t r) k []"
    "InProcessing (snd (PopPendingKey (th_store t r) k [])) k \<and>
     \<not> InPending (snd (PopPendingKey (th_store t r) k [])) k" if "c" "r \<in> ran rq" for r
    using PopPending_dry_key [OF inv [OF that(2)] _ assms(3)] PopPendingKey_InProcessing [OF inv [OF that(2)]]
      c that by simp_all
  have "th_inv t'"
    using rel(2) assms(1) th_inv_pop_all [OF assms(1), of "\<lambda>eq. PopPending eq []"] by (auto split: if_splits)
  moreover have "t' = t\<lparr>th_store := (\<lambda>r. if r \<in> ran rq then snd (PopPendingKey (th_store t r) k []) else th_store t r)\<rparr>"
    if c
  proof -
    have "(\<lambda>r. if r \<in> ran rq then snd (PopPending (th_store t r) []) else th_store t r) =
      (\<lambda>r. if r \<in> ran rq then snd (PopPendingKey (th_store t r) k []) else th_store t r)"
      using same(1) [OF that] by (intro ext) simp
    then show ?thesis using rel(2) that by (simp add: pop_all_def)
  qed
  ultimately show ?thesis using res c rel(2) same(2) by (auto split: if_splits)
qed

text \<open>
  \<open>PopProcessing\<close> of a key is all or nothing in the same sense: it succeeds exactly when every
  related queue is processing the key; then it leaves the processing queue of every one of
  them and the key is forgotten; otherwise nothing changes.\<close>

theorem throttler_PopProcessing_all_or_nothing:
  assumes "th_inv t" and "th_keyRelatedQueues t k = Some rq" and "k \<noteq> ''''"
    and "enumerates o1 rq" and "enumerates o2 rq"
  shows "case th_PopProcessing o1 o2 t k of (canPop, details, t') \<Rightarrow>
    (canPop \<longleftrightarrow> (\<forall>r\<in>ran rq. InProcessing (th_store t r) k)) \<and>
    (\<not> canPop \<longrightarrow> t' = t) \<and>
    (canPop \<longrightarrow> th_keyRelatedQueues t' = (th_keyRelatedQueues t)(k := None) \<and>
       (\<forall>r. th_store t' r =
          (if r \<in> ran rq then snd (PopProcessing (th_store t r) k []) else th_store t r)) \<and>
       (\<forall>r\<in>ran rq. \<not> InProcessing (th_store t' r) k)) \<and>
    th_inv t'"
proof -
  obtain c ds t' where res: "th_PopProcessing o1 o2 t k = (c, ds, t')"
    by (cases "th_PopProcessing o1 o2 t k")
  note rel = th_PopProcessing_related [OF assms(1,2,4,5), unfolded res fst_conv snd_conv]
  have inv: "eq_inv (th_store t r)" if "r \<in> ran rq" for r
    using that related_queue(2) [OF assms(1,2)] by (auto simp: ran_def)
  have dry: "fst (PopProcessing eq k [True]) = k \<longleftrightarrow> InProcessing eq k" for eq
    using assms(3) by (auto simp: PopProcessing_def is_dryRun_def InProcessing_def)
  have gone: "\<not> InProcessing (snd (PopProcessing (th_store t r) k [])) k" if "r \<in> ran rq" for r
    using inv [OF that] pq.cont_remove [of "eq_processing (th_store t r)" k]
    by (auto simp: PopProcessing_def is_dryRun_def InProcessing_def inProcessing_contents eq_inv_def)
  have "th_inv (pop_all (\<lambda>eq. PopProcessing eq k []) (ran rq) t)"
    by (rule th_inv_pop_all [OF assms(1)]) simp
  then have "th_inv ((pop_all (\<lambda>eq. PopProcessing eq k []) (ran rq) t)
      \<lparr>th_keyRelatedQueues := (th_keyRelatedQueues t)(k := None)\<rparr>)"
    using ran_fun_upd_None [of "th_keyRelatedQueues t" k] by (simp add: th_inv_def pop_all_def) blast
  then have "th_inv t'" using rel(2) assms(1) by (simp split: if_splits)
  then show ?thesis using res rel gone by (auto simp: all_related_def dry pop_all_def split: if_splits)
qed

text \<open>One queue of window 1 with one key in it, for the witnesses.\<close>

definition example_req :: "time \<Rightarrow> AddKeyToQueueRequest" where
  "example_req c = \<lparr>ar_QueueName = ''q'', ar_QueueWindow = Some 1, ar_Priority = 1, ar_CreationTime = c\<rparr>"

definition example_throttler :: throttler where
  "example_throttler = AddKeyToQueues (NewNamedThrottler ''t'' [(''q'', 1)]) ''a'' [example_req 0]"

lemma example_throttler_related: "th_keyRelatedQueues example_throttler ''a'' = Some [''q'' \<mapsto> 0]"
  by (simp add: example_throttler_def NewNamedThrottler_def AddQueue_def addQueue_def AddKeyToQueues_def
      addKeyToQueue_def example_req_def empty_throttler_def set_queue_def ProcessingWindow_def
      NewEnhancedQueue_def Let_def)

lemma example_throttler_inv: "th_inv example_throttler"
  by (simp add: example_throttler_def AddKeyToQueues_inv NewNamedThrottler_inv)

lemma enumerates_single: "enumerates [n] [n \<mapsto> r]"
  by (simp add: enumerates_def)

text \<open>The key \<open>a\<close> is popped, added again, finished, and then \<open>b\<close> is added.\<close>

definition blocked_throttler :: throttler where
  "blocked_throttler =
     AddKeyToQueues
       (snd (snd (th_PopProcessing [''q''] [''q'']
          (AddKeyToQueues
             (snd (snd (th_PopPending [''q''] [''q''] example_throttler ''a'')))
             ''a'' [example_req 0])
          ''a'')))
       ''b'' [example_req 1]"

theorem throttler_PopPending_all_or_nothing_witness:
  "th_inv (snd (snd (th_PopPending [''q''] [''q''] example_throttler ''a'')))"
  using throttler_PopPending_all_or_nothing
    [OF example_throttler_inv example_throttler_related _ enumerates_single enumerates_single]
  by (auto split: prod.splits)

theorem throttler_PopProcessing_all_or_nothing_witness:
  "th_inv (snd (snd (th_PopProcessing [''q''] [''q''] example_throttler ''a'')))"
  using throttler_PopProcessing_all_or_nothing
    [OF example_throttler_inv example_throttler_related _ enumerates_single enumerates_single]
  by (auto split: prod.splits)

text \<open>The states of that run: one queue \<open>eq\<close> named \<open>q\<close>, and the relation \<open>rel\<close>.\<close>

definition one_queue :: "(key \<rightharpoonup> queue_refs) \<Rightarrow> EnhancedQueue \<Rightarrow> throttler" where
  "one_queue rel eq =
     \<lparr>th_name = ''t'', th_queueByName = [''q'' \<mapsto> 0], th_keyRelatedQueues = rel,
      th_store = (\<lambda>_. NewEnhancedQueue 0)(0 := eq), th_fresh = 1\<rparr>"

lemma one_queue_new: "NewNamedThrottler ''t'' [(''q'', w)] = one_queue Map.empty (NewEnhancedQueue w)"
  by (simp add: one_queue_def NewNamedThrottler_def AddQueue_def addQueue_def empty_throttler_def
      set_queue_def Let_def)

lemma one_queue_add:
  "ProcessingWindow eq = 1 \<Longrightarrow>
   AddKeyToQueues (one_queue rel eq) k [example_req c] =
     one_queue (rel(k \<mapsto> (case rel k of None \<Rightarrow> Map.empty | Some m \<Rightarrow> m)(''q'' \<mapsto> 0))) (eq_Add eq k 1 c)"
  by (simp add: one_queue_def AddKeyToQueues_def addKeyToQueue_def example_req_def set_queue_def)

lemma one_queue_pop_pending:
  "rel k = Some [''q'' \<mapsto> 0] \<Longrightarrow>
   fst (th_PopPending [''q''] [''q''] (one_queue rel eq) k) = (fst (PopPending eq [True]) = k)"
  "rel k = Some [''q'' \<mapsto> 0] \<Longrightarrow> fst (PopPending eq [True]) = k \<Longrightarrow>
   snd (snd (th_PopPending [''q''] [''q''] (one_queue rel eq) k)) = one_queue rel (snd (PopPending eq []))"
  by (auto simp: one_queue_def th_PopPending_def split_def Let_def PopPending_dry set_queue_def)

lemma one_queue_pop_processing:
  "rel k = Some [''q'' \<mapsto> 0] \<Longrightarrow> fst (PopProcessing eq k [True]) = k \<Longrightarrow>
   snd (snd (th_PopProcessing [''q''] [''q''] (one_queue rel eq) k)) =
     one_queue (rel(k := None)) (snd (PopProcessing eq k []))"
  by (simp add: one_queue_def th_PopProcessing_def split_def Let_def PopProcessing_dry set_queue_def)

definition ex_eq1 :: EnhancedQueue where "ex_eq1 = eq_Add (NewEnhancedQueue 1) ''a'' 1 0"
definition ex_eq2 :: EnhancedQueue where "ex_eq2 = eq_Add (snd (PopPending ex_eq1 [])) ''a'' 1 0"
definition ex_eq3 :: EnhancedQueue where "ex_eq3 = eq_Add (snd (PopProcessing ex_eq2 ''a'' [])) ''b'' 1 1"

lemma ex_eq_pops:
  "fst (PopPending ex_eq1 [True]) = ''a''" "fst (PopProcessing ex_eq2 ''a'' [True]) = ''a''"
  "fst (PopPending ex_eq3 [True]) = ''a''"
  by code_simp+

lemma ex_eq_windows:
  "ProcessingWindow (NewEnhancedQueue 1) = 1" "ProcessingWindow (snd (PopPending ex_eq1 [])) = 1"
  "ProcessingWindow (snd (PopProcessing ex_eq2 ''a'' [])) = 1"
  by code_simp+

lemma blocked_throttler_eq: "blocked_throttler = one_queue [''b'' \<mapsto> [''q'' \<mapsto> 0]] ex_eq3"
proof -
  let ?a = "[''a'' \<mapsto> [''q'' \<mapsto> 0]] :: key \<rightharpoonup> queue_refs"
  have 1: "example_throttler = one_queue ?a ex_eq1"
    by (simp add: example_throttler_def one_queue_new one_queue_add ex_eq_windows ex_eq1_def)
  have 2: "snd (snd (th_PopPending [''q''] [''q''] example_throttler ''a'')) =
      one_queue ?a (snd (PopPending ex_eq1 []))"
    unfolding 1 by (rule one_queue_pop_pending) (simp_all add: ex_eq_pops)
  have 3: "AddKeyToQueues (one_queue ?a (snd (PopPending ex_eq1 []))) ''a'' [example_req 0] =
      one_queue ?a ex_eq2"
    by (simp add: one_queue_add ex_eq_windows ex_eq2_def)
  have 4: "snd (snd (th_PopProcessing [''q''] [''q''] (one_queue ?a ex_eq2) ''a'')) =
      one_queue Map.empty (snd (PopProcessing ex_eq2 ''a'' []))"
    by (subst one_queue_pop_processing) (simp_all add: ex_eq_pops)
  show ?thesis
    unfolding blocked_throttler_def 2 3 4
    by (simp add: one_queue_add ex_eq_windows ex_eq3_def)
qed

text \<open>
  \<open>AddKeyToQueues\<close> is not idempotent: adding a key again while it is being processed leaves it
  pending after its \<open>PopProcessing\<close>, with no related queue. It then heads the queue for good:
  its own \<open>PopPending\<close> answers true without popping it, and no other key of that queue can be
  popped.\<close>

theorem readded_processing_key_blocks_queue:
  "\<not> fst (th_PopPending [''q''] [''q''] blocked_throttler ''b'') \<and>
   th_PopPending [''q''] [''q''] blocked_throttler ''a'' =
     (True, [newPopDetail '''' True ''no related queues''], blocked_throttler)"
  by (simp add: blocked_throttler_eq one_queue_pop_pending ex_eq_pops)
    (simp add: th_PopPending_def one_queue_def)

end
