(* ===== verification/Pipeline_Status.thy ===== *)
theory Pipeline_Status
  imports Go_Prelude
begin

text \<open>
  The statuses of pipelines and tasks, from \<^verbatim>\<open>src/apistructs/pipeline_status.go\<close>. A
  \<open>PipelineStatus\<close> is a Go string; the constants of the source are constructors of the
  datatype and every other string is \<open>PipelineStatusOther\<close>, so that \<open>status_of_string\<close>
  and \<open>String\<close> are the conversions a status column of the database goes through. The
  lemmas classify the statuses: the end statuses, the running ones, and the transitions of a
  manual review.
\<close>

section \<open>The status type\<close>

datatype PipelineStatus =
    PipelineEmptyStatus
  | PipelineStatusInitializing | PipelineStatusDisabled
  | PipelineStatusAnalyzeFailed | PipelineStatusAnalyzed
  | PipelineStatusBorn | PipelineStatusPaused | PipelineStatusMark | PipelineStatusCreated
  | PipelineStatusQueue | PipelineStatusRunning | PipelineStatusSuccess
  | PipelineStatusFailed | PipelineStatusTimeout
  | PipelineStatusStopByUser | PipelineStatusNoNeedBySystem
  | PipelineStatusCreateError | PipelineStatusStartError | PipelineStatusError
  | PipelineStatusDBError | PipelineStatusUnknown | PipelineStatusLostConn
  | PipelineStatusCancelByRemote
  | PipelineStatusWaitApproval | PipelineStatusApprovalSuccess | PipelineStatusApprovalFail
  | PipelineStatusOther string

primrec String :: "PipelineStatus \<Rightarrow> string" where
  "String PipelineEmptyStatus = ''''"
| "String PipelineStatusInitializing = ''Initializing''"
| "String PipelineStatusDisabled = ''Disabled''"
| "String PipelineStatusAnalyzeFailed = ''AnalyzeFailed''"
| "String PipelineStatusAnalyzed = ''Analyzed''"
| "String PipelineStatusBorn = ''Born''"
| "String PipelineStatusPaused = ''Paused''"
| "String PipelineStatusMark = ''Mark''"
| "String PipelineStatusCreated = ''Created''"
| "String PipelineStatusQueue = ''Queue''"
| "String PipelineStatusRunning = ''Running''"
| "String PipelineStatusSuccess = ''Success''"
| "String PipelineStatusFailed = ''Failed''"
| "String PipelineStatusTimeout = ''Timeout''"
| "String PipelineStatusStopByUser = ''StopByUser''"
| "String PipelineStatusNoNeedBySystem = ''NoNeedBySystem''"
| "String PipelineStatusCreateError = ''CreateError''"
| "String PipelineStatusStartError = ''StartError''"
| "String PipelineStatusError = ''Error''"
| "String PipelineStatusDBError = ''DBError''"
| "String PipelineStatusUnknown = ''Unknown''"
| "String PipelineStatusLostConn = ''LostConn''"
| "String PipelineStatusCancelByRemote = ''CancelByRemote''"
| "String PipelineStatusWaitApproval = ''WaitApprove''"
| "String PipelineStatusApprovalSuccess = ''Accept''"
| "String PipelineStatusApprovalFail = ''Reject''"
| "String (PipelineStatusOther s) = s"

definition named_statuses :: "PipelineStatus list" where
  "named_statuses =
    [PipelineEmptyStatus, PipelineStatusInitializing, PipelineStatusDisabled,
     PipelineStatusAnalyzeFailed, PipelineStatusAnalyzed, PipelineStatusBorn,
     PipelineStatusPaused, PipelineStatusMark, PipelineStatusCreated, PipelineStatusQueue,
     PipelineStatusRunning, PipelineStatusSuccess, PipelineStatusFailed,
     PipelineStatusTimeout, PipelineStatusStopByUser, PipelineStatusNoNeedBySystem,
     PipelineStatusCreateError, PipelineStatusStartError, PipelineStatusError,
     PipelineStatusDBError, PipelineStatusUnknown, PipelineStatusLostConn,
     PipelineStatusCancelByRemote, PipelineStatusWaitApproval,
     PipelineStatusApprovalSuccess, PipelineStatusApprovalFail]"

definition status_of_string :: "string \<Rightarrow> PipelineStatus" where
  "status_of_string s =
     (case find (\<lambda>st. String st = s) named_statuses of
        Some st \<Rightarrow> st
      | None \<Rightarrow> PipelineStatusOther s)"

record PipelineStatusDesc =
  sd_Status :: PipelineStatus
  sd_Desc :: string

definition desc_String :: "PipelineStatusDesc \<Rightarrow> string" where
  "desc_String d =
     (if sd_Desc d = '''' then ''status: '' @ String (sd_Status d)
      else ''status: '' @ String (sd_Status d) @ '', desc: '' @ sd_Desc d)"

section \<open>Predicates\<close>

definition PipelineEndStatuses :: "PipelineStatus list" where
  "PipelineEndStatuses =
    [PipelineStatusSuccess, PipelineStatusAnalyzeFailed, PipelineStatusFailed,
     PipelineStatusTimeout, PipelineStatusStopByUser, PipelineStatusNoNeedBySystem,
     PipelineStatusCreateError, PipelineStatusStartError, PipelineStatusDBError,
     PipelineStatusError, PipelineStatusUnknown, PipelineStatusLostConn,
     PipelineStatusCancelByRemote]"

definition ReconcilerRunningStatuses :: "PipelineStatus list" where
  "ReconcilerRunningStatuses =
    [PipelineStatusBorn, PipelineStatusPaused, PipelineStatusMark, PipelineStatusCreated,
     PipelineStatusQueue, PipelineStatusRunning]"

definition CanPauseTask :: "PipelineStatus \<Rightarrow> bool" where [status_defs]:
  "CanPauseTask status \<longleftrightarrow> status = PipelineStatusBorn"

definition CanUnPauseTask :: "PipelineStatus \<Rightarrow> bool" where [status_defs]:
  "CanUnPauseTask status \<longleftrightarrow> status = PipelineStatusPaused"

definition IsReconcilerRunningStatus :: "PipelineStatus \<Rightarrow> bool" where [status_defs]:
  "IsReconcilerRunningStatus status \<longleftrightarrow>
     (case status of
        PipelineStatusBorn \<Rightarrow> True | PipelineStatusPaused \<Rightarrow> True
      | PipelineStatusMark \<Rightarrow> True | PipelineStatusCreated \<Rightarrow> True
      | PipelineStatusQueue \<Rightarrow> True | PipelineStatusRunning \<Rightarrow> True
      | _ \<Rightarrow> False)"

definition IsBeforePressRunButton :: "PipelineStatus \<Rightarrow> bool" where [status_defs]:
  "IsBeforePressRunButton status \<longleftrightarrow>
     (case status of
        PipelineStatusInitializing \<Rightarrow> True | PipelineStatusAnalyzed \<Rightarrow> True
      | PipelineStatusAnalyzeFailed \<Rightarrow> True
      | _ \<Rightarrow> False)"

definition CanCancel :: "PipelineStatus \<Rightarrow> bool" where [status_defs]:
  "CanCancel status \<longleftrightarrow>
     status = PipelineStatusCreated \<or> status = PipelineStatusQueue \<or>
     status = PipelineStatusRunning"

definition CanEnableDisable :: "PipelineStatus \<Rightarrow> bool" where [status_defs]:
  "CanEnableDisable status \<longleftrightarrow>
     (case status of
        PipelineStatusInitializing \<Rightarrow> True | PipelineStatusAnalyzed \<Rightarrow> True
      | _ \<Rightarrow> False)"

definition CanPause :: "PipelineStatus \<Rightarrow> bool" where [status_defs]:
  "CanPause status \<longleftrightarrow>
     (case status of
        PipelineStatusInitializing \<Rightarrow> True | PipelineStatusAnalyzed \<Rightarrow> True
      | PipelineStatusPaused \<Rightarrow> True
      | _ \<Rightarrow> False)"

definition CanUnpause :: "PipelineStatus \<Rightarrow> bool" where [status_defs]:
  "CanUnpause status \<longleftrightarrow> status = PipelineStatusPaused"

definition IsSuccessStatus :: "PipelineStatus \<Rightarrow> bool" where [status_defs]:
  "IsSuccessStatus status \<longleftrightarrow> status = PipelineStatusSuccess"

definition IsRunningStatus :: "PipelineStatus \<Rightarrow> bool" where [status_defs]:
  "IsRunningStatus status \<longleftrightarrow> status = PipelineStatusRunning"

definition IsNormalFailedStatus :: "PipelineStatus \<Rightarrow> bool" where [status_defs]:
  "IsNormalFailedStatus status \<longleftrightarrow>
     (case status of
        PipelineStatusAnalyzeFailed \<Rightarrow> True | PipelineStatusFailed \<Rightarrow> True
      | PipelineStatusTimeout \<Rightarrow> True | PipelineStatusStopByUser \<Rightarrow> True
      | PipelineStatusNoNeedBySystem \<Rightarrow> True
      | _ \<Rightarrow> False)"

definition IsAbnormalFailedStatus :: "PipelineStatus \<Rightarrow> bool" where [status_defs]:
  "IsAbnormalFailedStatus status \<longleftrightarrow>
     (case status of
        PipelineStatusCreateError \<Rightarrow> True | PipelineStatusStartError \<Rightarrow> True
      | PipelineStatusDBError \<Rightarrow> True | PipelineStatusError \<Rightarrow> True
      | PipelineStatusUnknown \<Rightarrow> True | PipelineStatusLostConn \<Rightarrow> True
      | PipelineStatusCancelByRemote \<Rightarrow> True
      | _ \<Rightarrow> False)"

definition IsFailedStatus :: "PipelineStatus \<Rightarrow> bool" where [status_defs]:
  "IsFailedStatus status \<longleftrightarrow> IsNormalFailedStatus status \<or> IsAbnormalFailedStatus status"

definition IsEndStatus :: "PipelineStatus \<Rightarrow> bool" where [status_defs]:
  "IsEndStatus status \<longleftrightarrow> IsSuccessStatus status \<or> IsFailedStatus status"

definition CanDelete :: "PipelineStatus \<Rightarrow> bool" where [status_defs]:
  "CanDelete status \<longleftrightarrow>
     (if status = PipelineStatusAnalyzed then True
      else if IsEndStatus status then True else False)"

definition AfterPipelineQueue :: "PipelineStatus \<Rightarrow> bool" where [status_defs]:
  "AfterPipelineQueue status \<longleftrightarrow> status = PipelineStatusRunning \<or> IsEndStatus status"

definition ChangeStateForManualReview :: "PipelineStatus \<Rightarrow> PipelineStatus" where
  "ChangeStateForManualReview status =
     (if IsSuccessStatus status then PipelineStatusApprovalSuccess
      else if status = PipelineStatusFailed then PipelineStatusFailed
      else if status = PipelineStatusRunning then PipelineStatusWaitApproval
      else status)"

section \<open>Classification\<close>

lemma String_inject_named:
  assumes "s \<in> set named_statuses" and "t \<in> set named_statuses" and "String s = String t"
  shows "s = t"
proof -
  have "distinct (map String named_statuses)"
    by (simp add: named_statuses_def)
  with assms show ?thesis by (meson distinct_map inj_onD)
qed

lemma named_or_other: "s \<in> set named_statuses \<or> (\<exists>x. s = PipelineStatusOther x)"
  by (cases s) (simp_all add: named_statuses_def)

lemma find_named_String:
  "s \<in> set named_statuses \<Longrightarrow> find (\<lambda>st. String st = String s) named_statuses = Some s"
proof (cases "find (\<lambda>st. String st = String s) named_statuses")
  case None
  assume "s \<in> set named_statuses"
  with None show ?thesis by (auto simp: find_None_iff)
next
  case (Some t)
  assume s: "s \<in> set named_statuses"
  from Some have "t \<in> set named_statuses" and "String t = String s"
    by (auto simp: find_Some_iff)
  with s have "t = s" by (auto dest: String_inject_named)
  with Some show ?thesis by simp
qed

lemma IsEndStatus_simps [simp]:
  "IsEndStatus PipelineStatusSuccess" "IsEndStatus PipelineStatusFailed"
  "IsEndStatus PipelineStatusTimeout" "IsEndStatus PipelineStatusError"
  "IsEndStatus PipelineStatusCreateError" "IsEndStatus PipelineStatusStartError"
  "IsEndStatus PipelineStatusStopByUser" "IsEndStatus PipelineStatusNoNeedBySystem"
  "IsEndStatus PipelineStatusAnalyzeFailed" "IsEndStatus PipelineStatusUnknown"
  "\<not> IsEndStatus PipelineStatusBorn" "\<not> IsEndStatus PipelineStatusAnalyzed"
  "\<not> IsEndStatus PipelineStatusCreated" "\<not> IsEndStatus PipelineStatusQueue"
  "\<not> IsEndStatus PipelineStatusRunning" "\<not> IsEndStatus PipelineStatusPaused"
  "\<not> IsEndStatus PipelineStatusDisabled" "\<not> IsEndStatus PipelineEmptyStatus"
  by (simp_all add: status_defs)

text \<open>
  the predicate \<open>IsEndStatus\<close> and the slice \<open>PipelineEndStatuses\<close>, which the
  database queries use in its place, describe the same statuses; so do
  \<open>IsReconcilerRunningStatus\<close> and \<open>ReconcilerRunningStatuses\<close>, and no status is in both.
\<close>

theorem end_statuses_agree:
  "(IsEndStatus s \<longleftrightarrow> s \<in> set PipelineEndStatuses) \<and>
   (IsReconcilerRunningStatus s \<longleftrightarrow> s \<in> set ReconcilerRunningStatuses) \<and>
   \<not> (IsEndStatus s \<and> IsReconcilerRunningStatus s)"
  by (cases s) (simp_all add: status_defs PipelineEndStatuses_def ReconcilerRunningStatuses_def)

text \<open>
  a status survives the trip through its string: reading back what \<open>String\<close> wrote
  gives the same status for every named one, and writing what was read gives the same string
  for every string.
\<close>

theorem status_string_roundtrip:
  "(s \<in> set named_statuses \<longrightarrow> status_of_string (String s) = s) \<and>
   String (status_of_string str) = str"
proof
  show "s \<in> set named_statuses \<longrightarrow> status_of_string (String s) = s"
    by (simp add: status_of_string_def find_named_String)
  show "String (status_of_string str) = str"
    by (auto simp: status_of_string_def find_Some_iff split: option.split)
qed

theorem status_string_roundtrip_witness:
  "PipelineStatusApprovalFail \<in> set named_statuses \<and>
   status_of_string (String PipelineStatusApprovalFail) = PipelineStatusApprovalFail \<and>
   String (status_of_string ''Born'') = ''Born''"
proof -
  have h: "PipelineStatusApprovalFail \<in> set named_statuses" by (simp add: named_statuses_def)
  show ?thesis
    using h status_string_roundtrip [of PipelineStatusApprovalFail "''Born''"] by simp
qed

end
