(* ===== verification/Pipeline_Spec.thy ===== *)
theory Pipeline_Spec
  imports Pipeline_Status Go_Float
begin

text \<open>
  The data model of the engine, from \<^verbatim>\<open>src/modules/pipeline/spec\<close> and
  \<^verbatim>\<open>src/apistructs\<close>: pipelines, tasks and stages with the fields the modelled code reads
  or writes. A field's name carries the prefix of its struct (\<open>task_\<close>, \<open>te_\<close> for the
  task's extra, \<open>p_\<close>), since Isabelle's field names are global. CPU and memory amounts are
  rationals: their \<open>float64\<close> sums in the source are taken as exact.
\<close>

section \<open>Tasks\<close>

record LoopStrategy =
  ls_MaxTimes :: int
  ls_DeclineRatio :: float64
  ls_DeclineLimitSec :: int
  ls_IntervalSec :: int

definition PipelineTaskDefaultLoopStrategy :: LoopStrategy where
  "PipelineTaskDefaultLoopStrategy =
     \<lparr>ls_MaxTimes = 10, ls_DeclineRatio = Fin 2, ls_DeclineLimitSec = 60, ls_IntervalSec = 2\<rparr>"

record PipelineTaskLoop =
  tl_Break :: string
  tl_Strategy :: "LoopStrategy option"

record PipelineTaskLoopOptions =
  lo_TaskLoop :: "PipelineTaskLoop option"
  lo_SpecYmlLoop :: "PipelineTaskLoop option"
  lo_CalculatedLoop :: "PipelineTaskLoop option"
  lo_LoopedTimes :: nat

record PipelineTaskErrCtx =
  ec_StartTime :: time
  ec_EndTime :: time
  ec_Count :: nat

record PipelineTaskErrResponse =
  er_Msg :: string
  er_Ctx :: PipelineTaskErrCtx

text \<open>A Go map that is only read by key or extended is an association list.\<close>

record MetadataField =
  mf_Name :: string
  mf_Value :: string
  mf_Type :: string
  mf_Labels :: "(string \<times> string) list"

record PipelineTaskResult =
  tr_Metadata :: "MetadataField list"
  tr_Errors :: "PipelineTaskErrResponse list"
  tr_Inspect :: string
  tr_Events :: string

definition empty_PipelineTaskResult :: PipelineTaskResult where
  "empty_PipelineTaskResult =
     \<lparr>tr_Metadata = [], tr_Errors = [], tr_Inspect = [], tr_Events = []\<rparr>"

text \<open>
  A value of Go type \<open>interface{}\<close>: nil, a string, an integer, or another value, which carries
  the text that \<open>strconv.FormatFloat\<close> or the verb \<open>%v\<close> prints for it.
\<close>

datatype any_value = AnyNil | AnyString string | AnyInt int | AnyOther string

record PipelineOutput =
  po_Name :: string
  po_Desc :: string
  po_Ref :: string

record PipelineOutputWithValue =
  ov_PipelineOutput :: PipelineOutput
  ov_Value :: any_value

record PipelineTaskSnippetDetail =
  spd_Outputs :: "PipelineOutputWithValue list"
  spd_DirectSnippetTasksNum :: int
  spd_RecursiveSnippetTasksNum :: int

record PipelineRunParamWithValue =
  rp_Name :: string
  rp_Value :: any_value
  rp_TrueValue :: any_value

record PipelineAppliedResource =
  ar_CPU :: rat
  ar_MemoryMB :: rat

record PipelineAppliedResources =
  ar_Limits :: PipelineAppliedResource
  ar_Requests :: PipelineAppliedResource

record RuntimeResource =
  rr_CPU :: rat
  rr_Memory :: rat
  rr_Disk :: rat

record FlinkSparkConf =
  fs_Depend :: string
  fs_MainClass :: string
  fs_MainArgs :: "string list"
  fs_JarResource :: string

definition empty_FlinkSparkConf :: FlinkSparkConf where
  "empty_FlinkSparkConf = \<lparr>fs_Depend = [], fs_MainClass = [], fs_MainArgs = [], fs_JarResource = []\<rparr>"

record PipelineTaskExtra =
  te_Namespace :: string
  te_NotPipelineControlledNs :: bool
  te_ExecutorName :: string
  te_ClusterName :: string
  te_AllowFailure :: bool
  te_Pause :: bool
  te_Timeout :: duration
  te_PrivateEnvs :: "(string \<times> string) list"
  te_PublicEnvs :: "(string \<times> string) list"
  te_RuntimeResource :: RuntimeResource
  te_UUID :: string
  te_TimeBeginQueue :: time
  te_TimeEndQueue :: time
  te_StageOrder :: nat
  te_RunAfter :: "string list"
  te_FlinkSparkConf :: FlinkSparkConf
  te_ActionIf :: string
  te_LoopOptions :: "PipelineTaskLoopOptions option"
  te_Volumes :: "MetadataField list"
  te_AppliedResources :: PipelineAppliedResources

record PipelineTaskContext =
  tc_InStorages :: "MetadataField list"
  tc_OutStorages :: "MetadataField list"
  tc_CmsDiceFiles :: "MetadataField list"

definition empty_PipelineTaskContext :: PipelineTaskContext where
  "empty_PipelineTaskContext =
     \<lparr>tc_InStorages = [], tc_OutStorages = [], tc_CmsDiceFiles = []\<rparr>"

record PipelineTask =
  task_ID :: nat
  task_PipelineID :: nat
  task_StageID :: nat
  task_Name :: string
  task_Type :: string
  task_ExecutorKind :: string
  task_Status :: PipelineStatus
  task_Extra :: PipelineTaskExtra
  task_Context :: PipelineTaskContext
  task_Result :: PipelineTaskResult
  task_IsSnippet :: bool
  task_SnippetPipelineID :: "nat option"
  task_SnippetPipelineDetail :: "PipelineTaskSnippetDetail option"
  task_CostTimeSec :: int
  task_QueueTimeSec :: int
  task_TimeBegin :: time
  task_TimeEnd :: time
  task_TimeUpdated :: time

definition NodeName :: "PipelineTask \<Rightarrow> string" where
  "NodeName pt = task_Name pt"

definition PrevNodeNames :: "PipelineTask \<Rightarrow> string list" where
  "PrevNodeNames pt = te_RunAfter (task_Extra pt)"

section \<open>Pipelines\<close>

record QueueInfo =
  qi_QueueID :: nat
  qi_CustomPriority :: int
  qi_PriorityChangeHistory :: "int list option"

text \<open>The column \<open>snapshot\<close> of a pipeline; the resources it holds are the field \<open>p_AppliedResources\<close> below.\<close>

record Snapshot =
  sn_Secrets :: "(string \<times> string) list"
  sn_PlatformSecrets :: "(string \<times> string) list"
  sn_Envs :: "(string \<times> string) list"
  sn_RunPipelineParams :: "PipelineRunParamWithValue list"
  sn_OutputValues :: "PipelineOutputWithValue list"

definition empty_Snapshot :: Snapshot where
  "empty_Snapshot =
     \<lparr>sn_Secrets = [], sn_PlatformSecrets = [], sn_Envs = [], sn_RunPipelineParams = [], sn_OutputValues = []\<rparr>"

record PipelineTaskOperateRequest =
  to_TaskID :: nat
  to_TaskAlias :: string
  to_Disable :: "bool option"
  to_Pause :: "bool option"

record Pipeline =
  p_ID :: nat
  p_ClusterName :: string
  p_Status :: PipelineStatus
  p_CostTimeSec :: int
  p_TimeBegin :: "time option"
  p_TimeEnd :: "time option"
  p_TimeCreated :: "time option"
  p_Namespace :: string
  p_NotPipelineControlledNs :: bool
  p_TaskOperates :: "PipelineTaskOperateRequest list"
  p_IsSnippet :: bool
  p_ParentPipelineID :: "nat option"
  p_ParentTaskID :: "nat option"
  p_SnippetChain :: "nat list"
  p_DefinedOutputs :: "PipelineOutput list"
  p_Snapshot :: Snapshot
  p_QueueInfo :: "QueueInfo option"
  p_AppliedResources :: PipelineAppliedResources
  p_CompleteReconcilerTeardown :: bool

record PipelineStageWithTask =
  stage_ID :: nat
  stage_PipelineTasks :: "PipelineTask list"

record PipelineWithStage =
  pws_ID :: nat
  pws_PipelineStages :: "PipelineStageWithTask list"

record PipelineWithTasks =
  pwt_Pipeline :: Pipeline
  pwt_Tasks :: "PipelineTask list"

fun DoneTasks :: "PipelineTask list \<Rightarrow> string list" where
  "DoneTasks [] = []"
| "DoneTasks (task # tasks) =
     (if IsEndStatus (task_Status task) \<or> task_Status task = PipelineStatusDisabled
      then task_Name task # DoneTasks tasks else DoneTasks tasks)"

definition GetPipelineQueueID :: "Pipeline \<Rightarrow> nat \<times> bool" where
  "GetPipelineQueueID p =
     (case p_QueueInfo p of
        None \<Rightarrow> (0, False)
      | Some qi \<Rightarrow> (qi_QueueID qi, True))"

definition GetPipelineAppliedResources :: "Pipeline \<Rightarrow> PipelineAppliedResources" where
  "GetPipelineAppliedResources p = p_AppliedResources p"

lemma set_DoneTasks:
  "set (DoneTasks tasks) =
     task_Name ` {t \<in> set tasks. IsEndStatus (task_Status t) \<or> task_Status t = PipelineStatusDisabled}"
  by (induction tasks) auto

section \<open>Elapsed times\<close>

text \<open>
  \<^verbatim>\<open>src/modules/pipeline/commonutil/costtimeutil/cost_time.go\<close>. The current time is an
  argument. \<open>int64(d.Seconds())\<close> drops the fraction: Go's conversion truncates towards zero.
\<close>

definition trunc_seconds :: "duration \<Rightarrow> int" where
  "trunc_seconds d = sgn d * (\<bar>d\<bar> div 1000000000)"

definition CalculateTaskCostTimeSec :: "time \<Rightarrow> PipelineTask \<Rightarrow> int \<times> PipelineTask" where
  "CalculateTaskCostTimeSec now task =
     (if task_CostTimeSec task \<ge> 0 then (task_CostTimeSec task, task)
      else if IsZero (task_TimeBegin task) then (-1, task)
      else
        let task = (if IsZero (task_TimeEnd task) \<and> IsEndStatus (task_Status task)
                    then task\<lparr>task_TimeEnd := task_TimeUpdated task\<rparr> else task)
        in if IsZero (task_TimeEnd task)
           then (trunc_seconds (now - task_TimeBegin task), task)
           else (trunc_seconds (task_TimeEnd task - task_TimeBegin task), task))"

definition CalculateTaskQueueTimeSec :: "time \<Rightarrow> PipelineTask \<Rightarrow> int" where
  "CalculateTaskQueueTimeSec now task =
     (let cost =
        (if task_QueueTimeSec task \<ge> 0 then task_QueueTimeSec task
         else if IsZero (te_TimeBeginQueue (task_Extra task)) then -1
         else if IsZero (te_TimeEndQueue (task_Extra task))
         then trunc_seconds (now - te_TimeBeginQueue (task_Extra task))
         else trunc_seconds
                (te_TimeEndQueue (task_Extra task) - te_TimeBeginQueue (task_Extra task)))
      in if IsEndStatus (task_Status task) \<and> cost < 0 then 0 else cost)"

definition CalculatePipelineCostTimeSec :: "time \<Rightarrow> Pipeline \<Rightarrow> int" where
  "CalculatePipelineCostTimeSec now p =
     (let cost =
        (if p_CostTimeSec p \<ge> 0 then p_CostTimeSec p
         else case p_TimeBegin p of
           None \<Rightarrow> -1
         | Some b \<Rightarrow>
             if IsZero b then -1
             else case p_TimeEnd p of
               None \<Rightarrow> trunc_seconds (now - b)
             | Some e \<Rightarrow> if IsZero e then trunc_seconds (now - b) else trunc_seconds (e - b))
      in if IsEndStatus (p_Status p) \<and> cost < 0 then 0 else cost)"

lemma trunc_seconds_nonneg: "0 \<le> d \<Longrightarrow> 0 \<le> trunc_seconds d"
  by (simp add: trunc_seconds_def sgn_if pos_imp_zdiv_nonneg_iff)

end
