(* ===== verification/Task_Result.thy ===== *)
theory Task_Result
  imports Pipeline_Spec Go_Strings
begin

text \<open>
  The error log of a task (\<open>PipelineTaskResult.AppendError\<close> of
  \<^verbatim>\<open>src/apistructs/pipeline_task.go\<close>): a message equal, up to letter case, to the last one
  is counted there instead of being appended. The responses are pointers in the source; the
  only shared one that is written is the last of the list, so that a list of values is the same.
\<close>

definition fill_ctx :: "time \<Rightarrow> nat \<Rightarrow> PipelineTaskErrResponse \<Rightarrow> PipelineTaskErrResponse" where
  "fill_ctx now index g =
     (let t = now + int index * 1000000;
          ctx = er_Ctx g;
          ctx = (if IsZero (ec_StartTime ctx) then ctx\<lparr>ec_StartTime := t\<rparr> else ctx);
          ctx = (if IsZero (ec_EndTime ctx) then ctx\<lparr>ec_EndTime := t\<rparr> else ctx);
          ctx = (if ec_Count ctx = 0 then ctx\<lparr>ec_Count := 1\<rparr> else ctx)
      in g\<lparr>er_Ctx := ctx\<rparr>)"

fun fill_all :: "time \<Rightarrow> nat \<Rightarrow> PipelineTaskErrResponse list \<Rightarrow> PipelineTaskErrResponse list" where
  "fill_all now index [] = []"
| "fill_all now index (g # gs) = fill_ctx now index g # fill_all now (Suc index) gs"

definition merge_response ::
  "PipelineTaskErrResponse \<Rightarrow> PipelineTaskErrResponse \<Rightarrow> PipelineTaskErrResponse" where
  "merge_response lastResponse g =
     (let ctx = er_Ctx lastResponse;
          ctx = (if \<not> IsZero (ec_StartTime (er_Ctx g)) \<and> ec_StartTime (er_Ctx g) < ec_StartTime ctx
                 then ctx\<lparr>ec_StartTime := ec_StartTime (er_Ctx g)\<rparr> else ctx);
          ctx = (if ec_EndTime (er_Ctx g) > ec_EndTime ctx
                 then ctx\<lparr>ec_EndTime := ec_EndTime (er_Ctx g)\<rparr> else ctx)
      in lastResponse\<lparr>er_Ctx := ctx\<lparr>ec_Count := ec_Count ctx + 1\<rparr>\<rparr>)"

definition append_response ::
  "PipelineTaskErrResponse \<Rightarrow> PipelineTaskErrResponse list \<Rightarrow> PipelineTaskErrResponse list" where
  "append_response g orderd =
     (if orderd = [] then [g]
      else if strings_EqualFold (er_Msg (last orderd)) (er_Msg g)
      then butlast orderd @ [merge_response (last orderd) g]
      else orderd @ [g])"

text \<open>
  \<open>sort.Sort\<close> sorts up to twelve elements by insertion, hence stably; every caller appends one.
\<close>

definition AppendError ::
  "time \<Rightarrow> PipelineTaskErrResponse list \<Rightarrow> PipelineTaskErrResponse list \<Rightarrow> PipelineTaskErrResponse list" where
  "AppendError now errors newResponses =
     (if newResponses = [] then errors
      else fold append_response
             (sort_key (\<lambda>g. ec_EndTime (er_Ctx g)) (fill_all now 0 newResponses)) errors)"

definition new_response :: "string \<Rightarrow> PipelineTaskErrResponse" where
  "new_response msg = \<lparr>er_Msg = msg, er_Ctx = \<lparr>ec_StartTime = 0, ec_EndTime = 0, ec_Count = 0\<rparr>\<rparr>"

section \<open>What the log keeps\<close>

definition total_count :: "PipelineTaskErrResponse list \<Rightarrow> nat" where
  "total_count rs = sum_list (map (\<lambda>r. ec_Count (er_Ctx r)) rs)"

fun no_repeat :: "PipelineTaskErrResponse list \<Rightarrow> bool" where
  "no_repeat (r # s # rs) = (\<not> strings_EqualFold (er_Msg r) (er_Msg s) \<and> no_repeat (s # rs))"
| "no_repeat _ = True"

lemma no_repeat_snoc:
  "no_repeat (rs @ [r]) \<longleftrightarrow> no_repeat rs \<and> (rs \<noteq> [] \<longrightarrow> \<not> strings_EqualFold (er_Msg (last rs)) (er_Msg r))"
  by (induction rs rule: no_repeat.induct) auto

lemma merge_response_msg [simp]: "er_Msg (merge_response l g) = er_Msg l"
  by (simp add: merge_response_def Let_def)

lemma merge_response_count [simp]: "ec_Count (er_Ctx (merge_response l g)) = ec_Count (er_Ctx l) + 1"
  by (simp add: merge_response_def Let_def)

lemma fill_ctx_msg [simp]: "er_Msg (fill_ctx now i g) = er_Msg g"
  by (simp add: fill_ctx_def Let_def)

lemma fill_ctx_count: "ec_Count (er_Ctx g) \<le> 1 \<Longrightarrow> ec_Count (er_Ctx (fill_ctx now i g)) = 1"
  by (simp add: fill_ctx_def Let_def)

lemma fill_all_msgs: "er_Msg ` set (fill_all now i gs) = er_Msg ` set gs"
  by (induction now i gs rule: fill_all.induct) simp_all

lemma fill_all_counts:
  "\<forall>g\<in>set gs. ec_Count (er_Ctx g) \<le> 1 \<Longrightarrow> \<forall>g\<in>set (fill_all now i gs). ec_Count (er_Ctx g) = 1"
  by (induction now i gs rule: fill_all.induct) (simp_all add: fill_ctx_count)

lemma length_fill_all [simp]: "length (fill_all now i gs) = length gs"
  by (induction now i gs rule: fill_all.induct) simp_all

lemma append_response_cases:
  obtains "append_response g rs = rs @ [g]"
      "rs \<noteq> [] \<longrightarrow> \<not> strings_EqualFold (er_Msg (last rs)) (er_Msg g)"
  | ys r where "rs = ys @ [r]" "append_response g rs = ys @ [merge_response r g]"
      "strings_EqualFold (er_Msg r) (er_Msg g)"
  by (cases rs rule: rev_cases) (auto simp: append_response_def split: if_splits)

lemma append_response_keeps:
  "prefix (map er_Msg rs) (map er_Msg (append_response g rs))"
  by (rule append_response_cases [of g rs]) (auto simp: prefix_def)

lemma append_response_logs:
  "\<exists>r\<in>set (append_response g rs). strings_EqualFold (er_Msg r) (er_Msg g)"
  by (rule append_response_cases [of g rs]) auto

lemma append_response_no_repeat: "no_repeat rs \<Longrightarrow> no_repeat (append_response g rs)"
  by (rule append_response_cases [of g rs]) (auto simp: no_repeat_snoc)

lemma append_response_count:
  "ec_Count (er_Ctx g) = 1 \<Longrightarrow> total_count (append_response g rs) = total_count rs + 1"
  by (rule append_response_cases [of g rs]) (auto simp: total_count_def)

lemma fold_append_keeps: "prefix (map er_Msg rs) (map er_Msg (fold append_response gs rs))"
  by (induction gs arbitrary: rs) (simp, metis append_response_keeps fold_simps(2) prefix_order.trans)

lemma fold_append_logs:
  "g \<in> set gs \<Longrightarrow> \<exists>r\<in>set (fold append_response gs rs). strings_EqualFold (er_Msg r) (er_Msg g)"
proof (induction gs arbitrary: rs)
  case (Cons h gs)
  show ?case
  proof (cases "g = h")
    case True
    obtain r where r: "r \<in> set (append_response g rs)" "strings_EqualFold (er_Msg r) (er_Msg g)"
      using append_response_logs by blast
    have "er_Msg r \<in> set (map er_Msg (append_response g rs))" using r(1) by simp
    then have "er_Msg r \<in> set (map er_Msg (fold append_response gs (append_response g rs)))"
      using fold_append_keeps set_mono_prefix by blast
    with r(2) True show ?thesis by auto
  next
    case False
    with Cons show ?thesis by simp
  qed
qed simp

lemma fold_append_no_repeat: "no_repeat rs \<Longrightarrow> no_repeat (fold append_response gs rs)"
  by (induction gs arbitrary: rs) (simp_all add: append_response_no_repeat)

lemma fold_append_count:
  "\<forall>g\<in>set gs. ec_Count (er_Ctx g) = 1 \<Longrightarrow>
   total_count (fold append_response gs rs) = total_count rs + length gs"
  by (induction gs arbitrary: rs) (simp_all add: append_response_count)



end
