(* ===== verification/Status_Util.thy ===== *)
theory Status_Util
  imports Pipeline_Spec
begin

text \<open>
  The status of a pipeline computed from the statuses of its tasks, from
  \<^verbatim>\<open>src/modules/pipeline/commonutil/statusutil\<close>: \<open>CalculatePipelineStatusV2\<close>, which the
  reconciler uses, and the older computation over stages. The lemmas give the result as a
  function of which classes of tasks are present.
\<close>

section \<open>The status of a list of tasks\<close>

record v2_counters =
  successNum :: nat
  failedNum :: nat
  pauseNum :: nat
  bornNum :: nat
  runningNum :: nat
  analyzedNum :: nat

definition v2_zero :: v2_counters where
  "v2_zero = \<lparr>successNum = 0, failedNum = 0, pauseNum = 0, bornNum = 0, runningNum = 0,
     analyzedNum = 0\<rparr>"

definition v2_count :: "PipelineTask \<Rightarrow> v2_counters \<Rightarrow> v2_counters" where
  "v2_count task c =
     (if IsSuccessStatus (task_Status task) \<or>
         (IsFailedStatus (task_Status task) \<and> te_AllowFailure (task_Extra task)) \<or>
         task_Status task = PipelineStatusDisabled
      then c\<lparr>successNum := successNum c + 1\<rparr>
      else if IsFailedStatus (task_Status task) then c\<lparr>failedNum := failedNum c + 1\<rparr>
      else if task_Status task = PipelineStatusAnalyzed
      then c\<lparr>analyzedNum := analyzedNum c + 1\<rparr>
      else if task_Status task = PipelineStatusBorn then c\<lparr>bornNum := bornNum c + 1\<rparr>
      else if task_Status task = PipelineStatusPaused then c\<lparr>pauseNum := pauseNum c + 1\<rparr>
      else if task_Status task = PipelineStatusDisabled
      then c\<lparr>successNum := successNum c + 1\<rparr>
      else c\<lparr>runningNum := runningNum c + 1\<rparr>)"

definition v2_switch :: "nat \<Rightarrow> v2_counters \<Rightarrow> PipelineStatus" where
  "v2_switch tot c =
     (if tot = 0 then PipelineStatusSuccess
      else if tot = analyzedNum c then PipelineStatusAnalyzed
      else if tot = bornNum c + analyzedNum c then PipelineStatusRunning
      else if tot = successNum c then PipelineStatusSuccess
      else if tot = successNum c + pauseNum c + bornNum c + analyzedNum c then
        (if pauseNum c > 0 then PipelineStatusPaused else PipelineStatusRunning)
      else if tot = successNum c + failedNum c + bornNum c + analyzedNum c then
        (if failedNum c = 0 then PipelineStatusRunning else PipelineStatusFailed)
      else PipelineStatusRunning)"

definition CalculatePipelineStatusV2 :: "PipelineTask list \<Rightarrow> PipelineStatus" where
  "CalculatePipelineStatusV2 tasks = v2_switch (length tasks) (fold v2_count tasks v2_zero)"

fun CalculatePipelineTaskAllDone :: "PipelineTask list \<Rightarrow> bool" where
  "CalculatePipelineTaskAllDone [] = True"
| "CalculatePipelineTaskAllDone (task # tasks) =
     (if task_Status task = PipelineStatusDisabled then CalculatePipelineTaskAllDone tasks
      else if \<not> IsEndStatus (task_Status task) then False
      else CalculatePipelineTaskAllDone tasks)"

section \<open>The status of stages\<close>

datatype status_error = StatusIsEmpty | StrangePipeline nat "PipelineStatus list"

definition CalculatePipelineTaskStatus :: "PipelineTask \<Rightarrow> status_error + PipelineStatus" where
  "CalculatePipelineTaskStatus pt =
     (if task_Status pt = PipelineEmptyStatus then Inl StatusIsEmpty
      else if IsEndStatus (task_Status pt) \<and> te_AllowFailure (task_Extra pt)
      then Inr PipelineStatusSuccess
      else Inr (task_Status pt))"

record stage_counters =
  sc_born :: nat
  sc_success :: nat
  sc_end :: nat
  sc_pause :: nat
  sc_disable :: nat

definition stage_count :: "PipelineStatus \<Rightarrow> stage_counters \<Rightarrow> stage_counters" where
  "stage_count s c =
     \<lparr>sc_born = sc_born c + (if s = PipelineStatusBorn then 1 else 0),
      sc_success = sc_success c + (if IsSuccessStatus s then 1 else 0),
      sc_end = sc_end c + (if IsEndStatus s then 1 else 0),
      sc_pause = sc_pause c + (if s = PipelineStatusPaused then 1 else 0),
      sc_disable = sc_disable c + (if s = PipelineStatusDisabled then 1 else 0)\<rparr>"

fun stage_counts :: "PipelineTask list \<Rightarrow> stage_counters \<Rightarrow> status_error + stage_counters" where
  "stage_counts [] c = Inr c"
| "stage_counts (task # tasks) c =
     (case CalculatePipelineTaskStatus task of
        Inl err \<Rightarrow> Inl err
      | Inr taskStatus \<Rightarrow> stage_counts tasks (stage_count taskStatus c))"

definition CalculatePipelineStageStatus ::
    "PipelineStageWithTask \<Rightarrow> status_error + PipelineStatus" where
  "CalculatePipelineStageStatus ps =
     (let tasks = stage_PipelineTasks ps; totalNum = length tasks in
      if totalNum = 0 then Inr PipelineStatusSuccess
      else case stage_counts tasks \<lparr>sc_born = 0, sc_success = 0, sc_end = 0, sc_pause = 0,
                                    sc_disable = 0\<rparr> of
        Inl err \<Rightarrow> Inl err
      | Inr c \<Rightarrow>
          if sc_born c > 0 \<and> sc_born c + sc_success c + sc_disable c = totalNum
          then Inr PipelineStatusBorn
          else if sc_end c + sc_pause c + sc_disable c = totalNum then
            (if sc_pause c > 0 then Inr PipelineStatusPaused
             else if sc_disable c + sc_success c = totalNum then Inr PipelineStatusSuccess
             else Inr PipelineStatusFailed)
          else Inr PipelineStatusRunning)"

fun stage_statuses :: "PipelineStageWithTask list \<Rightarrow> status_error + PipelineStatus list" where
  "stage_statuses [] = Inr []"
| "stage_statuses (stage # stages) =
     (case CalculatePipelineStageStatus stage of
        Inl err \<Rightarrow> Inl err
      | Inr s \<Rightarrow>
          (case stage_statuses stages of
             Inl err \<Rightarrow> Inl err
           | Inr ss \<Rightarrow> Inr (s # ss)))"

text \<open>
  The loop over the stage statuses: \<open>si + 1 = totalNum\<close> of the source is "no stage is left".
\<close>

fun stages_loop :: "nat \<Rightarrow> PipelineStatus list \<Rightarrow> PipelineStatus list \<Rightarrow> status_error + PipelineStatus" where
  "stages_loop pid all [] = Inl (StrangePipeline pid all)"
| "stages_loop pid all (stageStatus # rest) =
     (if stageStatus = PipelineStatusPaused then Inr PipelineStatusPaused
      else if stageStatus = PipelineStatusDisabled then
        (if rest = [] then Inr PipelineStatusSuccess else stages_loop pid all rest)
      else if IsEndStatus stageStatus then
        (if IsSuccessStatus stageStatus then
           (if rest = [] then Inr PipelineStatusSuccess else stages_loop pid all rest)
         else Inr stageStatus)
      else Inr PipelineStatusRunning)"

definition CalculateStatus :: "PipelineWithStage \<Rightarrow> status_error + PipelineStatus" where
  "CalculateStatus p =
     (let stages = pws_PipelineStages p in
      if length stages = 0 then Inr PipelineStatusSuccess
      else case stage_statuses stages of
        Inl err \<Rightarrow> Inl err
      | Inr stageStatusList \<Rightarrow> stages_loop (pws_ID p) stageStatusList stageStatusList)"

section \<open>The counters count the classes of tasks\<close>

definition succeeded :: "PipelineTask \<Rightarrow> bool" where
  "succeeded t \<longleftrightarrow>
     task_Status t = PipelineStatusSuccess \<or> task_Status t = PipelineStatusDisabled \<or>
     IsFailedStatus (task_Status t) \<and> te_AllowFailure (task_Extra t)"

definition failed :: "PipelineTask \<Rightarrow> bool" where
  "failed t \<longleftrightarrow> IsFailedStatus (task_Status t) \<and> \<not> te_AllowFailure (task_Extra t)"

definition waiting :: "PipelineTask \<Rightarrow> bool" where
  "waiting t \<longleftrightarrow> task_Status t = PipelineStatusAnalyzed \<or> task_Status t = PipelineStatusBorn"

definition paused :: "PipelineTask \<Rightarrow> bool" where
  "paused t \<longleftrightarrow> task_Status t = PipelineStatusPaused"

definition in_flight :: "PipelineTask \<Rightarrow> bool" where
  "in_flight t \<longleftrightarrow> \<not> succeeded t \<and> \<not> failed t \<and> \<not> waiting t \<and> \<not> paused t"

lemma IsFailed_simps [simp]:
  "\<not> IsFailedStatus PipelineStatusSuccess" "\<not> IsFailedStatus PipelineStatusDisabled"
  "\<not> IsFailedStatus PipelineStatusAnalyzed" "\<not> IsFailedStatus PipelineStatusBorn"
  "\<not> IsFailedStatus PipelineStatusPaused"
  by (simp_all add: status_defs)

lemma v2_count_class:
  "v2_count t c = c\<lparr>successNum := successNum c + (if succeeded t then 1 else 0),
     failedNum := failedNum c + (if failed t then 1 else 0),
     pauseNum := pauseNum c + (if paused t then 1 else 0),
     bornNum := bornNum c + (if task_Status t = PipelineStatusBorn then 1 else 0),
     runningNum := runningNum c + (if in_flight t then 1 else 0),
     analyzedNum := analyzedNum c + (if task_Status t = PipelineStatusAnalyzed then 1 else 0)\<rparr>"
  by (auto simp: v2_count_def IsSuccessStatus_def succeeded_def failed_def paused_def
      waiting_def in_flight_def)

lemma fold_v2_count:
  "fold v2_count ts c = c\<lparr>successNum := successNum c + length (filter succeeded ts),
     failedNum := failedNum c + length (filter failed ts),
     pauseNum := pauseNum c + length (filter paused ts),
     bornNum := bornNum c + length (filter (\<lambda>t. task_Status t = PipelineStatusBorn) ts),
     runningNum := runningNum c + length (filter in_flight ts),
     analyzedNum := analyzedNum c + length (filter (\<lambda>t. task_Status t = PipelineStatusAnalyzed) ts)\<rparr>"
  by (induction ts arbitrary: c) (simp_all add: v2_count_class)

lemma task_class_disjoint:
  "succeeded t \<Longrightarrow> \<not> failed t \<and> \<not> paused t \<and> task_Status t \<noteq> PipelineStatusBorn \<and>
     task_Status t \<noteq> PipelineStatusAnalyzed"
  "failed t \<Longrightarrow> \<not> paused t \<and> task_Status t \<noteq> PipelineStatusBorn \<and> task_Status t \<noteq> PipelineStatusAnalyzed"
  "paused t \<Longrightarrow> task_Status t \<noteq> PipelineStatusBorn \<and> task_Status t \<noteq> PipelineStatusAnalyzed"
  by (auto simp: succeeded_def failed_def paused_def)

lemma length_classes:
  "length ts = length (filter succeeded ts) + length (filter failed ts) +
     length (filter paused ts) + length (filter (\<lambda>t. task_Status t = PipelineStatusBorn) ts) +
     length (filter (\<lambda>t. task_Status t = PipelineStatusAnalyzed) ts) + length (filter in_flight ts)"
proof (induction ts)
  case (Cons t ts)
  have "(if succeeded t then 1 else 0) + (if failed t then 1 else 0) +
      (if paused t then 1 else 0) + (if task_Status t = PipelineStatusBorn then 1 else 0) +
      (if task_Status t = PipelineStatusAnalyzed then 1 else 0) + (if in_flight t then 1 else 0)
      = (1::nat)"
    using task_class_disjoint [of t] by (auto simp: in_flight_def waiting_def)
  with Cons show ?case by (auto split: if_splits)
qed simp

lemma CalculatePipelineStatusV2_classes:
  "CalculatePipelineStatusV2 ts =
     (let s = length (filter succeeded ts); f = length (filter failed ts);
          p = length (filter paused ts); r = length (filter in_flight ts);
          b = length (filter (\<lambda>t. task_Status t = PipelineStatusBorn) ts);
          a = length (filter (\<lambda>t. task_Status t = PipelineStatusAnalyzed) ts) in
      if s + f + p + r + b = 0 then (if a = 0 then PipelineStatusSuccess else PipelineStatusAnalyzed)
      else if s + f + p + r = 0 then PipelineStatusRunning
      else if f + p + r + b + a = 0 then PipelineStatusSuccess
      else if f + r = 0 then (if p > 0 then PipelineStatusPaused else PipelineStatusRunning)
      else if p + r = 0 then PipelineStatusFailed
      else PipelineStatusRunning)"
  using length_classes [of ts]
  by (simp add: CalculatePipelineStatusV2_def v2_switch_def fold_v2_count v2_zero_def Let_def)

lemma AllDone_iff:
  "CalculatePipelineTaskAllDone ts \<longleftrightarrow>
     (\<forall>t\<in>set ts. task_Status t = PipelineStatusDisabled \<or> IsEndStatus (task_Status t))"
  by (induction ts) auto


section \<open>What the computed status means\<close>

lemma in_class:
  "succeeded t \<or> failed t \<or> paused t \<or> task_Status t = PipelineStatusBorn \<or>
   task_Status t = PipelineStatusAnalyzed \<or> in_flight t"
  by (auto simp: in_flight_def waiting_def)

text \<open>Which classes of tasks are present decides everything: the counters only matter up to
  being zero.\<close>

lemma V2_by_presence:
  "CalculatePipelineStatusV2 ts =
     (if list_all (\<lambda>t. task_Status t = PipelineStatusAnalyzed) ts
      then (if ts = [] then PipelineStatusSuccess else PipelineStatusAnalyzed)
      else if list_all waiting ts then PipelineStatusRunning
      else if list_all succeeded ts then PipelineStatusSuccess
      else if list_all (\<lambda>t. \<not> failed t \<and> \<not> in_flight t) ts
      then (if list_ex paused ts then PipelineStatusPaused else PipelineStatusRunning)
      else if list_all (\<lambda>t. \<not> paused t \<and> \<not> in_flight t) ts then PipelineStatusFailed
      else PipelineStatusRunning)"
proof -
  let ?n = "\<lambda>P. length (filter P ts)"
  have zero: "?n P = 0 \<longleftrightarrow> (\<forall>t\<in>set ts. \<not> P t)" for P by (rule length_filter_0_iff)
  have pos: "?n P > 0 \<longleftrightarrow> (\<exists>t\<in>set ts. P t)" for P
    using zero [of P] by blast
  have A: "list_all (\<lambda>t. task_Status t = PipelineStatusAnalyzed) ts \<longleftrightarrow>
      ?n succeeded + ?n failed + ?n paused + ?n in_flight +
      ?n (\<lambda>t. task_Status t = PipelineStatusBorn) = 0"
    unfolding list_all_iff add_eq_0_iff_both_eq_0 zero using task_class_disjoint in_class
    by (auto simp: in_flight_def waiting_def)
  have N: "?n (\<lambda>t. task_Status t = PipelineStatusAnalyzed) = 0 \<longleftrightarrow> ts = []"
    if "list_all (\<lambda>t. task_Status t = PipelineStatusAnalyzed) ts"
    using that by (cases ts) (auto simp: zero list_all_iff)
  have W: "list_all waiting ts \<longleftrightarrow> ?n succeeded + ?n failed + ?n paused + ?n in_flight = 0"
    unfolding list_all_iff add_eq_0_iff_both_eq_0 zero using task_class_disjoint in_class
    by (auto simp: in_flight_def waiting_def)
  have S: "list_all succeeded ts \<longleftrightarrow> ?n failed + ?n paused + ?n in_flight +
      ?n (\<lambda>t. task_Status t = PipelineStatusBorn) +
      ?n (\<lambda>t. task_Status t = PipelineStatusAnalyzed) = 0"
    unfolding list_all_iff add_eq_0_iff_both_eq_0 zero using task_class_disjoint in_class
    by (auto simp: in_flight_def waiting_def)
  have FR: "list_all (\<lambda>t. \<not> failed t \<and> \<not> in_flight t) ts \<longleftrightarrow> ?n failed + ?n in_flight = 0"
    unfolding list_all_iff add_eq_0_iff_both_eq_0 zero by auto
  have PR: "list_all (\<lambda>t. \<not> paused t \<and> \<not> in_flight t) ts \<longleftrightarrow> ?n paused + ?n in_flight = 0"
    unfolding list_all_iff add_eq_0_iff_both_eq_0 zero by auto
  have P: "list_ex paused ts \<longleftrightarrow> ?n paused > 0"
    unfolding pos list_ex_iff ..
  show ?thesis
    unfolding CalculatePipelineStatusV2_classes Let_def A [symmetric] W [symmetric]
      S [symmetric] FR [symmetric] PR [symmetric] P [symmetric]
    using N by auto
qed

lemma success_not_analyzed:
  "list_all succeeded ts \<Longrightarrow> list_all (\<lambda>t. task_Status t = PipelineStatusAnalyzed) ts \<Longrightarrow> ts = []"
  "list_all succeeded ts \<Longrightarrow> list_all waiting ts \<Longrightarrow> ts = []"
  by (cases ts; auto simp: succeeded_def waiting_def)+

lemma stage_status_values:
  "CalculatePipelineStageStatus ps = Inr s \<Longrightarrow>
   s \<in> {PipelineStatusSuccess, PipelineStatusBorn, PipelineStatusPaused, PipelineStatusFailed,
        PipelineStatusRunning}"
  by (auto simp: CalculatePipelineStageStatus_def Let_def split: if_splits sum.splits)

lemma stage_counts_error:
  "(\<exists>c'. stage_counts ts c = Inr c') \<longleftrightarrow> (\<forall>t\<in>set ts. task_Status t \<noteq> PipelineEmptyStatus)"
  "stage_counts ts c = Inl e \<Longrightarrow> e = StatusIsEmpty"
  by (induction ts arbitrary: c)
    (auto simp: CalculatePipelineTaskStatus_def split: if_splits sum.splits)

lemma stage_status_error:
  "(\<exists>s. CalculatePipelineStageStatus ps = Inr s) \<longleftrightarrow>
   (\<forall>t\<in>set (stage_PipelineTasks ps). task_Status t \<noteq> PipelineEmptyStatus)"
  "CalculatePipelineStageStatus ps = Inl e \<Longrightarrow> e = StatusIsEmpty"
proof -
  let ?z = "\<lparr>sc_born = 0, sc_success = 0, sc_end = 0, sc_pause = 0, sc_disable = 0\<rparr>"
  show "(\<exists>s. CalculatePipelineStageStatus ps = Inr s) \<longleftrightarrow>
     (\<forall>t\<in>set (stage_PipelineTasks ps). task_Status t \<noteq> PipelineEmptyStatus)"
    unfolding stage_counts_error(1) [of _ ?z, symmetric]
    by (auto simp: CalculatePipelineStageStatus_def Let_def split: sum.splits)
  show "CalculatePipelineStageStatus ps = Inl e \<Longrightarrow> e = StatusIsEmpty"
    by (auto simp: CalculatePipelineStageStatus_def Let_def dest: stage_counts_error(2)
        split: if_splits sum.splits)
qed

lemma stage_statuses_error:
  "(\<exists>ss. stage_statuses sts = Inr ss) \<longleftrightarrow>
   (\<forall>ps\<in>set sts. \<exists>s. CalculatePipelineStageStatus ps = Inr s)"
  "stage_statuses sts = Inl e \<Longrightarrow> e = StatusIsEmpty"
  by (induction sts) (auto dest: stage_status_error(2) split: sum.splits)

lemma stage_statuses_values:
  "stage_statuses sts = Inr ss \<Longrightarrow> length ss = length sts \<and>
     set ss \<subseteq> {PipelineStatusSuccess, PipelineStatusBorn, PipelineStatusPaused,
       PipelineStatusFailed, PipelineStatusRunning}"
  by (induction sts arbitrary: ss) (auto split: sum.splits dest!: stage_status_values)

lemma stages_loop_total: "ss \<noteq> [] \<Longrightarrow> \<exists>s. stages_loop pid all ss = Inr s"
  by (induction ss) auto

lemma stages_loop_success:
  "ss \<noteq> [] \<Longrightarrow> stages_loop pid all ss = Inr PipelineStatusSuccess \<longleftrightarrow>
     (\<forall>s\<in>set ss. s = PipelineStatusSuccess \<or> s = PipelineStatusDisabled)"
  by (induction ss) (auto simp: IsSuccessStatus_def)

text \<open>
  C8: the reconciler's status of a pipeline. It is \<open>Success\<close> exactly when every task
  succeeded, was disabled or failed with failure allowed; \<open>Failed\<close> exactly when a task failed
  without that permission and none is paused or in flight (tasks not yet begun do not count);
  \<open>Paused\<close> exactly when a task is paused and none has failed or is in flight; \<open>Analyzed\<close>
  exactly when there are tasks and all of them are; and \<open>Running\<close> otherwise.
\<close>

theorem CalculatePipelineStatusV2_spec:
  "(CalculatePipelineStatusV2 ts = PipelineStatusSuccess \<longleftrightarrow> list_all succeeded ts) \<and>
   (CalculatePipelineStatusV2 ts = PipelineStatusFailed \<longleftrightarrow>
      list_ex failed ts \<and> list_all (\<lambda>t. \<not> paused t \<and> \<not> in_flight t) ts) \<and>
   (CalculatePipelineStatusV2 ts = PipelineStatusPaused \<longleftrightarrow>
      list_ex paused ts \<and> list_all (\<lambda>t. \<not> failed t \<and> \<not> in_flight t) ts) \<and>
   (CalculatePipelineStatusV2 ts = PipelineStatusAnalyzed \<longleftrightarrow>
      ts \<noteq> [] \<and> list_all (\<lambda>t. task_Status t = PipelineStatusAnalyzed) ts) \<and>
   CalculatePipelineStatusV2 ts \<in> {PipelineStatusSuccess, PipelineStatusFailed,
     PipelineStatusPaused, PipelineStatusAnalyzed, PipelineStatusRunning}"
  (is "?S \<and> ?F \<and> ?P \<and> ?A \<and> ?R")
proof (intro conjI)
  show ?S unfolding V2_by_presence by (auto dest: success_not_analyzed)
  show ?A unfolding V2_by_presence by auto
  show ?R unfolding V2_by_presence by simp
  show ?P unfolding V2_by_presence
    by (auto simp: list_all_iff list_ex_iff dest: task_class_disjoint)
       (auto simp: paused_def waiting_def)
  show ?F unfolding V2_by_presence
    by (auto simp: list_all_iff list_ex_iff dest: task_class_disjoint)
       (auto simp: failed_def waiting_def dest: task_class_disjoint)
qed

text \<open>
  C16: once every task is disabled or in an end status, the computed status of the pipeline is
  an end status; so a pipeline whose tasks are all done is never left unfinished.
\<close>

theorem all_done_gives_end_status:
  "CalculatePipelineTaskAllDone ts \<Longrightarrow> IsEndStatus (CalculatePipelineStatusV2 ts)"
proof -
  assume "CalculatePipelineTaskAllDone ts"
  then have d: "\<forall>t\<in>set ts. succeeded t \<or> failed t"
    unfolding AllDone_iff succeeded_def failed_def IsEndStatus_def IsSuccessStatus_def by blast
  show ?thesis
  proof (cases "list_all succeeded ts")
    case True
    then have "CalculatePipelineStatusV2 ts = PipelineStatusSuccess"
      unfolding V2_by_presence by (auto dest: success_not_analyzed)
    then show ?thesis by simp
  next
    case False
    then obtain t where t: "t \<in> set ts" "failed t" using d by (auto simp: list_all_iff)
    moreover have "list_all (\<lambda>t. \<not> paused t \<and> \<not> in_flight t) ts"
      using d by (auto simp: list_all_iff in_flight_def dest: task_class_disjoint)
    ultimately have "CalculatePipelineStatusV2 ts = PipelineStatusFailed"
      unfolding V2_by_presence using False
      by (auto simp: list_all_iff waiting_def dest: task_class_disjoint)
    then show ?thesis by simp
  qed
qed

definition example_task :: "string \<Rightarrow> PipelineStatus \<Rightarrow> string list \<Rightarrow> PipelineTask" where
  "example_task name st after =
     \<lparr>task_ID = 1, task_PipelineID = 1, task_StageID = 1, task_Name = name,
      task_Type = ''custom-script'', task_ExecutorKind = ''SCHEDULER'', task_Status = st,
      task_Extra = \<lparr>te_Namespace = ''pipeline-1'', te_NotPipelineControlledNs = False, te_ExecutorName = ''scheduler'', te_ClusterName = ''dev'',
        te_AllowFailure = False, te_Pause = False, te_Timeout = 0, te_PrivateEnvs = [], te_PublicEnvs = [],
        te_RuntimeResource = \<lparr>rr_CPU = 0, rr_Memory = 0, rr_Disk = 0\<rparr>, te_UUID = name, te_TimeBeginQueue = 0, te_TimeEndQueue = 0, te_StageOrder = 0,
        te_RunAfter = after, te_FlinkSparkConf = empty_FlinkSparkConf, te_ActionIf = [], te_LoopOptions = None, te_Volumes = [],
        te_AppliedResources = \<lparr>ar_Limits = \<lparr>ar_CPU = 0, ar_MemoryMB = 0\<rparr>, ar_Requests = \<lparr>ar_CPU = 0, ar_MemoryMB = 0\<rparr>\<rparr>\<rparr>,
      task_Context = empty_PipelineTaskContext, task_Result = empty_PipelineTaskResult, task_IsSnippet = False,
      task_SnippetPipelineID = None, task_SnippetPipelineDetail = None, task_CostTimeSec = -1, task_QueueTimeSec = -1,
      task_TimeBegin = 0, task_TimeEnd = 0, task_TimeUpdated = 0\<rparr>"

theorem all_done_gives_end_status_witness:
  "CalculatePipelineTaskAllDone
     [example_task ''a'' PipelineStatusSuccess [], example_task ''b'' PipelineStatusTimeout []] \<and>
   IsEndStatus (CalculatePipelineStatusV2
     [example_task ''a'' PipelineStatusSuccess [], example_task ''b'' PipelineStatusTimeout []])"
proof -
  have h: "CalculatePipelineTaskAllDone
     [example_task ''a'' PipelineStatusSuccess [], example_task ''b'' PipelineStatusTimeout []]"
    by (simp add: example_task_def)
  then show ?thesis using all_done_gives_end_status [OF h] by simp
qed

text \<open>
  C17: the computation over stages fails only on a task without a status: the error for a
  pipeline whose status cannot be computed is never returned. It gives \<open>Success\<close> exactly
  when every stage does.
\<close>

theorem CalculateStatus_spec:
  "(\<forall>e. CalculateStatus p = Inl e \<longrightarrow> e = StatusIsEmpty) \<and>
   ((\<exists>s. CalculateStatus p = Inr s) \<longleftrightarrow>
      list_all (\<lambda>ps. list_all (\<lambda>t. task_Status t \<noteq> PipelineEmptyStatus) (stage_PipelineTasks ps))
        (pws_PipelineStages p)) \<and>
   (CalculateStatus p = Inr PipelineStatusSuccess \<longleftrightarrow>
      list_all (\<lambda>ps. CalculatePipelineStageStatus ps = Inr PipelineStatusSuccess)
        (pws_PipelineStages p))"
proof (cases "stage_statuses (pws_PipelineStages p)")
  case (Inl e)
  then have e: "e = StatusIsEmpty" by (rule stage_statuses_error(2))
  from Inl have "\<not> (\<forall>ps\<in>set (pws_PipelineStages p). \<exists>s. CalculatePipelineStageStatus ps = Inr s)"
    using stage_statuses_error(1) [of "pws_PipelineStages p"] by auto
  moreover from Inl have "pws_PipelineStages p \<noteq> []" by auto
  ultimately show ?thesis using Inl e
    by (fastforce simp: CalculateStatus_def Let_def list_all_iff stage_status_error(1))
next
  case (Inr ss)
  note st = stage_statuses_values [OF Inr]
  have ok: "\<forall>ps\<in>set (pws_PipelineStages p). \<exists>s. CalculatePipelineStageStatus ps = Inr s"
    using Inr stage_statuses_error(1) [of "pws_PipelineStages p"] by auto
  then have tasks: "list_all (\<lambda>ps. list_all (\<lambda>t. task_Status t \<noteq> PipelineEmptyStatus)
      (stage_PipelineTasks ps)) (pws_PipelineStages p)"
    by (auto simp: list_all_iff stage_status_error(1))
  have each: "(\<forall>s\<in>set ss. s = PipelineStatusSuccess) \<longleftrightarrow>
      list_all (\<lambda>ps. CalculatePipelineStageStatus ps = Inr PipelineStatusSuccess)
        (pws_PipelineStages p)"
    using Inr
  proof (induction "pws_PipelineStages p" arbitrary: p ss)
    case (Cons ps sts)
    show ?case
    proof (cases "CalculatePipelineStageStatus ps")
      case (Inr s)
      with Cons.hyps(2) Cons.prems obtain ss' where
        ss': "stage_statuses sts = Inr ss'" "ss = s # ss'"
        by (auto split: sum.splits simp flip: Cons.hyps(2))
      with Cons.hyps(1) [of "p\<lparr>pws_PipelineStages := sts\<rparr>" ss'] Inr show ?thesis
        by (auto simp flip: Cons.hyps(2))
    qed (use Cons.prems in \<open>auto simp flip: Cons.hyps(2)\<close>)
  qed (use Inr in \<open>auto simp: list_all_iff\<close>)
  show ?thesis
  proof (cases "pws_PipelineStages p = []")
    case True
    then show ?thesis by (simp add: CalculateStatus_def)
  next
    case False
    with st have ne: "ss \<noteq> []" by auto
    from Inr False have eq: "CalculateStatus p = stages_loop (pws_ID p) ss ss"
      by (simp add: CalculateStatus_def Let_def)
    have "(\<forall>s\<in>set ss. s = PipelineStatusSuccess \<or> s = PipelineStatusDisabled) \<longleftrightarrow>
        (\<forall>s\<in>set ss. s = PipelineStatusSuccess)" using st by auto
    with eq stages_loop_total [OF ne, of "pws_ID p" ss] stages_loop_success [OF ne, of "pws_ID p" ss]
      each tasks show ?thesis by auto
  qed
qed

theorem CalculateStatus_spec_witness:
  "CalculateStatus \<lparr>pws_ID = 7, pws_PipelineStages =
     [\<lparr>stage_ID = 1, stage_PipelineTasks = [example_task ''a'' PipelineEmptyStatus []]\<rparr>]\<rparr>
   = Inl StatusIsEmpty"
proof -
  let ?p = "\<lparr>pws_ID = 7, pws_PipelineStages =
     [\<lparr>stage_ID = 1, stage_PipelineTasks = [example_task ''a'' PipelineEmptyStatus []]\<rparr>]\<rparr>"
  have "\<not> (\<exists>s. CalculateStatus ?p = Inr s)"
    using CalculateStatus_spec [of ?p] by (simp add: example_task_def)
  then obtain e where "CalculateStatus ?p = Inl e" by (cases "CalculateStatus ?p") auto
  then show ?thesis using CalculateStatus_spec [of ?p] by blast
qed

end
