(* ===== verification/Task_Run.thy ===== *)
theory Task_Run
  imports Go_Loop Errorsx Throttler Task_Result Status_Util "HOL-Library.AList"
begin

text \<open>
  The runtime of one task (\<^verbatim>\<open>src/modules/pipeline/pipengine/reconciler/taskrun\<close>): its
  access to the database and etcd, the refresh and the update of the task, the loop of a task
  that is to run again, the concurrency counters and the teardown.

  The world a task run shares with others is a record: the clock, the rows of the tables the
  code reads and writes, the counters in etcd, whether the run's context is done, the throttler, the events, reports and
  invalidated tokens sent so far, and in \<open>w_faults\<close> the failures that database and etcd calls
  will meet, one entry per call (\<open>None\<close> or no entry: the call succeeds). What everybody else
  does while the task run sleeps is the argument \<open>env_pause\<close>. The plugin chain \<open>aop\<close> gets
  copies of task and pipeline and its errors are ignored, so it has no effect here.
\<close>

section \<open>World and environment\<close>

record world =
  w_now :: time
  w_tasks :: "(nat \<times> PipelineTask) list"
  w_pstatus :: "(nat \<times> PipelineStatus) list"
  w_counts :: "(string \<times> int) list"
  w_ctxDone :: bool
  w_faults :: "string option list"
  w_throttler :: throttler
  w_events :: "PipelineTask list"
  w_reports :: "(string \<times> PipelineTask) list"
  w_tokens :: "string list"

record TaskRun =
  run_Task :: PipelineTask
  run_P :: Pipeline
  run_QueriedPipelineStatus :: PipelineStatus
  run_QuitQueueTimeout :: bool
  run_QuitWaitTimeout :: bool
  run_StopQueueLoop :: bool
  run_StopWaitLoop :: bool
  run_PExitCanceled :: bool
  run_PExit :: bool
  run_FakeTimeout :: bool
  run_W :: world

text \<open>
  \<open>env_eval\<close> stands for the evaluation of a break expression by the expression library: an
  error, or whether the result is the boolean true. \<open>env_ord1\<close> and \<open>env_ord2\<close> are the
  orders in which Go ranges over the queues of a key.
\<close>

record env =
  env_oor :: "float64 \<Rightarrow> int"
  env_pause :: "duration \<Rightarrow> world \<Rightarrow> world"
  env_eval :: "string \<Rightarrow> PipelineTask \<Rightarrow> string + bool"
  env_ord1 :: "throttler \<Rightarrow> key \<Rightarrow> string list"
  env_ord2 :: "throttler \<Rightarrow> key \<Rightarrow> string list"
  env_TaskDefaultTimeout :: duration

abbreviation task_of :: "TaskRun \<Rightarrow> PipelineTask" where "task_of \<equiv> run_Task"

abbreviation status_of :: "TaskRun \<Rightarrow> PipelineStatus" where
  "status_of tr \<equiv> task_Status (run_Task tr)"

definition set_task :: "(PipelineTask \<Rightarrow> PipelineTask) \<Rightarrow> TaskRun \<Rightarrow> TaskRun" where
  "set_task f tr = tr\<lparr>run_Task := f (run_Task tr)\<rparr>"

definition set_status :: "PipelineStatus \<Rightarrow> TaskRun \<Rightarrow> TaskRun" where
  "set_status st = set_task (task_Status_update (\<lambda>_. st))"

definition run_New :: "PipelineTask \<Rightarrow> Pipeline \<Rightarrow> world \<Rightarrow> TaskRun" where
  "run_New task p w =
     \<lparr>run_Task = task, run_P = p, run_QueriedPipelineStatus = PipelineEmptyStatus,
      run_QuitQueueTimeout = False, run_QuitWaitTimeout = False,
      run_StopQueueLoop = False, run_StopWaitLoop = False,
      run_PExitCanceled = False, run_PExit = False, run_FakeTimeout = False, run_W = w\<rparr>"

section \<open>Database and etcd\<close>

definition take_fault :: "world \<Rightarrow> string option \<times> world" where
  "take_fault w =
     (case w_faults w of
        [] \<Rightarrow> (None, w)
      | f # fs \<Rightarrow> (f, w\<lparr>w_faults := fs\<rparr>))"

definition GetPipelineTask :: "nat \<Rightarrow> world \<Rightarrow> (string + PipelineTask) \<times> world" where
  "GetPipelineTask tid w =
     (case take_fault w of
        (Some e, w) \<Rightarrow> (Inl (''failed to get pipeline task by id ['' @ FormatUint tid @ '']: '' @ e), w)
      | (None, w) \<Rightarrow>
          (case map_of (w_tasks w) tid of
             None \<Rightarrow> (Inl (''not found pipeline task by id ['' @ FormatUint tid @ '']''), w)
           | Some task \<Rightarrow> (Inr task, w)))"

definition write_task :: "nat \<Rightarrow> (PipelineTask \<Rightarrow> PipelineTask) \<Rightarrow> world \<Rightarrow> world" where
  "write_task tid f w =
     (case map_of (w_tasks w) tid of
        None \<Rightarrow> w
      | Some row \<Rightarrow>
          w\<lparr>w_tasks := AList.update tid ((f row)\<lparr>task_TimeUpdated := w_now w\<rparr>) (w_tasks w)\<rparr>)"

text \<open>Zero affected rows are tried three times more and then passed over.\<close>

fun UpdatePipelineTask_loop ::
  "env \<Rightarrow> nat \<Rightarrow> nat \<Rightarrow> PipelineTask \<Rightarrow> world \<Rightarrow> string option \<times> world" where
  "UpdatePipelineTask_loop en retries tid task w =
     (case take_fault w of
        (Some e, w) \<Rightarrow> (Some e, w)
      | (None, w) \<Rightarrow>
          if map_of (w_tasks w) tid \<noteq> None then (None, write_task tid (\<lambda>_. task) w)
          else (case retries of
                  0 \<Rightarrow> (None, w)
                | Suc n \<Rightarrow> UpdatePipelineTask_loop en n tid task (env_pause en (2 * Second) w)))"

declare UpdatePipelineTask_loop.simps [simp del]

definition UpdatePipelineTask :: "env \<Rightarrow> nat \<Rightarrow> PipelineTask \<Rightarrow> world \<Rightarrow> string option \<times> world" where
  "UpdatePipelineTask en tid task w = UpdatePipelineTask_loop en 3 tid task w"

definition update_columns ::
  "nat \<Rightarrow> (PipelineTask \<Rightarrow> PipelineTask) \<Rightarrow> world \<Rightarrow> string option \<times> world" where
  "update_columns tid f w =
     (case take_fault w of
        (Some e, w) \<Rightarrow> (Some e, w)
      | (None, w) \<Rightarrow> (None, write_task tid f w))"

definition UpdatePipelineTaskResult :: "nat \<Rightarrow> PipelineTaskResult \<Rightarrow> world \<Rightarrow> string option \<times> world" where
  "UpdatePipelineTaskResult tid result w = update_columns tid (task_Result_update (\<lambda>_. result)) w"

definition UpdatePipelineTaskContext :: "nat \<Rightarrow> PipelineTaskContext \<Rightarrow> world \<Rightarrow> string option \<times> world" where
  "UpdatePipelineTaskContext tid ctx w = update_columns tid (task_Context_update (\<lambda>_. ctx)) w"

definition GetPipelineStatus :: "nat \<Rightarrow> world \<Rightarrow> (string + PipelineStatus) \<times> world" where
  "GetPipelineStatus pid w =
     (case take_fault w of
        (Some e, w) \<Rightarrow> (Inl e, w)
      | (None, w) \<Rightarrow>
          (case map_of (w_pstatus w) pid of
             None \<Rightarrow> (Inl ''pipeline base not found'', w)
           | Some st \<Rightarrow> (Inr st, w)))"

definition CreatePipelineReport :: "string \<Rightarrow> PipelineTask \<Rightarrow> world \<Rightarrow> string option \<times> world" where
  "CreatePipelineReport name task w =
     (case take_fault w of
        (Some e, w) \<Rightarrow> (Some e, w)
      | (None, w) \<Rightarrow> (None, w\<lparr>w_reports := w_reports w @ [(name, task)]\<rparr>))"

definition ListPipelineTasksByTypeStatuses ::
  "string \<Rightarrow> PipelineStatus list \<Rightarrow> world \<Rightarrow> (string + PipelineTask list) \<times> world" where
  "ListPipelineTasksByTypeStatuses typ statuses w =
     (case take_fault w of
        (Some e, w) \<Rightarrow> (Inl e, w)
      | (None, w) \<Rightarrow>
          (Inr (filter (\<lambda>t. task_Type t = typ \<and> task_Status t \<in> set statuses) (map snd (w_tasks w))), w))"

definition js_Get :: "string \<Rightarrow> world \<Rightarrow> (string + int option) \<times> world" where
  "js_Get k w =
     (case take_fault w of
        (Some e, w) \<Rightarrow> (Inl e, w)
      | (None, w) \<Rightarrow> (Inr (map_of (w_counts w) k), w))"

definition js_Put :: "string \<Rightarrow> int \<Rightarrow> world \<Rightarrow> string option \<times> world" where
  "js_Put k v w =
     (case take_fault w of
        (Some e, w) \<Rightarrow> (Some e, w)
      | (None, w) \<Rightarrow> (None, w\<lparr>w_counts := AList.update k v (w_counts w)\<rparr>))"

section \<open>Refreshing and updating the task\<close>

definition with_world :: "(world \<Rightarrow> 'r \<times> world) \<Rightarrow> TaskRun \<Rightarrow> 'r \<times> TaskRun" where
  "with_world f tr = (case f (run_W tr) of (r, w) \<Rightarrow> (r, tr\<lparr>run_W := w\<rparr>))"

definition sleep_run :: "env \<Rightarrow> duration \<Rightarrow> TaskRun \<Rightarrow> TaskRun" where
  "sleep_run en d tr = tr\<lparr>run_W := env_pause en d (run_W tr)\<rparr>"

text \<open>A loop of the engine over the task run and the loop's local variables.\<close>

definition run_loop ::
  "env \<Rightarrow> LoopOption list \<Rightarrow> ('x \<times> TaskRun \<Rightarrow> (bool \<times> string option) \<times> 'x \<times> TaskRun)
   \<Rightarrow> 'x \<times> TaskRun \<Rightarrow> string option \<times> 'x \<times> TaskRun" where
  "run_loop en options f s =
     (case loop_Do (env_oor en) (\<lambda>d (x, tr). (False, x, sleep_run en d tr)) (\<lambda>_. False)
             (loop_New options) f s of
        (err, _, s) \<Rightarrow> (err, s))"

definition fetchLatestTask :: "TaskRun \<Rightarrow> string option \<times> TaskRun" where
  "fetchLatestTask tr =
     (case with_world (GetPipelineTask (task_ID (task_of tr))) tr of
        (Inl e, tr) \<Rightarrow> (Some e, tr)
      | (Inr latest, tr) \<Rightarrow> (None, tr\<lparr>run_Task := latest\<rparr>))"

definition fetchLatestPipelineStatus :: "TaskRun \<Rightarrow> string option \<times> TaskRun" where
  "fetchLatestPipelineStatus tr =
     (case with_world (GetPipelineStatus (p_ID (run_P tr))) tr of
        (Inl e, tr) \<Rightarrow> (Some e, tr)
      | (Inr status, tr) \<Rightarrow> (None, tr\<lparr>run_QueriedPipelineStatus := status\<rparr>))"

definition EnsureFetchLatestPipelineStatus :: "env \<Rightarrow> TaskRun \<Rightarrow> TaskRun" where
  "EnsureFetchLatestPipelineStatus en tr =
     (case run_loop en [WithDeclineRatio (Fin 2), WithDeclineLimit (10 * Second)]
             (\<lambda>(latestPStatus, tr).
                (case with_world (GetPipelineStatus (p_ID (run_P tr))) tr of
                   (Inl e, tr) \<Rightarrow> ((False, Some e), PipelineEmptyStatus, tr)
                 | (Inr st, tr) \<Rightarrow> ((True, None), st, tr)))
             (PipelineEmptyStatus, tr) of
        (_, latestPStatus, tr) \<Rightarrow> tr\<lparr>run_QueriedPipelineStatus := latestPStatus\<rparr>)"

definition Update_body :: "env \<Rightarrow> unit \<times> TaskRun \<Rightarrow> (bool \<times> string option) \<times> unit \<times> TaskRun" where
  "Update_body en = (\<lambda>(u, tr).
     (case with_world (UpdatePipelineTask en (task_ID (task_of tr)) (task_of tr)) tr of
        (Some e, tr) \<Rightarrow> ((False, Some e), (), tr)
      | (None, tr) \<Rightarrow> ((True, None), (), tr)))"

definition emit_event :: "TaskRun \<Rightarrow> TaskRun" where
  "emit_event tr = tr\<lparr>run_W := (run_W tr)\<lparr>w_events := w_events (run_W tr) @ [task_of tr]\<rparr>\<rparr>"

definition Update :: "env \<Rightarrow> TaskRun \<Rightarrow> TaskRun" where
  "Update en tr =
     (case run_loop en [WithDeclineRatio (Fin 2), WithDeclineLimit (10 * Second)] (Update_body en) ((), tr) of
        (_, _, tr) \<Rightarrow> emit_event tr)"

definition append_error :: "PipelineTaskErrResponse \<Rightarrow> TaskRun \<Rightarrow> TaskRun" where
  "append_error r tr =
     set_task (task_Result_update (tr_Errors_update (\<lambda>errs. AppendError (w_now (run_W tr)) errs [r]))) tr"

definition AppendLastMsg :: "string \<Rightarrow> TaskRun \<Rightarrow> string option \<times> TaskRun" where
  "AppendLastMsg msg tr =
     (if msg = '''' then (None, tr)
      else (case fetchLatestTask tr of
        (Some e, tr) \<Rightarrow> (Some e, tr)
      | (None, tr) \<Rightarrow>
          let tr = append_error (new_response msg) tr
          in with_world (UpdatePipelineTaskResult (task_ID (task_of tr)) (task_Result (task_of tr))) tr))"

definition getEventsFromInspect :: "string \<Rightarrow> string" where
  "getEventsFromInspect inspect =
     (let eventsIdx = strings_LastIndex inspect ''Events''
      in if eventsIdx = - 1 then '''' else drop (nat eventsIdx) inspect)"

definition UpdateTaskInspect :: "string \<Rightarrow> TaskRun \<Rightarrow> string option \<times> TaskRun" where
  "UpdateTaskInspect inspect tr =
     (if inspect = '''' then (None, tr)
      else (case fetchLatestTask tr of
        (Some e, tr) \<Rightarrow> (Some e, tr)
      | (None, tr) \<Rightarrow>
          let tr = set_task (task_Result_update
                (\<lambda>r. r\<lparr>tr_Inspect := inspect, tr_Events := getEventsFromInspect inspect\<rparr>)) tr
          in with_world (UpdatePipelineTaskResult (task_ID (task_of tr)) (task_Result (task_of tr))) tr))"

section \<open>Looping a task\<close>

definition until_fetched :: "env \<Rightarrow> TaskRun \<Rightarrow> TaskRun" where
  "until_fetched en tr =
     snd (snd (run_loop en [WithDeclineRatio (Fin 2), WithDeclineLimit Minute]
       (\<lambda>(u, tr). (case fetchLatestTask tr of (e, tr) \<Rightarrow> ((e = None, None), u, tr))) ((), tr)))"

definition until_status_fetched :: "env \<Rightarrow> TaskRun \<Rightarrow> TaskRun" where
  "until_status_fetched en tr =
     snd (snd (run_loop en [WithDeclineRatio (Fin 2), WithDeclineLimit Minute]
       (\<lambda>(u, tr). (case fetchLatestPipelineStatus tr of (e, tr) \<Rightarrow> ((e = None, None), u, tr))) ((), tr)))"

definition loop_interval :: "env \<Rightarrow> LoopStrategy \<Rightarrow> nat \<Rightarrow> duration" where
  "loop_interval en strategy n =
     CalculateInterval (env_oor en)
       (loop_New [WithInterval (wrap64 (Second * wrap64 (ls_IntervalSec strategy))),
                  WithDeclineRatio (ls_DeclineRatio strategy),
                  WithDeclineLimit (wrap64 (Second * ls_DeclineLimitSec strategy))]) n"

definition reset_task :: "PipelineTask \<Rightarrow> PipelineTask" where
  "reset_task t = t\<lparr>
     task_Status := PipelineStatusAnalyzed,
     task_CostTimeSec := - 1, task_QueueTimeSec := - 1,
     task_TimeBegin := 0, task_TimeEnd := 0,
     task_Result := empty_PipelineTaskResult,
     task_Context := empty_PipelineTaskContext,
     task_Extra := (task_Extra t)\<lparr>
       te_LoopOptions := map_option (lo_LoopedTimes_update (\<lambda>n. (n + 1) mod 2 ^ 64)) (te_LoopOptions (task_Extra t)),
       te_TimeBeginQueue := 0, te_TimeEndQueue := 0, te_Volumes := []\<rparr>\<rparr>"

text \<open>\<open>None\<close>: the code dereferences a nil pointer.\<close>

definition resetTaskForLoop :: "env \<Rightarrow> TaskRun \<Rightarrow> TaskRun option" where
  "resetTaskForLoop en tr =
     (case te_LoopOptions (task_Extra (task_of tr)) of
        None \<Rightarrow> None
      | Some lo \<Rightarrow>
     (case lo_CalculatedLoop lo of
        None \<Rightarrow> None
      | Some cl \<Rightarrow>
     (case tl_Strategy cl of
        None \<Rightarrow> None
      | Some strategy \<Rightarrow>
          let tr = EnsureFetchLatestPipelineStatus en
                     (sleep_run en (loop_interval en strategy (lo_LoopedTimes lo)) tr)
          in if IsEndStatus (run_QueriedPipelineStatus tr) then Some tr
             else Some ((set_task reset_task tr)\<lparr>
                    run_FakeTimeout := False, run_QuitQueueTimeout := False,
                    run_QuitWaitTimeout := False, run_StopQueueLoop := False,
                    run_StopWaitLoop := False\<rparr>))))"

definition reportTaskForLoop :: "TaskRun \<Rightarrow> string option \<times> TaskRun" where
  "reportTaskForLoop tr =
     (case te_LoopOptions (task_Extra (task_of tr)) of
        None \<Rightarrow> (None, tr)
      | Some lo \<Rightarrow>
          with_world (CreatePipelineReport
            (''task-'' @ FormatUint (task_ID (task_of tr)) @ ''-loop-'' @ FormatUint (lo_LoopedTimes lo))
            (task_of tr)) tr)"

definition set_strategy :: "LoopStrategy \<Rightarrow> PipelineTask \<Rightarrow> PipelineTask" where
  "set_strategy s = task_Extra_update (te_LoopOptions_update (map_option
     (lo_CalculatedLoop_update (map_option (tl_Strategy_update (\<lambda>_. Some s))))))"

definition handleTaskLoop :: "env \<Rightarrow> TaskRun \<Rightarrow> (string option \<times> TaskRun) option" where
  "handleTaskLoop en tr =
     (if \<not> IsEndStatus (status_of tr) then Some (None, tr)
      else
        let tr = EnsureFetchLatestPipelineStatus en tr
        in if IsEndStatus (run_QueriedPipelineStatus tr) then Some (None, tr)
        else
     (case te_LoopOptions (task_Extra (task_of tr)) of
        None \<Rightarrow> Some (None, tr)
      | Some lo \<Rightarrow>
     (case lo_CalculatedLoop lo of
        None \<Rightarrow> Some (None, tr)
      | Some loopOpt \<Rightarrow>
          let strategy = (case tl_Strategy loopOpt of
                            None \<Rightarrow> PipelineTaskDefaultLoopStrategy | Some s \<Rightarrow> s);
              tr = set_task (set_strategy strategy) tr
          in (case env_eval en (tl_Break loopOpt) (task_of tr) of
                Inl e \<Rightarrow> Some (Some (''loop break expr '' @ tl_Break loopOpt @ '' evaluate failed, err: '' @ e), tr)
              | Inr t \<Rightarrow>
                  if t then Some (None, tr)
                  else if ls_MaxTimes strategy \<noteq> - 1 \<and>
                          wrap64 (int (lo_LoopedTimes lo)) \<ge> ls_MaxTimes strategy
                  then Some (None, tr)
                  else map_option (Pair None) (resetTaskForLoop en (snd (reportTaskForLoop tr)))))))"

section \<open>Concurrency counters\<close>

definition etcdTaskConcurrencyKeyPrefix :: string where
  "etcdTaskConcurrencyKeyPrefix = ''/devops/pipeline/task-concurrency/v1''"

definition etcdTaskConcurrencyLockKeyPrefix :: string where
  "etcdTaskConcurrencyLockKeyPrefix = ''/devops/pipeline/dlock/task-concurrency/v1''"

definition makeTaskConcurrencyCountKey :: "TaskRun \<Rightarrow> string" where
  "makeTaskConcurrencyCountKey tr =
     etcdTaskConcurrencyKeyPrefix @ ''/'' @ task_Type (task_of tr) @ ''/cluster/'' @
     p_ClusterName (run_P tr) @ ''/count''"

definition makeTaskConcurrencyCountLockKey :: "TaskRun \<Rightarrow> string" where
  "makeTaskConcurrencyCountLockKey tr =
     etcdTaskConcurrencyLockKeyPrefix @ ''/'' @ task_Type (task_of tr) @ ''/cluster/'' @
     p_ClusterName (run_P tr)"

definition GetTaskConcurrencyCount :: "env \<Rightarrow> TaskRun \<Rightarrow> int \<times> TaskRun" where
  "GetTaskConcurrencyCount en tr =
     snd (run_loop en [WithDeclineRatio (Fin 2), WithDeclineLimit (10 * Second)]
       (\<lambda>(count, tr).
          (case with_world (js_Get (makeTaskConcurrencyCountKey tr)) tr of
             (Inl e, tr) \<Rightarrow> ((False, Some e), count, tr)
           | (Inr None, tr) \<Rightarrow> ((True, None), 0, tr)
           | (Inr (Some c), tr) \<Rightarrow> ((True, None), c, tr)))
       (0, tr))"

definition put_count :: "env \<Rightarrow> int \<Rightarrow> TaskRun \<Rightarrow> TaskRun" where
  "put_count en newCount tr =
     snd (snd (run_loop en [WithDeclineRatio (Fin 2), WithDeclineLimit (10 * Second)]
       (\<lambda>(u, tr).
          (case with_world (js_Put (makeTaskConcurrencyCountKey tr) newCount) tr of
             (Some e, tr) \<Rightarrow> ((False, Some e), u, tr)
           | (None, tr) \<Rightarrow> ((True, None), u, tr)))
       ((), tr)))"

definition AddTaskConcurrencyCount :: "env \<Rightarrow> int \<Rightarrow> bool list \<Rightarrow> TaskRun \<Rightarrow> TaskRun" where
  "AddTaskConcurrencyCount en add overwriteOpt tr =
     (let overwrite = (case overwriteOpt of [] \<Rightarrow> False | b # _ \<Rightarrow> b)
      in if overwrite then put_count en add tr
         else (case GetTaskConcurrencyCount en tr of
                 (current, tr) \<Rightarrow> put_count en (wrap64 (current + add)) tr))"

definition CalibrateConcurrencyCountFromDB :: "env \<Rightarrow> TaskRun \<Rightarrow> TaskRun" where
  "CalibrateConcurrencyCountFromDB en tr =
     (case run_loop en [WithDeclineRatio (Fin 2), WithDeclineLimit (10 * Second)]
             (\<lambda>(tasks, tr).
                (case with_world (ListPipelineTasksByTypeStatuses (task_Type (task_of tr))
                        [PipelineStatusQueue, PipelineStatusRunning]) tr of
                   (Inl e, tr) \<Rightarrow> ((False, Some e), tasks, tr)
                 | (Inr ts, tr) \<Rightarrow>
                     ((True, None),
                      tasks @ filter (\<lambda>t. te_ClusterName (task_Extra t) = te_ClusterName (task_Extra (task_of tr))) ts,
                      tr)))
             ([], tr) of
        (_, tasks, tr) \<Rightarrow> AddTaskConcurrencyCount en (int (length tasks)) [True] tr)"

record ActionConcurrencyV1 =
  cv_DefaultMax :: int
  cv_Clusters :: "(string \<times> int) list"

record ActionConcurrency =
  ac_Enable :: bool
  ac_V1 :: "ActionConcurrencyV1 option"

definition NoConcurrencyLimit :: int where "NoConcurrencyLimit = - 1"

definition noConcurrencyLimit :: "ActionConcurrency option \<Rightarrow> bool" where
  "noConcurrencyLimit concurrency =
     (case concurrency of
        None \<Rightarrow> True
      | Some c \<Rightarrow> if \<not> ac_Enable c then True else if ac_V1 c = None then True else False)"

definition getConcurrencyLimitV1 :: "TaskRun \<Rightarrow> ActionConcurrencyV1 \<Rightarrow> int" where
  "getConcurrencyLimitV1 tr v1 =
     (case map_of (cv_Clusters v1) (p_ClusterName (run_P tr)) of
        Some config \<Rightarrow> config
      | None \<Rightarrow> cv_DefaultMax v1)"

definition GetConcurrencyLimit :: "TaskRun \<Rightarrow> ActionConcurrency option \<Rightarrow> int" where
  "GetConcurrencyLimit tr concurrency =
     (if noConcurrencyLimit concurrency then NoConcurrencyLimit
      else (case concurrency of
              None \<Rightarrow> NoConcurrencyLimit
            | Some c \<Rightarrow>
                (case ac_V1 c of
                   Some v1 \<Rightarrow> getConcurrencyLimitV1 tr v1
                 | None \<Rightarrow> NoConcurrencyLimit)))"

section \<open>Teardown\<close>

definition TeardownConcurrencyCount :: "env \<Rightarrow> TaskRun \<Rightarrow> TaskRun" where
  "TeardownConcurrencyCount en tr =
     (case GetTaskConcurrencyCount en tr of
        (currentCount, tr) \<Rightarrow>
          if currentCount = 0 then tr else AddTaskConcurrencyCount en (- 1) [] tr)"

definition TeardownPriorityQueue :: "env \<Rightarrow> TaskRun \<Rightarrow> TaskRun" where
  "TeardownPriorityQueue en tr =
     (let w = run_W tr; t = w_throttler w; k = te_UUID (task_Extra (task_of tr))
      in (case th_PopProcessing (env_ord1 en t k) (env_ord2 en t k) t k of
            (_, _, t) \<Rightarrow> tr\<lparr>run_W := w\<lparr>w_throttler := t\<rparr>\<rparr>))"

definition lookup_env :: "(string \<times> string) list \<Rightarrow> string \<Rightarrow> string" where
  "lookup_env m k = (case map_of m k of None \<Rightarrow> '''' | Some v \<Rightarrow> v)"

definition teardown_tokens :: "PipelineTask \<Rightarrow> string list" where
  "teardown_tokens task =
     DedupSlice [lookup_env (te_PublicEnvs (task_Extra task)) ''DICE_OPENAPI_TOKEN_FOR_ACTION_BOOTSTRAP'',
                 lookup_env (te_PrivateEnvs (task_Extra task)) ''DICE_OPENAPI_TOKEN''] True"

text \<open>The deferred calls run in reverse order: the priority queue first.\<close>

definition Teardown :: "env \<Rightarrow> TaskRun \<Rightarrow> TaskRun" where
  "Teardown en tr =
     TeardownConcurrencyCount en (TeardownPriorityQueue en
       (tr\<lparr>run_W := (run_W tr)\<lparr>w_tokens := w_tokens (run_W tr) @ teardown_tokens (task_of tr)\<rparr>\<rparr>))"

section \<open>Frames\<close>

lemma run_loop_inv:
  assumes "\<And>x tr r x' tr'. P x tr \<Longrightarrow> f (x, tr) = (r, x', tr') \<Longrightarrow> P x' tr'"
    and "\<And>x tr d. P x tr \<Longrightarrow> P x (sleep_run en d tr)" and "P x tr"
    and "run_loop en options f (x, tr) = (e, x', tr')"
  shows "P x' tr'"
proof -
  let ?pause = "\<lambda>d (x, tr). (False, x, sleep_run en d tr)"
  have "case_prod P (snd (snd (loop_Do (env_oor en) ?pause (\<lambda>_. False) (loop_New options) f (x, tr))))"
    by (rule loop_Do_inv) (use assms(1-3) in auto)
  with assms(4) show ?thesis by (auto simp: run_loop_def split: prod.splits)
qed

lemma take_fault_frame: "take_fault w = (f, w') \<Longrightarrow> \<exists>fs. w' = w\<lparr>w_faults := fs\<rparr>"
  by (auto simp: take_fault_def split: list.splits intro: exI [of _ "w_faults w"])

lemma with_world_frame: "with_world f tr = (r, tr') \<Longrightarrow> \<exists>w. tr' = tr\<lparr>run_W := w\<rparr>"
  by (auto simp: with_world_def split: prod.splits)

text \<open>Two task runs that differ in the shared world only.\<close>

definition same_run :: "TaskRun \<Rightarrow> TaskRun \<Rightarrow> bool" where
  "same_run tr tr' \<longleftrightarrow> tr' = tr\<lparr>run_W := run_W tr'\<rparr>"

lemma same_run_refl [simp]: "same_run tr tr" by (simp add: same_run_def)

lemma same_run_trans: "same_run a b \<Longrightarrow> same_run b c \<Longrightarrow> same_run a c"
  unfolding same_run_def by (cases a, cases b, cases c) simp

lemma same_run_sleep: "same_run a tr \<Longrightarrow> same_run a (sleep_run en d tr)"
  unfolding same_run_def sleep_run_def by (cases a, cases tr) simp

lemma same_run_with_world: "same_run a tr \<Longrightarrow> with_world f tr = (r, tr') \<Longrightarrow> same_run a tr'"
  unfolding same_run_def by (drule with_world_frame) (cases a, cases tr, auto)

lemma same_runD:
  assumes "same_run tr tr'"
  shows "run_Task tr' = run_Task tr" "run_P tr' = run_P tr" "run_PExit tr' = run_PExit tr"
    "run_PExitCanceled tr' = run_PExitCanceled tr" "run_FakeTimeout tr' = run_FakeTimeout tr"
    "run_QueriedPipelineStatus tr' = run_QueriedPipelineStatus tr"
  using assms unfolding same_run_def by (cases tr, cases tr', simp)+

lemma Update_same_run: "same_run tr (Update en tr)"
proof -
  obtain e u tr' where l: "run_loop en [WithDeclineRatio (Fin 2), WithDeclineLimit (10 * Second)]
      (Update_body en) ((), tr) = (e, u, tr')" by (metis surj_pair)
  have "same_run tr tr'"
    by (rule run_loop_inv [where P = "\<lambda>_. same_run tr", OF _ _ _ l])
       (auto simp: Update_body_def same_run_sleep intro: same_run_with_world split: prod.splits option.splits)
  then have "same_run tr (emit_event tr')"
    unfolding same_run_def emit_event_def by (cases tr, cases tr') simp
  with l show ?thesis by (simp add: Update_def)
qed

lemmas Update_frame [simp] = same_runD [OF Update_same_run]

lemma EnsureFetch_same_run:
  "same_run (tr\<lparr>run_QueriedPipelineStatus := run_QueriedPipelineStatus (EnsureFetchLatestPipelineStatus en tr)\<rparr>)
     (EnsureFetchLatestPipelineStatus en tr)"
proof -
  define body where "body = (\<lambda>(latestPStatus :: PipelineStatus, tr).
                (case with_world (GetPipelineStatus (p_ID (run_P tr))) tr of
                   (Inl e, tr) \<Rightarrow> ((False, Some e), PipelineEmptyStatus, tr)
                 | (Inr st, tr) \<Rightarrow> ((True, None), st, tr)))"
  obtain e st tr' where l: "run_loop en [WithDeclineRatio (Fin 2), WithDeclineLimit (10 * Second)]
      body (PipelineEmptyStatus, tr) = (e, st, tr')" by (metis surj_pair)
  have "same_run tr tr'"
    by (rule run_loop_inv [where P = "\<lambda>_. same_run tr", OF _ _ _ l])
       (auto simp: body_def same_run_sleep intro: same_run_with_world split: prod.splits sum.splits)
  moreover have "EnsureFetchLatestPipelineStatus en tr = tr'\<lparr>run_QueriedPipelineStatus := st\<rparr>"
    using l by (simp add: EnsureFetchLatestPipelineStatus_def body_def)
  ultimately show ?thesis
    unfolding same_run_def by (cases tr, cases tr') simp
qed

lemma EnsureFetch_frame [simp]:
  "run_Task (EnsureFetchLatestPipelineStatus en tr) = run_Task tr"
  "run_P (EnsureFetchLatestPipelineStatus en tr) = run_P tr"
  "run_PExit (EnsureFetchLatestPipelineStatus en tr) = run_PExit tr"
  using same_runD [OF EnsureFetch_same_run [where tr = tr and en = en]] by simp_all

lemma sleep_run_frame [simp]:
  "run_Task (sleep_run en d tr) = run_Task tr" "run_P (sleep_run en d tr) = run_P tr"
  "run_PExit (sleep_run en d tr) = run_PExit tr"
  by (simp_all add: sleep_run_def)

lemma set_task_frame [simp]:
  "run_Task (set_task f tr) = f (run_Task tr)" "run_P (set_task f tr) = run_P tr"
  "run_PExit (set_task f tr) = run_PExit tr" "run_W (set_task f tr) = run_W tr"
  "run_FakeTimeout (set_task f tr) = run_FakeTimeout tr"
  by (simp_all add: set_task_def)

lemma set_status_frame [simp]:
  "task_Status (run_Task (set_status st tr)) = st" "run_PExit (set_status st tr) = run_PExit tr"
  "run_P (set_status st tr) = run_P tr" "run_W (set_status st tr) = run_W tr"
  "run_FakeTimeout (set_status st tr) = run_FakeTimeout tr"
  "task_ID (run_Task (set_status st tr)) = task_ID (run_Task tr)"
  by (simp_all add: set_status_def)

lemma reportTaskForLoop_same_run: "same_run tr (snd (reportTaskForLoop tr))"
  by (auto simp: reportTaskForLoop_def split: option.splits intro: same_run_with_world [OF same_run_refl]
      dest: sym) (metis prod.collapse same_run_refl same_run_with_world)

section \<open>The loop of a task\<close>

definition looped_times :: "PipelineTask \<Rightarrow> nat" where
  "looped_times t = (case te_LoopOptions (task_Extra t) of None \<Rightarrow> 0 | Some lo \<Rightarrow> lo_LoopedTimes lo)"

text \<open>The strategy by which a task loops, the default one when none is given.\<close>

definition loop_strategy :: "PipelineTask \<Rightarrow> LoopStrategy option" where
  "loop_strategy t =
     (case te_LoopOptions (task_Extra t) of
        None \<Rightarrow> None
      | Some lo \<Rightarrow>
          (case lo_CalculatedLoop lo of
             None \<Rightarrow> None
           | Some cl \<Rightarrow> Some (case tl_Strategy cl of None \<Rightarrow> PipelineTaskDefaultLoopStrategy | Some s \<Rightarrow> s)))"

lemma set_status_loop [simp]:
  "looped_times (run_Task (set_status st tr)) = looped_times (run_Task tr)"
  "loop_strategy (run_Task (set_status st tr)) = loop_strategy (run_Task tr)"
  "task_Context (run_Task (set_status st tr)) = task_Context (run_Task tr)"
  by (simp_all add: set_status_def looped_times_def loop_strategy_def)

lemma set_strategy_frame [simp]:
  "task_Status (set_strategy s t) = task_Status t" "task_ID (set_strategy s t) = task_ID t"
  "looped_times (set_strategy s t) = looped_times t" "task_Context (set_strategy s t) = task_Context t"
  by (auto simp: set_strategy_def looped_times_def split: option.splits)

lemma loop_strategy_set_strategy:
  "loop_strategy t = Some s \<Longrightarrow> loop_strategy (set_strategy s t) = Some s"
  by (auto simp: set_strategy_def loop_strategy_def split: option.splits)

lemma reset_task_frame [simp]:
  "task_Status (reset_task t) = PipelineStatusAnalyzed" "task_ID (reset_task t) = task_ID t"
  "loop_strategy (reset_task t) = loop_strategy t"
  "task_Context (reset_task t) = empty_PipelineTaskContext"
  by (auto simp: reset_task_def loop_strategy_def split: option.splits)

lemma looped_times_reset_task:
  "loop_strategy t \<noteq> None \<Longrightarrow> looped_times (reset_task t) = (looped_times t + 1) mod 2 ^ 64"
  by (auto simp: reset_task_def looped_times_def loop_strategy_def split: option.splits)

lemma resetTaskForLoop_cases:
  assumes "loop_strategy (task_of tr) = Some s"
    and "te_LoopOptions (task_Extra (task_of tr)) = Some lo" "lo_CalculatedLoop lo = Some cl" "tl_Strategy cl = Some s"
  shows "\<exists>tr'. resetTaskForLoop en tr = Some tr' \<and>
    (task_of tr' = task_of tr \<or> task_of tr' = reset_task (task_of tr)) \<and>
    run_P tr' = run_P tr \<and> run_PExit tr' = run_PExit tr"
  using assms by (simp add: resetTaskForLoop_def Let_def)

text \<open>
  What \<open>handleTaskLoop\<close> can do: nothing to the task but filling in the default strategy, or
  resetting it for another round.
\<close>

lemma handleTaskLoop_cases:
  obtains e tr' where "handleTaskLoop en tr = Some (e, tr')" "run_P tr' = run_P tr"
      "run_PExit tr' = run_PExit tr" "task_of tr' = task_of tr" "e = None"
  | e s tr' where "handleTaskLoop en tr = Some (e, tr')" "run_P tr' = run_P tr"
      "run_PExit tr' = run_PExit tr" "IsEndStatus (status_of tr)" "loop_strategy (task_of tr) = Some s"
      "task_of tr' = set_strategy s (task_of tr)"
  | s tr' where "handleTaskLoop en tr = Some (None, tr')" "run_P tr' = run_P tr"
      "run_PExit tr' = run_PExit tr" "IsEndStatus (status_of tr)" "loop_strategy (task_of tr) = Some s"
      "ls_MaxTimes s = - 1 \<or> wrap64 (int (looped_times (task_of tr))) < ls_MaxTimes s"
      "task_of tr' = reset_task (set_strategy s (task_of tr))"
proof (cases "IsEndStatus (status_of tr) \<and>
    \<not> IsEndStatus (run_QueriedPipelineStatus (EnsureFetchLatestPipelineStatus en tr)) \<and>
    loop_strategy (task_of tr) \<noteq> None")
  case False
  then show ?thesis
    by (intro that(1) [of None "if IsEndStatus (status_of tr) then EnsureFetchLatestPipelineStatus en tr else tr"])
       (auto simp: handleTaskLoop_def loop_strategy_def Let_def split: option.splits)
next
  case True
  then obtain s lo cl where s: "loop_strategy (task_of tr) = Some s"
    and lo: "te_LoopOptions (task_Extra (task_of tr)) = Some lo" "lo_CalculatedLoop lo = Some cl"
    and st: "(case tl_Strategy cl of None \<Rightarrow> PipelineTaskDefaultLoopStrategy | Some s \<Rightarrow> s) = s"
    by (auto simp: loop_strategy_def split: option.splits)
  let ?tr = "set_task (set_strategy s) (EnsureFetchLatestPipelineStatus en tr)"
  have n: "looped_times (task_of tr) = lo_LoopedTimes lo" using lo by (simp add: looped_times_def)
  show ?thesis
  proof (cases "env_eval en (tl_Break cl) (task_of ?tr)")
    case (Inl e)
    with True s lo st show ?thesis
      by (intro that(2) [of "Some (''loop break expr '' @ tl_Break cl @ '' evaluate failed, err: '' @ e)" ?tr s])
         (auto simp: handleTaskLoop_def Let_def)
  next
    case (Inr t)
    show ?thesis
    proof (cases "t \<or> ls_MaxTimes s \<noteq> - 1 \<and> wrap64 (int (lo_LoopedTimes lo)) \<ge> ls_MaxTimes s")
      case True': True
      with True s lo st Inr show ?thesis
        by (intro that(2) [of None ?tr s]) (auto simp: handleTaskLoop_def Let_def)
    next
      case go: False
      let ?rep = "snd (reportTaskForLoop ?tr)"
      have rep: "same_run ?tr ?rep" by (rule reportTaskForLoop_same_run)
      have t: "task_of ?rep = set_strategy s (task_of tr)" "run_P ?rep = run_P tr" "run_PExit ?rep = run_PExit tr"
        using same_runD [OF rep] by simp_all
      have lo': "te_LoopOptions (task_Extra (task_of ?rep)) =
          Some (lo\<lparr>lo_CalculatedLoop := Some (cl\<lparr>tl_Strategy := Some s\<rparr>)\<rparr>)"
        using lo t(1) by (cases lo, cases cl) (simp add: set_strategy_def)
      obtain tr' where r: "resetTaskForLoop en ?rep = Some tr'"
        "task_of tr' = task_of ?rep \<or> task_of tr' = reset_task (task_of ?rep)"
        "run_P tr' = run_P ?rep" "run_PExit tr' = run_PExit ?rep"
        using resetTaskForLoop_cases [of ?rep s _ "cl\<lparr>tl_Strategy := Some s\<rparr>" en]
          lo' t loop_strategy_set_strategy [OF s] by auto
      have h: "handleTaskLoop en tr = Some (None, tr')"
        using True lo st Inr go r(1) by (auto simp: handleTaskLoop_def Let_def)
      from r(2) show ?thesis
      proof
        assume "task_of tr' = task_of ?rep"
        with h r t s True show ?thesis by (intro that(2) [of None tr' s]) simp_all
      next
        assume "task_of tr' = reset_task (task_of ?rep)"
        with h r t s True go n show ?thesis by (intro that(3) [of tr' s]) auto
      qed
    qed
  qed
qed

lemma handleTaskLoop_total: "\<exists>e tr'. handleTaskLoop en tr = Some (e, tr')"
  by (rule handleTaskLoop_cases [of en tr]) auto

text \<open>
  C15: a task never loops beyond the \<open>MaxTimes\<close> of its strategy: \<open>handleTaskLoop\<close> returns
  without a nil dereference, leaves the count of rounds within the limit, and changes the status
  only from an end status back to \<open>Analyzed\<close>, with the round counted.\<close>

theorem handleTaskLoop_bounded:
  assumes "loop_strategy (task_of tr) = Some s" and "0 \<le> ls_MaxTimes s" "ls_MaxTimes s < 2 ^ 63"
    and "int (looped_times (task_of tr)) \<le> ls_MaxTimes s"
  shows "\<exists>e tr'. handleTaskLoop en tr = Some (e, tr') \<and>
           loop_strategy (task_of tr') = Some s \<and> int (looped_times (task_of tr')) \<le> ls_MaxTimes s \<and>
           (status_of tr' = status_of tr \<or>
            IsEndStatus (status_of tr) \<and> status_of tr' = PipelineStatusAnalyzed \<and>
            looped_times (task_of tr') = looped_times (task_of tr) + 1)"
proof -
  have w: "wrap64 (int (looped_times (task_of tr))) = int (looped_times (task_of tr))"
    using assms by (intro wrap64_id) (simp add: is_int64_def)
  have m: "(looped_times (task_of tr) + 1) mod 2 ^ 64 = looped_times (task_of tr) + 1"
    using assms(3,4) by simp
  have t: "looped_times (reset_task (set_strategy s (task_of tr))) = looped_times (task_of tr) + 1"
    using looped_times_reset_task [of "set_strategy s (task_of tr)"]
      loop_strategy_set_strategy [OF assms(1)] m by simp
  show ?thesis
    by (rule handleTaskLoop_cases [of en tr])
       (use assms w t loop_strategy_set_strategy [OF assms(1)] in auto)
qed

section \<open>Calls that succeed in the end\<close>

text \<open>
  The hypotheses on the environment of a retried call: the others neither add failures nor
  delete tasks while the loop sleeps.
\<close>

definition calm :: "env \<Rightarrow> bool" where
  "calm en \<longleftrightarrow>
     (\<forall>d w. length (w_faults (env_pause en d w)) \<le> length (w_faults w) \<and>
            (\<forall>i. map_of (w_tasks w) i \<noteq> None \<longrightarrow> map_of (w_tasks (env_pause en d w)) i \<noteq> None) \<and>
            w_pstatus (env_pause en d w) = w_pstatus w \<and> w_counts (env_pause en d w) = w_counts w)"

lemma calmD:
  assumes "calm en"
  shows "length (w_faults (env_pause en d w)) \<le> length (w_faults w)"
    "map_of (w_tasks w) i \<noteq> None \<Longrightarrow> map_of (w_tasks (env_pause en d w)) i \<noteq> None"
    "w_pstatus (env_pause en d w) = w_pstatus w" "w_counts (env_pause en d w) = w_counts w"
  using assms unfolding calm_def by blast+

lemma take_fault_cases:
  obtains fs where "take_fault w = (None, w\<lparr>w_faults := fs\<rparr>)" "length fs \<le> length (w_faults w)"
  | e fs where "take_fault w = (Some e, w\<lparr>w_faults := fs\<rparr>)" "length fs < length (w_faults w)"
proof (cases "w_faults w")
  case Nil
  then show ?thesis by (intro that(1) [of "[]"]) (simp_all add: take_fault_def)
next
  case (Cons f fs)
  show ?thesis
  proof (cases f)
    case None
    with Cons show ?thesis by (intro that(1) [of fs]) (simp_all add: take_fault_def)
  next
    case (Some e)
    with Cons show ?thesis by (intro that(2) [of e fs]) (simp_all add: take_fault_def)
  qed
qed

lemma loop_New_plain:
  "\<not> lp_ctx (loop_New [WithDeclineRatio r, WithDeclineLimit d])"
  "lp_maxTimes (loop_New [WithDeclineRatio r, WithDeclineLimit d]) = 2 ^ 64 - 1"
  by (simp_all add: loop_New_def Let_def)

lemma run_loop_rule:
  assumes "\<And>x tr abort err x' tr'. I x tr \<Longrightarrow> f (x, tr) = ((abort, err), x', tr') \<Longrightarrow>
      (if abort then Q x' tr'
       else (\<forall>d. I x' (sleep_run en d tr') \<and>
                 length (w_faults (run_W (sleep_run en d tr'))) < length (w_faults (run_W tr))))"
    and "I x tr" and "int (length (w_faults (run_W tr))) < 2 ^ 64 - 1"
    and "run_loop en [WithDeclineRatio r, WithDeclineLimit d] f (x, tr) = (e, x', tr')"
  shows "Q x' tr'"
proof -
  let ?pause = "\<lambda>d (x, tr). (False, x, sleep_run en d tr)"
  have "case loop_Do (env_oor en) ?pause (\<lambda>_. False)
          (loop_New [WithDeclineRatio r, WithDeclineLimit d]) f (x, tr) of (err, l', s') \<Rightarrow> case_prod Q s'"
    by (rule loop_Do_rule [where I = "case_prod I" and m = "\<lambda>(x, tr). length (w_faults (run_W tr))"])
       (use assms(1-3) loop_New_plain in \<open>force+\<close>)
  with assms(4) show ?thesis by (auto simp: run_loop_def split: prod.splits)
qed

lemma map_of_write_task:
  "map_of (w_tasks w) i = Some row \<Longrightarrow>
   map_of (w_tasks (write_task i f w)) i = Some ((f row)\<lparr>task_TimeUpdated := w_now w\<rparr>)"
  by (simp add: write_task_def update_conv')

lemma Update_body_step:
  assumes "map_of (w_tasks (run_W tr)) (task_ID (task_of tr)) \<noteq> None"
    and "Update_body en ((), tr) = ((abort, err), u, tr')"
  shows "if abort then \<exists>now. map_of (w_tasks (run_W tr')) (task_ID (task_of tr)) =
             Some ((task_of tr)\<lparr>task_TimeUpdated := now\<rparr>)
         else length (w_faults (run_W tr')) < length (w_faults (run_W tr)) \<and> w_tasks (run_W tr') = w_tasks (run_W tr)"
proof (cases "run_W tr" rule: take_fault_cases)
  case (1 fs)
  obtain row where "map_of (w_tasks (run_W tr)) (task_ID (task_of tr)) = Some row" using assms(1) by blast
  then show ?thesis
    using assms(2) 1
    by (auto simp: Update_body_def with_world_def UpdatePipelineTask_def UpdatePipelineTask_loop.simps
        write_task_def update_conv')
next
  case (2 e fs)
  then show ?thesis
    using assms(2)
    by (auto simp: Update_body_def with_world_def UpdatePipelineTask_def UpdatePipelineTask_loop.simps)
qed

lemma Update_writes:
  assumes "calm en" and "map_of (w_tasks (run_W tr)) (task_ID (task_of tr)) \<noteq> None"
    and "int (length (w_faults (run_W tr))) < 2 ^ 64 - 1"
  shows "\<exists>now. map_of (w_tasks (run_W (Update en tr))) (task_ID (task_of tr)) =
           Some ((task_of tr)\<lparr>task_TimeUpdated := now\<rparr>) \<and>
         last (w_events (run_W (Update en tr))) = task_of tr"
proof -
  obtain e u tr' where l: "run_loop en [WithDeclineRatio (Fin 2), WithDeclineLimit (10 * Second)]
      (Update_body en) ((), tr) = (e, u, tr')" by (metis surj_pair)
  let ?row = "\<lambda>tr'. map_of (w_tasks (run_W tr')) (task_ID (task_of tr))"
  have "same_run tr tr' \<and> (\<exists>now. ?row tr' = Some ((task_of tr)\<lparr>task_TimeUpdated := now\<rparr>))"
  proof (rule run_loop_rule [where I = "\<lambda>_ tr'. same_run tr tr' \<and> ?row tr' \<noteq> None"
        and Q = "\<lambda>_ tr'. same_run tr tr' \<and> (\<exists>now. ?row tr' = Some ((task_of tr)\<lparr>task_TimeUpdated := now\<rparr>))",
        OF _ _ assms(3) l])
    fix x a abort err x' b
    assume I: "same_run tr a \<and> ?row a \<noteq> None" and b: "Update_body en (x, a) = ((abort, err), x', b)"
    have t: "task_of a = task_of tr" using I same_runD(1) by blast
    have s: "same_run tr b"
      using I b by (auto simp: Update_body_def intro: same_run_with_world split: prod.splits option.splits)
    show "if abort then same_run tr b \<and> (\<exists>now. ?row b = Some ((task_of tr)\<lparr>task_TimeUpdated := now\<rparr>))
          else \<forall>d. (same_run tr (sleep_run en d b) \<and> ?row (sleep_run en d b) \<noteq> None) \<and>
                   length (w_faults (run_W (sleep_run en d b))) < length (w_faults (run_W a))"
      using Update_body_step [of a en abort err x' b] I b t s calmD(1,2) [OF assms(1)] same_run_sleep [OF s]
      by (auto simp: sleep_run_def split: if_splits intro: le_less_trans)
  qed (use assms(2) in simp)
  with l show ?thesis by (auto simp: Update_def emit_event_def dest: same_runD(1))
qed

text \<open>
  \<open>Update\<close> writes the task without fail: however many database calls fail first (fewer than
  2 to the 64), the task's row is in the end the task, and one event is emitted for it.\<close>

theorem Update_writes_the_task:
  assumes "calm en" and "map_of (w_tasks (run_W tr)) (task_ID (task_of tr)) \<noteq> None"
    and "int (length (w_faults (run_W tr))) < 2 ^ 64 - 1"
  shows "\<exists>now. map_of (w_tasks (run_W (Update en tr))) (task_ID (task_of tr)) =
           Some ((task_of tr)\<lparr>task_TimeUpdated := now\<rparr>) \<and>
         last (w_events (run_W (Update en tr))) = task_of tr"
  by (rule Update_writes [OF assms])

text \<open>Reading the status of the pipeline and the row of the task succeeds in the same way.\<close>

lemma GetPipelineStatus_step:
  assumes "map_of (w_pstatus w) pid = Some st" and "GetPipelineStatus pid w = (r, w')"
  shows "w_pstatus w' = w_pstatus w \<and> w_tasks w' = w_tasks w \<and> w_events w' = w_events w \<and>
    (case r of Inr st' \<Rightarrow> st' = st \<and> length (w_faults w') \<le> length (w_faults w)
             | Inl _ \<Rightarrow> length (w_faults w') < length (w_faults w))"
  by (cases w rule: take_fault_cases) (use assms in \<open>auto simp: GetPipelineStatus_def\<close>)

lemma EnsureFetch_status:
  assumes "calm en" and "map_of (w_pstatus (run_W tr)) (p_ID (run_P tr)) = Some st"
    and "int (length (w_faults (run_W tr))) < 2 ^ 64 - 1"
  shows "run_QueriedPipelineStatus (EnsureFetchLatestPipelineStatus en tr) = st \<and>
         w_pstatus (run_W (EnsureFetchLatestPipelineStatus en tr)) = w_pstatus (run_W tr) \<and>
         length (w_faults (run_W (EnsureFetchLatestPipelineStatus en tr))) \<le> length (w_faults (run_W tr))"
proof -
  define body where "body = (\<lambda>(latestPStatus :: PipelineStatus, tr).
                (case with_world (GetPipelineStatus (p_ID (run_P tr))) tr of
                   (Inl e, tr) \<Rightarrow> ((False, Some e), PipelineEmptyStatus, tr)
                 | (Inr st, tr) \<Rightarrow> ((True, None), st, tr)))"
  obtain e x tr' where l: "run_loop en [WithDeclineRatio (Fin 2), WithDeclineLimit (10 * Second)]
      body (PipelineEmptyStatus, tr) = (e, x, tr')" by (metis surj_pair)
  let ?I = "\<lambda>a. run_P a = run_P tr \<and> w_pstatus (run_W a) = w_pstatus (run_W tr) \<and>
                length (w_faults (run_W a)) \<le> length (w_faults (run_W tr))"
  have "x = st \<and> ?I tr'"
  proof (rule run_loop_rule [where I = "\<lambda>_. ?I" and Q = "\<lambda>x a. x = st \<and> ?I a", OF _ _ assms(3) l])
    fix x a abort err x' b
    assume I: "?I a" and b: "body (x, a) = ((abort, err), x', b)"
    obtain r w' where g: "GetPipelineStatus (p_ID (run_P tr)) (run_W a) = (r, w')" by (metis surj_pair)
    have s: "w_pstatus w' = w_pstatus (run_W tr)"
      "case r of Inr st' \<Rightarrow> st' = st \<and> length (w_faults w') \<le> length (w_faults (run_W a))
              | Inl _ \<Rightarrow> length (w_faults w') < length (w_faults (run_W a))"
      using GetPipelineStatus_step [OF _ g] I assms(2) by auto
    show "if abort then x' = st \<and> ?I b
          else \<forall>d. ?I (sleep_run en d b) \<and>
                   length (w_faults (run_W (sleep_run en d b))) < length (w_faults (run_W a))"
    proof (cases r)
      case (Inl e')
      then have "b = a\<lparr>run_W := w'\<rparr>" "\<not> abort"
        using b g I by (auto simp: body_def with_world_def)
      moreover have "length (w_faults (env_pause en d w')) < length (w_faults (run_W a))" for d
        using s(2) Inl calmD(1) [OF assms(1), of d w'] by simp
      ultimately show ?thesis
        using I s calmD(3) [OF assms(1)] by (auto simp: sleep_run_def) (metis less_imp_le order_trans)
    next
      case (Inr st')
      then show ?thesis
        using b g I s by (auto simp: body_def with_world_def)
    qed
  qed simp
  with l show ?thesis by (simp add: EnsureFetchLatestPipelineStatus_def body_def)
qed

lemma until_status_fetched_status:
  assumes "calm en" and "map_of (w_pstatus (run_W tr)) (p_ID (run_P tr)) = Some st"
    and "int (length (w_faults (run_W tr))) < 2 ^ 64 - 1"
  shows "run_QueriedPipelineStatus (until_status_fetched en tr) = st \<and>
    run_Task (until_status_fetched en tr) = run_Task tr \<and>
    length (w_faults (run_W (until_status_fetched en tr))) \<le> length (w_faults (run_W tr)) \<and>
    (\<forall>i. map_of (w_tasks (run_W tr)) i \<noteq> None \<longrightarrow> map_of (w_tasks (run_W (until_status_fetched en tr))) i \<noteq> None)"
proof -
  define body where "body = (\<lambda>(u :: unit, tr).
    (case fetchLatestPipelineStatus tr of (e, tr) \<Rightarrow> ((e = None, None :: string option), u, tr)))"
  obtain e x tr' where l: "run_loop en [WithDeclineRatio (Fin 2), WithDeclineLimit Minute]
      body ((), tr) = (e, x, tr')" by (metis surj_pair)
  let ?I = "\<lambda>a. run_P a = run_P tr \<and> run_Task a = run_Task tr \<and> w_pstatus (run_W a) = w_pstatus (run_W tr) \<and>
                length (w_faults (run_W a)) \<le> length (w_faults (run_W tr)) \<and>
                (\<forall>i. map_of (w_tasks (run_W tr)) i \<noteq> None \<longrightarrow> map_of (w_tasks (run_W a)) i \<noteq> None)"
  have "run_QueriedPipelineStatus tr' = st \<and> ?I tr'"
  proof (rule run_loop_rule [where I = "\<lambda>_. ?I" and Q = "\<lambda>x a. run_QueriedPipelineStatus a = st \<and> ?I a", OF _ _ assms(3) l])
    fix x a abort err x' b
    assume I: "?I a" and b: "body (x, a) = ((abort, err), x', b)"
    obtain r w' where g: "GetPipelineStatus (p_ID (run_P tr)) (run_W a) = (r, w')" by (metis surj_pair)
    have s: "w_pstatus w' = w_pstatus (run_W tr)" "w_tasks w' = w_tasks (run_W a)"
      "case r of Inr st' \<Rightarrow> st' = st \<and> length (w_faults w') \<le> length (w_faults (run_W a))
              | Inl _ \<Rightarrow> length (w_faults w') < length (w_faults (run_W a))"
      using GetPipelineStatus_step [OF _ g] I assms(2) by auto
    have t: "\<forall>i. map_of (w_tasks (run_W tr)) i \<noteq> None \<longrightarrow> map_of (w_tasks (env_pause en d w')) i \<noteq> None" for d
      using I s(2) calmD(2) [OF assms(1), of w' _ d] by metis
    have n: "length (w_faults (env_pause en d w')) \<le> length (w_faults w')" for d
      by (rule calmD(1) [OF assms(1)])
    show "if abort then run_QueriedPipelineStatus b = st \<and> ?I b
          else \<forall>d. ?I (sleep_run en d b) \<and>
                   length (w_faults (run_W (sleep_run en d b))) < length (w_faults (run_W a))"
    proof (cases r)
      case (Inl e')
      then have "b = a\<lparr>run_W := w'\<rparr>" "\<not> abort"
        using b g I by (auto simp: body_def fetchLatestPipelineStatus_def with_world_def)
      moreover have "length (w_faults (env_pause en d w')) < length (w_faults (run_W a))" for d
        using s(3) Inl n [of d] by simp
      ultimately show ?thesis
        using I s t calmD(3) [OF assms(1)] by (auto simp: sleep_run_def) (metis less_imp_le order_trans)
    next
      case (Inr st')
      then show ?thesis
        using b g I s by (auto simp: body_def fetchLatestPipelineStatus_def with_world_def)
    qed
  qed simp
  with l show ?thesis by (simp add: until_status_fetched_def body_def)
qed

text \<open>A task that is to loop is reset, when its pipeline goes on.\<close>

lemma reportTaskForLoop_world:
  "w_pstatus (run_W (snd (reportTaskForLoop tr))) = w_pstatus (run_W tr) \<and>
   length (w_faults (run_W (snd (reportTaskForLoop tr)))) \<le> length (w_faults (run_W tr))"
  by (cases "run_W tr" rule: take_fault_cases)
     (auto simp: reportTaskForLoop_def with_world_def CreatePipelineReport_def split: option.splits)

lemma resetTaskForLoop_resets:
  assumes "calm en" and "map_of (w_pstatus (run_W tr)) (p_ID (run_P tr)) = Some st" and "\<not> IsEndStatus st"
    and "int (length (w_faults (run_W tr))) < 2 ^ 64 - 1"
    and "te_LoopOptions (task_Extra (task_of tr)) = Some lo" "lo_CalculatedLoop lo = Some cl" "tl_Strategy cl = Some s"
  shows "\<exists>tr'. resetTaskForLoop en tr = Some tr' \<and> task_of tr' = reset_task (task_of tr)"
proof -
  let ?s = "sleep_run en (loop_interval en s (lo_LoopedTimes lo)) tr"
  have "run_QueriedPipelineStatus (EnsureFetchLatestPipelineStatus en ?s) = st"
    using EnsureFetch_status [OF assms(1), of ?s st] assms(2,4) calmD(1,3) [OF assms(1)]
    by (simp add: sleep_run_def) (metis le_less_trans of_nat_le_iff)
  with assms(3,5-7) show ?thesis by (simp add: resetTaskForLoop_def Let_def)
qed

lemma handleTaskLoop_loops:
  assumes "calm en" and "map_of (w_pstatus (run_W tr)) (p_ID (run_P tr)) = Some st" and "\<not> IsEndStatus st"
    and "int (length (w_faults (run_W tr))) < 2 ^ 64 - 1"
    and "IsEndStatus (status_of tr)" and "loop_strategy (task_of tr) = Some s"
    and "\<And>b t. env_eval en b t = Inr False"
    and "ls_MaxTimes s = - 1 \<or> wrap64 (int (looped_times (task_of tr))) < ls_MaxTimes s"
  shows "\<exists>tr'. handleTaskLoop en tr = Some (None, tr') \<and>
           task_of tr' = reset_task (set_strategy s (task_of tr))"
proof -
  let ?e = "EnsureFetchLatestPipelineStatus en tr"
  let ?tr = "set_task (set_strategy s) ?e"
  let ?rep = "snd (reportTaskForLoop ?tr)"
  note e = EnsureFetch_status [OF assms(1,2,4)]
  obtain lo cl where lo: "te_LoopOptions (task_Extra (task_of tr)) = Some lo" "lo_CalculatedLoop lo = Some cl"
    and st: "(case tl_Strategy cl of None \<Rightarrow> PipelineTaskDefaultLoopStrategy | Some s \<Rightarrow> s) = s"
    using assms(6) by (auto simp: loop_strategy_def split: option.splits)
  have n: "looped_times (task_of tr) = lo_LoopedTimes lo" using lo by (simp add: looped_times_def)
  note r = same_runD [OF reportTaskForLoop_same_run [of ?tr]] and rw = reportTaskForLoop_world [of ?tr]
  have lo': "te_LoopOptions (task_Extra (task_of ?rep)) =
      Some (lo\<lparr>lo_CalculatedLoop := Some (cl\<lparr>tl_Strategy := Some s\<rparr>)\<rparr>)"
    using lo r by (cases lo, cases cl) (simp add: set_strategy_def)
  have "\<exists>tr'. resetTaskForLoop en ?rep = Some tr' \<and> task_of tr' = reset_task (task_of ?rep)"
  proof (rule resetTaskForLoop_resets [OF assms(1) _ assms(3) _ lo', of "cl\<lparr>tl_Strategy := Some s\<rparr>" s])
    show "map_of (w_pstatus (run_W ?rep)) (p_ID (run_P ?rep)) = Some st" using e r rw assms(2) by simp
    show "int (length (w_faults (run_W ?rep))) < 2 ^ 64 - 1" using e rw assms(4) by simp
  qed simp_all
  then obtain tr' where "resetTaskForLoop en ?rep = Some tr'" "task_of tr' = reset_task (set_strategy s (task_of tr))"
    using r by auto
  moreover have "handleTaskLoop en tr = map_option (Pair None) (resetTaskForLoop en ?rep)"
    using assms(3,5,7,8) e lo st n by (auto simp: handleTaskLoop_def Let_def)
  ultimately show ?thesis by simp
qed

section \<open>An example\<close>

definition example_env :: env where
  "example_env =
     \<lparr>env_oor = (\<lambda>_. - (2 ^ 63)), env_pause = (\<lambda>d w. w\<lparr>w_now := w_now w + d\<rparr>),
      env_eval = (\<lambda>_ _. Inr False), env_ord1 = (\<lambda>_ _. []), env_ord2 = (\<lambda>_ _. []),
      env_TaskDefaultTimeout = 3600 * Second\<rparr>"

definition example_loop :: PipelineTaskLoopOptions where
  "example_loop =
     \<lparr>lo_TaskLoop = None, lo_SpecYmlLoop = None,
      lo_CalculatedLoop = Some \<lparr>tl_Break = ''false'', tl_Strategy = None\<rparr>, lo_LoopedTimes = 1\<rparr>"

definition looping_task :: "PipelineStatus \<Rightarrow> PipelineTask" where
  "looping_task st =
     (example_task ''build'' st [])\<lparr>
       task_Extra := (task_Extra (example_task ''build'' st []))\<lparr>te_LoopOptions := Some example_loop\<rparr>,
       task_Context := \<lparr>tc_InStorages = [], tc_OutStorages =
         [\<lparr>mf_Name = ''build'', mf_Value = ''/.pipeline/context/build'', mf_Type = ''dice-nfs-volume'', mf_Labels = []\<rparr>],
         tc_CmsDiceFiles = []\<rparr>\<rparr>"

definition sample_pipeline :: Pipeline where
  "sample_pipeline =
     \<lparr>p_ID = 1, p_ClusterName = ''dev'', p_Status = PipelineStatusRunning, p_CostTimeSec = -1,
      p_TimeBegin = None, p_TimeEnd = None, p_TimeCreated = Some 5, p_Namespace = ''pipeline-1'', p_NotPipelineControlledNs = False,
      p_TaskOperates = [], p_IsSnippet = False,
      p_ParentPipelineID = None, p_ParentTaskID = None,
      p_SnippetChain = [], p_DefinedOutputs = [], p_Snapshot = empty_Snapshot, p_QueueInfo = None,
      p_AppliedResources = \<lparr>ar_Limits = \<lparr>ar_CPU = 0, ar_MemoryMB = 0\<rparr>, ar_Requests = \<lparr>ar_CPU = 0, ar_MemoryMB = 0\<rparr>\<rparr>,
      p_CompleteReconcilerTeardown = False\<rparr>"

text \<open>The row of the task holds \<open>row\<close>, the pipeline is in status \<open>pst\<close>, two calls will fail.\<close>

definition example_world :: "PipelineTask \<Rightarrow> PipelineStatus \<Rightarrow> world" where
  "example_world row pst =
     \<lparr>w_now = 5, w_tasks = [(1, row)], w_pstatus = [(1, pst)], w_counts = [], w_ctxDone = False,
      w_faults = [Some ''connection lost'', Some ''connection lost''],
      w_throttler = empty_throttler ''tasks'', w_events = [], w_reports = [], w_tokens = []\<rparr>"

lemma calm_example_env [simp]: "calm example_env"
  by (simp add: calm_def example_env_def)

lemma loop_strategy_example [simp]:
  "loop_strategy (looping_task st) = Some PipelineTaskDefaultLoopStrategy"
  "looped_times (looping_task st) = 1" "task_ID (looping_task st) = 1" "task_Status (looping_task st) = st"
  by (simp_all add: loop_strategy_def looped_times_def looping_task_def example_loop_def example_task_def)

theorem handleTaskLoop_bounded_witness:
  "\<exists>e tr'. handleTaskLoop example_env
       (run_New (looping_task PipelineStatusFailed) sample_pipeline
         (example_world (looping_task PipelineStatusFailed) PipelineStatusRunning)) = Some (e, tr') \<and>
     int (looped_times (task_of tr')) \<le> 10"
  using handleTaskLoop_bounded [of "run_New (looping_task PipelineStatusFailed) sample_pipeline
      (example_world (looping_task PipelineStatusFailed) PipelineStatusRunning)"
      PipelineTaskDefaultLoopStrategy example_env]
  by (simp add: run_New_def PipelineTaskDefaultLoopStrategy_def) blast

theorem Update_writes_the_task_witness:
  "\<exists>now. map_of (w_tasks (run_W (Update example_env
       (run_New (looping_task PipelineStatusQueue) sample_pipeline
         (example_world (looping_task PipelineStatusCreated) PipelineStatusRunning))))) 1 =
     Some ((looping_task PipelineStatusQueue)\<lparr>task_TimeUpdated := now\<rparr>)"
  using Update_writes_the_task [of example_env "run_New (looping_task PipelineStatusQueue) sample_pipeline
      (example_world (looping_task PipelineStatusCreated) PipelineStatusRunning)"]
  by (simp add: run_New_def example_world_def)

end
