(* ===== verification/Task_Framework.thy ===== *)
theory Task_Framework
  imports Task_Run
begin

text \<open>
  The frame in which an operation of a task runs
  (\<^verbatim>\<open>src/modules/pipeline/pipengine/reconciler/taskrun/framework.go\<close>). \<open>Do\<close> starts the
  operation's \<open>Processing\<close> beside \<open>waitOp\<close>, which waits for the first of five signals: the
  context is done, processing is done, processing failed, the timeout, or the task was ended
  from outside. Which of context, timeout and processing comes first is the argument of type
  \<open>first_signal\<close>. The interface \<open>TaskOp\<close> of the source is the record \<open>TaskOp\<close>; what every
  operation promises of its callbacks is the locale \<open>task_op\<close>, in which the theorems on
  \<open>waitOp\<close> are proved once.
\<close>

section \<open>Operations\<close>

record Volume =
  vol_ID :: "string option"
  vol_Storage :: string
  vol_Path :: string

datatype op_data = NoData | DataStatus PipelineStatusDesc | DataJob "Volume list"

text \<open>A callback returns an error or nil, or panics; \<open>waitOp\<close> recovers from the panic.\<close>

datatype op_result = Returned "string option" | Panicked string

record TaskOp =
  op_Op :: string
  op_Processing :: "TaskRun \<Rightarrow> (string + op_data) \<times> TaskRun"
  op_WhenDone :: "op_data \<Rightarrow> TaskRun \<Rightarrow> op_result \<times> TaskRun"
  op_WhenLogicError :: "string \<Rightarrow> TaskRun \<Rightarrow> op_result \<times> TaskRun"
  op_WhenTimeout :: "TaskRun \<Rightarrow> op_result \<times> TaskRun"
  op_TimeoutConfig :: "TaskRun \<Rightarrow> (time \<times> duration) option"

datatype signal = CtxDone | DoneCh op_data | ErrCh string | TimeoutCh duration | ExitCh

datatype first_signal = CtxFirst | TimeoutFirst | ProcessingFirst

fun errs_of :: "op_result \<Rightarrow> string list" where
  "errs_of (Returned None) = []"
| "errs_of (Returned (Some e)) = [e]"
| "errs_of (Panicked m) = [m]"

section \<open>waitOp\<close>

definition network_message :: "TaskRun \<Rightarrow> string \<Rightarrow> string" where
  "network_message tr err =
     (if IsNetworkError err
      then ''Network issue for cluster: '' @ te_ClusterName (task_Extra (task_of tr)) @ ''\<newline>Detail: '' @ err
      else err)"

definition timeout_message :: "env \<Rightarrow> duration \<Rightarrow> string" where
  "timeout_message en d =
     ''timeout ('' @ Duration_String d @ '') (platform: '' @ Duration_String (env_TaskDefaultTimeout en) @ '')''"

text \<open>The select statement: the errors that make the task retry, and those only recorded.\<close>

definition wait_signal ::
  "env \<Rightarrow> TaskOp \<Rightarrow> signal \<Rightarrow> TaskRun \<Rightarrow> string list \<times> string list \<times> TaskRun" where
  "wait_signal en itr sig tr =
     (case sig of
        CtxDone \<Rightarrow> ([], [], tr\<lparr>run_PExit := True\<rparr>)
      | DoneCh data \<Rightarrow> (case op_WhenDone itr data tr of (r, tr) \<Rightarrow> (errs_of r, [], tr))
      | ErrCh err \<Rightarrow>
          (case op_WhenLogicError itr err tr of
             (r, tr') \<Rightarrow> (network_message tr err # errs_of r, [], tr'))
      | TimeoutCh d \<Rightarrow>
          (case op_WhenTimeout itr (until_fetched en tr) of
             (Panicked m, tr) \<Rightarrow> ([m], [], tr)
           | (Returned e, tr) \<Rightarrow>
               (errs_of (Returned e), (if run_FakeTimeout tr then [] else [timeout_message en d]), tr))
      | ExitCh \<Rightarrow> ([], [], tr))"

text \<open>The deferred function of \<open>waitOp\<close>.\<close>

definition record_errors :: "time \<Rightarrow> string list \<Rightarrow> TaskRun \<Rightarrow> TaskRun" where
  "record_errors startTime msgs tr =
     (if msgs = [] then tr
      else append_error \<lparr>er_Msg = strutil_Join msgs ''\<newline>'' True,
             er_Ctx = \<lparr>ec_StartTime = startTime, ec_EndTime = w_now (run_W tr), ec_Count = 1\<rparr>\<rparr> tr)"

definition op_result_error :: "TaskOp \<Rightarrow> string list \<Rightarrow> string option" where
  "op_result_error itr errs = (if errs = [] then None else Some (op_error (op_Op itr) errs))"

definition is_platform_error :: "string option \<Rightarrow> bool" where
  "is_platform_error result \<longleftrightarrow> (case result of None \<Rightarrow> False | Some e \<Rightarrow> \<not> IsContainUserError e)"

definition finish_op ::
  "env \<Rightarrow> TaskOp \<Rightarrow> PipelineStatus \<Rightarrow> time \<Rightarrow> string list \<Rightarrow> string list \<Rightarrow> TaskRun
   \<Rightarrow> (string option \<times> TaskRun) option" where
  "finish_op en itr oldStatus startTime errs resultErrMsg tr =
     (case handleTaskLoop en (record_errors startTime (resultErrMsg @ errs) tr) of
        None \<Rightarrow> None
      | Some (loopErr, tr) \<Rightarrow>
          let result = op_result_error itr (errs @ errs_of (Returned loopErr));
              tr = (if is_platform_error result then set_status oldStatus tr else tr)
          in Some (result, Update en tr))"

definition waitOp ::
  "env \<Rightarrow> TaskOp \<Rightarrow> PipelineStatus \<Rightarrow> time \<Rightarrow> signal \<Rightarrow> TaskRun \<Rightarrow> (string option \<times> TaskRun) option" where
  "waitOp en itr oldStatus startTime sig tr =
     (case wait_signal en itr sig tr of
        (errs, resultErrMsg, tr) \<Rightarrow> finish_op en itr oldStatus startTime errs resultErrMsg tr)"

section \<open>Do\<close>

definition handleProcessingResult :: "env \<Rightarrow> string + op_data \<Rightarrow> TaskRun \<Rightarrow> signal \<times> TaskRun" where
  "handleProcessingResult en r tr =
     (let tr = until_fetched en tr
      in if IsEndStatus (status_of tr) then (ExitCh, tr)
         else (case r of Inl err \<Rightarrow> (ErrCh err, tr) | Inr data \<Rightarrow> (DoneCh data, tr)))"

definition process :: "env \<Rightarrow> TaskOp \<Rightarrow> TaskRun \<Rightarrow> signal \<times> TaskRun" where
  "process en itr tr = (case op_Processing itr tr of (r, tr) \<Rightarrow> handleProcessingResult en r tr)"

definition Do_signal :: "env \<Rightarrow> TaskOp \<Rightarrow> first_signal \<Rightarrow> TaskRun \<Rightarrow> signal \<times> TaskRun" where
  "Do_signal en itr sel tr =
     (let timeout = op_TimeoutConfig itr tr;
          tr = until_status_fetched en tr
      in if IsEndStatus (run_QueriedPipelineStatus tr) then
           (case (sel, timeout) of
              (TimeoutFirst, Some (_, d)) \<Rightarrow> (TimeoutCh d, tr\<lparr>run_PExitCanceled := True\<rparr>)
            | _ \<Rightarrow> (CtxDone, tr\<lparr>run_PExitCanceled := True\<rparr>))
         else
           (case (sel, timeout) of
              (CtxFirst, _) \<Rightarrow> (CtxDone, tr)
            | (TimeoutFirst, Some (_, d)) \<Rightarrow> (TimeoutCh d, tr)
            | _ \<Rightarrow> process en itr tr))"

definition Do :: "env \<Rightarrow> TaskOp \<Rightarrow> first_signal \<Rightarrow> TaskRun \<Rightarrow> (string option \<times> TaskRun) option" where
  "Do en itr sel tr =
     (case Do_signal en itr sel tr of
        (sig, tr') \<Rightarrow> waitOp en itr (status_of tr) (w_now (run_W tr)) sig tr')"

section \<open>What waitOp guarantees\<close>

lemma append_error_frame [simp]:
  "run_P (append_error r tr) = run_P tr" "run_PExit (append_error r tr) = run_PExit tr"
  "task_Status (run_Task (append_error r tr)) = task_Status (run_Task tr)"
  "task_ID (run_Task (append_error r tr)) = task_ID (run_Task tr)"
  "looped_times (run_Task (append_error r tr)) = looped_times (run_Task tr)"
  "loop_strategy (run_Task (append_error r tr)) = loop_strategy (run_Task tr)"
  "task_Context (run_Task (append_error r tr)) = task_Context (run_Task tr)"
  "run_W (append_error r tr) = run_W tr"
  by (simp_all add: append_error_def looped_times_def loop_strategy_def)

lemma record_errors_frame [simp]:
  "run_P (record_errors t msgs tr) = run_P tr" "run_PExit (record_errors t msgs tr) = run_PExit tr"
  "task_Status (run_Task (record_errors t msgs tr)) = task_Status (run_Task tr)"
  "task_ID (run_Task (record_errors t msgs tr)) = task_ID (run_Task tr)"
  "looped_times (run_Task (record_errors t msgs tr)) = looped_times (run_Task tr)"
  "loop_strategy (run_Task (record_errors t msgs tr)) = loop_strategy (run_Task tr)"
  "task_Context (run_Task (record_errors t msgs tr)) = task_Context (run_Task tr)"
  "run_W (record_errors t msgs tr) = run_W tr"
  by (simp_all add: record_errors_def)

definition op_names :: "string list" where
  "op_names = [''prepare'', ''create'', ''start'', ''queue'', ''wait'']"

lemma op_names_clean:
  "op \<in> set op_names \<Longrightarrow> \<not> IsContainUserError (''failed to '' @ op @ '' task, err: '')"
  by (auto simp: op_names_def IsContainUserError_def userAbnormalError_def)

text \<open>
  The status an operation ends with: the status before on a platform error, and otherwise the
  status its callback left or \<open>Analyzed\<close> for another round.
\<close>

lemma finish_op_cases:
  obtains result tr' where "finish_op en itr oldStatus startTime errs resultErrMsg tr = Some (result, tr')"
    "run_PExit tr' = run_PExit tr" "run_P tr' = run_P tr"
    "errs \<noteq> [] \<longrightarrow> result \<noteq> None"
    "op_Op itr \<in> set op_names \<Longrightarrow> result \<noteq> None \<Longrightarrow> \<exists>e\<in>set errs. IsContainUserError e \<Longrightarrow> \<not> is_platform_error result"
    "is_platform_error result \<longrightarrow> status_of tr' = oldStatus"
    "\<not> is_platform_error result \<longrightarrow> status_of tr' = status_of tr \<or>
       IsEndStatus (status_of tr) \<and> status_of tr' = PipelineStatusAnalyzed \<and> loop_strategy (task_of tr) \<noteq> None"
proof -
  let ?rec = "record_errors startTime (resultErrMsg @ errs) tr"
  obtain e tr1 where h: "handleTaskLoop en ?rec = Some (e, tr1)" and f: "run_PExit tr1 = run_PExit tr" "run_P tr1 = run_P tr"
    and st: "status_of tr1 = status_of tr \<or>
       IsEndStatus (status_of tr) \<and> status_of tr1 = PipelineStatusAnalyzed \<and> loop_strategy (task_of tr) \<noteq> None"
    by (rule handleTaskLoop_cases [of en ?rec]) auto
  let ?result = "op_result_error itr (errs @ errs_of (Returned e))"
  let ?tr = "Update en (if is_platform_error ?result then set_status oldStatus tr1 else tr1)"
  have eq: "finish_op en itr oldStatus startTime errs resultErrMsg tr = Some (?result, ?tr)"
    using h by (simp add: finish_op_def Let_def)
  have user: "\<not> is_platform_error ?result"
    if "op_Op itr \<in> set op_names" "\<exists>e\<in>set errs. IsContainUserError e"
  proof -
    have "errs \<noteq> []" using that(2) by auto
    with that IsContainUserError_op_error [OF op_names_clean [OF that(1)]] show ?thesis
      by (auto simp: is_platform_error_def op_result_error_def)
  qed
  show ?thesis
    by (rule that [OF eq]) (use f st user in \<open>auto simp: op_result_error_def\<close>)
qed

text \<open>The status the callback of a signal starts from.\<close>

definition base_status :: "env \<Rightarrow> signal \<Rightarrow> TaskRun \<Rightarrow> PipelineStatus" where
  "base_status en sig tr =
     (case sig of TimeoutCh _ \<Rightarrow> status_of (until_fetched en tr) | _ \<Rightarrow> status_of tr)"

text \<open>The contract of an operation: what its callbacks may change.\<close>

locale task_op =
  fixes itr :: TaskOp
    and done_status :: "op_data \<Rightarrow> PipelineStatus \<Rightarrow> bool"
    and error_status :: PipelineStatus
    and timeout_status :: "PipelineStatus \<Rightarrow> bool"
  assumes name: "op_Op itr \<in> set op_names"
    and when_done: "op_WhenDone itr data tr = (r, tr') \<Longrightarrow>
      status_of tr' = status_of tr \<or> done_status data (status_of tr')"
    and when_done_frame: "op_WhenDone itr data tr = (r, tr') \<Longrightarrow> run_PExit tr' = run_PExit tr"
    and when_error: "op_WhenLogicError itr err tr = (Returned None, set_status error_status tr)"
    and error_ends: "IsEndStatus error_status"
    and when_timeout: "op_WhenTimeout itr tr = (r, tr') \<Longrightarrow>
      status_of tr' = status_of tr \<or> timeout_status (status_of tr')"
begin

text \<open>A platform error never moves the task: it is tried again from where it was.\<close>

lemma waitOp_platform_error:
  assumes "waitOp en itr oldStatus startTime sig tr = Some (result, tr')" and "is_platform_error result"
  shows "status_of tr' = oldStatus"
proof -
  obtain errs msgs tr1 where w: "wait_signal en itr sig tr = (errs, msgs, tr1)" by (metis surj_pair)
  show ?thesis
    by (rule finish_op_cases [of en itr oldStatus startTime errs msgs tr1])
       (use assms w in \<open>auto simp: waitOp_def\<close>)
qed

text \<open>When processing failed, the result is an error, and it is a user error when
  processing returned one.\<close>

lemma waitOp_error_kind:
  obtains result tr' where "waitOp en itr oldStatus startTime (ErrCh err) tr = Some (Some result, tr')"
    "IsContainUserError err \<Longrightarrow> IsContainUserError result"
    "IsContainUserError err \<Longrightarrow> status_of tr' = error_status \<or> status_of tr' = PipelineStatusAnalyzed"
    "\<not> IsContainUserError result \<Longrightarrow> status_of tr' = oldStatus"
proof -
  have w: "wait_signal en itr (ErrCh err) tr = ([network_message tr err], [], set_status error_status tr)"
    by (simp add: wait_signal_def when_error)
  have n: "IsContainUserError err \<Longrightarrow> IsContainUserError (network_message tr err)"
    using IsContainUserError_appendI [of err "''Network issue for cluster: '' @
      te_ClusterName (task_Extra (task_of tr)) @ ''\<newline>Detail: ''"]
    by (simp add: network_message_def)
  show ?thesis
  proof (rule finish_op_cases [of en itr oldStatus startTime "[network_message tr err]" "[]" "set_status error_status tr"])
    fix result tr'
    assume *: "finish_op en itr oldStatus startTime [network_message tr err] [] (set_status error_status tr) = Some (result, tr')"
      "[network_message tr err] \<noteq> [] \<longrightarrow> result \<noteq> None"
      "op_Op itr \<in> set op_names \<Longrightarrow> result \<noteq> None \<Longrightarrow>
        \<exists>e\<in>set [network_message tr err]. IsContainUserError e \<Longrightarrow> \<not> is_platform_error result"
      "is_platform_error result \<longrightarrow> status_of tr' = oldStatus"
      "\<not> is_platform_error result \<longrightarrow> status_of tr' = status_of (set_status error_status tr) \<or>
         IsEndStatus (status_of (set_status error_status tr)) \<and> status_of tr' = PipelineStatusAnalyzed \<and>
         loop_strategy (task_of (set_status error_status tr)) \<noteq> None"
    then obtain res where res: "result = Some res" by auto
    show ?thesis
      by (rule that [of res tr']) (use * res w n name in \<open>auto simp: waitOp_def is_platform_error_def\<close>)
  qed
qed

text \<open>The status a callback leaves, and the status \<open>waitOp\<close> makes of it.\<close>

lemma wait_signal_status:
  assumes "wait_signal en itr sig tr = (errs, msgs, tr')"
  shows "status_of tr' = base_status en sig tr \<or>
    (case sig of
       DoneCh data \<Rightarrow> done_status data (status_of tr')
     | ErrCh _ \<Rightarrow> status_of tr' = error_status
     | TimeoutCh _ \<Rightarrow> timeout_status (status_of tr')
     | _ \<Rightarrow> False)"
  using assms
  by (auto simp: wait_signal_def base_status_def when_error split: signal.splits prod.splits op_result.splits
      dest: when_done when_timeout)

lemma waitOp_status:
  assumes "waitOp en itr oldStatus startTime sig tr = Some (result, tr')"
  shows "is_platform_error result \<and> status_of tr' = oldStatus \<or>
    \<not> is_platform_error result \<and>
    (\<exists>st. (st = base_status en sig tr \<or>
       (case sig of
          DoneCh data \<Rightarrow> done_status data st
        | ErrCh _ \<Rightarrow> st = error_status
        | TimeoutCh _ \<Rightarrow> timeout_status st
        | _ \<Rightarrow> False)) \<and>
      (status_of tr' = st \<or> IsEndStatus st \<and> status_of tr' = PipelineStatusAnalyzed))"
proof -
  obtain errs msgs tr1 where w: "wait_signal en itr sig tr = (errs, msgs, tr1)" by (metis surj_pair)
  show ?thesis
  proof (rule finish_op_cases [of en itr oldStatus startTime errs msgs tr1])
    fix res tr2
    assume f: "finish_op en itr oldStatus startTime errs msgs tr1 = Some (res, tr2)"
      and st: "is_platform_error res \<longrightarrow> status_of tr2 = oldStatus"
        "\<not> is_platform_error res \<longrightarrow> status_of tr2 = status_of tr1 \<or>
          IsEndStatus (status_of tr1) \<and> status_of tr2 = PipelineStatusAnalyzed \<and> loop_strategy (task_of tr1) \<noteq> None"
    have "res = result" "tr2 = tr'" using assms w f by (simp_all add: waitOp_def)
    with st wait_signal_status [OF w] show ?thesis by blast
  qed
qed

end

text \<open>
  An operation that finds its pipeline already ended stops the task run, and writes all
  columns of the task as it holds it: a status that was stored in the meantime by the one who
  ended the pipeline, such as \<open>StopByUser\<close>, is overwritten by the old one.\<close>

theorem ended_pipeline_overwrites_task:
  assumes "calm en" and "map_of (w_pstatus (run_W tr)) (p_ID (run_P tr)) = Some st" and "IsEndStatus st"
    and "map_of (w_tasks (run_W tr)) (task_ID (task_of tr)) \<noteq> None"
    and "int (length (w_faults (run_W tr))) < 2 ^ 64 - 1"
    and "\<not> IsEndStatus (status_of tr)" and "op_TimeoutConfig itr tr = None"
  shows "\<exists>tr' now. Do en itr sel tr = Some (None, tr') \<and> run_PExit tr' \<and> run_PExitCanceled tr' \<and>
           map_of (w_tasks (run_W tr')) (task_ID (task_of tr)) =
             Some ((task_of tr)\<lparr>task_TimeUpdated := now\<rparr>)"
proof -
  let ?f = "until_status_fetched en tr"
  note f = until_status_fetched_status [OF assms(1,2,5)]
  let ?tr = "?f\<lparr>run_PExitCanceled := True, run_PExit := True\<rparr>"
  have "Do_signal en itr sel tr = (CtxDone, ?f\<lparr>run_PExitCanceled := True\<rparr>)"
    using f assms(3,7) by (simp add: Do_signal_def Let_def split: first_signal.splits)
  then have d: "Do en itr sel tr = Some (None, Update en ?tr)"
    using f assms(6)
    by (simp add: Do_def waitOp_def wait_signal_def finish_op_def record_errors_def handleTaskLoop_def
        op_result_error_def is_platform_error_def)
  have "\<exists>now. map_of (w_tasks (run_W (Update en ?tr))) (task_ID (task_of ?tr)) =
           Some ((task_of ?tr)\<lparr>task_TimeUpdated := now\<rparr>) \<and> last (w_events (run_W (Update en ?tr))) = task_of ?tr"
    by (rule Update_writes [OF assms(1)]) (use f assms(4,5) in auto)
  with d f show ?thesis by auto
qed

theorem ended_pipeline_overwrites_task_witness:
  "IsEndStatus PipelineStatusStopByUser \<and>
   (\<exists>tr' now. Do example_env \<lparr>op_Op = ''create'', op_Processing = (\<lambda>tr. (Inr NoData, tr)),
        op_WhenDone = (\<lambda>_ tr. (Returned None, tr)), op_WhenLogicError = (\<lambda>_ tr. (Returned None, tr)),
        op_WhenTimeout = (\<lambda>tr. (Returned None, tr)), op_TimeoutConfig = (\<lambda>_. None)\<rparr> ProcessingFirst
      (run_New (looping_task PipelineStatusQueue) sample_pipeline
        (example_world (looping_task PipelineStatusStopByUser) PipelineStatusStopByUser)) = Some (None, tr') \<and>
     run_PExit tr' \<and>
     map_of (w_tasks (run_W tr')) 1 = Some ((looping_task PipelineStatusQueue)\<lparr>task_TimeUpdated := now\<rparr>))"
proof -
  let ?itr = "\<lparr>op_Op = ''create'', op_Processing = (\<lambda>tr. (Inr NoData, tr)),
        op_WhenDone = (\<lambda>_ tr. (Returned None, tr)), op_WhenLogicError = (\<lambda>_ tr. (Returned None, tr)),
        op_WhenTimeout = (\<lambda>tr. (Returned None, tr)), op_TimeoutConfig = (\<lambda>_. None)\<rparr>"
  let ?tr = "run_New (looping_task PipelineStatusQueue) sample_pipeline
        (example_world (looping_task PipelineStatusStopByUser) PipelineStatusStopByUser)"
  have e: "IsEndStatus PipelineStatusStopByUser" "\<not> IsEndStatus PipelineStatusQueue"
    by (simp_all add: status_defs)
  have "\<exists>tr' now. Do example_env ?itr ProcessingFirst ?tr = Some (None, tr') \<and> run_PExit tr' \<and> run_PExitCanceled tr' \<and>
      map_of (w_tasks (run_W tr')) (task_ID (task_of ?tr)) = Some ((task_of ?tr)\<lparr>task_TimeUpdated := now\<rparr>)"
    by (rule ended_pipeline_overwrites_task [where st = PipelineStatusStopByUser])
       (use e in \<open>simp_all add: run_New_def example_world_def sample_pipeline_def\<close>)
  with e show ?thesis by (auto simp: run_New_def)
qed

end
