(* ===== verification/Task_Op.thy ===== *)
theory Task_Op
  imports Task_Framework
begin

text \<open>
  The operations that move a task from \<open>Analyzed\<close> to its end
  (\<^verbatim>\<open>src/modules/pipeline/pipengine/reconciler/taskrun/taskop\<close>): prepare, create, start,
  queue and wait. The action executor (the plugin that talks to the scheduler or to a cluster)
  is an argument, the record \<open>executor\<close>. The operations interpret the locale \<open>task_op\<close>.
\<close>

record executor =
  ex_Create :: "PipelineTask \<Rightarrow> world \<Rightarrow> string option \<times> world"
  ex_Start :: "PipelineTask \<Rightarrow> world \<Rightarrow> (string + op_data) \<times> world"
  ex_Status :: "PipelineTask \<Rightarrow> world \<Rightarrow> (string + PipelineStatusDesc) \<times> world"
  ex_Inspect :: "PipelineTask \<Rightarrow> world \<Rightarrow> (string + string) \<times> world"
  ex_Cancel :: "PipelineTask \<Rightarrow> world \<Rightarrow> string option \<times> world"

definition err4EnableDeclineRatio :: string where
  "err4EnableDeclineRatio = ''enable decline ratio''"

abbreviation now_of :: "TaskRun \<Rightarrow> time" where "now_of tr \<equiv> w_now (run_W tr)"

section \<open>create\<close>

definition create_Processing :: "executor \<Rightarrow> TaskRun \<Rightarrow> (string + op_data) \<times> TaskRun" where
  "create_Processing ex tr =
     (case with_world (ex_Create ex (task_of tr)) tr of
        (None, tr) \<Rightarrow> (Inr NoData, tr)
      | (Some e, tr) \<Rightarrow> (Inl e, tr))"

definition create_WhenDone :: "op_data \<Rightarrow> TaskRun \<Rightarrow> op_result \<times> TaskRun" where
  "create_WhenDone data tr = (Returned None, set_status PipelineStatusCreated tr)"

definition create_WhenLogicError :: "string \<Rightarrow> TaskRun \<Rightarrow> op_result \<times> TaskRun" where
  "create_WhenLogicError err tr = (Returned None, set_status PipelineStatusCreateError tr)"

definition NewCreate :: "executor \<Rightarrow> TaskOp" where
  "NewCreate ex =
     \<lparr>op_Op = ''create'', op_Processing = create_Processing ex, op_WhenDone = create_WhenDone,
      op_WhenLogicError = create_WhenLogicError, op_WhenTimeout = (\<lambda>tr. (Returned None, tr)),
      op_TimeoutConfig = (\<lambda>_. None)\<rparr>"

section \<open>queue\<close>

text \<open>The goroutine beside the loop sets the stop flag as soon as the context is done.\<close>

definition queue_body ::
  "executor \<Rightarrow> string \<times> TaskRun \<Rightarrow> (bool \<times> string option) \<times> string \<times> TaskRun" where
  "queue_body ex = (\<lambda>(lastMessage, tr).
     let tr = (if w_ctxDone (run_W tr) then tr\<lparr>run_StopQueueLoop := True\<rparr> else tr)
     in (case with_world (ex_Status ex (task_of tr)) tr of
       (Inl e, tr) \<Rightarrow> ((True, Some e), lastMessage, tr)
     | (Inr statusDesc, tr) \<Rightarrow>
         let newMsg = sd_Desc statusDesc;
             st = sd_Status statusDesc;
             (lastMessage, tr) =
               (if newMsg \<noteq> '''' \<and> newMsg \<noteq> lastMessage
                then (newMsg, snd (AppendLastMsg newMsg tr)) else (lastMessage, tr));
             tr = (if \<not> IsEndStatus st \<and> st \<noteq> PipelineStatusRunning
                   then (case with_world (ex_Inspect ex (task_of tr)) tr of
                           (Inl _, tr) \<Rightarrow> tr
                         | (Inr desc, tr) \<Rightarrow> if desc \<noteq> '''' then snd (UpdateTaskInspect desc tr) else tr)
                   else tr)
         in if st = PipelineStatusUnknown then ((False, Some err4EnableDeclineRatio), lastMessage, tr)
            else if st = PipelineStatusRunning \<or> IsEndStatus st then ((True, None), lastMessage, tr)
            else ((run_StopQueueLoop tr, Some err4EnableDeclineRatio), lastMessage, tr)))"

definition poll_loop_options :: "LoopOption list" where
  "poll_loop_options = [WithDeclineRatio (Fin (3 / 2)), WithDeclineLimit (10 * Second)]"

definition queue_Processing :: "env \<Rightarrow> executor \<Rightarrow> TaskRun \<Rightarrow> (string + op_data) \<times> TaskRun" where
  "queue_Processing en ex tr =
     (case run_loop en poll_loop_options (queue_body ex) ('''', tr) of
        (None, _, tr) \<Rightarrow> (Inr NoData, tr)
      | (Some e, _, tr) \<Rightarrow> (Inl e, tr))"

definition queue_WhenDone :: "op_data \<Rightarrow> TaskRun \<Rightarrow> op_result \<times> TaskRun" where
  "queue_WhenDone data tr =
     (Returned None,
      set_task (\<lambda>t.
        let t = t\<lparr>task_Status := PipelineStatusRunning,
                  task_Extra := (task_Extra t)\<lparr>te_TimeEndQueue := now_of tr\<rparr>\<rparr>;
            t = t\<lparr>task_QueueTimeSec := CalculateTaskQueueTimeSec (now_of tr) t\<rparr>
        in t\<lparr>task_TimeBegin := now_of tr\<rparr>) tr)"

definition queue_WhenLogicError :: "string \<Rightarrow> TaskRun \<Rightarrow> op_result \<times> TaskRun" where
  "queue_WhenLogicError err tr = (Returned None, set_status PipelineStatusError tr)"

definition NewQueueOp :: "env \<Rightarrow> executor \<Rightarrow> TaskOp" where
  "NewQueueOp en ex =
     \<lparr>op_Op = ''queue'', op_Processing = queue_Processing en ex, op_WhenDone = queue_WhenDone,
      op_WhenLogicError = queue_WhenLogicError, op_WhenTimeout = (\<lambda>tr. (Returned None, tr)),
      op_TimeoutConfig = (\<lambda>_. None)\<rparr>"

section \<open>start\<close>

text \<open>\<open>filepath.Join\<close> of a clean directory and the name of a task, which is one path element.\<close>

definition filepath_Join :: "string \<Rightarrow> string \<Rightarrow> string" where
  "filepath_Join dir name = (if name = '''' then dir else dir @ ''/'' @ name)"

definition MakeTaskContainerWorkdir :: "string \<Rightarrow> string" where
  "MakeTaskContainerWorkdir taskName = filepath_Join ''/.pipeline/container/context'' taskName"

definition MakeTaskContainerVolumeMountDir :: "string \<Rightarrow> string" where
  "MakeTaskContainerVolumeMountDir taskName = filepath_Join ''/.pipeline/context'' taskName"

definition GenerateTaskVolume :: "PipelineTask \<Rightarrow> string \<Rightarrow> string option \<Rightarrow> MetadataField" where
  "GenerateTaskVolume task namespace volumeID =
     (let volumeMountPath = MakeTaskContainerVolumeMountDir namespace
      in \<lparr>mf_Name = namespace, mf_Value = volumeMountPath, mf_Type = ''dice-nfs-volume'',
          mf_Labels =
            [(''contextPath'', volumeMountPath),
             (''containerPath'', MakeTaskContainerWorkdir namespace),
             (''stageOrder'', FormatUint (te_StageOrder (task_Extra task)))]
            @ (case volumeID of None \<Rightarrow> [] | Some v \<Rightarrow> [(''ID'', v)])\<rparr>)"

text \<open>The volumes of the job by path; a volume without ID is an error.\<close>

fun volumes_by_path :: "(string \<times> Volume) list \<Rightarrow> Volume list \<Rightarrow> string + (string \<times> Volume) list" where
  "volumes_by_path m [] = Inr m"
| "volumes_by_path m (v # vs) =
     (if vol_ID v = None \<or> vol_ID v = Some ''''
      then Inl (''volume id is not provided after taskRun.Start done, storage: '' @ vol_Storage v @
                '', path: '' @ vol_Path v)
      else volumes_by_path (AList.update (vol_Path v) v m) vs)"

definition inject_label :: "PipelineTask \<Rightarrow> MetadataField \<Rightarrow> Volume \<Rightarrow> MetadataField" where
  "inject_label task declared v =
     (if mf_Labels declared = [] then GenerateTaskVolume task (mf_Name declared) (vol_ID v)
      else declared\<lparr>mf_Labels := AList.update ''ID''
             (case vol_ID v of None \<Rightarrow> '''' | Some i \<Rightarrow> i) (mf_Labels declared)\<rparr>)"

fun inject_loop :: "(string \<times> Volume) list \<Rightarrow> nat \<Rightarrow> MetadataField list \<Rightarrow> TaskRun \<Rightarrow> string option \<times> TaskRun" where
  "inject_loop m i [] tr = (None, tr)"
| "inject_loop m i (declared # rest) tr =
     (if mf_Type declared = ''dice-fake-volume'' \<or> mf_Type declared = ''dice-cache-nfs-volume''
      then inject_loop m (Suc i) rest tr
      else (case map_of m (mf_Value declared) of
        None \<Rightarrow>
          (Some (''declared volume not found in job.Volumes after taskRun.Start done, storage: '' @
                 mf_Type declared @ '', name: '' @ mf_Name declared @ '', path: '' @ mf_Value declared), tr)
      | Some v \<Rightarrow>
          if lookup_env (mf_Labels declared) ''ID'' \<noteq> '''' then inject_loop m (Suc i) rest tr
          else
            let tr = set_task (task_Context_update (tc_OutStorages_update
                       (\<lambda>vs. vs[i := inject_label (task_of tr) declared v]))) tr
            in (case with_world (UpdatePipelineTaskContext (task_ID (task_of tr)) (task_Context (task_of tr))) tr of
                  (Some e, tr) \<Rightarrow> (Some e, tr)
                | (None, tr) \<Rightarrow> inject_loop m (Suc i) rest tr)))"

definition injectVolumeID :: "op_data \<Rightarrow> TaskRun \<Rightarrow> string option \<times> TaskRun" where
  "injectVolumeID data tr =
     (case data of
        DataJob volumes \<Rightarrow>
          (case volumes_by_path [] volumes of
             Inl e \<Rightarrow> (Some e, tr)
           | Inr m \<Rightarrow> inject_loop m 0 (tc_OutStorages (task_Context (task_of tr))) tr)
      | _ \<Rightarrow> (None, tr))"

text \<open>The verb \<open>%+v\<close> on a slice of \<open>PopDetail\<close>.\<close>

definition bool_String :: "bool \<Rightarrow> string" where
  "bool_String b = (if b then ''true'' else ''false'')"

definition PopDetail_String :: "PopDetail \<Rightarrow> string" where
  "PopDetail_String d =
     ''{QueueName:'' @ pd_QueueName d @ '' CanPop:'' @ bool_String (pd_CanPop d) @ '' Reason:'' @ pd_Reason d @ ''}''"

definition PopDetails_String :: "PopDetail list \<Rightarrow> string" where
  "PopDetails_String ds = ''['' @ strings_Join (map PopDetail_String ds) '' '' @ '']''"

definition pop_body :: "env \<Rightarrow> bool \<times> TaskRun \<Rightarrow> (bool \<times> string option) \<times> bool \<times> TaskRun" where
  "pop_body en = (\<lambda>(alerted, tr).
     let w = run_W tr; t = w_throttler w; k = te_UUID (task_Extra (task_of tr))
     in (case th_PopPending (env_ord1 en t k) (env_ord2 en t k) t k of
           (popSuccess, popDetail, t) \<Rightarrow>
             let tr = tr\<lparr>run_W := w\<lparr>w_throttler := t\<rparr>\<rparr>
             in if popSuccess then ((True, None), alerted, tr)
                else if alerted then ((False, Some ''for decline ratio wating''), alerted, tr)
                else (case AppendLastMsg (''Pop pending failed, detail: '' @ PopDetails_String popDetail) tr of
                        (None, tr) \<Rightarrow> ((False, Some ''for decline ratio wating''), True, tr)
                      | (Some _, tr) \<Rightarrow> ((False, Some ''for decline ratio wating''), False, tr))))"

definition start_Processing :: "env \<Rightarrow> executor \<Rightarrow> TaskRun \<Rightarrow> (string + op_data) \<times> TaskRun" where
  "start_Processing en ex tr =
     (case run_loop en [WithDeclineRatio (Fin 2), WithDeclineLimit (30 * Second)] (pop_body en) (False, tr) of
        (_, _, tr) \<Rightarrow>
          (case with_world (ex_Start ex (task_of tr)) tr of
             (Inl e, tr) \<Rightarrow> (Inl e, tr)
           | (Inr data, tr) \<Rightarrow>
               (case injectVolumeID data tr of
                  (Some e, tr) \<Rightarrow> (Inl e, tr)
                | (None, tr) \<Rightarrow> (Inr data, tr))))"

definition start_WhenDone :: "op_data \<Rightarrow> TaskRun \<Rightarrow> op_result \<times> TaskRun" where
  "start_WhenDone data tr =
     (Returned None,
      set_task (\<lambda>t. t\<lparr>task_Status := PipelineStatusQueue,
                       task_Extra := (task_Extra t)\<lparr>te_TimeBeginQueue := now_of tr\<rparr>\<rparr>) tr)"

definition start_WhenLogicError :: "string \<Rightarrow> TaskRun \<Rightarrow> op_result \<times> TaskRun" where
  "start_WhenLogicError err tr = (Returned None, set_status PipelineStatusStartError tr)"

definition NewStart :: "env \<Rightarrow> executor \<Rightarrow> TaskOp" where
  "NewStart en ex =
     \<lparr>op_Op = ''start'', op_Processing = start_Processing en ex, op_WhenDone = start_WhenDone,
      op_WhenLogicError = start_WhenLogicError, op_WhenTimeout = (\<lambda>tr. (Returned None, tr)),
      op_TimeoutConfig = (\<lambda>_. None)\<rparr>"

section \<open>wait\<close>

definition wait_body ::
  "executor \<Rightarrow> op_data \<times> TaskRun \<Rightarrow> (bool \<times> string option) \<times> op_data \<times> TaskRun" where
  "wait_body ex = (\<lambda>(data, tr).
     let tr = (if w_ctxDone (run_W tr) then tr\<lparr>run_StopWaitLoop := True\<rparr> else tr)
     in if run_QuitWaitTimeout tr then ((True, None), data, tr)
        else (case with_world (ex_Status ex (task_of tr)) tr of
                (Inl e, tr) \<Rightarrow> ((True, Some e), data, tr)
              | (Inr statusDesc, tr) \<Rightarrow>
                  if sd_Status statusDesc = PipelineStatusUnknown
                  then ((False, Some err4EnableDeclineRatio), data, tr)
                  else if IsEndStatus (sd_Status statusDesc)
                  then ((True, None), DataStatus statusDesc, tr)
                  else ((run_StopWaitLoop tr, Some err4EnableDeclineRatio), data, tr)))"

definition wait_Processing :: "env \<Rightarrow> executor \<Rightarrow> TaskRun \<Rightarrow> (string + op_data) \<times> TaskRun" where
  "wait_Processing en ex tr =
     (case run_loop en poll_loop_options (wait_body ex) (NoData, tr) of
        (None, data, tr) \<Rightarrow> (Inr data, tr)
      | (Some e, _, tr) \<Rightarrow> (Inl e, tr))"

definition end_task :: "PipelineStatus \<Rightarrow> TaskRun \<Rightarrow> TaskRun" where
  "end_task endStatus tr =
     set_task (\<lambda>t.
       (case CalculateTaskCostTimeSec (now_of tr)
               (t\<lparr>task_Status := endStatus, task_TimeEnd := now_of tr\<rparr>) of
          (cost, t) \<Rightarrow> t\<lparr>task_CostTimeSec := cost\<rparr>)) tr"

definition wait_WhenDone :: "executor \<Rightarrow> op_data \<Rightarrow> TaskRun \<Rightarrow> op_result \<times> TaskRun" where
  "wait_WhenDone ex data tr =
     (case data of
        NoData \<Rightarrow> (Returned None, tr)
      | DataStatus desc \<Rightarrow>
          let endStatus = sd_Status desc;
              tr = (if IsFailedStatus endStatus
                    then (case with_world (ex_Inspect ex (task_of tr)) tr of
                            (Inl _, tr) \<Rightarrow> tr
                          | (Inr inspect, tr) \<Rightarrow>
                              if inspect \<noteq> '''' then snd (UpdateTaskInspect inspect tr) else tr)
                    else tr)
          in (Returned None, end_task endStatus tr)
      | DataJob _ \<Rightarrow>
          (Panicked ''interface conversion: interface {} is apistructs.Job, not apistructs.PipelineStatusDesc'', tr))"

definition wait_WhenLogicError :: "string \<Rightarrow> TaskRun \<Rightarrow> op_result \<times> TaskRun" where
  "wait_WhenLogicError err tr = (Returned None, set_status PipelineStatusError tr)"

definition wait_timed_out :: "executor \<Rightarrow> TaskRun \<Rightarrow> op_result \<times> TaskRun" where
  "wait_timed_out ex tr =
     (let tr = set_task (\<lambda>t. t\<lparr>task_Status := PipelineStatusTimeout, task_TimeEnd := now_of tr,
                 task_CostTimeSec := trunc_seconds (now_of tr - task_TimeBegin t)\<rparr>)
               (tr\<lparr>run_QuitWaitTimeout := True\<rparr>)
      in (case with_world (ex_Cancel ex (task_of tr)) tr of (err, tr) \<Rightarrow> (Returned err, tr)))"

definition wait_WhenTimeout :: "executor \<Rightarrow> TaskRun \<Rightarrow> op_result \<times> TaskRun" where
  "wait_WhenTimeout ex tr =
     (case with_world (ex_Status ex (task_of tr)) (tr\<lparr>run_QuitQueueTimeout := True\<rparr>) of
        (Inl _, tr) \<Rightarrow> wait_timed_out ex tr
      | (Inr statusDesc, tr) \<Rightarrow>
          if IsEndStatus (sd_Status statusDesc)
          then wait_WhenDone ex (DataStatus statusDesc) (tr\<lparr>run_FakeTimeout := True\<rparr>)
          else wait_timed_out ex tr)"

definition wait_TimeoutConfig :: "env \<Rightarrow> TaskRun \<Rightarrow> (time \<times> duration) option" where
  "wait_TimeoutConfig en tr =
     (let taskTimeout = te_Timeout (task_Extra (task_of tr));
          taskTimeout = (if taskTimeout < - 1 \<or> taskTimeout = 0 then env_TaskDefaultTimeout en else taskTimeout)
      in if taskTimeout = - 1 then None
         else if IsZero (task_TimeBegin (task_of tr)) then Some (now_of tr + taskTimeout, taskTimeout)
         else Some (task_TimeBegin (task_of tr) + taskTimeout, taskTimeout))"

definition NewWait :: "env \<Rightarrow> executor \<Rightarrow> TaskOp" where
  "NewWait en ex =
     \<lparr>op_Op = ''wait'', op_Processing = wait_Processing en ex, op_WhenDone = wait_WhenDone ex,
      op_WhenLogicError = wait_WhenLogicError, op_WhenTimeout = wait_WhenTimeout ex,
      op_TimeoutConfig = wait_TimeoutConfig en\<rparr>"

section \<open>prepare\<close>

text \<open>
  \<open>makeTaskRun\<close> assembles the container of the task from the cluster, the extension market
  and the pipeline definition; its outcome (need retry, error, task and world afterwards) is the
  argument \<open>makeTaskRun\<close> of the operation. The decisions it delegates to functions of their
  own are modelled: the loop options, the throttler queues, the condition of an action, the
  lifetime of the access token.
\<close>

type_synonym make_task_run = "PipelineTask \<Rightarrow> world \<Rightarrow> (bool \<times> string option) \<times> PipelineTask \<times> world"

definition prepare_WhenDone :: "make_task_run \<Rightarrow> op_data \<Rightarrow> TaskRun \<Rightarrow> op_result \<times> TaskRun" where
  "prepare_WhenDone makeTaskRun data tr =
     (case makeTaskRun (task_of tr) (run_W tr) of
        ((needRetry, err), t, w) \<Rightarrow>
          let tr = tr\<lparr>run_Task := t, run_W := w\<rparr>
          in if needRetry then
               (Returned (Some (case err of None \<Rightarrow> ''need retry'' | Some e \<Rightarrow> e)),
                set_status PipelineStatusAnalyzeFailed tr)
             else
               (case err of
                  Some e \<Rightarrow>
                    (Returned None, append_error (new_response e) (set_status PipelineStatusAnalyzeFailed tr))
                | None \<Rightarrow> (Returned None, tr)))"

definition prepare_WhenLogicError :: "string \<Rightarrow> TaskRun \<Rightarrow> op_result \<times> TaskRun" where
  "prepare_WhenLogicError err tr = (Returned None, set_status PipelineStatusAnalyzeFailed tr)"

definition NewPrepare :: "make_task_run \<Rightarrow> TaskOp" where
  "NewPrepare makeTaskRun =
     \<lparr>op_Op = ''prepare'', op_Processing = (\<lambda>tr. (Inr NoData, tr)),
      op_WhenDone = prepare_WhenDone makeTaskRun,
      op_WhenLogicError = prepare_WhenLogicError, op_WhenTimeout = (\<lambda>tr. (Returned None, tr)),
      op_TimeoutConfig = (\<lambda>_. None)\<rparr>"

record PipelineTaskPriorityV1Item =
  pv_Queue :: string
  pv_Concurrency :: int
  pv_Priority :: int

record PipelineTaskPriority =
  tp_Enable :: bool
  tp_V1 :: "PipelineTaskPriorityV1Item list"

record ActionSpec =
  as_Concurrency :: "ActionConcurrency option"
  as_Loop :: "PipelineTaskLoop option"
  as_Priority :: "PipelineTaskPriority option"

text \<open>
  The window of every request is the address of a field of the loop variable, which Go 1.16
  keeps for all rounds: when the requests are read, it holds the last item.
\<close>

definition queue_requests :: "time \<Rightarrow> PipelineTaskPriorityV1Item list \<Rightarrow> AddKeyToQueueRequest list" where
  "queue_requests now items =
     map (\<lambda>cfg. \<lparr>ar_QueueName = pv_Queue cfg, ar_QueueWindow = Some (pv_Concurrency (last items)),
                 ar_Priority = pv_Priority cfg, ar_CreationTime = now\<rparr>)
       (filter (\<lambda>cfg. pv_Queue cfg \<noteq> '''') items)"

definition insertIntoQueue :: "ActionSpec \<Rightarrow> TaskRun \<Rightarrow> TaskRun" where
  "insertIntoQueue actionSpec tr =
     (case as_Priority actionSpec of
        None \<Rightarrow> tr
      | Some priority \<Rightarrow>
          if \<not> tp_Enable priority then tr
          else
            let reqs = queue_requests (now_of tr) (tp_V1 priority)
            in if reqs = [] then tr
               else tr\<lparr>run_W := (run_W tr)\<lparr>w_throttler :=
                      AddKeyToQueues (w_throttler (run_W tr)) (te_UUID (task_Extra (task_of tr))) reqs\<rparr>\<rparr>)"

definition Duplicate :: "PipelineTaskLoop option \<Rightarrow> PipelineTaskLoop option" where
  "Duplicate l = map_option (\<lambda>l. \<lparr>tl_Break = tl_Break l, tl_Strategy = tl_Strategy l\<rparr>) l"

definition default_strategy :: "LoopStrategy option \<Rightarrow> LoopStrategy" where
  "default_strategy strategy =
     (let s = (case strategy of None \<Rightarrow> PipelineTaskDefaultLoopStrategy | Some s \<Rightarrow> s);
          s = (if ls_IntervalSec s = 0
               then s\<lparr>ls_IntervalSec := ls_IntervalSec PipelineTaskDefaultLoopStrategy\<rparr> else s);
          s = (if fless (ls_DeclineRatio s) (Fin 0) \<or> ls_DeclineRatio s = Fin 0
               then s\<lparr>ls_DeclineRatio := ls_DeclineRatio PipelineTaskDefaultLoopStrategy\<rparr> else s)
      in if ls_DeclineLimitSec s = 0
         then s\<lparr>ls_DeclineLimitSec := ls_DeclineLimitSec PipelineTaskDefaultLoopStrategy\<rparr> else s)"

definition getLoopOptions :: "ActionSpec \<Rightarrow> PipelineTaskLoop option \<Rightarrow> PipelineTaskLoopOptions option" where
  "getLoopOptions actionSpec taskLoop =
     (if as_Loop actionSpec = None \<and> taskLoop = None then None
      else
        let calculated = (if taskLoop \<noteq> None then Duplicate taskLoop else Duplicate (as_Loop actionSpec))
        in Some \<lparr>lo_TaskLoop = taskLoop, lo_SpecYmlLoop = as_Loop actionSpec,
                 lo_CalculatedLoop = map_option (\<lambda>l.
                   \<lparr>tl_Break = (if tl_Break l = '''' then ''task_status == ''@ [CHR 0x27] @ ''Success'' @ [CHR 0x27]
                               else tl_Break l),
                    tl_Strategy = Some (default_strategy (tl_Strategy l))\<rparr>) calculated,
                 lo_LoopedTimes = 1\<rparr>)"

definition handleAccessTokenExpiredIn :: "env \<Rightarrow> PipelineTask \<Rightarrow> string \<times> PipelineTask" where
  "handleAccessTokenExpiredIn en task =
     (let timeout = te_Timeout (task_Extra task)
      in if timeout = - 1 then (''0'', task)
         else
           let timeout' = (if timeout < - 1 \<or> timeout = 0 then env_TaskDefaultTimeout en else timeout);
               task' = task\<lparr>task_Extra := (task_Extra task)\<lparr>te_Timeout := timeout'\<rparr>\<rparr>;
               secs = trunc_seconds timeout' + 30
           in ((if secs < 0 then ''-'' @ FormatUint (nat (- secs)) else FormatUint (nat secs)) @ ''s'', task'))"

definition existContinuePrivateEnv :: "(string \<times> string) list \<Rightarrow> string \<Rightarrow> bool" where
  "existContinuePrivateEnv privateEnvs k \<longleftrightarrow>
     (\<exists>name\<in>set [''DICE_APPLICATION_NAME'', ''DICE_APPLICATION_ID'', ''DICE_WORKSPACE'', ''GITTAR_BRANCH''].
        lookup_env privateEnvs name \<noteq> '''' \<and> k = name)"

definition contextVolumes :: "PipelineTaskContext \<Rightarrow> MetadataField list" where
  "contextVolumes context = tc_InStorages context @ tc_OutStorages context"

subsection \<open>The condition of an action\<close>

text \<open>
  \<^verbatim>\<open>src/pkg/expression/expression_reconcile.go\<close>. What the expression library answers for a
  condition is the argument \<open>gv\<close>.
\<close>

datatype gv_answer = GvParseError string | GvEvalError string | GvResult bool | GvPanic

datatype SignType = TaskJumpOver | TaskNotJumpOver

record ExpressionExecSign =
  sg_Sign :: SignType
  sg_Msg :: string
  sg_Err :: "string option"

definition ReplacePlaceholder :: "string \<Rightarrow> string" where
  "ReplacePlaceholder c = strings_TrimSuffix (strings_TrimPrefix c ''${{'') ''}}''"

text \<open>The verb \<open>%q\<close> on printable text.\<close>

definition quote_text :: "string \<Rightarrow> string" where
  "quote_text s =
     [CHR 0x22] @ concat (map (\<lambda>c. if c = CHR 0x22 \<or> c = CHR 0x5C then [CHR 0x5C, c] else [c]) s) @ [CHR 0x22]"

definition expression_Reconcile :: "(string \<Rightarrow> gv_answer) \<Rightarrow> string \<Rightarrow> ExpressionExecSign" where
  "expression_Reconcile gv cond =
     (if cond = '''' then \<lparr>sg_Sign = TaskNotJumpOver, sg_Msg = '''', sg_Err = None\<rparr>
      else
        let c = strings_Trim (ReplacePlaceholder cond) '' ''
        in (case gv c of
              GvPanic \<Rightarrow> \<lparr>sg_Sign = TaskJumpOver, sg_Msg = '''',
                sg_Err = Some (''expression '' @ quote_text c @ '' exec failed, action skip'')\<rparr>
            | GvParseError e \<Rightarrow> \<lparr>sg_Sign = TaskJumpOver, sg_Msg = '''',
                sg_Err = Some (''new expression '' @ c @ '' error '' @ e @ '', action skip'')\<rparr>
            | GvEvalError e \<Rightarrow> \<lparr>sg_Sign = TaskJumpOver, sg_Msg = '''',
                sg_Err = Some (''expression '' @ c @ '' exec error '' @ e @ '', action skip'')\<rparr>
            | GvResult ok \<Rightarrow>
                if \<not> ok
                then \<lparr>sg_Sign = TaskJumpOver, sg_Msg = ''run '' @ c @ '' expression fail, action skip'', sg_Err = None\<rparr>
                else \<lparr>sg_Sign = TaskNotJumpOver, sg_Msg = '''', sg_Err = None\<rparr>))"

definition log_error :: "time \<Rightarrow> string \<Rightarrow> PipelineTask \<Rightarrow> PipelineTask" where
  "log_error now msg =
     task_Result_update (tr_Errors_update (\<lambda>errs. AppendError now errs [new_response msg]))"

definition condition :: "(string \<Rightarrow> gv_answer) \<Rightarrow> time \<Rightarrow> PipelineTask \<Rightarrow> bool \<times> PipelineTask" where
  "condition gv now task =
     (if te_ActionIf (task_Extra task) = '''' then (False, task)
      else
        let sign = expression_Reconcile gv (te_ActionIf (task_Extra task));
            log = (\<lambda>task.
              let task = (case sg_Err sign of None \<Rightarrow> task | Some e \<Rightarrow> log_error now e task)
              in if sg_Msg sign \<noteq> '''' then log_error now (sg_Msg sign) task else task)
        in if sg_Err sign \<noteq> None then (True, log (task\<lparr>task_Status := PipelineStatusFailed\<rparr>))
           else if sg_Sign sign = TaskJumpOver
           then (True, log (task\<lparr>task_Status := PipelineStatusNoNeedBySystem,
                                 task_Extra := (task_Extra task)\<lparr>te_AllowFailure := True\<rparr>\<rparr>))
           else (False, task))"

section \<open>The operations keep the contract\<close>

lemma with_world_status: "with_world f tr = (r, tr') \<Longrightarrow> task_of tr' = task_of tr \<and> run_PExit tr' = run_PExit tr"
  by (auto simp: with_world_def split: prod.splits)

lemma UpdateTaskInspect_PExit: "run_PExit (snd (UpdateTaskInspect i tr)) = run_PExit tr"
  by (auto simp: UpdateTaskInspect_def fetchLatestTask_def with_world_def Let_def
      split: option.splits sum.splits prod.splits)

lemma end_task_frame [simp]:
  "task_Status (run_Task (end_task st tr)) = st" "run_PExit (end_task st tr) = run_PExit tr"
  by (auto simp: end_task_def CalculateTaskCostTimeSec_def Let_def split: prod.splits)

lemma wait_WhenDone_status:
  assumes "wait_WhenDone ex data tr = (r, tr')"
  shows "status_of tr' = status_of tr \<or> (\<exists>d. data = DataStatus d \<and> status_of tr' = sd_Status d)"
    and "run_PExit tr' = run_PExit tr"
  using assms
  by (auto simp: wait_WhenDone_def Let_def UpdateTaskInspect_PExit split: op_data.splits if_splits sum.splits prod.splits
      dest: with_world_status)

lemma wait_timed_out_status: "wait_timed_out ex tr = (r, tr') \<Longrightarrow> status_of tr' = PipelineStatusTimeout"
  by (auto simp: wait_timed_out_def Let_def split: prod.splits dest: with_world_status)

lemma wait_WhenTimeout_status:
  assumes "wait_WhenTimeout ex tr = (r, tr')" shows "status_of tr' = status_of tr \<or> IsEndStatus (status_of tr')"
proof -
  have t: "IsEndStatus PipelineStatusTimeout" by (simp add: status_defs)
  show ?thesis
    using assms t
    by (auto simp: wait_WhenTimeout_def wait_WhenDone_def Let_def split: sum.splits prod.splits if_splits
        dest!: wait_timed_out_status)
qed

interpretation create_op: task_op "NewCreate ex" "\<lambda>_ st. st = PipelineStatusCreated"
  PipelineStatusCreateError "\<lambda>_. False" for ex
  by unfold_locales
    (auto simp: NewCreate_def op_names_def create_WhenDone_def create_WhenLogicError_def status_defs)

interpretation start_op: task_op "NewStart en ex" "\<lambda>_ st. st = PipelineStatusQueue"
  PipelineStatusStartError "\<lambda>_. False" for en ex
  by unfold_locales
    (auto simp: NewStart_def op_names_def start_WhenDone_def start_WhenLogicError_def status_defs)

interpretation queue_op: task_op "NewQueueOp en ex" "\<lambda>_ st. st = PipelineStatusRunning"
  PipelineStatusError "\<lambda>_. False" for en ex
  by unfold_locales
    (auto simp: NewQueueOp_def op_names_def queue_WhenDone_def queue_WhenLogicError_def Let_def status_defs)

interpretation wait_op: task_op "NewWait en ex" "\<lambda>data st. \<exists>d. data = DataStatus d \<and> st = sd_Status d"
  PipelineStatusError IsEndStatus for en ex
  by unfold_locales
    (auto simp: NewWait_def op_names_def wait_WhenLogicError_def status_defs
      dest: wait_WhenDone_status wait_WhenTimeout_status)

interpretation prepare_op: task_op "NewPrepare makeTaskRun" "\<lambda>_ _. True"
  PipelineStatusAnalyzeFailed "\<lambda>_. False" for makeTaskRun
  by unfold_locales
    (auto simp: NewPrepare_def op_names_def prepare_WhenDone_def prepare_WhenLogicError_def Let_def status_defs
      split: prod.splits option.splits if_splits)

section \<open>A platform error and the loop\<close>

text \<open>
  C27: when the creation of a looping task fails with a platform error, the task is handed to the
  loop before its old status is restored: the task is retried as \<open>Born\<close>, but a round of its
  loop is used up and its context, with the volumes prepared for it, is gone.\<close>

theorem platform_error_consumes_a_round:
  assumes "calm en" and "map_of (w_pstatus (run_W tr)) (p_ID (run_P tr)) = Some st" and "\<not> IsEndStatus st"
    and "int (length (w_faults (run_W tr))) < 2 ^ 64 - 1"
    and "loop_strategy (task_of tr) = Some s" and "\<And>b t. env_eval en b t = Inr False"
    and "ls_MaxTimes s = - 1 \<or> wrap64 (int (looped_times (task_of tr))) < ls_MaxTimes s"
    and "\<not> IsContainUserError (network_message tr err)"
  shows "\<exists>result tr'. waitOp en (NewCreate ex) PipelineStatusBorn startTime (ErrCh err) tr = Some (Some result, tr') \<and>
    \<not> IsContainUserError result \<and> status_of tr' = PipelineStatusBorn \<and>
    looped_times (task_of tr') = (looped_times (task_of tr) + 1) mod 2 ^ 64 \<and>
    task_Context (task_of tr') = empty_PipelineTaskContext"
proof -
  let ?e = "network_message tr err"
  let ?rec = "record_errors startTime [?e] (set_status PipelineStatusCreateError tr)"
  have w: "wait_signal en (NewCreate ex) (ErrCh err) tr = ([?e], [], set_status PipelineStatusCreateError tr)"
    by (simp add: wait_signal_def create_op.when_error)
  have l: "loop_strategy (task_of ?rec) = Some s" "looped_times (task_of ?rec) = looped_times (task_of tr)"
    using assms(5) by simp_all
  have "\<exists>tr'. handleTaskLoop en ?rec = Some (None, tr') \<and>
           task_of tr' = reset_task (set_strategy s (task_of ?rec))"
    by (rule handleTaskLoop_loops [OF assms(1) _ assms(3) _ _ l(1) assms(6)])
       (use assms(2,4,7) l in \<open>auto simp: status_defs\<close>)
  then obtain tr1 where h: "handleTaskLoop en ?rec = Some (None, tr1)"
    "task_of tr1 = reset_task (set_strategy s (task_of ?rec))" by blast
  let ?result = "op_error (op_Op (NewCreate ex)) [?e]"
  let ?tr = "Update en (set_status PipelineStatusBorn tr1)"
  have u: "\<not> IsContainUserError ?result"
    using IsContainUserError_op_error [OF op_names_clean [OF create_op.name], of ex "[?e]"] assms(8) by simp
  have f: "waitOp en (NewCreate ex) PipelineStatusBorn startTime (ErrCh err) tr = Some (Some ?result, ?tr)"
    using w h u by (simp add: waitOp_def finish_op_def op_result_error_def is_platform_error_def)
  have n: "looped_times (task_of tr1) = (looped_times (task_of tr) + 1) mod 2 ^ 64"
    using h(2) l looped_times_reset_task [of "set_strategy s (task_of ?rec)"] loop_strategy_set_strategy [OF l(1)]
    by simp
  have "looped_times (task_of ?tr) = looped_times (task_of tr1)"
    "task_Context (task_of ?tr) = task_Context (task_of tr1)"
    by simp_all
  with f u n h(2) show ?thesis by simp
qed

text \<open>An executor whose jobs succeed at once.\<close>

definition example_executor :: executor where
  "example_executor =
     \<lparr>ex_Create = (\<lambda>_ w. (None, w)), ex_Start = (\<lambda>_ w. (Inr NoData, w)),
      ex_Status = (\<lambda>_ w. (Inr \<lparr>sd_Status = PipelineStatusSuccess, sd_Desc = ''''\<rparr>, w)),
      ex_Inspect = (\<lambda>_ w. (Inr '''', w)), ex_Cancel = (\<lambda>_ w. (None, w))\<rparr>"

theorem platform_error_consumes_a_round_witness:
  "\<exists>result tr'. waitOp example_env (NewCreate example_executor) PipelineStatusBorn 5 (ErrCh ''connection refused'')
      (run_New (looping_task PipelineStatusBorn) sample_pipeline
        (example_world (looping_task PipelineStatusBorn) PipelineStatusRunning)) = Some (Some result, tr') \<and>
    status_of tr' = PipelineStatusBorn \<and> looped_times (task_of tr') = 2 \<and>
    task_Context (task_of tr') = empty_PipelineTaskContext \<and>
    task_Context (looping_task PipelineStatusBorn) \<noteq> empty_PipelineTaskContext"
proof -
  let ?tr = "run_New (looping_task PipelineStatusBorn) sample_pipeline
        (example_world (looping_task PipelineStatusBorn) PipelineStatusRunning)"
  have n: "\<not> IsContainUserError (network_message ?tr ''connection refused'')"
    by (simp add: network_message_def IsNetworkError_def IsSessionNotFound_def IsTimeoutError_def
        sessionNotFoundError_def strings_ToLower_def lower_char_def IsContainUserError_def userAbnormalError_def)
  have w: "wrap64 1 < (10 :: int)" by (simp add: wrap64_def)
  have "\<exists>result tr'. waitOp example_env (NewCreate example_executor) PipelineStatusBorn 5 (ErrCh ''connection refused'') ?tr =
      Some (Some result, tr') \<and> \<not> IsContainUserError result \<and> status_of tr' = PipelineStatusBorn \<and>
    looped_times (task_of tr') = (looped_times (task_of ?tr) + 1) mod 2 ^ 64 \<and>
    task_Context (task_of tr') = empty_PipelineTaskContext"
    by (rule platform_error_consumes_a_round [where st = PipelineStatusRunning and s = PipelineTaskDefaultLoopStrategy])
       (use n w in \<open>simp_all add: run_New_def example_world_def sample_pipeline_def example_env_def
          PipelineTaskDefaultLoopStrategy_def status_defs calm_def\<close>)
  moreover have "task_Context (looping_task PipelineStatusBorn) \<noteq> empty_PipelineTaskContext"
    by (simp add: looping_task_def empty_PipelineTaskContext_def)
  ultimately show ?thesis by (auto simp: run_New_def)
qed

section \<open>Options of the loop\<close>

text \<open>
  the loop options prepared for a task are complete: whenever the action or the task
  declares a loop there are options, counting from the first round, with a break condition and
  a strategy whose interval, ratio and limit are set, and the loop of the task has precedence
  over that of the action.\<close>

theorem getLoopOptions_complete:
  "case getLoopOptions actionSpec taskLoop of
     None \<Rightarrow> as_Loop actionSpec = None \<and> taskLoop = None
   | Some opt \<Rightarrow>
       lo_LoopedTimes opt = 1 \<and>
       (\<exists>cl s l. lo_CalculatedLoop opt = Some cl \<and> tl_Strategy cl = Some s \<and> tl_Break cl \<noteq> '''' \<and>
          ls_IntervalSec s \<noteq> 0 \<and> ls_DeclineLimitSec s \<noteq> 0 \<and>
          \<not> fless (ls_DeclineRatio s) (Fin 0) \<and> ls_DeclineRatio s \<noteq> Fin 0 \<and>
          (if taskLoop \<noteq> None then taskLoop else as_Loop actionSpec) = Some l \<and>
          tl_Break l \<in> {'''', tl_Break cl} \<and>
          (case tl_Strategy l of None \<Rightarrow> s = PipelineTaskDefaultLoopStrategy | Some s' \<Rightarrow> ls_MaxTimes s = ls_MaxTimes s'))"
proof (cases "getLoopOptions actionSpec taskLoop")
  case None
  then show ?thesis by (simp add: getLoopOptions_def Let_def split: if_splits)
next
  case (Some opt)
  obtain l where l: "(if taskLoop \<noteq> None then taskLoop else as_Loop actionSpec) = Some l"
    using Some by (auto simp: getLoopOptions_def split: if_splits)
  have s: "ls_IntervalSec (default_strategy x) \<noteq> 0" "ls_DeclineLimitSec (default_strategy x) \<noteq> 0"
    "\<not> fless (ls_DeclineRatio (default_strategy x)) (Fin 0)" "ls_DeclineRatio (default_strategy x) \<noteq> Fin 0"
    "case x of None \<Rightarrow> default_strategy x = PipelineTaskDefaultLoopStrategy
      | Some s' \<Rightarrow> ls_MaxTimes (default_strategy x) = ls_MaxTimes s'" for x
    by (auto simp: default_strategy_def PipelineTaskDefaultLoopStrategy_def Let_def split: option.splits)
  have "lo_LoopedTimes opt = 1"
    "\<exists>cl. lo_CalculatedLoop opt = Some cl \<and> tl_Strategy cl = Some (default_strategy (tl_Strategy l)) \<and>
       tl_Break cl \<noteq> '''' \<and> tl_Break l \<in> {'''', tl_Break cl}"
    using Some l by (auto simp: getLoopOptions_def Duplicate_def Let_def split: if_splits)
  with Some l s [of "tl_Strategy l"] show ?thesis by auto
qed

theorem getLoopOptions_complete_witness:
  "case getLoopOptions \<lparr>as_Concurrency = None, as_Loop = Some \<lparr>tl_Break = '''', tl_Strategy = None\<rparr>, as_Priority = None\<rparr> None of
     None \<Rightarrow> False | Some opt \<Rightarrow> lo_LoopedTimes opt = 1"
  using getLoopOptions_complete [of "\<lparr>as_Concurrency = None, as_Loop = Some \<lparr>tl_Break = '''', tl_Strategy = None\<rparr>, as_Priority = None\<rparr>" None]
  by (auto split: option.splits)

section \<open>Volume identifiers\<close>

text \<open>A declared volume needs no identifier or has one.\<close>

definition volume_ok :: "MetadataField \<Rightarrow> bool" where
  "volume_ok v \<longleftrightarrow>
     mf_Type v = ''dice-fake-volume'' \<or> mf_Type v = ''dice-cache-nfs-volume'' \<or> lookup_env (mf_Labels v) ''ID'' \<noteq> ''''"

abbreviation out_storages :: "TaskRun \<Rightarrow> MetadataField list" where
  "out_storages tr \<equiv> tc_OutStorages (task_Context (task_of tr))"

definition has_id :: "Volume \<Rightarrow> bool" where
  "has_id v \<longleftrightarrow> vol_ID v \<noteq> None \<and> vol_ID v \<noteq> Some ''''"

lemma volumes_by_path_ids:
  "volumes_by_path m vs = Inr m' \<Longrightarrow> \<forall>k v. map_of m k = Some v \<longrightarrow> has_id v \<Longrightarrow>
   map_of m' k = Some v \<Longrightarrow> has_id v"
proof (induction m vs arbitrary: m' rule: volumes_by_path.induct)
  case (2 m v vs)
  then show ?case
    by (auto simp: update_conv' has_id_def split: if_splits)
qed simp

lemma inject_label_ok: "has_id v \<Longrightarrow> volume_ok (inject_label task declared v)"
  by (auto simp: inject_label_def volume_ok_def has_id_def lookup_env_def GenerateTaskVolume_def Let_def update_conv')

lemma inject_loop_ok:
  assumes "inject_loop m i rest tr = (None, tr')" and "drop i (out_storages tr) = rest"
    and "\<forall>v\<in>set (take i (out_storages tr)). volume_ok v" and "\<And>k v. map_of m k = Some v \<Longrightarrow> has_id v"
  shows "(\<forall>v\<in>set (out_storages tr'). volume_ok v) \<and> map mf_Name (out_storages tr') = map mf_Name (out_storages tr)"
  using assms
proof (induction m i rest tr rule: inject_loop.induct)
  case (1 m i tr)
  then show ?case by simp
next
  case (2 m i declared rest tr)
  have i: "i < length (out_storages tr)" "out_storages tr ! i = declared" "drop (Suc i) (out_storages tr) = rest"
    using "2.prems"(2) by (metis drop_eq_Nil list.discI not_le_imp_less, metis hd_drop_conv_nth drop_eq_Nil list.discI list.sel(1) not_le_imp_less, metis drop_Suc list.sel(3) tl_drop)
  have keep: "\<forall>v\<in>set (take (Suc i) (out_storages tr)). volume_ok v" if "volume_ok declared"
    using that "2.prems"(3) i(1,2) by (auto simp: take_Suc_conv_app_nth)
  show ?case
  proof (cases "mf_Type declared = ''dice-fake-volume'' \<or> mf_Type declared = ''dice-cache-nfs-volume''")
    case True
    then have ok: "volume_ok declared" by (auto simp: volume_ok_def)
    have "inject_loop m (Suc i) rest tr = (None, tr')" using "2.prems"(1) True by simp
    then show ?thesis by (rule "2.IH"(1) [OF True _ i(3) keep [OF ok] "2.prems"(4)])
  next
    case fake: False
    with "2.prems"(1) obtain v where v: "map_of m (mf_Value declared) = Some v"
      by (cases "map_of m (mf_Value declared)") simp_all
    show ?thesis
    proof (cases "lookup_env (mf_Labels declared) ''ID'' \<noteq> ''''")
      case True
      then have ok: "volume_ok declared" by (simp add: volume_ok_def)
      have "inject_loop m (Suc i) rest tr = (None, tr')" using "2.prems"(1) fake v True by simp
      then show ?thesis by (rule "2.IH"(2) [OF fake v True _ i(3) keep [OF ok] "2.prems"(4)])
    next
      case False
      let ?new = "inject_label (task_of tr) declared v"
      let ?tr = "set_task (task_Context_update (tc_OutStorages_update (\<lambda>vs. vs[i := ?new]))) tr"
      obtain e tr1 where w: "with_world (UpdatePipelineTaskContext (task_ID (task_of ?tr)) (task_Context (task_of ?tr))) ?tr = (e, tr1)"
        by (metis surj_pair)
      have t: "out_storages tr1 = (out_storages tr)[i := ?new]" using with_world_status [OF w] by simp
      have n: "mf_Name ?new = mf_Name declared"
        by (simp add: inject_label_def GenerateTaskVolume_def Let_def)
      have e: "e = None" using "2.prems"(1) fake v False w by (cases e) simp_all
      have "volume_ok ?new" using inject_label_ok "2.prems"(4) [OF v] by blast
      then have "\<forall>v\<in>set (take (Suc i) (out_storages tr1)). volume_ok v"
        using t i(1) "2.prems"(3) by (auto simp: take_Suc_conv_app_nth)
      then have "(\<forall>v\<in>set (out_storages tr'). volume_ok v) \<and>
          map mf_Name (out_storages tr') = map mf_Name (out_storages tr1)"
        using "2.prems"(1) fake v False w e t i(3)
        by (intro "2.IH"(3) [OF fake v _ refl w [symmetric] e _ _ _ "2.prems"(4)]) (simp_all add: drop_update_cancel)
      with t n i(1,2) show ?thesis by (simp add: map_update list_update_same_conv)
    qed
  qed
qed

text \<open>
  when the identifiers of the volumes of a started job are injected without error, every
  declared volume of the task that needs an identifier has one, and no volume is lost or renamed.\<close>

theorem injectVolumeID_complete:
  assumes "injectVolumeID (DataJob volumes) tr = (None, tr')"
  shows "(\<forall>v\<in>set (out_storages tr'). volume_ok v) \<and> map mf_Name (out_storages tr') = map mf_Name (out_storages tr)"
proof -
  obtain m where m: "volumes_by_path [] volumes = Inr m" "inject_loop m 0 (out_storages tr) tr = (None, tr')"
    using assms by (auto simp: injectVolumeID_def split: sum.splits)
  show ?thesis
    by (rule inject_loop_ok [OF m(2)]) (use volumes_by_path_ids [OF m(1)] in auto)
qed

section \<open>The windows of the queues\<close>

text \<open>Two queues with windows 1 and 5: both get the window of the last one.\<close>

definition two_queues :: ActionSpec where
  "two_queues = \<lparr>as_Concurrency = None, as_Loop = None, as_Priority = Some \<lparr>tp_Enable = True, tp_V1 =
     [\<lparr>pv_Queue = ''org'', pv_Concurrency = 1, pv_Priority = 10\<rparr>,
      \<lparr>pv_Queue = ''all'', pv_Concurrency = 5, pv_Priority = 10\<rparr>]\<rparr>\<rparr>"

definition window_of :: "TaskRun \<Rightarrow> string \<Rightarrow> int option" where
  "window_of tr name =
     map_option (\<lambda>r. ProcessingWindow (th_store (w_throttler (run_W tr)) r)) (th_queueByName (w_throttler (run_W tr)) name)"

lemma insertIntoQueue_last_window:
  "window_of (insertIntoQueue two_queues (run_New (looping_task PipelineStatusAnalyzed) sample_pipeline
       (example_world (looping_task PipelineStatusAnalyzed) PipelineStatusRunning))) ''org'' = Some 5"
  by (simp add: window_of_def insertIntoQueue_def two_queues_def queue_requests_def AddKeyToQueues_def
      addKeyToQueue_def addQueue_def set_queue_def run_New_def example_world_def empty_throttler_def
      NewEnhancedQueue_def eq_Add_def ProcessingWindow_def Let_def looping_task_def example_task_def)

theorem injectVolumeID_complete_witness:
  "\<exists>tr'. injectVolumeID (DataJob [\<lparr>vol_ID = Some ''v1'', vol_Storage = ''nfs'', vol_Path = ''/.pipeline/context/build''\<rparr>])
      (run_New (looping_task PipelineStatusCreated) sample_pipeline
        ((example_world (looping_task PipelineStatusCreated) PipelineStatusRunning)\<lparr>w_faults := []\<rparr>)) = (None, tr') \<and>
     list_all volume_ok (out_storages tr')"
proof -
  let ?vs = "[\<lparr>vol_ID = Some ''v1'', vol_Storage = ''nfs'', vol_Path = ''/.pipeline/context/build''\<rparr>]"
  let ?tr = "run_New (looping_task PipelineStatusCreated) sample_pipeline
        ((example_world (looping_task PipelineStatusCreated) PipelineStatusRunning)\<lparr>w_faults := []\<rparr>)"
  obtain e tr' where i: "injectVolumeID (DataJob ?vs) ?tr = (e, tr')" by (metis surj_pair)
  then have "e = None"
    by (simp add: injectVolumeID_def run_New_def looping_task_def lookup_env_def set_task_def with_world_def
        UpdatePipelineTaskContext_def update_columns_def take_fault_def example_world_def)
  with i injectVolumeID_complete [of ?vs ?tr tr'] show ?thesis by (auto simp: list_all_iff)
qed

end
