(* ===== verification/Reconcile_Task.thy ===== *)
theory Reconcile_Task
  imports Task_Op
begin

text \<open>
  The reconciliation of one task (\<^verbatim>\<open>src/modules/pipeline/pipengine/reconciler/task.go\<close>): the
  loop that picks the operation for the task's status, runs it, retries it after a platform
  error and stops at an end status, at a user error or when the pipeline stops. The loop has
  fuel; \<open>OutOfFuel\<close> is a run that needs more rounds.
\<close>

section \<open>The loop\<close>

definition op_for :: "env \<Rightarrow> executor \<Rightarrow> make_task_run \<Rightarrow> PipelineStatus \<Rightarrow> TaskOp option" where
  "op_for en ex makeTaskRun st =
     (case st of
        PipelineStatusAnalyzed \<Rightarrow> Some (NewPrepare makeTaskRun)
      | PipelineStatusBorn \<Rightarrow> Some (NewCreate ex)
      | PipelineStatusCreated \<Rightarrow> Some (NewStart en ex)
      | PipelineStatusQueue \<Rightarrow> Some (NewQueueOp en ex)
      | PipelineStatusRunning \<Rightarrow> Some (NewWait en ex)
      | _ \<Rightarrow> None)"

definition defaultRetryStrategy :: LoopStrategy where
  "defaultRetryStrategy =
     \<lparr>ls_MaxTimes = 0, ls_DeclineRatio = Fin 2, ls_DeclineLimitSec = 600, ls_IntervalSec = 30\<rparr>"

definition defaultInterval :: duration where "defaultInterval = 30 * Second"

text \<open>The time to wait before the next try; \<open>None\<close>: a nil strategy is dereferenced.\<close>

definition retry_interval :: "env \<Rightarrow> PipelineTask \<Rightarrow> nat \<Rightarrow> duration option" where
  "retry_interval en task n =
     map_option (\<lambda>interval. if interval < defaultInterval then defaultInterval else interval)
       (case te_LoopOptions (task_Extra task) of
          None \<Rightarrow> Some (loop_interval en defaultRetryStrategy n)
        | Some lo \<Rightarrow>
            (case lo_CalculatedLoop lo of
               None \<Rightarrow> Some (loop_interval en defaultRetryStrategy n)
             | Some cl \<Rightarrow> map_option (\<lambda>strategy. loop_interval en strategy n) (tl_Strategy cl)))"

definition resetTaskForAbnormalRetry :: "env \<Rightarrow> nat \<Rightarrow> TaskRun \<Rightarrow> TaskRun option" where
  "resetTaskForAbnormalRetry en n tr =
     map_option (\<lambda>interval. Update en (sleep_run en interval tr)) (retry_interval en (task_of tr) n)"

datatype reconcile_result = Finished "string option" TaskRun | NilDereference | OutOfFuel

text \<open>\<open>sel\<close> says for every round which signal comes first.\<close>

fun reconcile_loop ::
  "nat \<Rightarrow> env \<Rightarrow> executor \<Rightarrow> make_task_run \<Rightarrow> (nat \<Rightarrow> first_signal) \<Rightarrow> nat \<Rightarrow> nat \<Rightarrow> TaskRun \<Rightarrow> reconcile_result" where
  "reconcile_loop 0 en ex mk sel rnd platformErrRetryTimes tr = OutOfFuel"
| "reconcile_loop (Suc fuel) en ex mk sel rnd platformErrRetryTimes tr =
     (if run_PExit tr then Finished None tr
      else (case op_for en ex mk (status_of tr) of
        None \<Rightarrow>
          if IsEndStatus (status_of tr) then Finished None tr
          else reconcile_loop fuel en ex mk sel (Suc rnd) platformErrRetryTimes tr
      | Some taskOp \<Rightarrow>
          (case Do en taskOp (sel rnd) tr of
             None \<Rightarrow> NilDereference
           | Some (None, tr) \<Rightarrow>
               if IsEndStatus (status_of tr) then Finished None tr
               else reconcile_loop fuel en ex mk sel (Suc rnd) platformErrRetryTimes tr
           | Some (Some abnormalErr, tr) \<Rightarrow>
               if IsContainUserError abnormalErr then Finished (Some abnormalErr) tr
               else (case resetTaskForAbnormalRetry en platformErrRetryTimes tr of
                       None \<Rightarrow> NilDereference
                     | Some tr \<Rightarrow>
                         reconcile_loop fuel en ex mk sel (Suc rnd) (Suc platformErrRetryTimes) tr))))"

definition reconcileTask ::
  "nat \<Rightarrow> env \<Rightarrow> executor \<Rightarrow> make_task_run \<Rightarrow> (nat \<Rightarrow> first_signal) \<Rightarrow> TaskRun \<Rightarrow> reconcile_result" where
  "reconcileTask fuel en ex mk sel tr = reconcile_loop fuel en ex mk sel 0 0 tr"

section \<open>When it returns\<close>

definition good_end :: "string option \<Rightarrow> TaskRun \<Rightarrow> bool" where
  "good_end res tr \<longleftrightarrow>
     (case res of
        None \<Rightarrow> run_PExit tr \<or> IsEndStatus (status_of tr)
      | Some err \<Rightarrow> IsContainUserError err)"

lemma reconcile_loop_Finished:
  "reconcile_loop fuel en ex mk sel rnd n tr = Finished res tr' \<Longrightarrow> good_end res tr'"
proof (induction fuel arbitrary: rnd n tr)
  case (Suc fuel)
  consider "run_PExit tr" | "\<not> run_PExit tr" "op_for en ex mk (status_of tr) = None"
    | itr where "\<not> run_PExit tr" "op_for en ex mk (status_of tr) = Some itr" "Do en itr (sel rnd) tr = None"
    | itr tr1 where "\<not> run_PExit tr" "op_for en ex mk (status_of tr) = Some itr"
        "Do en itr (sel rnd) tr = Some (None, tr1)"
    | itr err tr1 where "\<not> run_PExit tr" "op_for en ex mk (status_of tr) = Some itr"
        "Do en itr (sel rnd) tr = Some (Some err, tr1)"
    by (metis not_None_eq surj_pair)
  then show ?case
  proof cases
    case 1
    with Suc.prems show ?thesis by (auto simp: good_end_def)
  next
    case 2
    show ?thesis
    proof (cases "IsEndStatus (status_of tr)")
      case True
      with 2 Suc.prems show ?thesis by (auto simp: good_end_def)
    next
      case False
      with 2 Suc.prems show ?thesis by (intro Suc.IH) simp
    qed
  next
    case 3
    with Suc.prems show ?thesis by simp
  next
    case (4 itr tr1)
    show ?thesis
    proof (cases "IsEndStatus (status_of tr1)")
      case True
      with 4 Suc.prems show ?thesis by (auto simp: good_end_def)
    next
      case False
      with 4 Suc.prems show ?thesis by (intro Suc.IH) simp
    qed
  next
    case (5 itr err tr1)
    show ?thesis
    proof (cases "IsContainUserError err")
      case True
      with 5 Suc.prems show ?thesis by (auto simp: good_end_def)
    next
      case False
      with 5 Suc.prems show ?thesis
        by (cases "resetTaskForAbnormalRetry en n tr1") (auto intro: Suc.IH)
    qed
  qed
qed simp


section \<open>The life of a task\<close>

inductive task_moves :: "PipelineStatus \<Rightarrow> PipelineStatus \<Rightarrow> bool" where
  prepared: "task_moves PipelineStatusAnalyzed st"
| created: "task_moves PipelineStatusBorn PipelineStatusCreated"
| create_failed: "task_moves PipelineStatusBorn PipelineStatusCreateError"
| started: "task_moves PipelineStatusCreated PipelineStatusQueue"
| start_failed: "task_moves PipelineStatusCreated PipelineStatusStartError"
| dequeued: "task_moves PipelineStatusQueue PipelineStatusRunning"
| queue_failed: "task_moves PipelineStatusQueue PipelineStatusError"
| ended: "IsEndStatus st \<Longrightarrow> task_moves PipelineStatusRunning st"

inductive_simps task_moves_simps [simp]:
  "task_moves PipelineStatusBorn st" "task_moves PipelineStatusCreated st"
  "task_moves PipelineStatusQueue st" "task_moves PipelineStatusRunning st"
  "task_moves PipelineStatusAnalyzed st"

lemma wait_Processing_data:
  assumes "wait_Processing en ex tr = (Inr (DataStatus d), tr')" shows "IsEndStatus (sd_Status d)"
proof -
  obtain e x tr1 where l: "run_loop en poll_loop_options (wait_body ex) (NoData, tr) = (e, x, tr1)"
    by (metis surj_pair)
  have "\<forall>d. x = DataStatus d \<longrightarrow> IsEndStatus (sd_Status d)"
    by (rule run_loop_inv [where P = "\<lambda>x _. \<forall>d. x = DataStatus d \<longrightarrow> IsEndStatus (sd_Status d)", OF _ _ _ l])
       (auto simp: wait_body_def Let_def split: if_splits sum.splits prod.splits)
  with assms l show ?thesis by (auto simp: wait_Processing_def split: option.splits)
qed

text \<open>What the wait operation is handed by its own processing.\<close>

lemma Do_signal_wait:
  assumes "Do_signal en (NewWait en ex) sel tr = (DoneCh (DataStatus d), tr')" shows "IsEndStatus (sd_Status d)"
proof -
  have "\<exists>r tr1 tr2. wait_Processing en ex tr1 = (r, tr2) \<and> r = Inr (DataStatus d)"
    using assms
    by (auto simp: Do_signal_def Let_def process_def handleProcessingResult_def NewWait_def
        split: if_splits first_signal.splits option.splits sum.splits prod.splits)
  then show ?thesis using wait_Processing_data by blast
qed

lemma op_for_cases:
  assumes "op_for en ex mk st = Some itr"
  obtains "st = PipelineStatusAnalyzed" "itr = NewPrepare mk"
  | "st = PipelineStatusBorn" "itr = NewCreate ex"
  | "st = PipelineStatusCreated" "itr = NewStart en ex"
  | "st = PipelineStatusQueue" "itr = NewQueueOp en ex"
  | "st = PipelineStatusRunning" "itr = NewWait en ex"
  using assms by (auto simp: op_for_def split: PipelineStatus.splits)

lemma waitOp_moves:
  assumes op: "op_for en ex mk st = Some itr" and sig: "Do_signal en itr sel tr0 = (sig, tr)"
    and w: "waitOp en itr st t sig tr = Some (result, tr')"
  shows "status_of tr' = st \<or> status_of tr' = base_status en sig tr \<or> task_moves st (status_of tr') \<or>
         status_of tr' = PipelineStatusAnalyzed"
  using op
proof (cases rule: op_for_cases)
  case 1
  then show ?thesis by simp
next
  case 2
  with w have "waitOp en (NewCreate ex) st t sig tr = Some (result, tr')" by simp
  from create_op.waitOp_status [OF this] 2 show ?thesis by (cases sig) auto
next
  case 3
  with w have "waitOp en (NewStart en ex) st t sig tr = Some (result, tr')" by simp
  from start_op.waitOp_status [OF this] 3 show ?thesis by (cases sig) auto
next
  case 4
  with w have "waitOp en (NewQueueOp en ex) st t sig tr = Some (result, tr')" by simp
  from queue_op.waitOp_status [OF this] 4 show ?thesis by (cases sig) auto
next
  case 5
  have "IsEndStatus PipelineStatusError" by (simp add: status_defs)
  moreover have "sig = DoneCh (DataStatus d) \<Longrightarrow> IsEndStatus (sd_Status d)" for d
    using Do_signal_wait sig 5 by blast
  ultimately show ?thesis
    using wait_op.waitOp_status [OF w [unfolded 5(2)]] 5(1)
    by (cases sig) auto
qed

lemma Do_total: "\<exists>result tr'. Do en itr sel tr = Some (result, tr')"
proof -
  obtain sig tr1 where s: "Do_signal en itr sel tr = (sig, tr1)" by (metis surj_pair)
  obtain errs msgs tr2 where w: "wait_signal en itr sig tr1 = (errs, msgs, tr2)" by (metis surj_pair)
  obtain e tr3 where "handleTaskLoop en (record_errors (w_now (run_W tr)) (msgs @ errs) tr2) = Some (e, tr3)"
    using handleTaskLoop_total by blast
  with s w show ?thesis by (simp add: Do_def waitOp_def finish_op_def Let_def)
qed




end
