(* ===== verification/Dag.thy ===== *)
theory Dag
  imports Go_Strings "HOL-Library.Monad_Syntax" "HOL-Library.List_Lexorder" "HOL-Library.Char_ord"
begin

text \<open>
  The task graph (\<open>pkg/dag\<close>): building a graph from named nodes with the check for cycles, and
  the search for the nodes that can be scheduled given the nodes that are done.

  A node is known by its name: the graph holds one object per name and never replaces it, so
  the pointers between nodes are names of the model. The order in which Go visits the entries
  of the node map is an argument, a list that enumerates the names. The recursive searches
  follow pointers and are partial functions of the model: that they return is a theorem.

  Shown: a graph built with the check is acyclic and has exactly the links asked for; building
  fails only for the documented reasons; what the search returns is exactly the set of nodes
  that are not done and have all predecessors done; and a graph with a node left always has a
  node to schedule.
\<close>

section \<open>State\<close>

record NamedNode =
  nn_NodeName :: string
  nn_PrevNodeNames :: "string list"

record defaultNode =
  dn_name :: string
  dn_prevNodeNames :: "string list"
  dn_prevNodes :: "string list"
  dn_nextNodes :: "string list"

record DAG =
  g_Nodes :: "string \<rightharpoonup> defaultNode"
  g_allowMarkArbitraryNodesAsDone :: bool
  g_allowNotCheckCycle :: bool

datatype dag_error =
    DuplicateNode string
  | NonexistentNode string string
  | SelfCycle string
  | CycleDetected string
  | NodeNotFound string
  | DoneNotVisited "string list"

datatype dag_option = WithAllowMarkArbitraryNodesAsDone bool | WithAllowNotCheckCycle bool

fun apply_option :: "DAG \<Rightarrow> dag_option \<Rightarrow> DAG" where
  "apply_option g (WithAllowMarkArbitraryNodesAsDone allow) =
     g\<lparr>g_allowMarkArbitraryNodesAsDone := allow\<rparr>"
| "apply_option g (WithAllowNotCheckCycle allow) = g\<lparr>g_allowNotCheckCycle := allow\<rparr>"

definition PrevNodes :: "DAG \<Rightarrow> string \<Rightarrow> string list" where
  "PrevNodes g n = (case g_Nodes g n of None \<Rightarrow> [] | Some d \<Rightarrow> dn_prevNodes d)"

definition NextNodes :: "DAG \<Rightarrow> string \<Rightarrow> string list" where
  "NextNodes g n = (case g_Nodes g n of None \<Rightarrow> [] | Some d \<Rightarrow> dn_nextNodes d)"

definition NextNodeNames :: "DAG \<Rightarrow> string \<Rightarrow> string list" where
  "NextNodeNames g n = NextNodes g n"

section \<open>Building a graph\<close>

definition addNode :: "DAG \<Rightarrow> NamedNode \<Rightarrow> dag_error + DAG" where
  "addNode g n =
     (if g_Nodes g (nn_NodeName n) \<noteq> None then Inl (DuplicateNode (nn_NodeName n))
      else Inr (g\<lparr>g_Nodes := (g_Nodes g)(nn_NodeName n \<mapsto>
             \<lparr>dn_name = nn_NodeName n, dn_prevNodeNames = nn_PrevNodeNames n,
              dn_prevNodes = [], dn_nextNodes = []\<rparr>)\<rparr>))"

text \<open>The loop of \<open>getVisitedPath\<close> that reverses the path in place.\<close>

fun reverse_loop :: "'a list \<Rightarrow> nat \<Rightarrow> 'a list" where
  "reverse_loop path 0 = path"
| "reverse_loop path (Suc i) = reverse_loop (list_swap path i (length path - 1 - i)) i"

definition getVisitedPath :: "string list \<Rightarrow> string" where
  "getVisitedPath path = strings_Join (reverse_loop path (length path div 2)) '' -> ''"

text \<open>\<open>visit\<close> returns the path when the start node is found (Go's error), and nothing otherwise;
  \<open>None\<close> is a call that does not return. The path grows along the siblings too, as the source
  assigns it in the loop.\<close>

partial_function (option) visit ::
    "DAG \<Rightarrow> string \<Rightarrow> string list \<Rightarrow> string list \<Rightarrow> string list option option" where
  "visit g start ns path =
     (case ns of
        [] \<Rightarrow> Some None
      | n # ns' \<Rightarrow>
          if n = start then Some (Some (path @ [n]))
          else do {
            r \<leftarrow> visit g start (PrevNodes g n) (path @ [n]);
            (case r of
               Some p \<Rightarrow> Some (Some p)
             | None \<Rightarrow> visit g start ns' (path @ [n]))
          })"

declare visit.simps [simp del]

definition validateNodes :: "DAG \<Rightarrow> string \<Rightarrow> string \<Rightarrow> (dag_error option) option" where
  "validateNodes g from to =
     (if from = to then Some (Some (SelfCycle from))
      else do {
        r \<leftarrow> visit g to (PrevNodes g from) [to, from];
        Some (map_option (\<lambda>p. CycleDetected (getVisitedPath p)) r)
      })"

definition link :: "DAG \<Rightarrow> string \<Rightarrow> string \<Rightarrow> DAG" where
  "link g from to =
     (let g1 = g\<lparr>g_Nodes := (g_Nodes g)(to :=
                  map_option (\<lambda>d. d\<lparr>dn_prevNodes := dn_prevNodes d @ [from]\<rparr>) (g_Nodes g to))\<rparr>
      in g1\<lparr>g_Nodes := (g_Nodes g1)(from :=
              map_option (\<lambda>d. d\<lparr>dn_nextNodes := dn_nextNodes d @ [to]\<rparr>) (g_Nodes g1 from))\<rparr>)"

definition linkTwoNodes :: "DAG \<Rightarrow> string \<Rightarrow> string \<Rightarrow> (dag_error + DAG) option" where
  "linkTwoNodes g from to =
     (if \<not> g_allowNotCheckCycle g then do {
        v \<leftarrow> validateNodes g from to;
        (case v of Some e \<Rightarrow> Some (Inl e) | None \<Rightarrow> Some (Inr (link g from to)))
      } else Some (Inr (link g from to)))"

definition addLink :: "DAG \<Rightarrow> string \<Rightarrow> string \<Rightarrow> (dag_error + DAG) option" where
  "addLink g n prevNodeName =
     (case g_Nodes g prevNodeName of
        None \<Rightarrow> Some (Inl (NonexistentNode n prevNodeName))
      | Some _ \<Rightarrow> linkTwoNodes g prevNodeName n)"

fun addLinks :: "DAG \<Rightarrow> (string \<times> string) list \<Rightarrow> (dag_error + DAG) option" where
  "addLinks g [] = Some (Inr g)"
| "addLinks g ((n, prev) # links) = do {
     r \<leftarrow> addLink g n prev;
     (case r of Inl e \<Rightarrow> Some (Inl e) | Inr g' \<Rightarrow> addLinks g' links)
   }"

fun addNodes :: "DAG \<Rightarrow> NamedNode list \<Rightarrow> dag_error + DAG" where
  "addNodes g [] = Inr g"
| "addNodes g (n # ns) = (case addNode g n of Inl e \<Rightarrow> Inl e | Inr g' \<Rightarrow> addNodes g' ns)"

text \<open>The links that the two nested loops of \<open>New\<close> add, when the outer one visits the nodes in
  the order \<open>ord\<close>.\<close>

definition links_of :: "DAG \<Rightarrow> string list \<Rightarrow> (string \<times> string) list" where
  "links_of g ord =
     concat (map (\<lambda>n. case g_Nodes g n of None \<Rightarrow> [] | Some d \<Rightarrow> map (Pair n) (dn_prevNodeNames d)) ord)"

definition New :: "string list \<Rightarrow> NamedNode list \<Rightarrow> dag_option list \<Rightarrow> (dag_error + DAG) option" where
  "New ord nodes ops =
     (let g0 = foldl apply_option
            \<lparr>g_Nodes = Map.empty, g_allowMarkArbitraryNodesAsDone = False, g_allowNotCheckCycle = False\<rparr> ops
      in case addNodes g0 nodes of
           Inl e \<Rightarrow> Some (Inl e)
         | Inr g1 \<Rightarrow> addLinks g1 (links_of g1 ord))"

section \<open>Scheduling\<close>

definition getRoots :: "DAG \<Rightarrow> string list \<Rightarrow> string list" where
  "getRoots g ord = filter (\<lambda>n. length (PrevNodes g n) = 0) ord"

definition toMap :: "DAG \<Rightarrow> string list \<Rightarrow> dag_error + string set" where
  "toMap g names =
     (case filter (\<lambda>n. g_Nodes g n = None) names of
        n # _ \<Rightarrow> Inl (NodeNotFound n)
      | [] \<Rightarrow> Inr (set names))"

definition isSchedulable :: "DAG \<Rightarrow> string \<Rightarrow> string set \<Rightarrow> bool" where
  "isSchedulable g n doneNodes =
     (if length (PrevNodes g n) = 0 then True
      else length (filter (\<lambda>prev. prev \<in> doneNodes) (PrevNodes g n)) = length (PrevNodes g n))"

text \<open>\<open>findSchedulable\<close> on each node of a list in turn: with the roots it is the loop of
  \<open>GetSchedulable\<close>, with the next nodes the loop in \<open>findSchedulable\<close>. The visited map is
  threaded through.\<close>

partial_function (option) findSchedulable ::
    "DAG \<Rightarrow> string set \<Rightarrow> string list \<Rightarrow> string set \<Rightarrow> (string list \<times> string set) option" where
  "findSchedulable g doneNodes ns visited =
     (case ns of
        [] \<Rightarrow> Some ([], visited)
      | n # ns' \<Rightarrow>
          if n \<in> visited then findSchedulable g doneNodes ns' visited
          else do {
            (s1, visited1) \<leftarrow>
              (if n \<in> doneNodes then findSchedulable g doneNodes (NextNodes g n) (insert n visited)
               else Some (if isSchedulable g n doneNodes then [n] else [], insert n visited));
            (s2, visited2) \<leftarrow> findSchedulable g doneNodes ns' visited1;
            Some (s1 @ s2, visited2)
          })"

declare findSchedulable.simps [simp del]

definition checkNotVisited :: "string list \<Rightarrow> string set \<Rightarrow> string list" where
  "checkNotVisited doneNames visited = filter (\<lambda>d. d \<notin> visited) doneNames"

definition GetSchedulable ::
    "string list \<Rightarrow> DAG \<Rightarrow> string list \<Rightarrow> (dag_error + (string \<rightharpoonup> defaultNode)) option" where
  "GetSchedulable ord g finishes =
     (case toMap g finishes of
        Inl e \<Rightarrow> Some (Inl e)
      | Inr finishesMap \<Rightarrow> do {
          (schedulable, visited) \<leftarrow> findSchedulable g finishesMap (getRoots g ord) {};
          (let notVisited = checkNotVisited (remdups finishes) visited in
           if \<not> g_allowMarkArbitraryNodesAsDone g \<and> length notVisited > 0
           then Some (Inl (DoneNotVisited notVisited))
           else Some (Inr (foldl (\<lambda>m n. m(n := g_Nodes g n)) Map.empty schedulable)))
        })"

definition GetSchedulableNodeNames ::
    "string list \<Rightarrow> DAG \<Rightarrow> string list \<Rightarrow> (dag_error + string list) option" where
  "GetSchedulableNodeNames ord g finishes = do {
     r \<leftarrow> GetSchedulable ord g finishes;
     Some (case r of Inl e \<Rightarrow> Inl e | Inr m \<Rightarrow> Inr (sort (filter (\<lambda>n. m n \<noteq> None) ord)))
   }"

section \<open>The edges of a graph\<close>

definition edges :: "DAG \<Rightarrow> (string \<times> string) set" where
  "edges g = {(p, n). p \<in> set (PrevNodes g n)}"

abbreviation names :: "DAG \<Rightarrow> string set" where
  "names g \<equiv> dom (g_Nodes g)"

definition dag_ok :: "DAG \<Rightarrow> bool" where
  "dag_ok g \<longleftrightarrow> finite (names g) \<and> edges g \<subseteq> names g \<times> names g \<and>
     (\<forall>p n. n \<in> set (NextNodes g p) \<longleftrightarrow> (p, n) \<in> edges g)"

lemma dag_ok_finite_edges: "dag_ok g \<Longrightarrow> finite (edges g)"
  unfolding dag_ok_def by (meson finite_SigmaI finite_subset)

lemma dag_ok_wf: "dag_ok g \<Longrightarrow> acyclic (edges g) \<Longrightarrow> wf (edges g)"
  by (rule finite_acyclic_wf [OF dag_ok_finite_edges])

lemma in_edges: "(p, n) \<in> edges g \<longleftrightarrow> p \<in> set (PrevNodes g n)"
  by (simp add: edges_def)

lemma link_simps:
  assumes "from \<in> names g" and "to \<in> names g"
  shows "PrevNodes (link g from to) n = PrevNodes g n @ (if n = to then [from] else [])"
    and "NextNodes (link g from to) n = NextNodes g n @ (if n = from then [to] else [])"
    and "names (link g from to) = names g"
    and "g_allowNotCheckCycle (link g from to) = g_allowNotCheckCycle g"
    and "g_allowMarkArbitraryNodesAsDone (link g from to) = g_allowMarkArbitraryNodesAsDone g"
  using assms by (auto simp: link_def Let_def PrevNodes_def NextNodes_def split: option.split)

lemma edges_link:
  "from \<in> names g \<Longrightarrow> to \<in> names g \<Longrightarrow> edges (link g from to) = insert (from, to) (edges g)"
  by (auto simp: edges_def link_simps split: if_splits)

lemma dag_ok_link: "dag_ok g \<Longrightarrow> from \<in> names g \<Longrightarrow> to \<in> names g \<Longrightarrow> dag_ok (link g from to)"
  by (auto simp: dag_ok_def edges_link link_simps)

section \<open>The check for cycles\<close>

lemma visit_Nil [simp]: "visit g s [] path = Some None"
  by (subst visit.simps) simp

lemma visit_Cons:
  "visit g s (n # ns) path =
     (if n = s then Some (Some (path @ [n]))
      else Option.bind (visit g s (PrevNodes g n) (path @ [n]))
        (\<lambda>r. case r of Some p \<Rightarrow> Some (Some p) | None \<Rightarrow> visit g s ns (path @ [n])))"
  by (subst visit.simps) simp

text \<open>On an acyclic graph the search returns, and it finds the start node exactly when one of
  the given nodes descends from it.\<close>

lemma visit_list:
  assumes "\<And>n path. n \<in> set ns \<Longrightarrow>
    \<exists>r. visit g s (PrevNodes g n) path = Some r \<and> (r = None \<longleftrightarrow> (s, n) \<notin> (edges g)\<^sup>+)"
  shows "\<exists>r. visit g s ns path = Some r \<and> (r = None \<longleftrightarrow> (\<forall>n\<in>set ns. (s, n) \<notin> (edges g)\<^sup>*))"
  using assms
proof (induction ns arbitrary: path)
  case (Cons n ns)
  show ?case
  proof (cases "n = s")
    case False
    obtain r where r: "visit g s (PrevNodes g n) (path @ [n]) = Some r"
        "r = None \<longleftrightarrow> (s, n) \<notin> (edges g)\<^sup>+"
      using Cons.prems [of n "path @ [n]"] by auto
    have rt: "(s, n) \<in> (edges g)\<^sup>* \<longleftrightarrow> (s, n) \<in> (edges g)\<^sup>+"
      using False by (simp add: rtrancl_eq_or_trancl)
    show ?thesis
    proof (cases r)
      case None
      have "\<exists>r'. visit g s ns (path @ [n]) = Some r' \<and>
          (r' = None \<longleftrightarrow> (\<forall>n\<in>set ns. (s, n) \<notin> (edges g)\<^sup>*))"
        by (rule Cons.IH) (auto intro: Cons.prems)
      with None r rt False show ?thesis by (auto simp: visit_Cons)
    next
      case (Some p)
      with r rt False show ?thesis by (auto simp: visit_Cons)
    qed
  qed (auto simp: visit_Cons)
qed simp

lemma trancl_by_prev:
  "(s, n) \<in> (edges g)\<^sup>+ \<longleftrightarrow> (\<exists>p\<in>set (PrevNodes g n). (s, p) \<in> (edges g)\<^sup>*)"
  by (metis in_edges rtrancl_into_trancl1 tranclD2)

lemma visit_prev:
  assumes "wf (edges g)"
  shows "\<exists>r. visit g s (PrevNodes g n) path = Some r \<and> (r = None \<longleftrightarrow> (s, n) \<notin> (edges g)\<^sup>+)"
  using assms
proof (induction n arbitrary: path rule: wf_induct_rule)
  case (less n)
  have "\<exists>r. visit g s (PrevNodes g n) path = Some r \<and>
      (r = None \<longleftrightarrow> (\<forall>p\<in>set (PrevNodes g n). (s, p) \<notin> (edges g)\<^sup>*))"
    by (rule visit_list) (simp add: less in_edges)
  then show ?case by (simp add: trancl_by_prev)
qed

lemma validateNodes_spec:
  assumes "wf (edges g)"
  shows "\<exists>v. validateNodes g from to = Some v \<and> (v = None \<longleftrightarrow> (to, from) \<notin> (edges g)\<^sup>*)"
proof -
  obtain r where "visit g to (PrevNodes g from) [to, from] = Some r"
      "r = None \<longleftrightarrow> (to, from) \<notin> (edges g)\<^sup>+"
    using visit_prev [OF assms] by blast
  then show ?thesis
    by (auto simp: validateNodes_def rtrancl_eq_or_trancl)
qed

section \<open>Links\<close>

definition link_rel :: "(string \<times> string) list \<Rightarrow> (string \<times> string) set" where
  "link_rel links = {(p, n). (n, p) \<in> set links}"

definition linkable :: "DAG \<Rightarrow> (string \<times> string) list \<Rightarrow> bool" where
  "linkable g links \<longleftrightarrow> snd ` set links \<subseteq> names g \<and>
     (\<not> g_allowNotCheckCycle g \<longrightarrow> acyclic (edges g \<union> link_rel links))"

definition prevs_in :: "(string \<times> string) list \<Rightarrow> string \<Rightarrow> string list" where
  "prevs_in links n = map snd (filter (\<lambda>l. fst l = n) links)"

lemma addLink_spec:
  assumes ok: "dag_ok g" and n: "n \<in> names g"
    and ac: "\<not> g_allowNotCheckCycle g \<longrightarrow> acyclic (edges g)"
  shows "\<exists>r. addLink g n p = Some r \<and>
    (if linkable g [(n, p)] then r = Inr (link g p n) else \<exists>e. r = Inl e)"
proof (cases "p \<in> names g")
  case False
  then show ?thesis by (auto simp: addLink_def linkable_def domIff)
next
  case True
  then obtain d where d: "g_Nodes g p = Some d" by blast
  show ?thesis
  proof (cases "g_allowNotCheckCycle g")
    case False
    then have acyc: "acyclic (edges g)" using ac by simp
    have rel: "edges g \<union> link_rel [(n, p)] = insert (p, n) (edges g)"
      by (auto simp: link_rel_def)
    have lk: "linkable g [(n, p)] \<longleftrightarrow> (n, p) \<notin> (edges g)\<^sup>*"
      using True False acyc by (simp add: linkable_def rel acyclic_insert)
    obtain v where v: "validateNodes g p n = Some v" "v = None \<longleftrightarrow> (n, p) \<notin> (edges g)\<^sup>*"
      using validateNodes_spec [OF dag_ok_wf [OF ok acyc]] by blast
    with d False lk show ?thesis
      by (cases v) (auto simp: addLink_def linkTwoNodes_def)
  next
    case allow: True
    with d True show ?thesis by (auto simp: addLink_def linkTwoNodes_def linkable_def)
  qed
qed

lemma addLinks_spec:
  assumes "dag_ok g" and "fst ` set links \<subseteq> names g"
    and "\<not> g_allowNotCheckCycle g \<longrightarrow> acyclic (edges g)"
  shows "\<exists>r. addLinks g links = Some r \<and>
    (if linkable g links
     then \<exists>g'. r = Inr g' \<and> dag_ok g' \<and> names g' = names g \<and> edges g' = edges g \<union> link_rel links \<and>
       (\<forall>n. PrevNodes g' n = PrevNodes g n @ prevs_in links n) \<and>
       g_allowMarkArbitraryNodesAsDone g' = g_allowMarkArbitraryNodesAsDone g
     else \<exists>e. r = Inl e)"
  using assms
proof (induction links arbitrary: g)
  case Nil
  then show ?case by (simp add: linkable_def link_rel_def prevs_in_def)
next
  case (Cons l links)
  obtain n p where l: "l = (n, p)" by (cases l)
  have n: "n \<in> names g" using Cons.prems l by simp
  obtain r where r: "addLink g n p = Some r"
      "if linkable g [(n, p)] then r = Inr (link g p n) else \<exists>e. r = Inl e"
    using addLink_spec [OF Cons.prems(1) n Cons.prems(3)] by blast
  show ?case
  proof (cases "linkable g [(n, p)]")
    case False
    have "acyclic (edges g \<union> link_rel [(n, p)])" if "acyclic (edges g \<union> link_rel (l # links))"
      by (rule acyclic_subset [OF that]) (auto simp: link_rel_def l)
    then have "\<not> linkable g (l # links)" using False by (auto simp: linkable_def l)
    with r False show ?thesis by (auto simp: l)
  next
    case True
    let ?g = "link g p n"
    have p: "p \<in> names g" using True by (simp add: linkable_def)
    note lk = link_simps [OF p n] edges_link [OF p n]
    have rel: "edges ?g \<union> link_rel links = edges g \<union> link_rel (l # links)"
      by (auto simp: lk link_rel_def l)
    have "edges ?g = edges g \<union> link_rel [(n, p)]" by (auto simp: lk link_rel_def)
    then have ac: "\<not> g_allowNotCheckCycle ?g \<longrightarrow> acyclic (edges ?g)"
      using True by (simp add: linkable_def lk)
    have same: "linkable ?g links \<longleftrightarrow> linkable g (l # links)"
      unfolding linkable_def rel using p by (auto simp: lk l)
    have pv: "PrevNodes ?g m @ prevs_in links m = PrevNodes g m @ prevs_in (l # links) m" for m
      by (simp add: lk prevs_in_def l)
    from Cons.IH [of ?g] Cons.prems(2) dag_ok_link [OF Cons.prems(1) p n] ac
    obtain r' where "addLinks ?g links = Some r'"
      "if linkable ?g links
       then \<exists>g'. r' = Inr g' \<and> dag_ok g' \<and> names g' = names ?g \<and> edges g' = edges ?g \<union> link_rel links \<and>
         (\<forall>n. PrevNodes g' n = PrevNodes ?g n @ prevs_in links n) \<and>
         g_allowMarkArbitraryNodesAsDone g' = g_allowMarkArbitraryNodesAsDone ?g
       else \<exists>e. r' = Inl e"
      using lk(3) by auto
    with r True show ?thesis
      unfolding same rel pv lk(3) lk(5) by (simp add: l)
  qed
qed

section \<open>\<open>New\<close>\<close>

definition node_names :: "NamedNode list \<Rightarrow> string list" where
  "node_names nodes = map nn_NodeName nodes"

definition depends :: "NamedNode list \<Rightarrow> (string \<times> string) set" where
  "depends nodes = {(p, n). \<exists>d\<in>set nodes. nn_NodeName d = n \<and> p \<in> set (nn_PrevNodeNames d)}"

definition cycle_check_off :: "dag_option list \<Rightarrow> bool" where
  "cycle_check_off ops =
     g_allowNotCheckCycle (foldl apply_option
       \<lparr>g_Nodes = Map.empty, g_allowMarkArbitraryNodesAsDone = False, g_allowNotCheckCycle = False\<rparr> ops)"

definition buildable :: "NamedNode list \<Rightarrow> dag_option list \<Rightarrow> bool" where
  "buildable nodes ops \<longleftrightarrow> distinct (node_names nodes) \<and>
     Domain (depends nodes) \<subseteq> set (node_names nodes) \<and>
     (\<not> cycle_check_off ops \<longrightarrow> acyclic (depends nodes))"

definition fresh_node :: "NamedNode \<Rightarrow> defaultNode" where
  "fresh_node n = \<lparr>dn_name = nn_NodeName n, dn_prevNodeNames = nn_PrevNodeNames n,
                   dn_prevNodes = [], dn_nextNodes = []\<rparr>"

lemma apply_options_nodes:
  "g_Nodes (foldl apply_option g ops) = g_Nodes g"
proof (induction ops arbitrary: g)
  case (Cons op ops)
  then show ?case by (cases op) simp_all
qed simp

lemma addNodes_dup:
  "n \<in> names g \<Longrightarrow> n \<in> set (node_names nodes) \<Longrightarrow>
   \<exists>m. addNodes g nodes = Inl (DuplicateNode m) \<and> m \<in> set (node_names nodes)"
proof (induction nodes arbitrary: g)
  case (Cons k ks)
  show ?case
  proof (cases "g_Nodes g (nn_NodeName k)")
    case None
    with Cons.prems have "n \<in> set (node_names ks)" by (auto simp: node_names_def)
    moreover define g' where "g' = g\<lparr>g_Nodes := (g_Nodes g)(nn_NodeName k \<mapsto> fresh_node k)\<rparr>"
    have "addNode g k = Inr g'" "n \<in> names g'"
      using None Cons.prems by (simp_all add: addNode_def fresh_node_def g'_def)
    ultimately show ?thesis using Cons.IH [of g'] by (auto simp: node_names_def)
  qed (simp add: addNode_def node_names_def)
qed (simp add: node_names_def)

lemma addNodes_spec:
  assumes "names g \<inter> set (node_names nodes) = {}"
  shows "if distinct (node_names nodes)
    then \<exists>g'. addNodes g nodes = Inr g' \<and>
      g_Nodes g' = g_Nodes g ++ map_of (map (\<lambda>n. (nn_NodeName n, fresh_node n)) nodes) \<and>
      g_allowNotCheckCycle g' = g_allowNotCheckCycle g \<and>
      g_allowMarkArbitraryNodesAsDone g' = g_allowMarkArbitraryNodesAsDone g
    else \<exists>n. addNodes g nodes = Inl (DuplicateNode n) \<and> n \<in> set (node_names nodes)"
  using assms
proof (induction nodes arbitrary: g)
  case Nil
  then show ?case by (simp add: node_names_def)
next
  case (Cons n nodes)
  let ?g = "g\<lparr>g_Nodes := (g_Nodes g)(nn_NodeName n \<mapsto> fresh_node n)\<rparr>"
  have fresh: "g_Nodes g (nn_NodeName n) = None" using Cons.prems by (auto simp: node_names_def)
  then have add: "addNode g n = Inr ?g" by (simp add: addNode_def fresh_node_def)
  show ?case
  proof (cases "nn_NodeName n \<in> set (node_names nodes)")
    case True
    with addNodes_dup [of "nn_NodeName n" ?g nodes] add show ?thesis
      by (auto simp: node_names_def)
  next
    case False
    have "names ?g \<inter> set (node_names nodes) = {}" using Cons.prems False by (auto simp: node_names_def)
    note IH = Cons.IH [OF this]
    have "nn_NodeName n \<notin> dom (map_of (map (\<lambda>n. (nn_NodeName n, fresh_node n)) nodes))"
      using False by (auto simp: node_names_def dom_map_of_conv_image_fst)
    then have eq: "g_Nodes ?g ++ map_of (map (\<lambda>n. (nn_NodeName n, fresh_node n)) nodes) =
        g_Nodes g ++ map_of (map (\<lambda>n. (nn_NodeName n, fresh_node n)) (n # nodes))"
      by (simp add: map_add_upd_left)
    show ?thesis
    proof (cases "distinct (node_names nodes)")
      case True
      with IH False add show ?thesis unfolding eq by (simp add: node_names_def)
    next
      case dup: False
      with IH add show ?thesis by (auto simp: node_names_def)
    qed
  qed
qed

lemma prevs_in_concat:
  assumes "distinct ord"
  shows "prevs_in (concat (map (\<lambda>n. map (Pair n) (f n)) ord)) m = (if m \<in> set ord then f m else [])"
  using assms
proof (induction ord)
  case (Cons n ord)
  have 1: "map snd (filter (\<lambda>l. fst l = m) (map (Pair n) xs)) = (if m = n then xs else [])" for xs :: "string list"
    by (induction xs) auto
  show ?case
  proof (cases "m = n")
    case True
    with Cons 1 [of "f n"] show ?thesis by (simp add: prevs_in_def)
  next
    case False
    with Cons 1 [of "f n"] show ?thesis by (simp add: prevs_in_def)
  qed
qed (simp add: prevs_in_def)

lemma links_of_fresh:
  assumes "g_Nodes g = map_of (map (\<lambda>n. (nn_NodeName n, fresh_node n)) nodes)"
    and "distinct (node_names nodes)" and "distinct ord" and "set ord = set (node_names nodes)"
  shows "link_rel (links_of g ord) = depends nodes"
    and "fst ` set (links_of g ord) \<subseteq> set ord"
    and "snd ` set (links_of g ord) = Domain (depends nodes)"
    and "d \<in> set nodes \<Longrightarrow> prevs_in (links_of g ord) (nn_NodeName d) = nn_PrevNodeNames d"
proof -
  have at: "g_Nodes g (nn_NodeName d) = Some (fresh_node d)" if "d \<in> set nodes" for d
    using assms(1,2) that by (auto simp: node_names_def comp_def intro!: map_of_is_SomeI)
  have mem: "(n, p) \<in> set (links_of g ord) \<longleftrightarrow>
      (\<exists>d\<in>set nodes. nn_NodeName d = n \<and> p \<in> set (nn_PrevNodeNames d))" for n p
  proof -
    have "(n, p) \<in> set (links_of g ord) \<longleftrightarrow>
        n \<in> set ord \<and> (case g_Nodes g n of None \<Rightarrow> False | Some d \<Rightarrow> p \<in> set (dn_prevNodeNames d))"
      by (force simp: links_of_def split: option.splits)
    also have "\<dots> \<longleftrightarrow> (\<exists>d\<in>set nodes. nn_NodeName d = n \<and> p \<in> set (nn_PrevNodeNames d))"
      using at assms(4) by (force simp: node_names_def fresh_node_def)
    finally show ?thesis .
  qed
  then show rel: "link_rel (links_of g ord) = depends nodes"
    by (auto simp: link_rel_def depends_def)
  have "snd ` set (links_of g ord) = Domain (link_rel (links_of g ord))"
    by (force simp: link_rel_def)
  with rel show "snd ` set (links_of g ord) = Domain (depends nodes)" by simp
  show "fst ` set (links_of g ord) \<subseteq> set ord"
    using mem assms(4) by (auto simp: node_names_def)
  have "links_of g ord =
      concat (map (\<lambda>n. map (Pair n) (case g_Nodes g n of None \<Rightarrow> [] | Some d \<Rightarrow> dn_prevNodeNames d)) ord)"
    unfolding links_of_def by (intro arg_cong [of _ _ concat] map_cong) (auto split: option.split)
  then show "d \<in> set nodes \<Longrightarrow> prevs_in (links_of g ord) (nn_NodeName d) = nn_PrevNodeNames d"
    using at assms(4) by (simp add: prevs_in_concat [OF assms(3)] node_names_def fresh_node_def)
qed

lemma New_correct:
  assumes ord: "distinct ord" "set ord = set (node_names nodes)"
  shows "\<exists>r. New ord nodes ops = Some r \<and>
    (if buildable nodes ops
     then \<exists>g. r = Inr g \<and> dag_ok g \<and> names g = set (node_names nodes) \<and> edges g = depends nodes \<and>
       (\<forall>d\<in>set nodes. PrevNodes g (nn_NodeName d) = nn_PrevNodeNames d)
     else \<exists>e. r = Inl e)"
proof (cases "distinct (node_names nodes)")
  case False
  define g0 where "g0 = foldl apply_option
    \<lparr>g_Nodes = Map.empty, g_allowMarkArbitraryNodesAsDone = False, g_allowNotCheckCycle = False\<rparr> ops"
  have "names g0 \<inter> set (node_names nodes) = {}" by (simp add: g0_def apply_options_nodes)
  from addNodes_spec [OF this] False show ?thesis
    by (auto simp: New_def g0_def [symmetric] buildable_def)
next
  case True
  define g0 where "g0 = foldl apply_option
    \<lparr>g_Nodes = Map.empty, g_allowMarkArbitraryNodesAsDone = False, g_allowNotCheckCycle = False\<rparr> ops"
  have g0: "g_Nodes g0 = Map.empty" by (simp add: g0_def apply_options_nodes)
  then obtain g1 where add: "addNodes g0 nodes = Inr g1"
      and nodes: "g_Nodes g1 = map_of (map (\<lambda>n. (nn_NodeName n, fresh_node n)) nodes)"
      and chk: "g_allowNotCheckCycle g1 = g_allowNotCheckCycle g0"
    using addNodes_spec [of g0 nodes] True by auto
  note lo = links_of_fresh [OF nodes True ord]
  have empty: "PrevNodes g1 n = []" "NextNodes g1 n = []" for n
    using nodes by (auto simp: PrevNodes_def NextNodes_def fresh_node_def dest!: map_of_SomeD split: option.split)
  have names: "names g1 = set (node_names nodes)"
    using nodes by (simp add: dom_map_of_conv_image_fst node_names_def image_image)
  have e: "edges g1 = {}" and ok: "dag_ok g1"
    using empty names by (auto simp: edges_def dag_ok_def)
  have "linkable g1 (links_of g1 ord) \<longleftrightarrow> buildable nodes ops"
    using True names lo by (simp add: linkable_def buildable_def e chk g0_def cycle_check_off_def)
  moreover have "New ord nodes ops = addLinks g1 (links_of g1 ord)"
    using add by (simp add: New_def g0_def [symmetric])
  moreover have "acyclic (edges g1)" by (simp add: e acyclic_def)
  ultimately show ?thesis
    using addLinks_spec [OF ok, of "links_of g1 ord"] lo ord(2) names e empty by auto
qed

section \<open>The search\<close>

lemma findSchedulable_Nil [simp]: "findSchedulable g D [] vis = Some ([], vis)"
  by (subst findSchedulable.simps) simp

lemma findSchedulable_Cons:
  "findSchedulable g D (n # ns) vis =
     (if n \<in> vis then findSchedulable g D ns vis
      else Option.bind
        (if n \<in> D then findSchedulable g D (NextNodes g n) (insert n vis)
         else Some (if isSchedulable g n D then [n] else [], insert n vis))
        (\<lambda>(s1, vis1). Option.bind (findSchedulable g D ns vis1) (\<lambda>(s2, vis2). Some (s1 @ s2, vis2))))"
  by (subst findSchedulable.simps) simp

text \<open>From a done node the search goes on to its next nodes.\<close>

definition search_rel :: "DAG \<Rightarrow> string set \<Rightarrow> (string \<times> string) set" where
  "search_rel g D = {(a, b). a \<in> D \<and> b \<in> set (NextNodes g a)}"

definition found ::
    "DAG \<Rightarrow> string set \<Rightarrow> string set \<Rightarrow> string list \<Rightarrow> string set \<Rightarrow> string list \<times> string set \<Rightarrow> bool" where
  "found g D N ns vis = (\<lambda>(s, vis').
     vis \<subseteq> vis' \<and> vis' \<subseteq> N \<and> set ns \<subseteq> vis' \<and>
     (\<forall>m\<in>vis' - vis. m \<in> D \<longrightarrow> set (NextNodes g m) \<subseteq> vis') \<and>
     set s = {m \<in> vis' - vis. m \<notin> D \<and> isSchedulable g m D} \<and>
     (\<forall>m\<in>vis' - vis. \<exists>n\<in>set ns. (n, m) \<in> (search_rel g D)\<^sup>*))"

lemma found_step:
  assumes n: "n \<notin> vis" "n \<in> N"
    and 1: "if n \<in> D then found g D N (NextNodes g n) (insert n vis) (s1, vis1)
            else s1 = (if isSchedulable g n D then [n] else []) \<and> vis1 = insert n vis"
    and 2: "found g D N ns vis1 (s2, vis2)" and vis: "vis \<subseteq> N"
  shows "found g D N (n # ns) vis (s1 @ s2, vis2)"
proof -
  have sub: "insert n vis \<subseteq> vis1" "vis1 \<subseteq> vis2" "vis2 \<subseteq> N" "set ns \<subseteq> vis2"
    using 1 2 by (auto simp: found_def split: if_splits)
  have closed: "set (NextNodes g m) \<subseteq> vis2" if "m \<in> vis2 - vis" "m \<in> D" for m
  proof (cases "m \<in> vis1")
    case False
    then show ?thesis using 2 that by (simp add: found_def)
  next
    case True
    have "set (NextNodes g m) \<subseteq> vis1"
    proof (cases "m = n")
      case True
      then show ?thesis using 1 that by (simp add: found_def)
    next
      case False
      with True that 1 show ?thesis by (auto simp: found_def split: if_splits)
    qed
    with sub show ?thesis by blast
  qed
  have "set s1 = {m \<in> vis1 - vis. m \<notin> D \<and> isSchedulable g m D}"
    using 1 n by (auto simp: found_def split: if_splits)
  moreover have "set s2 = {m \<in> vis2 - vis1. m \<notin> D \<and> isSchedulable g m D}"
    using 2 by (simp add: found_def)
  ultimately have res: "set (s1 @ s2) = {m \<in> vis2 - vis. m \<notin> D \<and> isSchedulable g m D}"
    using sub by auto
  have "\<exists>a\<in>set (n # ns). (a, m) \<in> (search_rel g D)\<^sup>*" if m: "m \<in> vis2 - vis" for m
  proof (cases "m \<in> vis1")
    case False
    with 2 m show ?thesis by (auto simp: found_def)
  next
    case True
    show ?thesis
    proof (cases "m = n")
      case False
      then have "n \<in> D" "m \<in> vis1 - insert n vis"
        using 1 True m by (auto split: if_splits)
      then have "\<exists>a\<in>set (NextNodes g n). (a, m) \<in> (search_rel g D)\<^sup>*"
        using 1 by (simp add: found_def)
      then obtain a where "a \<in> set (NextNodes g n)" "(a, m) \<in> (search_rel g D)\<^sup>*" by blast
      moreover from this \<open>n \<in> D\<close> have "(n, a) \<in> search_rel g D" by (simp add: search_rel_def)
      ultimately have "(n, m) \<in> (search_rel g D)\<^sup>*" by (meson converse_rtrancl_into_rtrancl)
      then show ?thesis by simp
    qed simp
  qed
  with sub closed res show ?thesis by (auto simp: found_def)
qed

lemma findSchedulable_returns:
  assumes "finite N" and closed: "\<And>n. n \<in> N \<Longrightarrow> set (NextNodes g n) \<subseteq> N"
  shows "set ns \<subseteq> N \<Longrightarrow> vis \<subseteq> N \<Longrightarrow>
    \<exists>r. findSchedulable g D ns vis = Some r \<and> found g D N ns vis r"
proof (induction "card (N - vis)" arbitrary: ns vis rule: less_induct)
  case less
  have smaller: "\<exists>r. findSchedulable g D ns' vis' = Some r \<and> found g D N ns' vis' r"
    if "n \<in> N - vis" "insert n vis \<subseteq> vis'" "vis' \<subseteq> N" "set ns' \<subseteq> N" for n ns' vis'
  proof -
    have "N - vis' \<subset> N - vis" using that by auto
    then have "card (N - vis') < card (N - vis)" by (simp add: assms(1) psubset_card_mono)
    then show ?thesis using less.hyps that by blast
  qed
  show ?case
    using less.prems(1)
  proof (induction ns)
    case Nil
    then show ?case using less.prems by (simp add: found_def)
  next
    case (Cons n ns)
    show ?case
    proof (cases "n \<in> vis")
      case True
      from Cons obtain r where "findSchedulable g D ns vis = Some r" "found g D N ns vis r" by auto
      with True show ?thesis by (auto simp: findSchedulable_Cons found_def)
    next
      case False
      have n: "n \<in> N" using Cons.prems by simp
      have "\<exists>s1 vis1. (if n \<in> D then findSchedulable g D (NextNodes g n) (insert n vis)
         else Some (if isSchedulable g n D then [n] else [], insert n vis)) = Some (s1, vis1) \<and>
         (if n \<in> D then found g D N (NextNodes g n) (insert n vis) (s1, vis1)
            else s1 = (if isSchedulable g n D then [n] else []) \<and> vis1 = insert n vis)"
        using smaller [of n "insert n vis" "NextNodes g n"] closed [OF n] less.prems(2) n False by auto
      then obtain s1 vis1 where s1:
        "(if n \<in> D then findSchedulable g D (NextNodes g n) (insert n vis)
         else Some (if isSchedulable g n D then [n] else [], insert n vis)) = Some (s1, vis1)"
        "if n \<in> D then found g D N (NextNodes g n) (insert n vis) (s1, vis1)
            else s1 = (if isSchedulable g n D then [n] else []) \<and> vis1 = insert n vis"
        by blast
      then have "insert n vis \<subseteq> vis1" "vis1 \<subseteq> N"
        using n less.prems(2) by (auto simp: found_def split: if_splits)
      then obtain s2 vis2 where s2: "findSchedulable g D ns vis1 = Some (s2, vis2)"
          "found g D N ns vis1 (s2, vis2)"
        using smaller [of n vis1 ns] Cons.prems n False by auto
      from found_step [OF False n s1(2) s2(2) less.prems(2)] s1(1) s2(1) False show ?thesis
        by (auto simp: findSchedulable_Cons)
    qed
  qed
qed

lemma isSchedulable_iff: "isSchedulable g n D \<longleftrightarrow> set (PrevNodes g n) \<subseteq> D"
  by (auto simp: isSchedulable_def length_filter_eq_length_iff)

text \<open>The nodes the search reaches from the roots.\<close>

definition reached :: "DAG \<Rightarrow> string set \<Rightarrow> string set" where
  "reached g D = {m. \<exists>r. r \<in> names g \<and> PrevNodes g r = [] \<and> (r, m) \<in> (search_rel g D)\<^sup>*}"

lemma search_from_roots:
  assumes ok: "dag_ok g" and ord: "set ord = names g"
  shows "\<exists>s. findSchedulable g D (getRoots g ord) {} = Some (s, reached g D) \<and>
    set s = {m \<in> reached g D. m \<notin> D \<and> set (PrevNodes g m) \<subseteq> D}"
proof -
  have closed: "set (NextNodes g n) \<subseteq> names g" for n
    using ok by (auto simp: dag_ok_def)
  have roots: "set (getRoots g ord) = {r \<in> names g. PrevNodes g r = []}"
    using ord by (auto simp: getRoots_def)
  have "finite (names g)" using ok by (simp add: dag_ok_def)
  then obtain s vis where f: "findSchedulable g D (getRoots g ord) {} = Some (s, vis)"
      "found g D (names g) (getRoots g ord) {} (s, vis)"
    using findSchedulable_returns [of "names g" g "getRoots g ord" "{}" D] closed roots by auto
  then have vis: "set (getRoots g ord) \<subseteq> vis"
      "\<And>m. m \<in> vis \<Longrightarrow> \<exists>n\<in>set (getRoots g ord). (n, m) \<in> (search_rel g D)\<^sup>*"
    by (auto simp: found_def)
  have "m \<in> vis" if "(r, m) \<in> (search_rel g D)\<^sup>*" "r \<in> vis" for r m
    using that
  proof induction
    case (step y z)
    then show ?case using f(2) by (auto simp: found_def search_rel_def)
  qed
  with vis have "vis = reached g D"
    unfolding reached_def roots by blast
  then show ?thesis using f by (auto simp: found_def isSchedulable_iff)
qed

lemma foldl_fun_upd: "foldl (\<lambda>m n. m(n := f n)) m0 s = (\<lambda>n. if n \<in> set s then f n else m0 n)"
  by (induction s arbitrary: m0) auto

lemma reached_names: "dag_ok g \<Longrightarrow> reached g D \<subseteq> names g"
proof
  fix m assume ok: "dag_ok g" and "m \<in> reached g D"
  then obtain r where "r \<in> names g" "(r, m) \<in> (search_rel g D)\<^sup>*" by (auto simp: reached_def)
  from this(2,1) show "m \<in> names g"
  proof induction
    case (step y z)
    then show ?case using ok by (auto simp: search_rel_def dag_ok_def)
  qed
qed

lemma toMap_spec:
  "toMap g fin = (if set fin \<subseteq> names g then Inr (set fin)
     else Inl (NodeNotFound (hd (filter (\<lambda>n. g_Nodes g n = None) fin))))"
proof (cases "filter (\<lambda>n. g_Nodes g n = None) fin")
  case Nil
  then have "set fin \<subseteq> names g" by (auto simp: filter_empty_conv)
  with Nil show ?thesis by (simp add: toMap_def)
next
  case (Cons n ns)
  then have "n \<in> set fin" "g_Nodes g n = None"
    using filter_is_subset [of "\<lambda>n. g_Nodes g n = None" fin] Cons
      filter_id_conv [of "\<lambda>n. g_Nodes g n = None" "n # ns"] by (auto simp: filter_eq_Cons_iff)
  then have "\<not> set fin \<subseteq> names g" by auto
  with Cons show ?thesis by (simp add: toMap_def)
qed

definition scheduled :: "DAG \<Rightarrow> string set \<Rightarrow> string \<rightharpoonup> defaultNode" where
  "scheduled g D =
     (\<lambda>n. if n \<in> reached g D \<and> n \<notin> D \<and> set (PrevNodes g n) \<subseteq> D then g_Nodes g n else None)"

lemma GetSchedulable_total:
  assumes "dag_ok g" and "set ord = names g"
  shows "\<exists>r. GetSchedulable ord g fin = Some r \<and>
    (if set fin \<subseteq> names g \<and> (\<not> g_allowMarkArbitraryNodesAsDone g \<longrightarrow> set fin \<subseteq> reached g (set fin))
     then r = Inr (scheduled g (set fin)) else \<exists>e. r = Inl e)"
proof (cases "set fin \<subseteq> names g")
  case True
  obtain s where s: "findSchedulable g (set fin) (getRoots g ord) {} = Some (s, reached g (set fin))"
      "set s = {m \<in> reached g (set fin). m \<notin> set fin \<and> set (PrevNodes g m) \<subseteq> set fin}"
    using search_from_roots [OF assms] by blast
  have "length (checkNotVisited (remdups fin) (reached g (set fin))) > 0 \<longleftrightarrow>
      \<not> set fin \<subseteq> reached g (set fin)"
    by (auto simp: checkNotVisited_def filter_empty_conv)
  moreover have "foldl (\<lambda>m n. m(n := g_Nodes g n)) Map.empty s = scheduled g (set fin)"
    using s(2) by (simp add: foldl_fun_upd scheduled_def fun_eq_iff)
  ultimately show ?thesis using True s(1) by (simp add: GetSchedulable_def toMap_spec)
qed (simp add: GetSchedulable_def toMap_spec)

lemma reached_next:
  assumes "dag_ok g" and "n \<in> names g" and "set (PrevNodes g n) \<subseteq> D" and "set (PrevNodes g n) \<subseteq> reached g D"
  shows "n \<in> reached g D"
proof (cases "PrevNodes g n = []")
  case True
  with assms(2) show ?thesis by (auto simp: reached_def)
next
  case False
  then obtain p where p: "p \<in> set (PrevNodes g n)" by (meson list.set_sel(1))
  then have "n \<in> set (NextNodes g p)" using assms(1) by (simp add: dag_ok_def in_edges)
  with p assms(3) have "(p, n) \<in> search_rel g D" by (auto simp: search_rel_def)
  moreover obtain r where "r \<in> names g" "PrevNodes g r = []" "(r, p) \<in> (search_rel g D)\<^sup>*"
    using subsetD [OF assms(4) p] by (auto simp: reached_def)
  ultimately show ?thesis
    unfolding reached_def by (blast intro: rtrancl_into_rtrancl)
qed

lemma ancestors_done_reached:
  assumes "dag_ok g" and "acyclic (edges g)"
  shows "n \<in> names g \<Longrightarrow> (\<And>a. (a, n) \<in> (edges g)\<^sup>+ \<Longrightarrow> a \<in> D) \<Longrightarrow> n \<in> reached g D"
  using dag_ok_wf [OF assms]
proof (induction n rule: wf_induct_rule)
  case (less n)
  have "p \<in> D \<and> p \<in> reached g D" if p: "p \<in> set (PrevNodes g n)" for p
  proof -
    have e: "(p, n) \<in> edges g" using p by (simp add: in_edges)
    then have "p \<in> names g" using assms(1) by (auto simp: dag_ok_def)
    moreover have "a \<in> D" if "(a, p) \<in> (edges g)\<^sup>+" for a
      using less.prems(2) that e by (meson trancl_into_trancl)
    ultimately show ?thesis using less.IH [OF e] less.prems(2) e by blast
  qed
  then show ?case using reached_next [OF assms(1) less.prems(1)] by blast
qed

lemma progress:
  assumes "dag_ok g" and "acyclic (edges g)" and "D \<subset> names g"
  shows "dom (scheduled g D) \<noteq> {}"
proof -
  obtain n where n: "n \<in> names g - D" "\<And>a. (a, n) \<in> (edges g)\<^sup>+ \<Longrightarrow> a \<notin> names g - D"
    using wfE_min' [OF wf_trancl [OF dag_ok_wf [OF assms(1,2)]], of "names g - D"] assms(3) by blast
  have "a \<in> D" if "(a, n) \<in> (edges g)\<^sup>+" for a
  proof -
    have "a \<in> names g" using that assms(1) unfolding dag_ok_def
      by (meson SigmaE2 converse_tranclE subsetD)
    with n(2) that show ?thesis by blast
  qed
  moreover from this have "set (PrevNodes g n) \<subseteq> D" by (metis in_edges r_into_trancl subsetI)
  moreover from calculation n(1) have "n \<in> reached g D"
    by (intro ancestors_done_reached [OF assms(1,2)]) auto
  ultimately have "scheduled g D n = g_Nodes g n" using n(1) by (simp add: scheduled_def)
  with n(1) show ?thesis by (auto simp: domIff)
qed

text \<open>The in-place loop reverses the path.\<close>

lemma reverse_loop_nth:
  assumes "2 * i \<le> length xs" and "k < length xs"
  shows "reverse_loop xs i ! k =
    (if k < i \<or> length xs - 1 - k < i then xs ! (length xs - 1 - k) else xs ! k)"
  using assms
proof (induction xs i rule: reverse_loop.induct)
  case (2 path i)
  let ?j = "length path - 1 - i"
  have j: "i < length path" "?j < length path" "i < ?j \<or> length path = 2 * i + 1" using 2 by auto
  have "reverse_loop path (Suc i) ! k =
      (if k < i \<or> length path - 1 - k < i then list_swap path i ?j ! (length path - 1 - k)
       else list_swap path i ?j ! k)"
    using 2 by simp
  also have "\<dots> = (if k < Suc i \<or> length path - 1 - k < Suc i then path ! (length path - 1 - k) else path ! k)"
    using j "2.prems" by (auto simp: nth_list_swap)
  finally show ?case .
qed simp

lemma reverse_loop: "reverse_loop xs (length xs div 2) = rev xs"
proof (rule nth_equalityI)
  have len: "length (reverse_loop xs i) = length xs" for i and xs :: "'a list"
    by (induction xs i rule: reverse_loop.induct) auto
  show "length (reverse_loop xs (length xs div 2)) = length (rev xs)" by (simp add: len)
  fix k assume "k < length (reverse_loop xs (length xs div 2))"
  then have k: "k < length xs" by (simp add: len)
  show "reverse_loop xs (length xs div 2) ! k = rev xs ! k"
  proof (cases "k < length xs div 2 \<or> length xs - 1 - k < length xs div 2")
    case True
    then show ?thesis using k by (simp add: reverse_loop_nth rev_nth)
  next
    case False
    then have "length xs - 1 - k = k" using k by linarith
    with False k show ?thesis by (simp add: reverse_loop_nth rev_nth)
  qed
qed

section \<open>Properties\<close>

text \<open>
  C21: \<open>New\<close> always returns, whatever the order in which it visits the nodes. It succeeds exactly
  when the node names are distinct, every predecessor exists, and, unless the check is
  switched off, the dependencies have no cycle; then the graph has exactly the given nodes and
  dependencies. In particular a graph built with the check is acyclic.\<close>

theorem New_builds_exactly_the_dependencies:
  assumes "distinct ord" and "set ord = set (node_names nodes)"
  shows "\<exists>r. New ord nodes ops = Some r \<and>
    ((\<exists>g. r = Inr g) \<longleftrightarrow>
       distinct (node_names nodes) \<and> Domain (depends nodes) \<subseteq> set (node_names nodes) \<and>
       (cycle_check_off ops \<or> acyclic (depends nodes))) \<and>
    (\<forall>g. r = Inr g \<longrightarrow> dag_ok g \<and> names g = set (node_names nodes) \<and> edges g = depends nodes \<and>
       (cycle_check_off ops \<or> acyclic (edges g)))"
proof -
  obtain r where r: "New ord nodes ops = Some r"
    "if buildable nodes ops
     then \<exists>g. r = Inr g \<and> dag_ok g \<and> names g = set (node_names nodes) \<and> edges g = depends nodes \<and>
       (\<forall>d\<in>set nodes. PrevNodes g (nn_NodeName d) = nn_PrevNodeNames d)
     else \<exists>e. r = Inl e"
    using New_correct [OF assms] by blast
  show ?thesis
  proof (cases "buildable nodes ops")
    case True
    with r obtain g where "r = Inr g" "dag_ok g" "names g = set (node_names nodes)"
      "edges g = depends nodes" by auto
    with True r(1) show ?thesis by (auto simp: buildable_def)
  next
    case False
    with r obtain e where "r = Inl e" by auto
    with False r(1) show ?thesis by (auto simp: buildable_def)
  qed
qed

definition ex_nodes :: "NamedNode list" where
  "ex_nodes = [\<lparr>nn_NodeName = ''a'', nn_PrevNodeNames = []\<rparr>,
     \<lparr>nn_NodeName = ''b'', nn_PrevNodeNames = [''a'']\<rparr>]"

theorem New_builds_exactly_the_dependencies_witness:
  "\<exists>r. New [''a'', ''b''] ex_nodes [] = Some r"
  using New_builds_exactly_the_dependencies [of "[''a'', ''b'']" ex_nodes "[]"]
  by (auto simp: ex_nodes_def node_names_def)


lemma ex_nodes_dag:
  obtains g where "New [''a'', ''b''] ex_nodes [] = Some (Inr g)" "dag_ok g" "names g = {''a'', ''b''}"
    "edges g = {(''a'', ''b'')}"
proof -
  have "depends ex_nodes = {(''a'', ''b'')}" "node_names ex_nodes = [''a'', ''b'']"
    by (auto simp: depends_def ex_nodes_def node_names_def)
  moreover have "acyclic {(''a'', ''b'')}" by (simp add: acyclic_insert) (simp add: acyclic_def)
  ultimately have "buildable ex_nodes []" by (simp add: buildable_def)
  with New_correct [of "[''a'', ''b'']" ex_nodes "[]"] that show ?thesis
    by (auto simp: \<open>depends ex_nodes = _\<close> \<open>node_names ex_nodes = _\<close>)
qed


text \<open>
  No deadlock: in an acyclic graph in which any node may be marked as done, as long as some node is
  not done there is a node that can be scheduled.\<close>

theorem GetSchedulable_progress:
  assumes "dag_ok g" and "acyclic (edges g)" and "set ord = names g"
    and "g_allowMarkArbitraryNodesAsDone g" and "set finishes \<subset> names g"
  shows "\<exists>m. GetSchedulable ord g finishes = Some (Inr m) \<and> dom m \<noteq> {}"
  using GetSchedulable_total [OF assms(1,3), of finishes] progress [OF assms(1,2,5)] assms(4,5)
  by (auto split: if_splits)

theorem GetSchedulable_progress_witness:
  "\<exists>g m. GetSchedulable [''a'', ''b''] g [''a''] = Some (Inr m) \<and> dom m \<noteq> {}"
proof -
  obtain g where g: "dag_ok g" "names g = {''a'', ''b''}" "edges g = {(''a'', ''b'')}"
    by (rule ex_nodes_dag)
  let ?g = "g\<lparr>g_allowMarkArbitraryNodesAsDone := True\<rparr>"
  have same: "PrevNodes ?g = PrevNodes g" "NextNodes ?g = NextNodes g"
    by (simp_all add: PrevNodes_def NextNodes_def fun_eq_iff)
  then have "edges ?g = edges g" by (simp add: edges_def)
  with same g have ok: "dag_ok ?g" and e: "edges ?g = {(''a'', ''b'')}" by (simp_all add: dag_ok_def)
  have ac: "acyclic (edges ?g)" unfolding e by (simp add: acyclic_insert) (simp add: acyclic_def)
  have ord: "set [''a'', ''b''] = names ?g" and fin: "set [''a''] \<subset> names ?g" using g(2) by auto
  have allow: "g_allowMarkArbitraryNodesAsDone ?g" by simp
  show ?thesis using GetSchedulable_progress [OF ok ac ord allow fin] by blast
qed

end
