(* ===== verification/Queue_Manage.thy ===== *)
theory Queue_Manage
  imports Enhanced_Queue Pipeline_Spec Go_Strconv
begin

text \<open>
  The pipeline queue (\<open>reconciler/queuemanage/queue\<close>): the admission of pipelines. A queue
  wraps an enhanced queue whose keys are pipeline ids, caches the pipelines, and tells each
  waiting reconciler through a channel that its pipeline was popped.

  The methods of a queue are state transformers. What leaves the process is recorded in the
  state: the channels that were signalled and closed, the events that were emitted, the
  statuses written to the database, and the sends on \<open>rangeAtOnceCh\<close>. A channel is a number.
  The answer of the AOP precheck and the current time are arguments. A nil dereference is the
  result \<open>None\<close>.

  \<open>Range\<close> walks the slice of the pending queue while its callback removes items from that
  slice; Go's \<open>range\<close> keeps the length it started with and reads the elements of the array as
  they are at each step, which \<open>range_live\<close> reproduces.
\<close>

section \<open>State\<close>

record PipelineQueue =
  pqq_ID :: nat
  pqq_Name :: string
  pqq_Mode :: string
  pqq_Priority :: int
  pqq_Concurrency :: int
  pqq_MaxCPU :: rat
  pqq_MaxMemoryMB :: rat

definition PipelineQueueModeStrict :: string where
  "PipelineQueueModeStrict = ''STRICT''"

definition PipelineQueueModeLoose :: string where
  "PipelineQueueModeLoose = ''LOOSE''"

record QueueValidateRetryOption =
  ro_IntervalSecond :: nat
  ro_IntervalMillisecond :: nat

text \<open>The reasons carry the values that the source prints.\<close>

datatype validate_reason =
    NoReason
  | InsufficientConcurrency int nat "key list"
  | InsufficientCPU rat rat rat
  | InsufficientMemory rat rat rat
  | OtherReason string

record PipelineQueueValidateResult =
  vr_Success :: bool
  vr_Reason :: validate_reason
  vr_RetryOption :: "QueueValidateRetryOption option"

definition IsFailed :: "PipelineQueueValidateResult \<Rightarrow> bool" where
  "IsFailed r \<longleftrightarrow> \<not> vr_Success r"

definition SuccessValidateResult :: PipelineQueueValidateResult where
  "SuccessValidateResult = \<lparr>vr_Success = True, vr_Reason = NoReason, vr_RetryOption = None\<rparr>"

definition failed_result :: "validate_reason \<Rightarrow> PipelineQueueValidateResult" where
  "failed_result r = \<lparr>vr_Success = False, vr_Reason = r, vr_RetryOption = None\<rparr>"

text \<open>What the AOP chain leaves in its context: nothing, a value of another type, or a result.\<close>

datatype precheck_outcome = MissingResult | UnexpectedType | CheckResult PipelineQueueValidateResult

datatype queue_event_reason = PendingQueueValidate | FailedQueue | SuccessQueue
datatype event_level = EventLevelNormal | EventLevelWarning

record defaultQueue =
  dq_pq :: PipelineQueue
  dq_eq :: EnhancedQueue
  dq_doneChanByPipelineID :: "nat \<rightharpoonup> nat"
  dq_pipelineCaches :: "nat \<rightharpoonup> Pipeline"
  dq_started :: bool
  dq_rangingPendingQueue :: bool
  dq_needReRangePendingQueueFlag :: bool
  dq_currentItemKeyAtRanging :: key
  dq_updatingPendingQueue :: bool
  dq_rangeAtOnce :: nat
  dq_signalled :: "nat list"
  dq_events :: "(nat \<times> queue_event_reason \<times> event_level) list"
  dq_db_status :: "nat \<rightharpoonup> PipelineStatus"

definition New_queue :: "PipelineQueue \<Rightarrow> defaultQueue" where
  "New_queue pq =
     \<lparr>dq_pq = pq, dq_eq = NewEnhancedQueue (pqq_Concurrency pq),
      dq_doneChanByPipelineID = Map.empty, dq_pipelineCaches = Map.empty, dq_started = False,
      dq_rangingPendingQueue = False, dq_needReRangePendingQueueFlag = False,
      dq_currentItemKeyAtRanging = '''', dq_updatingPendingQueue = False, dq_rangeAtOnce = 0,
      dq_signalled = [], dq_events = [], dq_db_status = Map.empty\<rparr>"

definition queue_ID :: "defaultQueue \<Rightarrow> string" where
  "queue_ID q = FormatUint (pqq_ID (dq_pq q))"

definition needReRangePendingQueue :: "defaultQueue \<Rightarrow> bool" where
  "needReRangePendingQueue q = dq_needReRangePendingQueueFlag q"

definition unsetNeedReRangePendingQueueFlag :: "defaultQueue \<Rightarrow> defaultQueue" where
  "unsetNeedReRangePendingQueueFlag q = q\<lparr>dq_needReRangePendingQueueFlag := False\<rparr>"

definition setIsRangingPendingQueueFlag :: "defaultQueue \<Rightarrow> defaultQueue" where
  "setIsRangingPendingQueueFlag q = q\<lparr>dq_rangingPendingQueue := True\<rparr>"

definition unsetIsRangingPendingQueueFlag :: "defaultQueue \<Rightarrow> defaultQueue" where
  "unsetIsRangingPendingQueueFlag q = q\<lparr>dq_rangingPendingQueue := False\<rparr>"

definition setCurrentItemKeyAtRanging :: "key \<Rightarrow> defaultQueue \<Rightarrow> defaultQueue" where
  "setCurrentItemKeyAtRanging itemKey q = q\<lparr>dq_currentItemKeyAtRanging := itemKey\<rparr>"

definition getIsRangingPendingQueue :: "defaultQueue \<Rightarrow> bool" where
  "getIsRangingPendingQueue q = dq_rangingPendingQueue q"

definition setIsUpdatingPendingQueueFlag :: "defaultQueue \<Rightarrow> defaultQueue" where
  "setIsUpdatingPendingQueueFlag q = q\<lparr>dq_updatingPendingQueue := True\<rparr>"

definition unsetIsUpdatingPendingQueueFlag :: "defaultQueue \<Rightarrow> defaultQueue" where
  "unsetIsUpdatingPendingQueueFlag q = q\<lparr>dq_updatingPendingQueue := False\<rparr>"

text \<open>As in the source, the flag read here is the one of ranging, not of updating.\<close>

definition getIsUpdatingPendingQueue :: "defaultQueue \<Rightarrow> bool" where
  "getIsUpdatingPendingQueue q = dq_rangingPendingQueue q"

definition IsStrictMode :: "defaultQueue \<Rightarrow> bool" where
  "IsStrictMode q \<longleftrightarrow> pqq_Mode (dq_pq q) = PipelineQueueModeStrict"

definition q_Update :: "PipelineQueue \<Rightarrow> defaultQueue \<Rightarrow> defaultQueue" where
  "q_Update pq q = q\<lparr>dq_pq := pq, dq_eq := SetProcessingWindow (dq_eq q) (pqq_Concurrency pq)\<rparr>"

text \<open>\<open>Start\<close> spawns the loop that calls \<open>RangePendingQueue\<close> for each send on \<open>rangeAtOnceCh\<close> and
  each tick, and sends once.\<close>

definition Start :: "defaultQueue \<Rightarrow> defaultQueue" where
  "Start q = (if dq_started q then q
     else q\<lparr>dq_started := True, dq_rangeAtOnce := Suc (dq_rangeAtOnce q)\<rparr>)"

definition send_signal :: "nat \<Rightarrow> defaultQueue \<Rightarrow> defaultQueue" where
  "send_signal ch q = q\<lparr>dq_signalled := dq_signalled q @ [ch]\<rparr>"

definition emitEvent :: "Pipeline \<Rightarrow> queue_event_reason \<Rightarrow> event_level \<Rightarrow> defaultQueue \<Rightarrow> defaultQueue" where
  "emitEvent p reason eType q = q\<lparr>dq_events := dq_events q @ [(p_ID p, reason, eType)]\<rparr>"

section \<open>Keys\<close>

definition makeItemKey :: "Pipeline \<Rightarrow> key" where
  "makeItemKey p = FormatUint (p_ID p)"

definition parsePipelineIDFromQueueItem :: "defaultItem \<Rightarrow> nat" where
  "parsePipelineIDFromQueueItem item = (case ParseUint (di_key item) of None \<Rightarrow> 0 | Some n \<Rightarrow> n)"

section \<open>Adding and removing pipelines\<close>

definition addPipelineIntoQueueUnblock ::
    "time \<Rightarrow> Pipeline \<Rightarrow> nat option \<Rightarrow> defaultQueue \<Rightarrow> defaultQueue" where
  "addPipelineIntoQueueUnblock now p doneCh q =
     (let itemKey = makeItemKey p;
          priority =
            (case p_QueueInfo p of
               Some qi \<Rightarrow> if qi_CustomPriority qi > 0 then qi_CustomPriority qi else pqq_Priority (dq_pq q)
             | None \<Rightarrow> pqq_Priority (dq_pq q));
          createdTime = (case p_TimeCreated p of None \<Rightarrow> now | Some t \<Rightarrow> t);
          q1 = q\<lparr>dq_pipelineCaches := (dq_pipelineCaches q)(p_ID p \<mapsto> p)\<rparr>;
          q2 =
            (if AfterPipelineQueue (p_Status p) then
               let q' = q1\<lparr>dq_eq := (dq_eq q1)\<lparr>eq_processing :=
                     Add (ProcessingQueue (dq_eq q1)) (NewItem itemKey priority createdTime)\<rparr>\<rparr>
               in (case doneCh of None \<Rightarrow> q' | Some ch \<Rightarrow> send_signal ch q')
             else
               let q' = q1\<lparr>dq_eq := eq_Add (dq_eq q1) itemKey priority createdTime\<rparr>
               in (case doneCh of
                     None \<Rightarrow> q'
                   | Some ch \<Rightarrow>
                       q'\<lparr>dq_doneChanByPipelineID := (dq_doneChanByPipelineID q')(p_ID p \<mapsto> ch)\<rparr>));
          q3 =
            (if dq_rangingPendingQueue q2 \<and>
                LeftHasHigherOrder (PendingQueue (dq_eq q2)) itemKey (dq_currentItemKeyAtRanging q2)
             then q2\<lparr>dq_needReRangePendingQueueFlag := True\<rparr> else q2)
      in q3\<lparr>dq_rangeAtOnce := Suc (dq_rangeAtOnce q3)\<rparr>)"

definition AddPipelineIntoQueue :: "time \<Rightarrow> Pipeline \<Rightarrow> nat option \<Rightarrow> defaultQueue \<Rightarrow> defaultQueue" where
  "AddPipelineIntoQueue now p doneCh q = addPipelineIntoQueueUnblock now p doneCh q"

definition signal_done :: "nat \<Rightarrow> defaultQueue \<Rightarrow> defaultQueue" where
  "signal_done pipelineID q =
     (case dq_doneChanByPipelineID q pipelineID of
        None \<Rightarrow> q
      | Some ch \<Rightarrow>
          (send_signal ch q)\<lparr>dq_doneChanByPipelineID := (dq_doneChanByPipelineID q)(pipelineID := None)\<rparr>)"

definition PopOutPipeline :: "Pipeline \<Rightarrow> defaultQueue \<Rightarrow> defaultQueue" where
  "PopOutPipeline p q =
     (let q1 = q\<lparr>dq_eq := snd (PopPendingKey (dq_eq q) (makeItemKey p) [])\<rparr>;
          q2 = q1\<lparr>dq_eq := snd (PopProcessing (dq_eq q1) (makeItemKey p) [])\<rparr>;
          q3 = q2\<lparr>dq_pipelineCaches := (dq_pipelineCaches q2)(p_ID p := None)\<rparr>
      in signal_done (p_ID p) q3)"

section \<open>Validation\<close>

definition items_of :: "priorityQueue \<Rightarrow> defaultItem list" where
  "items_of pq = map (pq_store pq) (pq_items pq)"

definition ValidateCapacity :: "Pipeline \<Rightarrow> defaultQueue \<Rightarrow> PipelineQueueValidateResult" where
  "ValidateCapacity tryPopP q =
     (if int (Len (ProcessingQueue (dq_eq q))) \<ge> pqq_Concurrency (dq_pq q)
      then failed_result (InsufficientConcurrency (ProcessingWindow (dq_eq q))
             (Len (ProcessingQueue (dq_eq q)))
             (pq_Range (\<lambda>keys item. (keys @ [di_key item], False)) [] (ProcessingQueue (dq_eq q))))
      else SuccessValidateResult)"

text \<open>The sums over the processing queue; a pipeline missing from the cache is a nil pointer.\<close>

definition occupied_step ::
    "defaultQueue \<Rightarrow> (rat \<times> rat) option \<Rightarrow> defaultItem \<Rightarrow> (rat \<times> rat) option \<times> bool" where
  "occupied_step q acc item =
     (case (acc, dq_pipelineCaches q (parsePipelineIDFromQueueItem item)) of
        (Some (cpu, mem), Some existP) \<Rightarrow>
          let resources = GetPipelineAppliedResources existP in
          (Some (cpu + ar_CPU (ar_Requests resources), mem + ar_MemoryMB (ar_Requests resources)), False)
      | _ \<Rightarrow> (None, True))"

definition ValidateFreeResources ::
    "Pipeline \<Rightarrow> defaultQueue \<Rightarrow> PipelineQueueValidateResult option" where
  "ValidateFreeResources tryPopP q =
     (case pq_Range (occupied_step q) (Some (0, 0)) (ProcessingQueue (dq_eq q)) of
        None \<Rightarrow> None
      | Some (occupiedCPU, occupiedMemoryMB) \<Rightarrow>
          let maxCPU = pqq_MaxCPU (dq_pq q); maxMemoryMB = pqq_MaxMemoryMB (dq_pq q);
              requests = ar_Requests (GetPipelineAppliedResources tryPopP)
          in Some
            (if ar_CPU requests + occupiedCPU > maxCPU
             then failed_result (InsufficientCPU occupiedCPU (ar_CPU requests) maxCPU)
             else if ar_MemoryMB requests + occupiedMemoryMB > maxMemoryMB
             then failed_result (InsufficientMemory occupiedMemoryMB (ar_MemoryMB requests) maxMemoryMB)
             else SuccessValidateResult))"

definition validatePipeline :: "Pipeline \<Rightarrow> defaultQueue \<Rightarrow> PipelineQueueValidateResult option" where
  "validatePipeline p q =
     (let result = ValidateCapacity p q in
      if IsFailed result then Some result
      else case ValidateFreeResources p q of
        None \<Rightarrow> None
      | Some result \<Rightarrow> if IsFailed result then Some result else Some SuccessValidateResult)"

section \<open>Ranging over the pending queue\<close>

definition doPop :: "defaultItem \<Rightarrow> defaultQueue \<Rightarrow> defaultQueue \<times> bool" where
  "doPop item q =
     (let (poppedKey, eq) = PopPendingKey (dq_eq q) (di_key item) []; q1 = q\<lparr>dq_eq := eq\<rparr> in
      if poppedKey = '''' then (q1, True)
      else let q2 = signal_done (case ParseUint (di_key item) of None \<Rightarrow> 0 | Some n \<Rightarrow> n) q1
           in (q2, IsStrictMode q2))"

definition doStopAndRemove :: "defaultItem \<Rightarrow> bool list \<Rightarrow> defaultQueue \<Rightarrow> defaultQueue \<times> bool" where
  "doStopAndRemove item stopRangeOpt q =
     (let q1 = q\<lparr>dq_eq := (dq_eq q)\<lparr>eq_pending := snd (Remove (PendingQueue (dq_eq q)) (di_key item))\<rparr>\<rparr>
      in (q1, if length stopRangeOpt > 0 then stopRangeOpt ! 0 else IsStrictMode q1))"

text \<open>The loop around the database write ends when the write succeeds.\<close>

definition ensureMarkPipelineFailed :: "Pipeline \<Rightarrow> defaultQueue \<Rightarrow> defaultQueue" where
  "ensureMarkPipelineFailed p q =
     q\<lparr>dq_pipelineCaches := (dq_pipelineCaches q)(p_ID p \<mapsto> p\<lparr>p_Status := PipelineStatusFailed\<rparr>),
       dq_db_status := (dq_db_status q)(p_ID p \<mapsto> PipelineStatusFailed)\<rparr>"

definition range_item ::
    "(Pipeline \<Rightarrow> precheck_outcome) \<Rightarrow> defaultItem \<Rightarrow> defaultQueue \<Rightarrow> (defaultQueue \<times> bool) option" where
  "range_item precheck item q0 =
     (let q = setCurrentItemKeyAtRanging (di_key item) q0;
          pipelineID = parsePipelineIDFromQueueItem item
      in if pipelineID = 0 then Some (doStopAndRemove item [False] q)
         else case dq_pipelineCaches q pipelineID of
           None \<Rightarrow> Some (doStopAndRemove item [False] q)
         | Some p \<Rightarrow>
             (case validatePipeline p q of
                None \<Rightarrow> None
              | Some validateResult \<Rightarrow>
                  if \<not> vr_Success validateResult
                  then let q = emitEvent p PendingQueueValidate EventLevelWarning q
                       in Some (q, IsStrictMode q)
                  else case precheck p of
                    MissingResult \<Rightarrow> Some (emitEvent p PendingQueueValidate EventLevelNormal q, False)
                  | UnexpectedType \<Rightarrow> Some (emitEvent p PendingQueueValidate EventLevelNormal q, False)
                  | CheckResult checkResult \<Rightarrow>
                      if IsFailed checkResult then
                        (case vr_RetryOption checkResult of
                           None \<Rightarrow>
                             Some (doStopAndRemove item []
                               (ensureMarkPipelineFailed p
                                 (emitEvent p FailedQueue EventLevelNormal
                                   (emitEvent p FailedQueue EventLevelWarning q))))
                         | Some _ \<Rightarrow>
                             let q = emitEvent p PendingQueueValidate EventLevelNormal q in
                             Some (q, if needReRangePendingQueue q then True else IsStrictMode q))
                      else Some (doPop item (emitEvent p SuccessQueue EventLevelNormal q))))"

text \<open>The deferred function of the callback.\<close>

definition range_callback ::
    "(Pipeline \<Rightarrow> precheck_outcome) \<Rightarrow> defaultItem \<Rightarrow> defaultQueue \<Rightarrow> (defaultQueue \<times> bool) option" where
  "range_callback precheck item q =
     map_option (\<lambda>(q', stopRange). (q', if needReRangePendingQueue q' then True else stopRange))
       (range_item precheck item q)"

text \<open>
  The array behind the slice after a callback: a removal permutes the elements of the slice,
  leaves the removed one behind its end and shortens it.
\<close>

definition live_array :: "ref list \<Rightarrow> ref list \<Rightarrow> ref list \<Rightarrow> ref list" where
  "live_array arr old new = new @ filter (\<lambda>r. r \<notin> set new) old @ drop (length old) arr"

fun range_live ::
    "(defaultItem \<Rightarrow> defaultQueue \<Rightarrow> (defaultQueue \<times> bool) option) \<Rightarrow> nat \<Rightarrow> nat \<Rightarrow> ref list \<Rightarrow>
     defaultQueue \<Rightarrow> defaultQueue option" where
  "range_live f 0 i arr q = Some q"
| "range_live f (Suc k) i arr q =
     (case f (pq_store (eq_pending (dq_eq q)) (arr ! i)) q of
        None \<Rightarrow> None
      | Some (q', stopRange) \<Rightarrow>
          if stopRange then Some q'
          else range_live f k (Suc i)
                 (live_array arr (pq_items (eq_pending (dq_eq q))) (pq_items (eq_pending (dq_eq q')))) q')"

definition RangePendingQueue ::
    "(Pipeline \<Rightarrow> precheck_outcome) \<Rightarrow> defaultQueue \<Rightarrow> defaultQueue option" where
  "RangePendingQueue precheck q =
     (if getIsUpdatingPendingQueue q \<or> getIsRangingPendingQueue q then Some q
      else let q1 = setIsRangingPendingQueueFlag q; arr = pq_items (PendingQueue (dq_eq q1)) in
        map_option
          (\<lambda>q2. let q3 = (if needReRangePendingQueue q2 then unsetNeedReRangePendingQueueFlag q2 else q2)
                in unsetIsRangingPendingQueueFlag q3)
          (range_live (range_callback precheck) (length arr) 0 arr q1))"

section \<open>Changing priorities\<close>

datatype queue_error =
    PendingQueueEmpty
  | NotInPendingQueue key
  | DBError string
  | QueueNotFound string
  | PipelineNotFound nat

text \<open>One pass of the second loop of \<open>BatchUpdatePipelinePriorityInQueue\<close>: \<open>None\<close> for a nil
  \<open>QueueInfo\<close>. \<open>db p\<close> is the error of the database write, if any.\<close>

definition raise_priority :: "int \<Rightarrow> Pipeline \<Rightarrow> Pipeline option" where
  "raise_priority priority p =
     map_option
       (\<lambda>qi. let history = (case qi_PriorityChangeHistory qi of
                              None \<Rightarrow> [qi_CustomPriority qi] | Some h \<Rightarrow> h)
             in p\<lparr>p_QueueInfo := Some (qi\<lparr>qi_PriorityChangeHistory := Some (history @ [priority]),
                                          qi_CustomPriority := priority\<rparr>)\<rparr>)
       (p_QueueInfo p)"

fun update_priorities ::
    "(Pipeline \<Rightarrow> string option) \<Rightarrow> time \<Rightarrow> int \<Rightarrow> Pipeline list \<Rightarrow> defaultQueue \<Rightarrow>
     (queue_error option \<times> defaultQueue) option" where
  "update_priorities db now priority [] q = Some (None, q)"
| "update_priorities db now priority (p # ps) q =
     (case raise_priority priority p of
        None \<Rightarrow> None
      | Some p' \<Rightarrow>
          (case db p' of
             Some err \<Rightarrow> Some (Some (DBError err), q)
           | None \<Rightarrow>
               update_priorities db now (wrap64 (priority - 1)) ps
                 (addPipelineIntoQueueUnblock now p' None q)))"

definition q_BatchUpdatePipelinePriorityInQueue ::
    "(Pipeline \<Rightarrow> string option) \<Rightarrow> time \<Rightarrow> Pipeline list \<Rightarrow> defaultQueue \<Rightarrow>
     (queue_error option \<times> defaultQueue) option" where
  "q_BatchUpdatePipelinePriorityInQueue db now pipelines q0 =
     (let q = q0\<lparr>dq_updatingPendingQueue := True\<rparr> in
      map_option (\<lambda>(e, q'). (e, unsetIsUpdatingPendingQueueFlag q'))
        (case Peek (PendingQueue (dq_eq q)) of
           None \<Rightarrow> Some (Some PendingQueueEmpty, q)
         | Some peeked \<Rightarrow>
             let priority = wrap64 (di_priority peeked + int (length pipelines)) in
             (case filter (\<lambda>p. \<not> InPending (dq_eq q) (makeItemKey p)) pipelines of
                p # _ \<Rightarrow> Some (Some (NotInPendingQueue (makeItemKey p)), q)
              | [] \<Rightarrow> update_priorities db now priority pipelines q)))"

section \<open>Usage\<close>

record QueueUsageItem =
  ui_PipelineID :: nat
  ui_RequestsCPU :: rat
  ui_RequestsMemoryMB :: rat
  ui_Index :: int
  ui_Priority :: int
  ui_AddedTime :: time

record QueueUsage =
  qu_InUseCPU :: rat
  qu_InUseMemoryMB :: rat
  qu_RemainingCPU :: rat
  qu_RemainingMemoryMB :: rat
  qu_ProcessingCount :: nat
  qu_PendingCount :: nat
  qu_ProcessingDetails :: "QueueUsageItem list"
  qu_PendingDetails :: "QueueUsageItem list"

definition usage_item :: "(defaultItem \<Rightarrow> time) \<Rightarrow> defaultQueue \<Rightarrow> defaultItem \<Rightarrow> QueueUsageItem option" where
  "usage_item addedTime q item =
     map_option
       (\<lambda>existP. let r = ar_Requests (GetPipelineAppliedResources existP) in
          \<lparr>ui_PipelineID = parsePipelineIDFromQueueItem item, ui_RequestsCPU = ar_CPU r,
           ui_RequestsMemoryMB = ar_MemoryMB r, ui_Index = di_index item,
           ui_Priority = di_priority item, ui_AddedTime = addedTime item\<rparr>)
       (dq_pipelineCaches q (parsePipelineIDFromQueueItem item))"

definition Usage :: "time \<Rightarrow> defaultQueue \<Rightarrow> QueueUsage" where
  "Usage now q =
     (let (inUseCPU, inUseMemoryMB, processingDetails) =
        pq_Range
          (\<lambda>(cpu, mem, ds) item.
             case usage_item di_creationTime q item of
               None \<Rightarrow> ((cpu, mem, ds), False)
             | Some d \<Rightarrow> ((cpu + ui_RequestsCPU d, mem + ui_RequestsMemoryMB d, ds @ [d]), False))
          (0, 0, []) (ProcessingQueue (dq_eq q));
        pendingDetails =
          pq_Range
            (\<lambda>ds item.
               case usage_item (\<lambda>_. now) q item of None \<Rightarrow> (ds, False) | Some d \<Rightarrow> (ds @ [d], False))
            [] (PendingQueue (dq_eq q))
      in \<lparr>qu_InUseCPU = inUseCPU, qu_InUseMemoryMB = inUseMemoryMB,
          qu_RemainingCPU = pqq_MaxCPU (dq_pq q) - inUseCPU,
          qu_RemainingMemoryMB = pqq_MaxMemoryMB (dq_pq q) - inUseMemoryMB,
          qu_ProcessingCount = length processingDetails, qu_PendingCount = length pendingDetails,
          qu_ProcessingDetails = processingDetails, qu_PendingDetails = pendingDetails\<rparr>)"

section \<open>The manager\<close>

text \<open>
  \<open>reconciler/queuemanage/manager\<close>. The database is the pair of functions \<open>dbp\<close> and \<open>dbq\<close> that
  look up a pipeline and a queue; the retry loops around the queries end when a query
  succeeds. The statuses and snapshots written are in the log of the manager.
\<close>

record defaultManager =
  mgr_queueByID :: "string \<rightharpoonup> defaultQueue"
  mgr_queueStopChanByID :: "string set"
  mgr_signalled :: "nat list"
  mgr_db_status :: "nat \<rightharpoonup> PipelineStatus"
  mgr_db_bindQueue :: "nat \<rightharpoonup> PipelineQueue"

definition New_manager :: defaultManager where
  "New_manager =
     \<lparr>mgr_queueByID = Map.empty, mgr_queueStopChanByID = {}, mgr_signalled = [],
      mgr_db_status = Map.empty, mgr_db_bindQueue = Map.empty\<rparr>"

definition IdempotentAddQueue :: "PipelineQueue \<Rightarrow> defaultManager \<Rightarrow> defaultManager" where
  "IdempotentAddQueue pq mgr =
     (let newQueue = New_queue pq; qid = queue_ID newQueue in
      case mgr_queueByID mgr qid of
        Some q \<Rightarrow> mgr\<lparr>mgr_queueByID := (mgr_queueByID mgr)(qid \<mapsto> q_Update pq q)\<rparr>
      | None \<Rightarrow>
          mgr\<lparr>mgr_queueByID := (mgr_queueByID mgr)(qid \<mapsto> Start newQueue),
              mgr_queueStopChanByID := insert qid (mgr_queueStopChanByID mgr)\<rparr>)"

text \<open>The queue of the pipeline, and the pipeline with its status moved to \<open>Queue\<close> unless it is
  there or beyond.\<close>

definition ensureQueryPipelineQueueDetail ::
    "(nat \<Rightarrow> PipelineQueue option) \<Rightarrow> Pipeline \<Rightarrow> defaultManager \<Rightarrow>
     PipelineQueue option \<times> Pipeline \<times> defaultManager" where
  "ensureQueryPipelineQueueDetail dbq p mgr =
     (case GetPipelineQueueID p of (queueID, exist) \<Rightarrow>
        if \<not> exist then (None, p, mgr)
        else case dbq queueID of
          None \<Rightarrow> (None, p, mgr)
        | Some pq \<Rightarrow>
            let mgr1 = mgr\<lparr>mgr_db_bindQueue := (mgr_db_bindQueue mgr)(p_ID p \<mapsto> pq)\<rparr> in
            if p_Status p = PipelineStatusQueue \<or> AfterPipelineQueue (p_Status p)
            then (Some pq, p, mgr1)
            else (Some pq, p\<lparr>p_Status := PipelineStatusQueue\<rparr>,
                  mgr1\<lparr>mgr_db_status := (mgr_db_status mgr1)(p_ID p \<mapsto> PipelineStatusQueue)\<rparr>))"

definition PutPipelineIntoQueue ::
    "(nat \<Rightarrow> Pipeline option) \<Rightarrow> (nat \<Rightarrow> PipelineQueue option) \<Rightarrow> time \<Rightarrow> nat \<Rightarrow> nat \<Rightarrow> defaultManager \<Rightarrow>
     queue_error + defaultManager" where
  "PutPipelineIntoQueue dbp dbq now popCh pipelineID mgr =
     (case dbp pipelineID of
        None \<Rightarrow> Inl (PipelineNotFound pipelineID)
      | Some p \<Rightarrow>
          if IsEndStatus (p_Status p) then Inr (mgr\<lparr>mgr_signalled := mgr_signalled mgr @ [popCh]\<rparr>)
          else case ensureQueryPipelineQueueDetail dbq p mgr of
            (None, _, mgr1) \<Rightarrow> Inr (mgr1\<lparr>mgr_signalled := mgr_signalled mgr1 @ [popCh]\<rparr>)
          | (Some pq, p1, mgr1) \<Rightarrow>
              let mgr2 = IdempotentAddQueue pq mgr1; qid = FormatUint (pqq_ID pq) in
              Inr (mgr2\<lparr>mgr_queueByID := (mgr_queueByID mgr2)(qid :=
                     map_option (AddPipelineIntoQueue now p1 (Some popCh)) (mgr_queueByID mgr2 qid))\<rparr>))"

definition PopOutPipelineFromQueue ::
    "(nat \<Rightarrow> Pipeline option) \<Rightarrow> nat \<Rightarrow> defaultManager \<Rightarrow> defaultManager" where
  "PopOutPipelineFromQueue dbp pipelineID mgr =
     (case dbp pipelineID of
        None \<Rightarrow> mgr
      | Some p \<Rightarrow>
          (case GetPipelineQueueID p of (relatedQueueID, ok) \<Rightarrow>
             if \<not> ok then mgr
             else case mgr_queueByID mgr (FormatUint relatedQueueID) of
               None \<Rightarrow> mgr
             | Some q \<Rightarrow>
                 mgr\<lparr>mgr_queueByID := (mgr_queueByID mgr)(FormatUint relatedQueueID \<mapsto> PopOutPipeline p q)\<rparr>))"

definition mgr_BatchUpdatePipelinePriorityInQueue ::
    "(nat \<Rightarrow> Pipeline option) \<Rightarrow> (Pipeline \<Rightarrow> string option) \<Rightarrow> time \<Rightarrow> PipelineQueue \<Rightarrow> nat list \<Rightarrow>
     defaultManager \<Rightarrow> (queue_error option \<times> defaultManager) option" where
  "mgr_BatchUpdatePipelinePriorityInQueue dbp db now pq pipelineIDs mgr =
     (let queueID = queue_ID (New_queue pq) in
      case mgr_queueByID mgr queueID of
        None \<Rightarrow> Some (Some (QueueNotFound queueID), mgr)
      | Some q \<Rightarrow>
          (case filter (\<lambda>n. dbp n = None) pipelineIDs of
             n # _ \<Rightarrow> Some (Some (PipelineNotFound n), mgr)
           | [] \<Rightarrow>
               map_option
                 (\<lambda>(e, q'). (e, mgr\<lparr>mgr_queueByID := (mgr_queueByID mgr)(queueID \<mapsto> q')\<rparr>))
                 (q_BatchUpdatePipelinePriorityInQueue db now (map (\<lambda>n. the (dbp n)) pipelineIDs) q)))"

definition QueryQueueUsage :: "time \<Rightarrow> PipelineQueue \<Rightarrow> defaultManager \<Rightarrow> QueueUsage option" where
  "QueryQueueUsage now pq mgr = map_option (Usage now) (mgr_queueByID mgr (queue_ID (New_queue pq)))"

section \<open>The keys of the two queues\<close>

definition pending_keys :: "EnhancedQueue \<Rightarrow> key set" where
  "pending_keys eq = dom (pending_of eq)"

definition processing_keys :: "EnhancedQueue \<Rightarrow> key set" where
  "processing_keys eq = dom (processing_of eq)"

lemma keys_InPending: "InPending eq k \<longleftrightarrow> k \<in> pending_keys eq"
  by (auto simp: InPending_def inPending_contents pending_keys_def)

lemma keys_InProcessing: "InProcessing eq k \<longleftrightarrow> k \<in> processing_keys eq"
  by (auto simp: InProcessing_def inProcessing_contents processing_keys_def)

lemma keys_New [simp]:
  "pending_keys (NewEnhancedQueue w) = {}" "processing_keys (NewEnhancedQueue w) = {}"
  by (simp_all add: pending_keys_def processing_keys_def NewEnhancedQueue_def contents_New)

lemma keys_SetProcessingWindow [simp]:
  "pending_keys (SetProcessingWindow eq w) = pending_keys eq"
  "processing_keys (SetProcessingWindow eq w) = processing_keys eq"
  by (simp_all add: pending_keys_def processing_keys_def SetProcessingWindow_def)

lemma keys_Add:
  "eq_inv eq \<Longrightarrow> pending_keys (eq_Add eq k p t) = insert k (pending_keys eq)"
  "processing_keys (eq_Add eq k p t) = processing_keys eq"
  by (simp_all add: pending_keys_def processing_keys_def eq_Add_def eq_inv_def pq.cont_add added_def NewItem_def)

lemma keys_Add_processing:
  "eq_inv eq \<Longrightarrow>
   processing_keys (eq\<lparr>eq_processing := Add (eq_processing eq) it\<rparr>) = insert (di_key it) (processing_keys eq)"
  "pending_keys (eq\<lparr>eq_processing := Add (eq_processing eq) it\<rparr>) = pending_keys eq"
  by (simp_all add: pending_keys_def processing_keys_def eq_inv_def pq.cont_add added_def)

lemma keys_Remove_pending:
  "eq_inv eq \<Longrightarrow>
   pending_keys (eq\<lparr>eq_pending := snd (Remove (eq_pending eq) k)\<rparr>) = pending_keys eq - {k}"
  "processing_keys (eq\<lparr>eq_pending := snd (Remove (eq_pending eq) k)\<rparr>) = processing_keys eq"
  by (simp_all add: pending_keys_def processing_keys_def eq_inv_def pq.cont_remove)

lemma keys_PopProcessing:
  assumes "eq_inv eq"
  shows "processing_keys (snd (PopProcessing eq k [])) = processing_keys eq - {k}"
    and "pending_keys (snd (PopProcessing eq k [])) = pending_keys eq"
  using assms pq.cont_remove [of "eq_processing eq" k]
  by (auto simp: PopProcessing_def is_dryRun_def inProcessing_contents eq_inv_def
      processing_keys_def pending_keys_def)

text \<open>A pop of a key succeeds exactly when the window has room and the key is pending.\<close>

definition can_pop :: "EnhancedQueue \<Rightarrow> key \<Rightarrow> bool" where
  "can_pop eq k \<longleftrightarrow> int (Len (eq_processing eq)) < eq_processingWindow eq \<and> k \<in> pending_keys eq"

lemma keys_PopPendingKey:
  assumes "eq_inv eq"
  shows "pending_keys (snd (PopPendingKey eq k [])) =
      (if can_pop eq k then pending_keys eq - {k} else pending_keys eq)"
    and "processing_keys (snd (PopPendingKey eq k [])) =
      (if can_pop eq k then insert k (processing_keys eq) else processing_keys eq)"
    and "fst (PopPendingKey eq k []) = (if can_pop eq k then k else '''')"
proof -
  have inv: "pq_inv (eq_pending eq)" "pq_inv (eq_processing eq)" using assms by (simp_all add: eq_inv_def)
  obtain o' pq' where r: "Remove (eq_pending eq) k = (o', pq')" by (cases "Remove (eq_pending eq) k")
  have c: "contents pq' = (pending_of eq)(k := None)" using pq.cont_remove [OF inv(1), of k] r by simp
  have none: "o' = None \<longleftrightarrow> k \<notin> pending_keys eq"
    using pq.remove_None_iff [OF inv(1), of k] r by (auto simp: pending_keys_def)
  have some: "o' = Some it \<Longrightarrow> di_key it = k" for it
    using pq.remove_SomeD [OF inv(1), of k it] r by auto
  note d = PopPendingKey_def popPendingKeyWithoutLock_def is_dryRun_def can_pop_def
  show "pending_keys (snd (PopPendingKey eq k [])) =
      (if can_pop eq k then pending_keys eq - {k} else pending_keys eq)"
    using c r none by (cases o') (auto simp: d pending_keys_def)
  show "processing_keys (snd (PopPendingKey eq k [])) =
      (if can_pop eq k then insert k (processing_keys eq) else processing_keys eq)"
    using r none some
    by (cases o') (auto simp: d processing_keys_def pq.cont_add [OF inv(2)] added_def)
  show "fst (PopPendingKey eq k []) = (if can_pop eq k then k else '''')"
    using r none some by (cases o') (auto simp: d)
qed

lemma eq_inv_PopPendingKey [simp]: "eq_inv eq \<Longrightarrow> eq_inv (snd (PopPendingKey eq k ds))"
  by (simp add: PopPendingKey_def)

lemma eq_inv_Add_processing [simp]:
  "eq_inv eq \<Longrightarrow> eq_inv (eq\<lparr>eq_processing := Add (eq_processing eq) it\<rparr>)"
  by (simp add: eq_inv_def pq.inv_add)

lemma eq_inv_Remove_pending [simp]:
  "eq_inv eq \<Longrightarrow> eq_inv (eq\<lparr>eq_pending := snd (Remove (eq_pending eq) k)\<rparr>)"
  by (simp add: eq_inv_def pq.inv_remove)

section \<open>The invariant of a queue\<close>

definition valid_id :: "nat \<Rightarrow> bool" where
  "valid_id n \<longleftrightarrow> 0 < n \<and> n < 2 ^ 64"

text \<open>
  Both queues are well-formed, every key is the decimal of a pipeline id, the cache is indexed
  by the ids of its pipelines, and every pipeline being processed is cached.
\<close>

definition dq_inv :: "defaultQueue \<Rightarrow> bool" where
  "dq_inv q \<longleftrightarrow> eq_inv (dq_eq q) \<and>
     pending_keys (dq_eq q) \<subseteq> FormatUint ` Collect valid_id \<and>
     processing_keys (dq_eq q) \<subseteq> FormatUint ` (Collect valid_id \<inter> dom (dq_pipelineCaches q)) \<and>
     (\<forall>n p. dq_pipelineCaches q n = Some p \<longrightarrow> p_ID p = n)"

lemma parse_key: "valid_id n \<Longrightarrow> di_key item = FormatUint n \<Longrightarrow> parsePipelineIDFromQueueItem item = n"
  by (simp add: parsePipelineIDFromQueueItem_def valid_id_def)

lemma dq_inv_New: "dq_inv (New_queue pq)"
  by (simp add: dq_inv_def New_queue_def)

lemma dq_inv_cong:
  "dq_eq q' = dq_eq q \<Longrightarrow> dq_pipelineCaches q' = dq_pipelineCaches q \<Longrightarrow> dq_inv q' \<longleftrightarrow> dq_inv q"
  by (simp add: dq_inv_def)

lemma signal_done_simps [simp]:
  "dq_eq (signal_done n q) = dq_eq q" "dq_pipelineCaches (signal_done n q) = dq_pipelineCaches q"
  "dq_pq (signal_done n q) = dq_pq q"
  "dq_needReRangePendingQueueFlag (signal_done n q) = dq_needReRangePendingQueueFlag q"
  by (simp_all add: signal_done_def send_signal_def split: option.split)

lemma emitEvent_simps [simp]:
  "dq_eq (emitEvent p r l q) = dq_eq q" "dq_pipelineCaches (emitEvent p r l q) = dq_pipelineCaches q"
  "dq_pq (emitEvent p r l q) = dq_pq q"
  "dq_needReRangePendingQueueFlag (emitEvent p r l q) = dq_needReRangePendingQueueFlag q"
  by (simp_all add: emitEvent_def)

lemma add_eq_caches:
  "dq_pipelineCaches (addPipelineIntoQueueUnblock now p ch q) = (dq_pipelineCaches q)(p_ID p \<mapsto> p)"
  "\<exists>pr t. dq_eq (addPipelineIntoQueueUnblock now p ch q) =
     (if AfterPipelineQueue (p_Status p)
      then (dq_eq q)\<lparr>eq_processing := Add (eq_processing (dq_eq q)) (NewItem (makeItemKey p) pr t)\<rparr>
      else eq_Add (dq_eq q) (makeItemKey p) pr t)"
  by (auto simp: addPipelineIntoQueueUnblock_def Let_def send_signal_def ProcessingQueue_def split: option.split)

lemma dq_inv_add:
  assumes inv: "dq_inv q" and id: "valid_id (p_ID p)"
  shows "dq_inv (addPipelineIntoQueueUnblock now p ch q)"
proof -
  obtain pr t where eq: "dq_eq (addPipelineIntoQueueUnblock now p ch q) =
     (if AfterPipelineQueue (p_Status p)
      then (dq_eq q)\<lparr>eq_processing := Add (eq_processing (dq_eq q)) (NewItem (makeItemKey p) pr t)\<rparr>
      else eq_Add (dq_eq q) (makeItemKey p) pr t)"
    using add_eq_caches(2) by blast
  have e: "eq_inv (dq_eq q)" using inv by (simp add: dq_inv_def)
  have "FormatUint ` (Collect valid_id \<inter> dom (dq_pipelineCaches q)) \<subseteq>
      FormatUint ` (Collect valid_id \<inter> insert (p_ID p) (dom (dq_pipelineCaches q)))" by blast
  moreover have "makeItemKey p \<in> FormatUint ` (Collect valid_id \<inter> insert (p_ID p) (dom (dq_pipelineCaches q)))"
    using id by (simp add: makeItemKey_def)
  ultimately show ?thesis
    using inv id e unfolding dq_inv_def eq add_eq_caches(1)
    by (auto simp: keys_Add keys_Add_processing NewItem_def makeItemKey_def)
qed

lemma PopOut_eq_caches:
  assumes "eq_inv (dq_eq q)"
  shows "dq_pipelineCaches (PopOutPipeline p q) = (dq_pipelineCaches q)(p_ID p := None)"
    and "eq_inv (dq_eq (PopOutPipeline p q))"
    and "processing_keys (dq_eq (PopOutPipeline p q)) = processing_keys (dq_eq q) - {makeItemKey p}"
    and "pending_keys (dq_eq (PopOutPipeline p q)) =
      (if can_pop (dq_eq q) (makeItemKey p) then pending_keys (dq_eq q) - {makeItemKey p}
       else pending_keys (dq_eq q))"
  using assms by (simp_all add: PopOutPipeline_def Let_def keys_PopProcessing keys_PopPendingKey)

lemma dq_inv_PopOut:
  assumes inv: "dq_inv q"
  shows "dq_inv (PopOutPipeline p q)"
proof -
  have e: "eq_inv (dq_eq q)" using inv by (simp add: dq_inv_def)
  have "FormatUint ` A - {makeItemKey p} = FormatUint ` (A - {p_ID p})" for A
    by (auto simp: makeItemKey_def)
  then have *: "processing_keys (dq_eq q) - {makeItemKey p} \<subseteq>
      FormatUint ` (Collect valid_id \<inter> dom (dq_pipelineCaches q) - {p_ID p})"
    using inv unfolding dq_inv_def by blast
  have "dom ((dq_pipelineCaches q)(p_ID p := None)) = dom (dq_pipelineCaches q) - {p_ID p}" by simp
  with inv * PopOut_eq_caches(2) [OF e] show ?thesis
    unfolding dq_inv_def PopOut_eq_caches [OF e] by (auto simp: Int_Diff split: if_splits)
qed

lemma dq_inv_doStopAndRemove: "dq_inv q \<Longrightarrow> dq_inv (fst (doStopAndRemove item opt q))"
  by (auto simp: dq_inv_def doStopAndRemove_def PendingQueue_def keys_Remove_pending Let_def)

lemma doPop_simps:
  "dq_eq (fst (doPop item q)) = snd (PopPendingKey (dq_eq q) (di_key item) [])"
  "dq_pipelineCaches (fst (doPop item q)) = dq_pipelineCaches q"
  by (simp_all add: doPop_def split_def Let_def)

lemma dq_inv_doPop:
  assumes "dq_inv q" and "valid_id n" "di_key item = FormatUint n" and "n \<in> dom (dq_pipelineCaches q)"
  shows "dq_inv (fst (doPop item q))"
  using assms by (auto simp: dq_inv_def doPop_simps keys_PopPendingKey)

lemma dq_inv_mark_failed:
  assumes "dq_inv q" and "p_ID p \<in> dom (dq_pipelineCaches q)"
  shows "dq_inv (ensureMarkPipelineFailed p q)"
proof -
  have "dom ((dq_pipelineCaches q)(p_ID p \<mapsto> p\<lparr>p_Status := PipelineStatusFailed\<rparr>)) = dom (dq_pipelineCaches q)"
    using assms(2) by (simp add: insert_absorb)
  with assms(1) show ?thesis
    unfolding dq_inv_def ensureMarkPipelineFailed_def by (auto split: if_splits)
qed

section \<open>Validation\<close>

definition requests_of :: "defaultQueue \<Rightarrow> defaultItem \<Rightarrow> PipelineAppliedResource" where
  "requests_of q item =
     ar_Requests (GetPipelineAppliedResources
       (the (dq_pipelineCaches q (parsePipelineIDFromQueueItem item))))"

definition occupied :: "(PipelineAppliedResource \<Rightarrow> rat) \<Rightarrow> defaultQueue \<Rightarrow> rat" where
  "occupied f q = sum_list (map (\<lambda>it. f (requests_of q it)) (items_of (eq_processing (dq_eq q))))"

lemma occupied_sum:
  assumes "\<forall>item\<in>set items. dq_pipelineCaches q (parsePipelineIDFromQueueItem item) \<noteq> None"
  shows "Range_items (occupied_step q) (Some (c, m)) items =
    Some (c + sum_list (map (\<lambda>it. ar_CPU (requests_of q it)) items),
          m + sum_list (map (\<lambda>it. ar_MemoryMB (requests_of q it)) items))"
  using assms
proof (induction items arbitrary: c m)
  case (Cons it items)
  then show ?case by (auto simp: occupied_step_def requests_of_def Let_def)
qed simp

lemma item_key_pending:
  "eq_inv eq \<Longrightarrow> item \<in> set (items_of (eq_pending eq)) \<Longrightarrow> di_key item \<in> pending_keys eq"
  using dom_contents [of "eq_pending eq"] by (auto simp: items_of_def pending_keys_def eq_inv_def)

lemma item_key_processing:
  "eq_inv eq \<Longrightarrow> item \<in> set (items_of (eq_processing eq)) \<Longrightarrow> di_key item \<in> processing_keys eq"
  using dom_contents [of "eq_processing eq"] by (auto simp: items_of_def processing_keys_def eq_inv_def)

lemma processing_cached:
  assumes "dq_inv q" and "item \<in> set (items_of (eq_processing (dq_eq q)))"
  shows "dq_pipelineCaches q (parsePipelineIDFromQueueItem item) \<noteq> None"
proof -
  have "di_key item \<in> processing_keys (dq_eq q)"
    using assms item_key_processing by (simp add: dq_inv_def)
  then have "di_key item \<in> FormatUint ` (Collect valid_id \<inter> dom (dq_pipelineCaches q))"
    using assms(1) by (auto simp: dq_inv_def)
  then show ?thesis by (auto simp: parse_key)
qed

text \<open>Validation never dereferences nil, and succeeds exactly when the concurrency and the
  resources of the queue suffice.\<close>

lemma validatePipeline_total:
  assumes "dq_inv q"
  shows "\<exists>r. validatePipeline p q = Some r \<and>
    (vr_Success r \<longleftrightarrow>
       int (Len (eq_processing (dq_eq q))) < pqq_Concurrency (dq_pq q) \<and>
       ar_CPU (ar_Requests (GetPipelineAppliedResources p)) + occupied ar_CPU q \<le> pqq_MaxCPU (dq_pq q) \<and>
       ar_MemoryMB (ar_Requests (GetPipelineAppliedResources p)) + occupied ar_MemoryMB q \<le>
         pqq_MaxMemoryMB (dq_pq q))"
proof -
  have "pq_Range (occupied_step q) (Some (0, 0)) (ProcessingQueue (dq_eq q)) =
      Some (occupied ar_CPU q, occupied ar_MemoryMB q)"
    using occupied_sum [of "items_of (eq_processing (dq_eq q))" q 0 0] processing_cached [OF assms]
    by (simp add: pq_Range_def ProcessingQueue_def occupied_def items_of_def)
  then show ?thesis
    by (auto simp: validatePipeline_def ValidateCapacity_def ValidateFreeResources_def IsFailed_def
        failed_result_def SuccessValidateResult_def ProcessingQueue_def Let_def)
qed

section \<open>One item of a range\<close>

text \<open>An item that the range visits has the decimal of an id as its key, whether it is still
  pending or was removed in the same range.\<close>

definition id_item :: "defaultItem \<Rightarrow> bool" where
  "id_item item \<longleftrightarrow> di_key item \<in> FormatUint ` Collect valid_id"

lemma range_item_ok:
  assumes inv: "dq_inv q" and item: "id_item item"
  shows "\<exists>q' stop. range_item precheck item q = Some (q', stop) \<and> dq_inv q'"
proof -
  obtain n where n: "valid_id n" "di_key item = FormatUint n" using item by (auto simp: id_item_def)
  then have pid: "parsePipelineIDFromQueueItem item = n" "n \<noteq> 0" by (auto simp: parse_key valid_id_def)
  define q1 where "q1 = setCurrentItemKeyAtRanging (di_key item) q"
  have q1: "dq_inv q1" "dq_pipelineCaches q1 = dq_pipelineCaches q"
    using inv by (simp_all add: q1_def setCurrentItemKeyAtRanging_def dq_inv_def)
  show ?thesis
  proof (cases "dq_pipelineCaches q n")
    case None
    with pid q1 show ?thesis
      using dq_inv_doStopAndRemove [OF q1(1), of item "[False]"]
      by (cases "doStopAndRemove item [False] q1") (simp add: range_item_def q1_def [symmetric])
  next
    case (Some p)
    then have p: "p_ID p = n" "n \<in> dom (dq_pipelineCaches q1)" using inv q1 by (auto simp: dq_inv_def)
    obtain r where r: "validatePipeline p q1 = Some r" using validatePipeline_total [OF q1(1)] by blast
    have ev: "dq_inv (emitEvent p a b q')" if "dq_inv q'" for a b q'
      using that dq_inv_cong [of "emitEvent p a b q'" q'] by simp
    have pop: "\<exists>q' stop. doPop item (emitEvent p a b q1) = (q', stop) \<and> dq_inv q'" for a b
      using dq_inv_doPop [OF ev [OF q1(1)] n, of a b] p(2) by (metis emitEvent_simps(2) prod.collapse)
    have "dq_inv (ensureMarkPipelineFailed p (emitEvent p FailedQueue EventLevelNormal
        (emitEvent p FailedQueue EventLevelWarning q1)))"
      by (rule dq_inv_mark_failed) (use ev q1 p in simp_all)
    from dq_inv_doStopAndRemove [OF this, of item "[]"]
    have stop: "\<exists>q' stop. doStopAndRemove item [] (ensureMarkPipelineFailed p
        (emitEvent p FailedQueue EventLevelNormal (emitEvent p FailedQueue EventLevelWarning q1))) =
        (q', stop) \<and> dq_inv q'"
      by (metis prod.collapse)
    show ?thesis
      using pid Some r ev [OF q1(1)] pop stop q1
      by (auto simp: range_item_def q1_def [symmetric] Let_def split: precheck_outcome.split option.split)
  qed
qed

section \<open>The range\<close>

lemma PopPendingKey_pending:
  "eq_pending (snd (PopPendingKey eq k [])) = eq_pending eq \<or>
   eq_pending (snd (PopPendingKey eq k [])) = snd (Remove (eq_pending eq) k)"
  by (auto simp: PopPendingKey_def popPendingKeyWithoutLock_def is_dryRun_def split: prod.split option.split)

lemma range_item_pending:
  assumes "range_item precheck item q = Some (q', stop)"
  shows "eq_pending (dq_eq q') = eq_pending (dq_eq q) \<or>
    eq_pending (dq_eq q') = snd (Remove (eq_pending (dq_eq q)) (di_key item))"
proof -
  define q1 where "q1 = setCurrentItemKeyAtRanging (di_key item) q"
  have q1: "dq_eq q1 = dq_eq q" by (simp add: q1_def setCurrentItemKeyAtRanging_def)
  have stop: "eq_pending (dq_eq (fst (doStopAndRemove item opt q2))) =
      snd (Remove (eq_pending (dq_eq q2)) (di_key item))" for opt q2
    by (simp add: doStopAndRemove_def PendingQueue_def Let_def)
  have mark: "dq_eq (ensureMarkPipelineFailed p q2) = dq_eq q2" for p q2
    by (simp add: ensureMarkPipelineFailed_def)
  show ?thesis
    using assms stop [of "[False]" q1] stop [of "[]"] PopPendingKey_pending [of "dq_eq q" "di_key item"]
    by (auto simp: range_item_def q1_def [symmetric] Let_def q1 mark
        split: if_splits option.splits precheck_outcome.splits dest!: arg_cong [of _ _ fst])
      (auto simp: q1 mark doPop_simps)
qed

lemma length_live_array:
  assumes "distinct old" and "distinct new" and "set new \<subseteq> set old" and "length old \<le> length arr"
  shows "length (live_array arr old new) = length arr"
proof -
  have "length (filter (\<lambda>r. r \<notin> set new) old) = card (set old - set new)"
    using assms(1) by (simp add: distinct_card [symmetric] distinct_filter set_diff_eq)
  moreover have "card (set old - set new) = length old - length new" "length new \<le> length old"
    using assms by (simp_all add: card_Diff_subset distinct_card) (metis assms card_mono distinct_card List.finite_set)
  ultimately show ?thesis using assms(4) by (simp add: live_array_def)
qed

lemma set_live_array: "set new \<subseteq> set old \<Longrightarrow> set (live_array arr old new) \<subseteq> set old \<union> set arr"
  by (auto simp: live_array_def dest: in_set_dropD)

definition array_ok :: "ref list \<Rightarrow> EnhancedQueue \<Rightarrow> bool" where
  "array_ok arr eq \<longleftrightarrow> length (pq_items (eq_pending eq)) \<le> length arr \<and>
     (\<forall>r\<in>set arr \<union> set (pq_items (eq_pending eq)). id_item (pq_store (eq_pending eq) r))"

lemma array_ok_step:
  assumes "array_ok arr eq" and "pq_inv (eq_pending eq)" and "pq_inv (eq_pending eq')"
    and "eq_pending eq' = eq_pending eq \<or> eq_pending eq' = snd (Remove (eq_pending eq) k)"
  defines "arr' \<equiv> live_array arr (pq_items (eq_pending eq)) (pq_items (eq_pending eq'))"
  shows "array_ok arr' eq'" and "length arr' = length arr"
proof -
  have sub: "set (pq_items (eq_pending eq')) \<subseteq> set (pq_items (eq_pending eq))"
    and key: "di_key (pq_store (eq_pending eq') r) = di_key (pq_store (eq_pending eq) r)" for r
    using assms(4) Remove_store [OF assms(2), of k] by auto
  have d: "distinct (pq_items (eq_pending eq))" "distinct (pq_items (eq_pending eq'))"
    using assms(2,3) by (simp_all add: pq_inv_def pq_wf_def idx_ok_def)
  have len: "length (pq_items (eq_pending eq')) \<le> length (pq_items (eq_pending eq))"
    using sub d by (metis card_mono distinct_card List.finite_set)
  show l: "length arr' = length arr"
    unfolding arr'_def using assms(1) d sub by (intro length_live_array) (simp_all add: array_ok_def)
  have ids: "id_item (pq_store (eq_pending eq') r)" if "r \<in> set arr \<union> set (pq_items (eq_pending eq))" for r
    using assms(1) that key by (auto simp: array_ok_def id_item_def)
  have "set arr' \<union> set (pq_items (eq_pending eq')) \<subseteq> set arr \<union> set (pq_items (eq_pending eq))"
    using set_live_array [OF sub, of arr] sub unfolding arr'_def by blast
  then have "\<forall>r\<in>set arr' \<union> set (pq_items (eq_pending eq')). id_item (pq_store (eq_pending eq') r)"
    using ids by blast
  moreover have "length (pq_items (eq_pending eq')) \<le> length arr'"
    using l len assms(1) by (simp add: array_ok_def)
  ultimately show "array_ok arr' eq'" by (simp add: array_ok_def)
qed

lemma range_live_ok:
  assumes "i + k = length arr" and "dq_inv q" and "array_ok arr (dq_eq q)"
  shows "\<exists>q'. range_live (range_callback precheck) k i arr q = Some q' \<and> dq_inv q'"
  using assms
proof (induction k arbitrary: i arr q)
  case (Suc k)
  let ?item = "pq_store (eq_pending (dq_eq q)) (arr ! i)"
  have "id_item ?item" using Suc.prems by (auto simp: array_ok_def)
  then obtain q' stop where q': "range_item precheck ?item q = Some (q', stop)" "dq_inv q'"
    using range_item_ok [OF Suc.prems(2)] by blast
  have inv: "pq_inv (eq_pending (dq_eq q))" "pq_inv (eq_pending (dq_eq q'))"
    using Suc.prems(2) q'(2) by (simp_all add: dq_inv_def eq_inv_def)
  note step = array_ok_step [OF Suc.prems(3) inv range_item_pending [OF q'(1)]]
  show ?case
    using Suc.IH [of "Suc i" _ q'] step q' Suc.prems(1) by (auto simp: range_callback_def)
qed simp

lemma RangePendingQueue_ok:
  assumes "dq_inv q"
  shows "\<exists>q'. RangePendingQueue precheck q = Some q' \<and> dq_inv q'"
proof -
  let ?q = "setIsRangingPendingQueueFlag q" and ?arr = "pq_items (eq_pending (dq_eq q))"
  have inv: "dq_inv ?q" using assms by (simp add: setIsRangingPendingQueueFlag_def dq_inv_def)
  have "id_item (pq_store (eq_pending (dq_eq q)) r)" if "r \<in> set ?arr" for r
    using that assms item_key_pending [of "dq_eq q" "pq_store (eq_pending (dq_eq q)) r"]
    by (auto simp: dq_inv_def id_item_def items_of_def)
  then have "array_ok ?arr (dq_eq ?q)"
    by (simp add: array_ok_def setIsRangingPendingQueueFlag_def)
  then obtain q' where "range_live (range_callback precheck) (length ?arr) 0 ?arr ?q = Some q'" "dq_inv q'"
    using range_live_ok [OF _ inv] by force
  with assms show ?thesis
    by (auto simp: RangePendingQueue_def PendingQueue_def setIsRangingPendingQueueFlag_def Let_def
        unsetNeedReRangePendingQueueFlag_def unsetIsRangingPendingQueueFlag_def dq_inv_def)
qed

section \<open>An example: three waiting pipelines\<close>

definition example_pipeline :: "nat \<Rightarrow> int \<Rightarrow> Pipeline" where
  "example_pipeline n priority =
     \<lparr>p_ID = n, p_ClusterName = ''dev'', p_Status = PipelineStatusQueue, p_CostTimeSec = -1, p_TimeBegin = None,
      p_TimeEnd = None, p_TimeCreated = Some 5, p_Namespace = ''pipeline-1'', p_NotPipelineControlledNs = False,
      p_TaskOperates = [], p_IsSnippet = False, p_ParentPipelineID = None, p_ParentTaskID = None,
      p_SnippetChain = [], p_DefinedOutputs = [], p_Snapshot = empty_Snapshot,
      p_QueueInfo = Some \<lparr>qi_QueueID = 7, qi_CustomPriority = priority, qi_PriorityChangeHistory = None\<rparr>,
      p_AppliedResources = \<lparr>ar_Limits = \<lparr>ar_CPU = 0, ar_MemoryMB = 0\<rparr>, ar_Requests = \<lparr>ar_CPU = 0, ar_MemoryMB = 0\<rparr>\<rparr>,
      p_CompleteReconcilerTeardown = False\<rparr>"

definition example_queue :: "int \<Rightarrow> PipelineQueue" where
  "example_queue concurrency =
     \<lparr>pqq_ID = 7, pqq_Name = ''q'', pqq_Mode = PipelineQueueModeLoose, pqq_Priority = 10,
      pqq_Concurrency = concurrency, pqq_MaxCPU = 0, pqq_MaxMemoryMB = 0\<rparr>"

definition three_waiting :: defaultQueue where
  "three_waiting =
     AddPipelineIntoQueue 0 (example_pipeline 3 10) None
       (AddPipelineIntoQueue 0 (example_pipeline 2 20) None
         (AddPipelineIntoQueue 0 (example_pipeline 1 30) None (New_queue (example_queue 2))))"

definition precheck_ok :: "Pipeline \<Rightarrow> precheck_outcome" where
  "precheck_ok p = CheckResult SuccessValidateResult"

section \<open>Raising priorities\<close>

lemma add_with_custom_priority:
  assumes "\<not> AfterPipelineQueue (p_Status p)" and "p_QueueInfo p = Some qi" and "0 < qi_CustomPriority qi"
  shows "\<exists>t. dq_eq (addPipelineIntoQueueUnblock now p None q) =
    eq_Add (dq_eq q) (makeItemKey p) (qi_CustomPriority qi) t"
  using assms by (auto simp: addPipelineIntoQueueUnblock_def Let_def)

definition raisable :: "Pipeline \<Rightarrow> bool" where
  "raisable p \<longleftrightarrow> valid_id (p_ID p) \<and> p_QueueInfo p \<noteq> None \<and> \<not> AfterPipelineQueue (p_Status p)"

lemma update_priorities_ok:
  assumes "list_all raisable ps" and "distinct (map p_ID ps)" and "dq_inv q"
    and "int (length ps) \<le> pr" and "pr < 2 ^ 63"
  shows "\<exists>q'. update_priorities (\<lambda>_. None) now pr ps q = Some (None, q') \<and> dq_inv q' \<and>
    (\<forall>i<length ps. map_option fst (pending_of (dq_eq q') (makeItemKey (ps ! i))) = Some (pr - int i)) \<and>
    (\<forall>k. k \<notin> makeItemKey ` set ps \<longrightarrow> pending_of (dq_eq q') k = pending_of (dq_eq q) k) \<and>
    eq_processing (dq_eq q') = eq_processing (dq_eq q)"
  using assms
proof (induction ps arbitrary: pr q)
  case (Cons p ps)
  obtain qi where qi: "p_QueueInfo p = Some qi" using Cons.prems(1) by (auto simp: raisable_def)
  obtain p' where p': "raise_priority pr p = Some p'" "p_ID p' = p_ID p" "p_Status p' = p_Status p"
      "\<exists>qi'. p_QueueInfo p' = Some qi' \<and> qi_CustomPriority qi' = pr"
    using qi by (simp add: raise_priority_def Let_def)
  let ?q = "addPipelineIntoQueueUnblock now p' None q"
  have "\<exists>t. dq_eq ?q = eq_Add (dq_eq q) (makeItemKey p') pr t"
    using p' add_with_custom_priority [of p'] Cons.prems by (auto simp: raisable_def)
  then obtain t where eq: "dq_eq ?q = eq_Add (dq_eq q) (makeItemKey p) pr t"
    using p'(2) by (auto simp: makeItemKey_def)
  have inv: "dq_inv ?q"
    using Cons.prems p'(2) by (intro dq_inv_add) (simp_all add: raisable_def)
  have pin: "pq_inv (eq_pending (dq_eq q))" using Cons.prems(3) by (simp add: dq_inv_def eq_inv_def)
  have c: "pending_of (dq_eq ?q) = added (pending_of (dq_eq q)) (makeItemKey p) pr t"
    using pq.cont_add [OF pin] by (simp add: eq eq_Add_def NewItem_def)
  have w: "wrap64 (pr - 1) = pr - 1"
    using Cons.prems(4,5) by (intro wrap64_id) (simp add: is_int64_def)
  obtain q' where q': "update_priorities (\<lambda>_. None) now (pr - 1) ps ?q = Some (None, q')" "dq_inv q'"
      "\<And>i. i < length ps \<Longrightarrow> map_option fst (pending_of (dq_eq q') (makeItemKey (ps ! i))) = Some (pr - 1 - int i)"
      "\<And>k. k \<notin> makeItemKey ` set ps \<Longrightarrow> pending_of (dq_eq q') k = pending_of (dq_eq ?q) k"
      "eq_processing (dq_eq q') = eq_processing (dq_eq ?q)"
    using Cons.IH [OF _ _ inv, of "pr - 1"] Cons.prems by auto
  have new: "makeItemKey p \<notin> makeItemKey ` set ps"
    using Cons.prems(2) by (auto simp: makeItemKey_def)
  have "map_option fst (pending_of (dq_eq q') (makeItemKey ((p # ps) ! i))) = Some (pr - int i)"
    if "i < length (p # ps)" for i
    using that q'(3) [of "i - 1"] q'(4) [OF new] c by (cases i) (auto simp: added_def)
  moreover have "pending_of (dq_eq q') k = pending_of (dq_eq q) k" if "k \<notin> makeItemKey ` set (p # ps)" for k
    using q'(4) [of k] that c by (simp add: added_def)
  moreover have "eq_processing (dq_eq q') = eq_processing (dq_eq q)"
    using q'(5) eq by (simp add: eq_Add_def)
  ultimately show ?case
    using q'(1,2) p'(1) w by auto
qed simp

section \<open>Properties\<close>

datatype dq_op =
    OpAddPipeline time Pipeline "nat option"
  | OpRange "Pipeline \<Rightarrow> precheck_outcome"
  | OpPopOut Pipeline
  | OpUpdate PipelineQueue

fun run_dq_op :: "defaultQueue \<Rightarrow> dq_op \<Rightarrow> defaultQueue option" where
  "run_dq_op q (OpAddPipeline now p ch) = Some (AddPipelineIntoQueue now p ch q)"
| "run_dq_op q (OpRange precheck) = RangePendingQueue precheck q"
| "run_dq_op q (OpPopOut p) = Some (PopOutPipeline p q)"
| "run_dq_op q (OpUpdate pq) = Some (q_Update pq q)"

fun run_dq_ops :: "defaultQueue \<Rightarrow> dq_op list \<Rightarrow> defaultQueue option" where
  "run_dq_ops q [] = Some q"
| "run_dq_ops q (op # ops) = (case run_dq_op q op of None \<Rightarrow> None | Some q' \<Rightarrow> run_dq_ops q' ops)"

fun op_valid :: "dq_op \<Rightarrow> bool" where
  "op_valid (OpAddPipeline now p ch) = valid_id (p_ID p)"
| "op_valid _ = True"

lemma run_dq_op_ok: "dq_inv q \<Longrightarrow> op_valid op \<Longrightarrow> \<exists>q'. run_dq_op q op = Some q' \<and> dq_inv q'"
proof (cases op)
  case (OpUpdate pq)
  assume "dq_inv q"
  then show ?thesis by (simp add: OpUpdate) (simp add: q_Update_def dq_inv_def)
qed (simp_all add: RangePendingQueue_ok dq_inv_add dq_inv_PopOut AddPipelineIntoQueue_def)

lemma run_dq_ops_ok:
  "dq_inv q \<Longrightarrow> list_all op_valid ops \<Longrightarrow> \<exists>q'. run_dq_ops q ops = Some q' \<and> dq_inv q'"
proof (induction ops arbitrary: q)
  case (Cons op ops)
  then obtain q' where "run_dq_op q op = Some q'" "dq_inv q'" using run_dq_op_ok by fastforce
  with Cons show ?case by simp
qed simp

text \<open>
  Every sequence of additions of pipelines with valid ids, ranges over the pending queue, pops and
  updates of the queue runs without a nil dereference, and at the end every pipeline that is being
  processed is in the cache and every key is the decimal of a pipeline id.\<close>

theorem queue_runs_without_nil_dereference:
  assumes "list_all op_valid ops"
  shows "\<exists>q. run_dq_ops (New_queue pq) ops = Some q \<and> dq_inv q"
  using run_dq_ops_ok [OF dq_inv_New assms] .

theorem queue_runs_without_nil_dereference_witness:
  "\<exists>q. run_dq_ops (New_queue (example_queue 2)) [OpAddPipeline 0 (example_pipeline 1 30) None, OpRange precheck_ok] = Some q
     \<and> dq_inv q"
  by (rule queue_runs_without_nil_dereference)
    (simp add: example_pipeline_def valid_id_def)


lemma three_waiting_ok:
  "dq_inv three_waiting" "pq_items (eq_pending (dq_eq three_waiting)) = [0, 1, 2]"
  "id_item (pq_store (eq_pending (dq_eq three_waiting)) 0)"
proof -
  show inv: "dq_inv three_waiting"
    unfolding three_waiting_def AddPipelineIntoQueue_def
    by (intro dq_inv_add dq_inv_New) (simp_all add: example_pipeline_def valid_id_def)
  show items: "pq_items (eq_pending (dq_eq three_waiting)) = [0, 1, 2]" by code_simp
  have "di_key (pq_store (eq_pending (dq_eq three_waiting)) 0) \<in> pending_keys (dq_eq three_waiting)"
    using inv by (intro item_key_pending) (simp_all add: dq_inv_def items_of_def items)
  with inv show "id_item (pq_store (eq_pending (dq_eq three_waiting)) 0)"
    by (auto simp: id_item_def dq_inv_def)
qed


text \<open>
  One range in a queue of concurrency 2 with three waiting pipelines of priorities 30, 20 and 10,
  all valid, admits the first and the third: the removal of the first moves the second to the
  position the range has already passed. The pipeline of priority 20 keeps waiting behind the one
  of priority 10.\<close>

theorem range_skips_a_higher_priority:
  "map_option (\<lambda>q. (InProcessing (dq_eq q) ''1'', InProcessing (dq_eq q) ''2'', InProcessing (dq_eq q) ''3''))
     (RangePendingQueue precheck_ok three_waiting) = Some (True, False, True)"
  by code_simp

text \<open>
  after \<open>PopOutPipeline\<close> the pipeline is not being processed and not cached, its channel has been
  signalled, and it is still pending exactly when it was pending and the processing window was
  full.\<close>

theorem PopOutPipeline_effect:
  assumes "dq_inv q"
  shows "let q' = PopOutPipeline p q; k = makeItemKey p in
    \<not> InProcessing (dq_eq q') k \<and> dq_pipelineCaches q' (p_ID p) = None \<and>
    dq_doneChanByPipelineID q' (p_ID p) = None \<and>
    dq_signalled q' = dq_signalled q @
      (case dq_doneChanByPipelineID q (p_ID p) of None \<Rightarrow> [] | Some ch \<Rightarrow> [ch]) \<and>
    (InPending (dq_eq q') k \<longleftrightarrow>
       InPending (dq_eq q) k \<and> int (Len (eq_processing (dq_eq q))) \<ge> eq_processingWindow (dq_eq q)) \<and>
    dq_inv q'"
proof -
  have e: "eq_inv (dq_eq q)" using assms by (simp add: dq_inv_def)
  have "dq_doneChanByPipelineID (PopOutPipeline p q) (p_ID p) = None"
      "dq_signalled (PopOutPipeline p q) = dq_signalled q @
      (case dq_doneChanByPipelineID q (p_ID p) of None \<Rightarrow> [] | Some ch \<Rightarrow> [ch])"
    by (simp_all add: PopOutPipeline_def Let_def signal_done_def send_signal_def split: option.split)
  with PopOut_eq_caches [OF e, of p] dq_inv_PopOut [OF assms, of p] show ?thesis
    by (auto simp: Let_def keys_InPending keys_InProcessing can_pop_def)
qed

theorem PopOutPipeline_effect_witness:
  "\<not> InProcessing (dq_eq (PopOutPipeline (example_pipeline 1 30) three_waiting)) ''1''"
proof -
  have "makeItemKey (example_pipeline 1 30) = ''1''" by code_simp
  with PopOutPipeline_effect [OF three_waiting_ok(1), of "example_pipeline 1 30"] show ?thesis
    by (simp add: Let_def)
qed

text \<open>
  raising the priorities of pending pipelines puts them, in the given order, at the head of the
  queue: the first becomes the next to be popped, each has one less than the one before, all
  are above the former head, and no other entry changes.\<close>

theorem BatchUpdate_moves_to_the_head:
  assumes inv: "dq_inv q" and top: "Peek (eq_pending (dq_eq q)) = Some front"
    and ok: "list_all raisable ps" and dist: "distinct (map p_ID ps)"
    and pending: "list_all (\<lambda>p. InPending (dq_eq q) (makeItemKey p)) ps"
    and range: "0 < di_priority front" "di_priority front + int (length ps) < 2 ^ 63"
  shows "\<exists>q'. q_BatchUpdatePipelinePriorityInQueue (\<lambda>_. None) now ps q = Some (None, q') \<and>
    (\<forall>i<length ps. map_option fst (pending_of (dq_eq q') (makeItemKey (ps ! i))) =
       Some (di_priority front + int (length ps) - int i)) \<and>
    (\<forall>k. k \<notin> makeItemKey ` set ps \<longrightarrow> pending_of (dq_eq q') k = pending_of (dq_eq q) k) \<and>
    (ps \<noteq> [] \<longrightarrow> map_option di_key (Peek (eq_pending (dq_eq q'))) = Some (makeItemKey (hd ps)))"
proof -
  let ?pr = "di_priority front + int (length ps)" and ?q = "q\<lparr>dq_updatingPendingQueue := True\<rparr>"
  have invq: "dq_inv ?q" using inv by (simp add: dq_inv_def)
  obtain q' where q': "update_priorities (\<lambda>_. None) now ?pr ps ?q = Some (None, q')" "dq_inv q'"
    "\<forall>i<length ps. map_option fst (pending_of (dq_eq q') (makeItemKey (ps ! i))) = Some (?pr - int i)"
    "\<forall>k. k \<notin> makeItemKey ` set ps \<longrightarrow> pending_of (dq_eq q') k = pending_of (dq_eq q) k"
    using update_priorities_ok [OF ok dist invq, of ?pr now] range by auto
  have w: "wrap64 ?pr = ?pr" using range by (intro wrap64_id) (simp add: is_int64_def)
  have none: "filter (\<lambda>p. \<not> InPending (dq_eq ?q) (makeItemKey p)) ps = []"
    using pending by (simp add: filter_empty_conv list_all_iff)
  have batch: "q_BatchUpdatePipelinePriorityInQueue (\<lambda>_. None) now ps q =
      Some (None, unsetIsUpdatingPendingQueueFlag q')"
    using top none w q'(1)
    by (simp add: q_BatchUpdatePipelinePriorityInQueue_def PendingQueue_def Let_def)
  have same: "dq_eq (unsetIsUpdatingPendingQueueFlag q') = dq_eq q'"
    by (simp add: unsetIsUpdatingPendingQueueFlag_def)
  have p_inv: "pq_inv (eq_pending (dq_eq q'))" "pq_inv (eq_pending (dq_eq q))"
    using q'(2) inv by (simp_all add: dq_inv_def eq_inv_def)
  have old: "a \<le> di_priority front" if "pending_of (dq_eq q) k = Some (a, t)" for k a t
    using first_item_least [OF p_inv(2) that] top by (auto simp: Peek_def rank_def split: if_splits)
  have "map_option di_key (Peek (eq_pending (dq_eq q'))) = Some (makeItemKey (hd ps))" if ne: "ps \<noteq> []"
  proof -
    let ?first = "item_at (eq_pending (dq_eq q')) 0"
    have hd: "ps ! 0 = hd ps" "0 < length ps" using ne by (simp_all add: hd_conv_nth)
    have "map_option fst (pending_of (dq_eq q') (makeItemKey (ps ! 0))) = Some (?pr - int 0)"
      using q'(3) hd(2) by blast
    then obtain t where t: "pending_of (dq_eq q') (makeItemKey (hd ps)) = Some (?pr, t)"
      unfolding hd(1) by auto
    note least = first_item_least [OF p_inv(1) t]
    define a where "a = di_priority ?first"
    have f: "pending_of (dq_eq q') (di_key ?first) = Some (a, di_creationTime ?first)"
      unfolding a_def by (rule contents_first [OF p_inv(1) least(1)])
    have le: "?pr \<le> a" using least(2) by (auto simp: rank_def a_def)
    have "di_key ?first = makeItemKey (hd ps)"
    proof (cases "di_key ?first \<in> makeItemKey ` set ps")
      case True
      then obtain i where i: "i < length ps" "di_key ?first = makeItemKey (ps ! i)"
        by (auto simp: in_set_conv_nth)
      with q'(3) f have "a = ?pr - int i" by auto
      with le have "i = 0" by simp
      with i(2) hd(1) show ?thesis by simp
    next
      case False
      then have "pending_of (dq_eq q) (di_key ?first) = Some (a, di_creationTime ?first)"
        using q'(4) f by simp
      from old [OF this] le hd(2) show ?thesis by simp
    qed
    with least(1) show ?thesis by (simp add: Peek_def)
  qed
  with batch q'(3,4) same show ?thesis by auto
qed

theorem BatchUpdate_moves_to_the_head_witness:
  "\<exists>q'. q_BatchUpdatePipelinePriorityInQueue (\<lambda>_. None) 0 [example_pipeline 3 10] three_waiting = Some (None, q') \<and>
     map_option di_key (Peek (eq_pending (dq_eq q'))) = Some ''3''"
proof -
  have top: "Peek (eq_pending (dq_eq three_waiting)) =
      Some (item_at (eq_pending (dq_eq three_waiting)) 0)"
    using three_waiting_ok(2) by (simp add: Peek_def)
  have key: "makeItemKey (example_pipeline 3 10) = ''3''" by code_simp
  have "InPending (dq_eq three_waiting) ''3''" by code_simp
  then have pend: "list_all (\<lambda>p. InPending (dq_eq three_waiting) (makeItemKey p)) [example_pipeline 3 10]"
    by (simp add: key)
  have pr: "di_priority (item_at (eq_pending (dq_eq three_waiting)) 0) = 30" by code_simp
  have ok: "list_all raisable [example_pipeline 3 10]"
    by (simp add: raisable_def example_pipeline_def valid_id_def) code_simp
  show ?thesis
    using BatchUpdate_moves_to_the_head [OF three_waiting_ok(1) top ok _ pend, of 0] by (auto simp: pr key)
qed

end
