(* ===== verification/Strutil.thy ===== *)
theory Strutil
  imports Go_Strings Go_Prelude
begin

text \<open>
  The package \<^verbatim>\<open>src/pkg/strutil\<close>, over the functions of \<open>strings\<close> it calls. An optional
  last argument of the source is a list here, whose first element counts. Strings are lists of
  bytes and letters are those of ASCII. A slice expression or a count out of range is \<open>None\<close>.
  The lemmas show that splitting and joining are inverse, that normalised text has the promised
  form, that \<open>ReverseSlice\<close> reverses, and that the text \<open>ParseVersion\<close> makes of a version
  orders versions by their numbers.
\<close>

section \<open>Package strings\<close>

definition is_space :: "char \<Rightarrow> bool" where
  "is_space c \<longleftrightarrow> c \<in> set [CHR 0x09, CHR 0x0A, CHR 0x0B, CHR 0x0C, CHR 0x0D, CHR 0x20]"

definition trim_left :: "(char \<Rightarrow> bool) \<Rightarrow> string \<Rightarrow> string" where
  "trim_left f s = dropWhile f s"

definition trim_right :: "(char \<Rightarrow> bool) \<Rightarrow> string \<Rightarrow> string" where
  "trim_right f s = rev (dropWhile f (rev s))"

definition strings_TrimSpace :: "string \<Rightarrow> string" where
  "strings_TrimSpace s = trim_right is_space (trim_left is_space s)"

text \<open>What stands before and after the first occurrence of \<open>sep\<close>.\<close>

fun strings_Cut :: "string \<Rightarrow> string \<Rightarrow> (string \<times> string) option" where
  "strings_Cut sep [] = (if sep = [] then Some ([], []) else None)"
| "strings_Cut sep (c # s) =
     (if prefix sep (c # s) then Some ([], drop (length sep) (c # s))
      else map_option (\<lambda>(a, b). (c # a, b)) (strings_Cut sep s))"

text \<open>At most \<open>n\<close> cuts.\<close>

fun gen_split :: "nat \<Rightarrow> string \<Rightarrow> string \<Rightarrow> string list" where
  "gen_split 0 sep s = [s]"
| "gen_split (Suc n) sep s =
     (case strings_Cut sep s of
        None \<Rightarrow> [s]
      | Some (a, b) \<Rightarrow> a # gen_split n sep b)"

definition explode :: "nat \<Rightarrow> string \<Rightarrow> string list" where
  "explode n s =
     (if length s \<le> n then map (\<lambda>c. [c]) s
      else map (\<lambda>c. [c]) (take (n - 1) s) @ [drop (n - 1) s])"

definition strings_SplitN :: "string \<Rightarrow> string \<Rightarrow> int \<Rightarrow> string list" where
  "strings_SplitN s sep n =
     (if n = 0 then []
      else if sep = [] then explode (if n < 0 then length s else nat n) s
      else gen_split (if n < 0 then length s else nat n - 1) sep s)"

definition strings_Split :: "string \<Rightarrow> string \<Rightarrow> string list" where
  "strings_Split s sep = strings_SplitN s sep (- 1)"

text \<open>Every occurrence of \<open>old\<close>, from the left, is replaced; \<open>old\<close> is not empty.\<close>

definition replace_all :: "string \<Rightarrow> string \<Rightarrow> string \<Rightarrow> string" where
  "replace_all old new s = strings_Join (strings_Split s old) new"

definition strings_Repeat :: "string \<Rightarrow> int \<Rightarrow> string option" where
  "strings_Repeat s n = (if n < 0 then None else Some (concat (replicate (nat n) s)))"

definition upper_char :: "char \<Rightarrow> char" where
  "upper_char c =
     (if 97 \<le> (of_char c :: nat) \<and> (of_char c :: nat) \<le> 122 then char_of ((of_char c :: nat) - 32) else c)"

definition is_letter :: "char \<Rightarrow> bool" where
  "is_letter c \<longleftrightarrow> (65 \<le> (of_char c :: nat) \<and> (of_char c :: nat) \<le> 90) \<or> (97 \<le> (of_char c :: nat) \<and> (of_char c :: nat) \<le> 122)"

definition is_alnum :: "char \<Rightarrow> bool" where
  "is_alnum c \<longleftrightarrow> is_letter c \<or> is_digit c"

section \<open>Trimming\<close>

definition strutil_Trim :: "string \<Rightarrow> string list \<Rightarrow> string" where
  "strutil_Trim s cutset = (case cutset of [] \<Rightarrow> strings_TrimSpace s | c # _ \<Rightarrow> strings_Trim s c)"

definition TrimLeft :: "string \<Rightarrow> string list \<Rightarrow> string" where
  "TrimLeft s cutset =
     (case cutset of [] \<Rightarrow> trim_left is_space s | cs # _ \<Rightarrow> trim_left (\<lambda>c. c \<in> set cs) s)"

definition TrimRight :: "string \<Rightarrow> string list \<Rightarrow> string" where
  "TrimRight s cutset =
     (case cutset of [] \<Rightarrow> trim_right is_space s | cs # _ \<Rightarrow> trim_right (\<lambda>c. c \<in> set cs) s)"

fun TrimSuffixes :: "string \<Rightarrow> string list \<Rightarrow> string" where
  "TrimSuffixes s [] = s"
| "TrimSuffixes s (p # ps) =
     (if length (strings_TrimSuffix s p) \<noteq> length s then strings_TrimSuffix s p
      else TrimSuffixes s ps)"

definition TrimSlice :: "string list \<Rightarrow> string list \<Rightarrow> string list" where
  "TrimSlice ss cutset = map (\<lambda>s. strutil_Trim s cutset) ss"

definition TrimSliceLeft :: "string list \<Rightarrow> string list \<Rightarrow> string list" where
  "TrimSliceLeft ss cutset = map (\<lambda>s. TrimLeft s cutset) ss"

definition TrimSliceRight :: "string list \<Rightarrow> string list \<Rightarrow> string list" where
  "TrimSliceRight ss cutset = map (\<lambda>s. TrimRight s cutset) ss"

definition TrimSliceSuffixes :: "string list \<Rightarrow> string list \<Rightarrow> string list" where
  "TrimSliceSuffixes ss sufs = map (\<lambda>s. TrimSuffixes s sufs) ss"

definition TrimSlicePrefixes :: "string list \<Rightarrow> string list \<Rightarrow> string list" where
  "TrimSlicePrefixes ss prefs = map (\<lambda>s. TrimPrefixes s prefs) ss"

fun HasPrefixes :: "string \<Rightarrow> string list \<Rightarrow> bool" where
  "HasPrefixes s [] = False"
| "HasPrefixes s (p # ps) = (if prefix p s then True else HasPrefixes s ps)"

fun HasSuffixes :: "string \<Rightarrow> string list \<Rightarrow> bool" where
  "HasSuffixes s [] = False"
| "HasSuffixes s (p # ps) = (if suffix p s then True else HasSuffixes s ps)"

section \<open>Layout\<close>

text \<open>A run of characters of the regular expression becomes one blank.\<close>

definition is_blank :: "char \<Rightarrow> bool" where
  "is_blank c \<longleftrightarrow> c \<in> set [CHR 0x20, CHR 0x09, CHR 0x0A, CHR 0x0D]"

function CollapseWhitespace :: "string \<Rightarrow> string" where
  "CollapseWhitespace [] = []"
| "CollapseWhitespace (c # s) =
     (if is_blank c then CHR 0x20 # CollapseWhitespace (dropWhile is_blank s) else c # CollapseWhitespace s)"
  by pat_completeness auto
termination
  by (relation "measure length") (auto simp: le_imp_less_Suc length_dropWhile_le)

definition Center :: "string \<Rightarrow> int \<Rightarrow> string" where
  "Center s n =
     (let minus = wrap64 (n - int (length s))
      in if minus \<le> 0 then s
         else
           let right = minus div 2; m = minus mod 2
           in replicate (nat (right + m)) CHR 0x20 @ s @ replicate (nat right) CHR 0x20)"

definition Truncate :: "string \<Rightarrow> int \<Rightarrow> string option" where
  "Truncate s n =
     (if int (length s) > n then
        (if wrap64 (n - 3) < 0 \<or> wrap64 (n - 3) > int (length s) then None
         else Some (take (nat (wrap64 (n - 3))) s @ ''...''))
      else Some s)"

section \<open>Splitting and joining\<close>

definition opt_true :: "bool list \<Rightarrow> bool" where
  "opt_true opt \<longleftrightarrow> (case opt of [] \<Rightarrow> False | b # _ \<Rightarrow> b)"

definition strutil_Split :: "string \<Rightarrow> string \<Rightarrow> bool list \<Rightarrow> string list" where
  "strutil_Split s sep omitEmptyOpt =
     (let parts = strings_Split s sep
      in if \<not> opt_true omitEmptyOpt then parts else filter (\<lambda>v. v \<noteq> []) parts)"

text \<open>The pieces between newlines, which are CR LF, LF or CR.\<close>

fun split_lines :: "string \<Rightarrow> string \<Rightarrow> string list" where
  "split_lines acc [] = [rev acc]"
| "split_lines acc (c # s) =
     (if c = CHR 0x0D then
        rev acc # (case s of
                     [] \<Rightarrow> split_lines [] []
                   | d # s' \<Rightarrow> if d = CHR 0x0A then split_lines [] s' else split_lines [] (d # s'))
      else if c = CHR 0x0A then rev acc # split_lines [] s
      else split_lines (c # acc) s)"

definition Lines :: "string \<Rightarrow> bool list \<Rightarrow> string list" where
  "Lines s omitEmptyOpt =
     (let ls = split_lines [] s
      in if \<not> opt_true omitEmptyOpt then ls else filter (\<lambda>l. l \<noteq> []) ls)"

definition Concat :: "string list \<Rightarrow> string" where
  "Concat ss = strings_Join ss ''''"

definition SplitIfEmptyString :: "string \<Rightarrow> string \<Rightarrow> string list" where
  "SplitIfEmptyString s sep = (if s = [] then [] else strings_SplitN s sep (- 1))"

definition NormalizeNewlines :: "string \<Rightarrow> string" where
  "NormalizeNewlines d =
     replace_all [CHR 0x0D] [CHR 0x0A] (replace_all [CHR 0x0D, CHR 0x0A] [CHR 0x0A] d)"

section \<open>Comparing and converting\<close>

definition strings_ToUpper :: "string \<Rightarrow> string" where
  "strings_ToUpper s = map upper_char s"

text \<open>Letters, digits and the underscore are no separators of words.\<close>

definition is_separator :: "char \<Rightarrow> bool" where
  "is_separator c \<longleftrightarrow> \<not> (is_alnum c \<or> c = CHR 0x5F)"

fun title_loop :: "char \<Rightarrow> string \<Rightarrow> string" where
  "title_loop prev [] = []"
| "title_loop prev (c # s) = (if is_separator prev then upper_char c else c) # title_loop c s"

definition strings_Title :: "string \<Rightarrow> string" where
  "strings_Title s = title_loop CHR 0x20 s"

fun strutil_Contains :: "string \<Rightarrow> string list \<Rightarrow> bool" where
  "strutil_Contains s [] = False"
| "strutil_Contains s (sub # subs) = (if strings_Contains s sub then True else strutil_Contains s subs)"

definition strutil_Equal :: "string \<Rightarrow> string \<Rightarrow> bool list \<Rightarrow> bool" where
  "strutil_Equal s other ignorecase \<longleftrightarrow>
     (if \<not> opt_true ignorecase then s = other else strings_EqualFold s other)"

text \<open>\<open>strconv.ParseInt\<close> in base 10 with 64 bits; \<open>None\<close> is a syntax or range error.\<close>

definition Atoi64 :: "string \<Rightarrow> int option" where
  "Atoi64 s =
     (case s of
        [] \<Rightarrow> None
      | c # ds \<Rightarrow>
          let neg = (c = CHR 0x2D); ds = (if neg \<or> c = CHR 0x2B then ds else s)
          in (case ParseUint ds of
                None \<Rightarrow> None
              | Some n \<Rightarrow>
                  if neg then (if int n \<le> 2 ^ 63 then Some (- int n) else None)
                  else if int n < 2 ^ 63 then Some (int n) else None))"

section \<open>Slices\<close>

fun strutil_Map :: "string list \<Rightarrow> (string \<Rightarrow> string) list \<Rightarrow> string list" where
  "strutil_Map r [] = r"
| "strutil_Map r (f # fs) = strutil_Map (map f r) fs"

fun dedup_ints :: "bool \<Rightarrow> int list \<Rightarrow> int list \<Rightarrow> int list" where
  "dedup_ints omitZero result [] = result"
| "dedup_ints omitZero result (i # ii) =
     (if i = 0 \<and> omitZero then dedup_ints omitZero result ii
      else if i \<in> set result then dedup_ints omitZero result ii
      else dedup_ints omitZero (result @ [i]) ii)"

definition DedupUint64Slice :: "nat list \<Rightarrow> bool list \<Rightarrow> nat list" where
  "DedupUint64Slice ii omitZeroOpt = map nat (dedup_ints (opt_true omitZeroOpt) [] (map int ii))"

definition DedupInt64Slice :: "int list \<Rightarrow> bool list \<Rightarrow> int list" where
  "DedupInt64Slice ii omitZeroOpt = dedup_ints (opt_true omitZeroOpt) [] ii"

definition IntersectionUin64Slice :: "nat list \<Rightarrow> nat list \<Rightarrow> nat list" where
  "IntersectionUin64Slice s1 s2 =
     (if length s1 = 0 then []
      else if length s2 = 0 then s1
      else filter (\<lambda>i. list_ex (\<lambda>j. i = j) s2) s1)"

definition IntersectionInt64Slice :: "int list \<Rightarrow> int list \<Rightarrow> int list" where
  "IntersectionInt64Slice s1 s2 = filter (\<lambda>v. v \<in> set s1) s2"

definition RemoveSlice :: "string list \<Rightarrow> string list \<Rightarrow> string list" where
  "RemoveSlice ss removes = filter (\<lambda>s. s \<notin> set removes) ss"

fun Exist :: "string list \<Rightarrow> string \<Rightarrow> bool" where
  "Exist [] val = False"
| "Exist (v # vs) val = (if v = val then True else Exist vs val)"

fun InSlice :: "string \<Rightarrow> string list \<Rightarrow> bool" where
  "InSlice item [] = False"
| "InSlice item (v # vs) = (if item = v then True else InSlice item vs)"

text \<open>The loop of \<open>ReverseSlice\<close>, which swaps in place, from index \<open>i\<close>, with \<open>n\<close> swaps to go.\<close>

fun swap_ends :: "nat \<Rightarrow> nat \<Rightarrow> 'a list \<Rightarrow> 'a list" where
  "swap_ends 0 i ss = ss"
| "swap_ends (Suc n) i ss =
     (let last = length ss - 1
      in swap_ends n (Suc i) (ss[i := ss ! (last - i), last - i := ss ! i]))"

definition ReverseSlice :: "string list \<Rightarrow> string list" where
  "ReverseSlice ss = swap_ends (length ss div 2) 0 ss"

definition FlatErrors :: "string list \<Rightarrow> string \<Rightarrow> string" where
  "FlatErrors errs sep = strutil_Join errs sep True"

section \<open>Versions\<close>

text \<open>
  \<open>ParseVersion\<close> writes a run of digits as its length in one byte and the digits without
  leading zeros. The state is the text so far and the position \<open>j\<close> of the length of the open
  run. The length is a byte: it wraps, and the test on \<open>maxByte\<close> never succeeds.
\<close>

fun version_loop :: "string \<Rightarrow> nat option \<Rightarrow> string \<Rightarrow> string" where
  "version_loop vo j [] = vo"
| "version_loop vo j (b # rest) =
     (if \<not> is_digit b then version_loop (vo @ [b]) None rest
      else
        let (vo, j) = (case j of None \<Rightarrow> (vo @ [CHR 0x00], length vo) | Some j \<Rightarrow> (vo, j))
        in if vo ! j = CHR 0x01 \<and> vo ! Suc j = CHR 0x30
           then version_loop (vo[Suc j := b]) (Some j) rest
           else version_loop ((vo @ [b])[j := char_of (((of_char (vo ! j) :: nat) + 1) mod 256)]) (Some j) rest)"

definition ParseVersion :: "string \<Rightarrow> string" where
  "ParseVersion version = version_loop [] None version"

section \<open>Names and validators\<close>

definition valid_name_char :: "char \<Rightarrow> bool" where
  "valid_name_char c \<longleftrightarrow> is_digit c \<or> (97 \<le> (of_char c :: nat) \<and> (of_char c :: nat) \<le> 122)"

text \<open>\<open>^[a-z0-9]+(?:(?:(?:[-]*)[a-z0-9]+)+)?$\<close>, read from the left.\<close>

fun name_rest :: "string \<Rightarrow> bool" where
  "name_rest [] = False"
| "name_rest [c] = valid_name_char c"
| "name_rest (c # d # s) = ((valid_name_char c \<or> c = CHR 0x2D) \<and> name_rest (d # s))"

definition IsValidPrjOrAppName :: "string \<Rightarrow> bool" where
  "IsValidPrjOrAppName repo \<longleftrightarrow>
     (case repo of [] \<Rightarrow> False | c # s \<Rightarrow> valid_name_char c \<and> (s = [] \<or> name_rest s))"

fun Validate :: "string \<Rightarrow> (string \<Rightarrow> string option) list \<Rightarrow> string option" where
  "Validate s [] = None"
| "Validate s (v # vs) = (case v s of Some e \<Rightarrow> Some e | None \<Rightarrow> Validate s vs)"

definition Itoa :: "int \<Rightarrow> string" where
  "Itoa n = (if n < 0 then ''-'' @ FormatUint (nat (- n)) else FormatUint (nat n))"

definition MinLenValidator :: "int \<Rightarrow> string \<Rightarrow> string option" where
  "MinLenValidator minLen s =
     (if int (length s) < minLen
      then Some (if minLen = 1 then ''cannot be empty'' else ''less than min length: '' @ Itoa minLen)
      else None)"

definition MaxLenValidator :: "int \<Rightarrow> string \<Rightarrow> string option" where
  "MaxLenValidator maxLen s =
     (if int (length s) > maxLen then Some (''over max length: '' @ Itoa maxLen) else None)"

definition env_key_line :: "string \<Rightarrow> bool" where
  "env_key_line s \<longleftrightarrow>
     (case s of
        [] \<Rightarrow> False
      | c # cs \<Rightarrow> (is_letter c \<or> c = CHR 0x5F) \<and> list_all (\<lambda>d. is_alnum d \<or> d = CHR 0x5F) cs)"

text \<open>
  \<open>^[a-zA-Z_]+[a-zA-Z0-9_]*$\<close>, compiled by \<open>MustCompilePOSIX\<close>: without the Perl flags \<open>^\<close> and
  \<open>$\<close> stand for the ends of a line, so one line of the text is enough.
\<close>

definition EnvKeyValidator :: "string \<Rightarrow> string option" where
  "EnvKeyValidator s =
     (if list_ex env_key_line (strings_Split s [CHR 0x0A]) then None
      else Some (''illegal env key, validated by regexp: ^[a-zA-Z_]+[a-zA-Z0-9_]*$''))"

definition EnvValueLenValidator :: "string \<Rightarrow> string option" where
  "EnvValueLenValidator = MaxLenValidator (128 * 1024)"

text \<open>\<open>^([A-Za-z0-9][-A-Za-z0-9_.]*)?[A-Za-z0-9]$\<close>\<close>

definition AlphaNumericDashUnderscoreValidator :: "string \<Rightarrow> string option" where
  "AlphaNumericDashUnderscoreValidator s =
     (if s \<noteq> [] \<and> is_alnum (hd s) \<and> is_alnum (last s) \<and>
         list_all (\<lambda>c. is_alnum c \<or> c \<in> set ''-_.'') s
      then None else Some (''valid regexp: ^([A-Za-z0-9][-A-Za-z0-9_.]*)?[A-Za-z0-9]$''))"

fun snake_loop :: "bool \<Rightarrow> string \<Rightarrow> string" where
  "snake_loop big [] = []"
| "snake_loop big (c # s) =
     (if c = CHR 0x5F then snake_loop True s
      else (if big then upper_char c else c) # snake_loop False s)"

definition SnakeToUpCamel :: "string \<Rightarrow> string" where
  "SnakeToUpCamel name = snake_loop True name"

section \<open>Splitting and joining are inverse\<close>

lemma strings_Cut_Some: "strings_Cut sep s = Some (a, b) \<Longrightarrow> s = a @ sep @ b"
  by (induction s arbitrary: a) (auto split: if_splits simp: prefix_def)

lemma strings_Cut_None: "strings_Cut sep s = None \<longleftrightarrow> \<not> strings_Contains s sep"
  by (induction s) (auto split: if_splits)

lemma strings_Join_Cons: "ss \<noteq> [] \<Longrightarrow> strings_Join (s # ss) sep = s @ sep @ strings_Join ss sep"
  by (cases ss) simp_all

lemma gen_split_neq_Nil [simp]: "gen_split n sep s \<noteq> []"
  by (cases n) (auto split: option.splits)

lemma Join_gen_split: "strings_Join (gen_split n sep s) sep = s"
proof (induction n arbitrary: s)
  case (Suc n)
  show ?case
  proof (cases "strings_Cut sep s")
    case (Some ab)
    then obtain a b where "strings_Cut sep s = Some (a, b)" by (cases ab) auto
    then show ?thesis using Suc [of b] strings_Cut_Some [of sep s a b] by (simp add: strings_Join_Cons)
  qed simp
qed simp

lemma Join_singletons: "strings_Join (map (\<lambda>c. [c]) s) '''' = s"
  by (induction s rule: induct_list012) simp_all

text \<open>Enough cuts leave no separator in a piece.\<close>

lemma strings_Cut_first:
  assumes "sep \<noteq> []" and "strings_Cut sep s = Some (a, b)" shows "\<not> strings_Contains a sep"
  using assms(2)
proof (induction s arbitrary: a)
  case (Cons c s)
  show ?case
  proof (cases "prefix sep (c # s)")
    case True
    with Cons.prems assms(1) show ?thesis by auto
  next
    case False
    then obtain a' where a: "a = c # a'" "strings_Cut sep s = Some (a', b)" using Cons.prems by auto
    then have "\<not> prefix sep (c # a')"
      using False strings_Cut_Some [OF a(2)] by (metis append_Cons prefix_append)
    with Cons.IH [OF a(2)] a(1) show ?thesis by simp
  qed
qed (use assms(1) in simp)

lemma gen_split_pieces:
  assumes "sep \<noteq> []" shows "length s \<le> n \<Longrightarrow> p \<in> set (gen_split n sep s) \<Longrightarrow> \<not> strings_Contains p sep"
proof (induction n arbitrary: s)
  case 0
  then show ?case using assms by simp
next
  case (Suc n)
  show ?case
  proof (cases "strings_Cut sep s")
    case None
    with Suc.prems show ?thesis by (simp add: strings_Cut_None)
  next
    case (Some ab)
    then obtain a b where c: "strings_Cut sep s = Some (a, b)" by (cases ab) auto
    have "length b \<le> n" using strings_Cut_Some [OF c] Suc.prems(1) assms by (cases sep) auto
    with c Suc strings_Cut_first [OF assms c] show ?thesis by auto
  qed
qed

lemma strings_Split_eq: "sep \<noteq> [] \<Longrightarrow> strings_Split s sep = gen_split (length s) sep s"
  by (simp add: strings_Split_def strings_SplitN_def)

lemma Join_Split: "strings_Join (strings_Split s sep) sep = s"
proof (cases "sep = []")
  case True
  then show ?thesis by (simp add: strings_Split_def strings_SplitN_def explode_def Join_singletons)
qed (simp add: strings_Split_eq Join_gen_split)

lemma strings_Cut_char:
  "c \<notin> set a \<Longrightarrow> strings_Cut [c] (a @ c # b) = Some (a, b)" "c \<notin> set a \<Longrightarrow> strings_Cut [c] a = None"
  by (induction a) auto

lemma gen_split_Join:
  assumes "ss \<noteq> []" and "\<forall>s\<in>set ss. c \<notin> set s"
  shows "length ss \<le> Suc n \<Longrightarrow> gen_split n [c] (strings_Join ss [c]) = ss"
  using assms
proof (induction ss arbitrary: n)
  case (Cons s ss)
  show ?case
  proof (cases "ss = []")
    case True
    with Cons.prems show ?thesis by (cases n) (simp_all add: strings_Cut_char)
  next
    case False
    then obtain m where n: "n = Suc m" using Cons.prems(1) by (cases n) (auto simp: neq_Nil_conv)
    have "strings_Cut [c] (strings_Join (s # ss) [c]) = Some (s, strings_Join ss [c])"
      using False Cons.prems by (simp add: strings_Join_Cons strings_Cut_char)
    with Cons False n show ?thesis by simp
  qed
qed simp

lemma length_Join: "length ss \<le> Suc (length (strings_Join ss [c]))"
  by (induction ss rule: induct_list012) auto

lemma Split_Join:
  "ss \<noteq> [] \<Longrightarrow> \<forall>s\<in>set ss. c \<notin> set s \<Longrightarrow> strings_Split (strings_Join ss [c]) [c] = ss"
  using gen_split_Join [of ss c] length_Join [of ss c] by (simp add: strings_Split_eq)

text \<open>
  splitting and joining are inverse. The pieces \<open>Split\<close> makes, joined with the same
  separator, are the text again, and no piece contains the separator; and fields
  joined with a character none of them contains are found again by \<open>Split\<close>.\<close>

theorem Split_Join_inverse:
  "strutil_Join (strutil_Split s sep []) sep False = s \<and>
   (sep \<noteq> [] \<longrightarrow> list_all (\<lambda>p. \<not> strings_Contains p sep) (strutil_Split s sep [])) \<and>
   (ss \<noteq> [] \<and> (\<forall>f\<in>set ss. c \<notin> set f) \<longrightarrow> strutil_Split (strutil_Join ss [c] False) [c] [] = ss)"
  using Join_Split gen_split_pieces [of sep s "length s"] Split_Join [of ss c]
  by (auto simp: strutil_Split_def opt_true_def strutil_Join_def strings_Split_eq list_all_iff)

theorem Split_Join_inverse_witness:
  "strutil_Split ''a|bc|12||3'' ''|'' [] = [''a'', ''bc'', ''12'', '''', ''3''] \<and>
   strutil_Join (strutil_Split ''a||b'' ''||'' []) ''||'' False = ''a||b'' \<and>
   list_all (\<lambda>p. \<not> strings_Contains p ''||'') (strutil_Split ''a||b'' ''||'' [])"
proof -
  have "strutil_Split (strutil_Join [''a'', ''bc'', ''12'', '''', ''3''] ''|'' False) ''|'' [] = [''a'', ''bc'', ''12'', '''', ''3'']"
    using Split_Join_inverse [of "''a||b''" "''||''" "[''a'', ''bc'', ''12'', '''', ''3'']" "CHR ''|''"] by simp
  then show ?thesis
    using Split_Join_inverse [of "''a||b''" "''||''" "[]" "CHR ''|''"] by (simp add: strutil_Join_def)
qed

section \<open>Newlines\<close>

text \<open>Replacing every CR LF and then every CR, in one pass.\<close>

fun normal_lines :: "string \<Rightarrow> string" where
  "normal_lines [] = []"
| "normal_lines (c # s) =
     (if c = CHR 0x0D then
        CHR 0x0A # (case s of
                      [] \<Rightarrow> []
                    | d # s' \<Rightarrow> if d = CHR 0x0A then normal_lines s' else normal_lines (d # s'))
      else c # normal_lines s)"

fun replace_crlf :: "string \<Rightarrow> string" where
  "replace_crlf (c # d # s) =
     (if c = CHR 0x0D \<and> d = CHR 0x0A then CHR 0x0A # replace_crlf s else c # replace_crlf (d # s))"
| "replace_crlf s = s"

lemma replace_all_char:
  "replace_all [c] [d] s = map (\<lambda>x. if x = c then d else x) s"
proof -
  have "length s \<le> n \<Longrightarrow> strings_Join (gen_split n [c] s) [d] = map (\<lambda>x. if x = c then d else x) s" for n
  proof (induction n arbitrary: s)
    case (Suc n)
    show ?case
    proof (cases "c \<in> set s")
      case True
      then obtain a b where s: "s = a @ c # b" "c \<notin> set a" by (meson split_list_first)
      with Suc.prems have "length b \<le> n" by simp
      moreover have "map (\<lambda>x. if x = c then d else x) a = a" using s(2) by (intro map_idI) auto
      ultimately show ?thesis using Suc.IH [of b] s by (simp add: strings_Cut_char strings_Join_Cons)
    next
      case False
      then have "map (\<lambda>x. if x = c then d else x) s = s" by (intro map_idI) auto
      with False show ?thesis by (simp add: strings_Cut_char)
    qed
  qed simp
  then show ?thesis by (simp add: replace_all_def strings_Split_eq)
qed

text \<open>What is before the first occurrence of \<open>sep\<close> can be taken character by character.\<close>

lemma Join_gen_split_Cons:
  assumes "\<not> prefix sep (c # s)"
  shows "strings_Join (gen_split n sep (c # s)) new = c # strings_Join (gen_split n sep s) new"
proof (cases n)
  case (Suc m)
  show ?thesis
  proof (cases "strings_Cut sep s")
    case None
    with assms Suc show ?thesis by simp
  next
    case (Some ab)
    then obtain a b where "strings_Cut sep s = Some (a, b)" by (cases ab) auto
    with assms Suc show ?thesis by (simp add: strings_Join_Cons)
  qed
qed simp

lemma Join_gen_split_crlf:
  "length s \<le> n \<Longrightarrow> strings_Join (gen_split n [CHR 0x0D, CHR 0x0A] s) [CHR 0x0A] = replace_crlf s"
proof (induction s arbitrary: n rule: replace_crlf.induct)
  case (1 c d s)
  show ?case
  proof (cases "c = CHR 0x0D \<and> d = CHR 0x0A")
    case True
    obtain m where n: "n = Suc m" using 1(3) by (cases n) auto
    have "strings_Cut [CHR 0x0D, CHR 0x0A] (c # d # s) = Some ([], s)" using True by simp
    with True n 1(1) [OF True, of m] 1(3) show ?thesis by (simp add: strings_Join_Cons)
  next
    case False
    have "\<not> prefix [CHR 0x0D, CHR 0x0A] (c # d # s)" using False by auto
    moreover have "strings_Join (gen_split n [CHR 0x0D, CHR 0x0A] (d # s)) [CHR 0x0A] = replace_crlf (d # s)"
      using 1(2) [OF False, of n] 1(3) by simp
    ultimately show ?thesis using False Join_gen_split_Cons by simp
  qed
qed (auto split: option.splits, (case_tac n; simp)+)

lemma replace_crlf_head: "s = [] \<or> hd s \<noteq> CHR 0x0A \<Longrightarrow> replace_crlf (CHR 0x0D # s) = CHR 0x0D # replace_crlf s"
  by (cases s) auto

lemma NormalizeNewlines_eq: "NormalizeNewlines s = normal_lines s"
proof -
  have "map (\<lambda>x. if x = CHR 0x0D then CHR 0x0A else x) (replace_crlf s) = normal_lines s"
    by (induction s rule: replace_crlf.induct) (auto split: list.splits)
  moreover have "replace_all [CHR 0x0D, CHR 0x0A] [CHR 0x0A] s = replace_crlf s"
    by (simp add: replace_all_def strings_Split_eq Join_gen_split_crlf)
  ultimately show ?thesis by (simp add: NormalizeNewlines_def replace_all_char)
qed

lemma split_lines_normal: "split_lines acc (normal_lines s) = split_lines acc s"
proof (induction s arbitrary: acc rule: normal_lines.induct)
  case (2 c s)
  show ?case
  proof (cases "c = CHR 0x0D")
    case True
    then show ?thesis using 2(1,2) by (cases s) auto
  next
    case False
    with 2(3) show ?thesis by auto
  qed
qed simp

lemma normal_lines_no_cr: "CHR 0x0D \<notin> set (normal_lines s)"
  by (induction s rule: normal_lines.induct) (auto split: list.splits)

text \<open>
  \<open>NormalizeNewlines\<close> leaves no carriage return, and text and normalised text have the
  same lines, whatever mixture of Unix, Windows and Mac newlines the text has.\<close>

theorem NormalizeNewlines_keeps_lines:
  "CHR 0x0D \<notin> set (NormalizeNewlines s) \<and> Lines (NormalizeNewlines s) omitEmptyOpt = Lines s omitEmptyOpt"
  by (simp add: NormalizeNewlines_eq Lines_def split_lines_normal normal_lines_no_cr)

section \<open>Blanks\<close>

lemma dropWhile_blank_head: "dropWhile is_blank s = [] \<or> \<not> is_blank (hd (dropWhile is_blank s))"
  by (metis hd_dropWhile)

lemma is_blank_space [simp]: "is_blank CHR 0x20" by (simp add: is_blank_def)

lemma CollapseWhitespace_head: "s \<noteq> [] \<Longrightarrow> \<not> is_blank (hd s) \<Longrightarrow> hd (CollapseWhitespace s) = hd s"
  by (cases s) auto

text \<open>No blank but the space, and no two of them in a row.\<close>

fun collapsed :: "string \<Rightarrow> bool" where
  "collapsed (c # d # s) = ((is_blank c \<longrightarrow> c = CHR 0x20 \<and> \<not> is_blank d) \<and> collapsed (d # s))"
| "collapsed [c] = (is_blank c \<longrightarrow> c = CHR 0x20)"
| "collapsed [] = True"

lemma collapsed_Cons:
  "collapsed s \<Longrightarrow> \<not> is_blank c \<Longrightarrow> collapsed (c # s)"
  "collapsed s \<Longrightarrow> s = [] \<or> \<not> is_blank (hd s) \<Longrightarrow> collapsed (CHR 0x20 # s)"
  by (cases s; simp)+

lemma CollapseWhitespace_collapsed: "collapsed (CollapseWhitespace s)"
proof (induction s rule: CollapseWhitespace.induct)
  case (2 c s)
  show ?case
  proof (cases "is_blank c")
    case True
    let ?r = "dropWhile is_blank s"
    have "CollapseWhitespace ?r = [] \<or> \<not> is_blank (hd (CollapseWhitespace ?r))"
      using dropWhile_blank_head [of s] CollapseWhitespace_head [of ?r] by fastforce
    with True 2(1) show ?thesis by (simp add: collapsed_Cons)
  next
    case False
    with 2(2) show ?thesis by (simp add: collapsed_Cons)
  qed
qed simp

lemma CollapseWhitespace_id: "collapsed s \<Longrightarrow> CollapseWhitespace s = s"
  by (induction s rule: collapsed.induct) auto

lemma CollapseWhitespace_idem: "CollapseWhitespace (CollapseWhitespace s) = CollapseWhitespace s"
  by (simp add: CollapseWhitespace_id CollapseWhitespace_collapsed)

section \<open>Reversing\<close>

lemma swap_ends_nth:
  "i + n = length ss div 2 \<Longrightarrow> k < length ss \<Longrightarrow>
   swap_ends n i ss ! k =
     (if i \<le> k \<and> k < length ss - i then ss ! (length ss - 1 - k) else ss ! k) \<and>
   length (swap_ends n i ss) = length ss"
proof (induction n arbitrary: i ss)
  case 0
  then show ?case by (auto intro!: arg_cong [where f = "(!) ss"])
next
  case (Suc n)
  let ?ss = "ss[i := ss ! (length ss - 1 - i), length ss - 1 - i := ss ! i]"
  have i: "i < length ss" "length ss - 1 - i < length ss" "i < length ss - 1 - i" using Suc.prems by auto
  have "swap_ends n (Suc i) ?ss ! k =
      (if Suc i \<le> k \<and> k < length ss - Suc i then ?ss ! (length ss - 1 - k) else ?ss ! k) \<and>
      length (swap_ends n (Suc i) ?ss) = length ss"
    using Suc.IH [of "Suc i" ?ss] Suc.prems by simp
  moreover have "k = i \<or> k = length ss - 1 - i \<or> k < i \<or> length ss - 1 - i < k \<or> (Suc i \<le> k \<and> k < length ss - Suc i)"
    using i by linarith
  ultimately show ?case using i Suc.prems(2) by (auto simp: nth_list_update Let_def)
qed

lemma ReverseSlice_rev: "ReverseSlice ss = rev ss"
proof (rule nth_equalityI)
  show "length (ReverseSlice ss) = length (rev ss)"
    using swap_ends_nth [of 0 "length ss div 2" ss 0] by (cases ss) (auto simp: ReverseSlice_def)
next
  fix k assume "k < length (ReverseSlice ss)"
  then have "k < length ss"
    using swap_ends_nth [of 0 "length ss div 2" ss 0] by (cases ss) (auto simp: ReverseSlice_def)
  then show "ReverseSlice ss ! k = rev ss ! k"
    using swap_ends_nth [of 0 "length ss div 2" ss k] by (simp add: ReverseSlice_def rev_nth)
qed

section \<open>Numbers\<close>

lemma parse_digits_ParseUint_sign: "ParseUint (c # ds) \<noteq> None \<Longrightarrow> is_digit c"
  by (auto simp: ParseUint_def split: if_splits)

lemma FormatUint_digits: "c \<in> set (FormatUint n) \<Longrightarrow> is_digit c"
  by (induction n rule: FormatUint.induct) (subst (asm) (2) FormatUint.simps, auto split: if_splits)

lemma Atoi64_Itoa:
  assumes "is_int64 n" shows "Atoi64 (Itoa n) = Some n"
proof (cases "n < 0")
  case True
  then show ?thesis using assms by (simp add: Atoi64_def Itoa_def is_int64_def nat_less_iff)
next
  case False
  obtain c ds where f: "FormatUint (nat n) = c # ds" by (cases "FormatUint (nat n)") auto
  have "is_digit c" using FormatUint_digits [of c "nat n"] f by simp
  then have "c \<noteq> CHR 0x2D" "c \<noteq> CHR 0x2B" by (auto simp: is_digit_def)
  moreover have "ParseUint (c # ds) = Some (nat n)"
    using False assms ParseUint_FormatUint [of "nat n"] unfolding f by (simp add: is_int64_def nat_less_iff)
  ultimately show ?thesis using False assms f by (simp add: Atoi64_def Itoa_def is_int64_def)
qed

text \<open>The number a text of digits stands for.\<close>

definition digits_val :: "string \<Rightarrow> nat" where
  "digits_val s = foldl (\<lambda>n c. 10 * n + digit_val c) 0 s"

lemma digits_val_snoc [simp]: "digits_val (s @ [c]) = 10 * digits_val s + digit_val c" "digits_val [] = 0"
  by (simp_all add: digits_val_def)

lemma FormatUint_snoc:
  "d < 10 \<Longrightarrow> FormatUint (10 * n + d) = (if n = 0 then [] else FormatUint n) @ [char_of (48 + d)]"
  by (subst FormatUint.simps) auto

lemma char_of_digit: "is_digit c \<Longrightarrow> char_of (48 + digit_val c) = c" "is_digit c \<Longrightarrow> digit_val c < 10"
  by (simp_all add: is_digit_def digit_val_def) linarith

text \<open>The shortest text of the number a digit string stands for grows digit by digit.\<close>

lemma FormatUint_digits_val_snoc:
  "is_digit c \<Longrightarrow> FormatUint (digits_val (s @ [c])) =
     (if digits_val s = 0 then [c] else FormatUint (digits_val s) @ [c])"
  using FormatUint_snoc [of "digit_val c" "digits_val s"] char_of_digit [of c] by simp

lemma digits_val_bound: "list_all is_digit s \<Longrightarrow> digits_val s < 10 ^ length s"
proof (induction s rule: rev_induct)
  case (snoc c s)
  then show ?case using char_of_digit(2) [of c] by simp
qed simp

lemma digits_val_FormatUint [simp]: "digits_val (FormatUint n) = n"
proof (induction n rule: FormatUint.induct)
  case (1 n)
  show ?case
  proof (cases "n < 10")
    case True
    then show ?thesis using digits_val_snoc(1) [of "[]"] by (subst FormatUint.simps) simp
  next
    case False
    with 1 show ?thesis by (subst FormatUint.simps) simp
  qed
qed

lemma FormatUint_length_le: "m \<le> n \<Longrightarrow> length (FormatUint m) \<le> length (FormatUint n)"
proof (induction n arbitrary: m rule: FormatUint.induct)
  case (1 n)
  show ?case
  proof (cases "m < 10")
    case True
    then show ?thesis
      using FormatUint_not_Nil [of n] by (subst FormatUint.simps) (simp add: Suc_leI)
  next
    case False
    with 1 have "length (FormatUint (m div 10)) \<le> length (FormatUint (n div 10))" by (simp add: div_le_mono)
    with False 1(2) show ?thesis by (subst (1 2) FormatUint.simps) simp
  qed
qed

section \<open>Versions are ordered by their numbers\<close>

text \<open>Lexicographic order, with a text before its extensions; Go compares strings by bytes.\<close>

fun lex_less :: "nat list \<Rightarrow> nat list \<Rightarrow> bool" where
  "lex_less xs [] = False"
| "lex_less [] (y # ys) = True"
| "lex_less (x # xs) (y # ys) = (x < y \<or> x = y \<and> lex_less xs ys)"

definition string_less :: "string \<Rightarrow> string \<Rightarrow> bool" where
  "string_less s t = lex_less (map of_char s) (map of_char t)"

lemma lex_less_append:
  "length xs = length ys \<Longrightarrow> lex_less (xs @ us) (ys @ vs) \<longleftrightarrow> lex_less xs ys \<or> xs = ys \<and> lex_less us vs"
  by (induction xs ys rule: list_induct2) auto

lemma lex_less_snoc:
  "length xs = length ys \<Longrightarrow> lex_less (xs @ [x]) (ys @ [y]) \<longleftrightarrow> lex_less xs ys \<or> xs = ys \<and> x < y"
  by (simp add: lex_less_append)

lemma map_of_char_eq: "map of_char s = (map of_char t :: nat list) \<longleftrightarrow> s = t"
  by (rule inj_map_eq_map) (simp add: inj_def)

lemma lex_less_digits:
  assumes "length s = length t" "list_all is_digit s" "list_all is_digit t"
  shows "lex_less (map of_char s) (map of_char t) \<longleftrightarrow> digits_val s < digits_val t"
    "s = t \<longleftrightarrow> digits_val s = digits_val t"
  using assms
proof (induction s arbitrary: t rule: rev_induct)
  case (snoc c s)
  {
    case 1
    then obtain t' d where t: "t = t' @ [d]" by (metis append_Nil2 length_append_singleton length_0_conv nat.simps(3) rev_exhaust)
    have IH: "lex_less (map of_char s) (map of_char t') \<longleftrightarrow> digits_val s < digits_val t'" "s = t' \<longleftrightarrow> digits_val s = digits_val t'"
      using snoc.IH [of t'] 1 t by simp_all
    have "is_digit c" "is_digit d" using 1 t by simp_all
    then have "digit_val c < 10" "digit_val d < 10" "(of_char c :: nat) < of_char d \<longleftrightarrow> digit_val c < digit_val d"
      by (auto simp: char_of_digit digit_val_def is_digit_def)
    with IH t 1(1) show ?case by (auto simp: lex_less_append map_of_char_eq)
  next
    case 2
    then obtain t' d where t: "t = t' @ [d]" by (metis append_Nil2 length_append_singleton length_0_conv nat.simps(3) rev_exhaust)
    have IH: "s = t' \<longleftrightarrow> digits_val s = digits_val t'" using snoc.IH(2) [of t'] 2 t by simp
    have "is_digit c" "is_digit d" using 2 t by simp_all
    then have "digit_val c < 10" "digit_val d < 10" "c = d \<longleftrightarrow> digit_val c = digit_val d"
      by (metis char_of_digit)+
    with IH t show ?case by auto
  }
qed simp_all

text \<open>How \<open>ParseVersion\<close> writes a number.\<close>

definition ordinal :: "nat \<Rightarrow> string" where
  "ordinal n = char_of (length (FormatUint n)) # FormatUint n"

definition short_number :: "string \<Rightarrow> bool" where
  "short_number s \<longleftrightarrow> s \<noteq> [] \<and> list_all is_digit s \<and> length (FormatUint (digits_val s)) < 256"

lemma ordinal_less:
  assumes "length (FormatUint n) < 256" "length (FormatUint m) < 256"
  shows "string_less (ordinal n @ u) (ordinal m @ v) \<longleftrightarrow> n < m \<or> n = m \<and> string_less u v"
proof -
  let ?n = "length (FormatUint n)" and ?m = "length (FormatUint m)"
  have d: "list_all is_digit (FormatUint k)" for k using FormatUint_digits by (auto simp: list_all_iff)
  have *: "string_less (ordinal n @ u) (ordinal m @ v) \<longleftrightarrow>
      ?n < ?m \<or> ?n = ?m \<and> lex_less (map of_char (FormatUint n) @ map of_char u) (map of_char (FormatUint m) @ map of_char v)"
    using assms by (simp add: string_less_def ordinal_def)
  consider "?n < ?m" | "?m < ?n" | "?n = ?m" by linarith
  then show ?thesis
  proof cases
    case 1
    with FormatUint_length_le [of m n] * show ?thesis by auto
  next
    case 2
    with FormatUint_length_le [of n m] * show ?thesis by auto
  next
    case 3
    with * lex_less_digits(1) [OF 3 d d] show ?thesis
      by (simp add: lex_less_append map_of_char_eq string_less_def)
  qed
qed

lemma small_chars: "char_of (48 :: nat) = CHR 0x30" "char_of (Suc 0) = CHR 0x01"
  by code_simp+

lemma FormatUint_0: "FormatUint 0 = ''0''"
  by (subst FormatUint.simps) (simp add: small_chars)

lemma digits_val_le: "digits_val s \<le> digits_val (s @ t)"
  by (induction t rule: rev_induct) (auto simp flip: append_assoc)

lemma version_loop_run:
  assumes "acc \<noteq> []" "list_all is_digit cs" "length (FormatUint (digits_val (acc @ cs))) < 256"
  shows "version_loop (pre @ ordinal (digits_val acc)) (Some (length pre)) (cs @ rest) =
    version_loop (pre @ ordinal (digits_val (acc @ cs))) (Some (length pre)) rest"
  using assms
proof (induction cs arbitrary: acc)
  case (Cons c cs)
  let ?ds = "FormatUint (digits_val acc)"
  have "length (FormatUint (digits_val (acc @ [c]))) < 256"
    using FormatUint_length_le [OF digits_val_le [of "acc @ [c]" cs]] Cons.prems(3) by simp
  moreover have "length ?ds \<le> length (FormatUint (digits_val (acc @ [c])))"
    by (rule FormatUint_length_le [OF digits_val_le])
  moreover have c: "is_digit c" using Cons.prems(2) by simp
  ultimately have len: "length (FormatUint (digits_val (acc @ [c]))) < 256" "length ?ds < 256" by simp_all
  have zero: "char_of (length ?ds) = CHR 0x01 \<and> ?ds ! 0 = CHR 0x30 \<longleftrightarrow> digits_val acc = 0"
  proof
    assume *: "char_of (length ?ds) = CHR 0x01 \<and> ?ds ! 0 = CHR 0x30"
    then have "of_char (char_of (length ?ds) :: char) = (of_char (CHR 0x01) :: nat)" by simp
    then have "length ?ds = 1" using len(2) by simp
    with * have "?ds = FormatUint 0" by (cases ?ds) (auto simp: FormatUint_0)
    then show "digits_val acc = 0" by (simp only: FormatUint_eq_iff)
  next
    assume "digits_val acc = 0"
    then show "char_of (length ?ds) = CHR 0x01 \<and> ?ds ! 0 = CHR 0x30" by (simp add: FormatUint_0 small_chars)
  qed
  have step: "version_loop (pre @ ordinal (digits_val acc)) (Some (length pre)) ((c # cs) @ rest) =
      version_loop (pre @ ordinal (digits_val (acc @ [c]))) (Some (length pre)) (cs @ rest)"
  proof (cases "digits_val acc = 0")
    case True
    then show ?thesis
      using c FormatUint_digits_val_snoc [OF c, of acc] by (simp add: ordinal_def FormatUint_0 small_chars nth_append list_update_append)
  next
    case False
    then have "\<not> (char_of (length ?ds) = CHR 0x01 \<and> ?ds ! 0 = CHR 0x30)" using zero by simp
    then show ?thesis
      using c len False FormatUint_digits_val_snoc [OF c, of acc]
      by (auto simp: ordinal_def nth_append list_update_append)
  qed
  show ?case unfolding step using Cons.IH [of "acc @ [c]"] Cons.prems by (simp del: digits_val_snoc)
qed simp

lemma version_loop_number:
  assumes "short_number ds"
  shows "version_loop pre None (ds @ rest) = version_loop (pre @ ordinal (digits_val ds)) (Some (length pre)) rest"
proof -
  obtain c cs where ds: "ds = c # cs" using assms by (cases ds) (auto simp: short_number_def)
  with assms have d: "is_digit c" "list_all is_digit cs" by (simp_all add: short_number_def)
  have "FormatUint (digits_val [c]) = [c]" using FormatUint_digits_val_snoc [OF d(1), of "[]"] by simp
  then have "version_loop pre None (ds @ rest) = version_loop (pre @ ordinal (digits_val [c])) (Some (length pre)) (cs @ rest)"
    using d(1) ds by (simp add: ordinal_def nth_append list_update_append)
  also have "\<dots> = version_loop (pre @ ordinal (digits_val ds)) (Some (length pre)) rest"
    using version_loop_run [of "[c]" cs pre rest] assms d ds by (simp add: short_number_def)
  finally show ?thesis .
qed

lemma version_loop_Join:
  assumes "list_all short_number fields"
  shows "version_loop pre None (strings_Join fields ''.'') = pre @ strings_Join (map (\<lambda>f. ordinal (digits_val f)) fields) ''.''"
  using assms
proof (induction fields arbitrary: pre)
  case (Cons f fields)
  show ?case
  proof (cases "fields = []")
    case True
    then show ?thesis using Cons.prems version_loop_number [of f pre "[]"] by simp
  next
    case False
    have "version_loop pre None (strings_Join (f # fields) ''.'') =
        version_loop (pre @ ordinal (digits_val f) @ ''.'') None (strings_Join fields ''.'')"
      using False Cons.prems version_loop_number [of f pre "''.'' @ strings_Join fields ''.''"]
      by (simp add: strings_Join_Cons is_digit_def)
    with Cons False show ?thesis by (simp add: strings_Join_Cons)
  qed
qed simp

lemma Join_ordinals_less:
  assumes "list_all short_number vs" "list_all short_number ws"
  shows "string_less (strings_Join (map (\<lambda>f. ordinal (digits_val f)) vs) ''.'')
           (strings_Join (map (\<lambda>f. ordinal (digits_val f)) ws) ''.'') \<longleftrightarrow>
         lex_less (map digits_val vs) (map digits_val ws)"
  using assms
proof (induction vs arbitrary: ws)
  case Nil
  show ?case
  proof (cases ws)
    case (Cons w ws')
    then show ?thesis by (cases ws') (simp_all add: string_less_def ordinal_def)
  qed (simp add: string_less_def)
next
  case (Cons v vs)
  show ?case
  proof (cases ws)
    case Nil
    then show ?thesis by (simp add: string_less_def)
  next
    case w: (Cons w ws')
    have tail: "strings_Join (map (\<lambda>f. ordinal (digits_val f)) (x # xs)) ''.'' =
        ordinal (digits_val x) @ (if xs = [] then [] else ''.'' @ strings_Join (map (\<lambda>f. ordinal (digits_val f)) xs) ''.'')"
      for x :: string and xs
      by (simp add: strings_Join_Cons)
    have "string_less (if vs = [] then [] else ''.'' @ strings_Join (map (\<lambda>f. ordinal (digits_val f)) vs) ''.'')
        (if ws' = [] then [] else ''.'' @ strings_Join (map (\<lambda>f. ordinal (digits_val f)) ws') ''.'') \<longleftrightarrow>
        lex_less (map digits_val vs) (map digits_val ws')"
      using Cons.IH [of ws'] Cons.prems w by (cases vs; cases ws') (auto simp: string_less_def)
    with Cons.prems w show ?thesis unfolding w tail by (simp add: ordinal_less short_number_def)
  qed
qed

text \<open>
  \<open>ParseVersion\<close> orders versions by their numbers: for versions of dotted numbers, with
  or without leading zeros and of fewer than 256 digits each, comparing the resulting strings byte by byte compares
  the numbers from left to right.\<close>

theorem ParseVersion_orders:
  assumes "list_all short_number vs" "list_all short_number ws"
  shows "string_less (ParseVersion (strings_Join vs ''.'')) (ParseVersion (strings_Join ws ''.'')) \<longleftrightarrow>
         lex_less (map digits_val vs) (map digits_val ws)"
  using version_loop_Join [OF assms(1), of "[]"] version_loop_Join [OF assms(2), of "[]"] Join_ordinals_less [OF assms]
  by (simp add: ParseVersion_def)

theorem ParseVersion_orders_witness:
  "string_less (ParseVersion ''1.05.1'') (ParseVersion ''1.12'')"
proof -
  have "list_all short_number [''1'', ''05'', ''1'']" "list_all short_number [''1'', ''12'']"
    by (simp_all add: short_number_def is_digit_def digits_val_def digit_val_def FormatUint.simps)
  from ParseVersion_orders [OF this] show ?thesis by (simp add: digits_val_def digit_val_def)
qed

text \<open>A version is not rewritten in decimal: the lengths of the numbers stand in the text.\<close>

lemma ParseVersion_example: "ParseVersion ''1.05.1'' = [CHR 0x01, CHR ''1'', CHR ''.'', CHR 0x01, CHR ''5'', CHR ''.'', CHR 0x01, CHR ''1'']"
  by (simp add: ParseVersion_def is_digit_def small_chars)

section \<open>Boundary cases\<close>

text \<open>Fewer than three characters leave no room for the dots.\<close>

lemma Truncate_total: "Truncate s n \<noteq> None \<longleftrightarrow> 3 \<le> n \<or> int (length s) \<le> n" if "is_int64 n" "- (2 ^ 63) + 3 \<le> n"
proof -
  have "wrap64 (n - 3) = n - 3" using that by (intro wrap64_id) (auto simp: is_int64_def)
  then show ?thesis by (auto simp: Truncate_def)
qed

lemma Truncate_length: "Truncate s n = Some t \<Longrightarrow> is_int64 n \<Longrightarrow> - (2 ^ 63) + 3 \<le> n \<Longrightarrow> int (length t) \<le> max n (int (length s))"
proof -
  assume a: "Truncate s n = Some t" "is_int64 n" "- (2 ^ 63) + 3 \<le> n"
  have "wrap64 (n - 3) = n - 3" using a(2,3) by (intro wrap64_id) (auto simp: is_int64_def)
  with a(1) show ?thesis by (auto simp: Truncate_def split: if_splits)
qed

text \<open>An empty second argument is no restriction.\<close>

lemma IntersectionUin64Slice_set:
  "set (IntersectionUin64Slice s1 s2) = (if s2 = [] then set s1 else set s1 \<inter> set s2)"
  by (auto simp: IntersectionUin64Slice_def list_ex_iff)

text \<open>One line that is a name makes any text an environment key.\<close>

lemma EnvKeyValidator_lines: "EnvKeyValidator ''PATH\<newline>rm -rf /'' = None"
  by (simp add: EnvKeyValidator_def strings_Split_eq env_key_line_def is_alnum_def is_letter_def is_digit_def)

lemma EnvKeyValidator_one_line:
  "CHR 0x0A \<notin> set s \<Longrightarrow> EnvKeyValidator s = None \<longleftrightarrow> env_key_line s"
  using Split_Join [of "[s]" "CHR 0x0A"] by (simp add: EnvKeyValidator_def)

lemma name_rest_iff:
  "name_rest s \<longleftrightarrow> s \<noteq> [] \<and> valid_name_char (last s) \<and> list_all (\<lambda>c. valid_name_char c \<or> c = CHR 0x2D) s"
  by (induction s rule: name_rest.induct) auto

end
