(* ===== verification/Snippet.thy ===== *)
theory Snippet
  imports Strutil Pipeline_Spec
begin

text \<open>
  Nested pipelines (\<^verbatim>\<open>src/modules/pipeline/pipengine/reconciler/snippet.go\<close>): the references by
  which a pipeline names the outputs of its tasks, the outputs calculated from them, and the
  parameters of a nested pipeline, in which references to outputs and parameters of the parent are
  replaced. The parts that read and write rows are in theory \<open>Reconciler\<close>. Go's regular
  expressions are matchers: what they match at the beginning of a text, and the text after it.
\<close>

section \<open>Values and matches\<close>

definition strutil_String :: "any_value \<Rightarrow> string" where
  "strutil_String v =
     (case v of AnyNil \<Rightarrow> '''' | AnyString s \<Rightarrow> s | AnyInt n \<Rightarrow> Itoa n | AnyOther s \<Rightarrow> s)"

text \<open>
  \<open>repl\<close> gets the groups of a match (the first is the match itself) and returns the replacement
  and whether it found a value, which the source keeps in \<open>findOutputRef\<close>.
\<close>

type_synonym matcher = "string \<Rightarrow> (string list \<times> string) option"

function ReplaceAllStringSubmatchFunc ::
  "matcher \<Rightarrow> string \<Rightarrow> (string list \<Rightarrow> string \<times> bool) \<Rightarrow> string \<times> bool" where
  "ReplaceAllStringSubmatchFunc re [] repl = ([], False)"
| "ReplaceAllStringSubmatchFunc re (c # s) repl =
     (case re (c # s) of
        Some (groups, rest) \<Rightarrow>
          if length rest < length (c # s) then
            (case (repl groups, ReplaceAllStringSubmatchFunc re rest repl) of
               ((t, found), (r, found')) \<Rightarrow> (t @ r, found \<or> found'))
          else ([], False)
      | None \<Rightarrow> (case ReplaceAllStringSubmatchFunc re s repl of (r, found) \<Rightarrow> (c # r, found)))"
  by pat_completeness auto
termination
  by (relation "measure (\<lambda>(re, s, repl). length s)") auto

section \<open>References to outputs\<close>

definition parsePipelineOutputRef :: "string \<Rightarrow> string + string \<times> string" where
  "parsePipelineOutputRef ref =
     (let ref = strings_TrimSuffix (strings_TrimPrefix (strings_TrimSpace ref) ''${'') ''}'';
          ss = strings_SplitN ref '':'' 3
      in if length ss < 3 then Inl (''invalid ref: '' @ ref)
         else if ss ! 1 \<noteq> ''OUTPUT'' then Inl (''ref is not output, ref: '' @ ref)
         else Inr (ss ! 0, ss ! 2))"

definition parsePipelineOutputRefV2 :: "string \<Rightarrow> string + string \<times> string" where
  "parsePipelineOutputRefV2 ref =
     (let ref = strings_TrimSuffix (strings_TrimPrefix (strings_TrimSpace ref) ''${{ outputs.'') '' }}'';
          ss = strings_SplitN ref ''.'' 2
      in if length ss < 2 then Inl (''invalid ref: '' @ ref)
         else Inr (ss ! 0, ss ! 1))"

section \<open>The outputs of a pipeline\<close>

type_synonym outputs = "string \<rightharpoonup> (string \<rightharpoonup> string)"

text \<open>Reading a key of a nil map gives the zero value.\<close>

definition output_of :: "outputs \<Rightarrow> string \<Rightarrow> string \<Rightarrow> string option" where
  "output_of outs t k = (case outs t of None \<Rightarrow> None | Some m \<Rightarrow> m k)"

fun add_metadata :: "string \<Rightarrow> MetadataField list \<Rightarrow> outputs \<Rightarrow> outputs" where
  "add_metadata name [] outs = outs"
| "add_metadata name (meta # metas) outs =
     (let m = (case outs name of None \<Rightarrow> Map.empty | Some m \<Rightarrow> m)
      in add_metadata name metas (outs(name \<mapsto> m(mf_Name meta \<mapsto> mf_Value meta))))"

fun collect_outputs :: "outputs \<Rightarrow> PipelineTask list \<Rightarrow> outputs" where
  "collect_outputs outs [] = outs"
| "collect_outputs outs (task # tasks) =
     collect_outputs (add_metadata (task_Name task) (tr_Metadata (task_Result task)) outs) tasks"

definition any_of :: "string option \<Rightarrow> any_value" where
  "any_of v = (case v of None \<Rightarrow> AnyNil | Some s \<Rightarrow> AnyString s)"

text \<open>Both forms of a reference are tried, one after the other.\<close>

definition outputs_for :: "outputs \<Rightarrow> PipelineOutput \<Rightarrow> PipelineOutputWithValue list" where
  "outputs_for outs def =
     (case parsePipelineOutputRef (po_Ref def) of
        Inl _ \<Rightarrow> []
      | Inr (t, k) \<Rightarrow> [\<lparr>ov_PipelineOutput = def, ov_Value = any_of (output_of outs t k)\<rparr>]) @
     (case parsePipelineOutputRefV2 (po_Ref def) of
        Inl _ \<Rightarrow> []
      | Inr (t, k) \<Rightarrow> [\<lparr>ov_PipelineOutput = def, ov_Value = any_of (output_of outs t k)\<rparr>])"

definition calculate_outputs :: "PipelineOutput list \<Rightarrow> PipelineTask list \<Rightarrow> PipelineOutputWithValue list" where
  "calculate_outputs defs tasks = concat (map (outputs_for (collect_outputs Map.empty tasks)) defs)"

section \<open>The parameters of a nested pipeline\<close>

text \<open>
  \<open>\${([^:]+):OUTPUT:([^:]+)}\<close>: a name runs up to the first colon, a key up to the last
  closing brace before the next colon.
\<close>

definition match_output :: matcher where
  "match_output s =
     (if prefix ''${'' s then
        let alias = takeWhile (\<lambda>c. c \<noteq> CHR '':'') (drop 2 s);
            r = dropWhile (\<lambda>c. c \<noteq> CHR '':'') (drop 2 s)
        in if alias \<noteq> [] \<and> prefix '':OUTPUT:'' r then
             let r = drop 8 r;
                 i = strings_LastIndex (takeWhile (\<lambda>c. c \<noteq> CHR '':'') r) ''}''
             in if i \<ge> 1
                then Some ([take (length s - length (drop (nat i + 1) r)) s, alias, take (nat i) r], drop (nat i + 1) r)
                else None
           else None
      else None)"

text \<open>
  \<open>\${{[ ]{1}outputs.([^{}\s.]+).(.+)[ ]{1}}}\<close>: an unescaped dot stands for any character but a
  newline. The name is as long as possible: \<open>n\<close> is its length, tried from the longest on.
\<close>

fun match_outputs_from :: "nat \<Rightarrow> string \<Rightarrow> (string \<times> string \<times> string) option" where
  "match_outputs_from 0 r = None"
| "match_outputs_from (Suc n) r =
     (case drop (Suc n) r of
        [] \<Rightarrow> match_outputs_from n r
      | y # r' \<Rightarrow>
          let i = strings_LastIndex (takeWhile (\<lambda>c. c \<noteq> CHR 0x0A) r') '' }}''
          in if y \<noteq> CHR 0x0A \<and> i \<ge> 1 then Some (take (Suc n) r, take (nat i) r', drop (nat i + 3) r')
             else match_outputs_from n r)"

definition alias_char :: "char \<Rightarrow> bool" where
  "alias_char c \<longleftrightarrow> c \<notin> set (''{}. '' @ [CHR 0x09, CHR 0x0A, CHR 0x0C, CHR 0x0D])"

definition match_outputs :: matcher where
  "match_outputs s =
     (if prefix ''${{ outputs'' s then
        (case drop 11 s of
           [] \<Rightarrow> None
         | x # r \<Rightarrow>
             if x = CHR 0x0A then None
             else (case match_outputs_from (length (takeWhile alias_char r)) r of
                     None \<Rightarrow> None
                   | Some (alias, k, rest) \<Rightarrow> Some ([take (length s - length rest) s, alias, k], rest)))
      else None)"

text \<open>\<open>^\${params.(.+)}$\<close> and \<open>^\${{ params.(.+) }}$\<close>\<close>

definition match_whole :: "string \<Rightarrow> string \<Rightarrow> string \<Rightarrow> string option" where
  "match_whole pre post s =
     (let k = take (length s - length pre - 1 - length post) (drop (length pre + 1) s)
      in if prefix pre s \<and> length pre + 1 + length post < length s \<and> suffix post s \<and>
            CHR 0x0A \<notin> set (drop (length pre) (take (length s - length post) s))
         then Some k else None)"

definition match_params :: "string \<Rightarrow> string option" where
  "match_params s = match_whole ''${params'' ''}'' s"

definition match_params_v2 :: "string \<Rightarrow> string option" where
  "match_params_v2 s = match_whole ''${{ params'' '' }}'' s"

definition repl_output :: "outputs \<Rightarrow> string list \<Rightarrow> string \<times> bool" where
  "repl_output outs subs =
     (case outs (subs ! 1) of
        Some metas \<Rightarrow> (case metas (subs ! 2) of Some v \<Rightarrow> (v, True) | None \<Rightarrow> (subs ! 0, False))
      | None \<Rightarrow> (subs ! 0, False))"

text \<open>The parameters of the parent; a missing one is nil.\<close>

fun run_param_map :: "(string \<rightharpoonup> any_value) \<Rightarrow> PipelineRunParamWithValue list \<Rightarrow> (string \<rightharpoonup> any_value)" where
  "run_param_map m [] = m"
| "run_param_map m (rp # rps) =
     run_param_map (m(rp_Name rp \<mapsto> (if rp_TrueValue rp = AnyNil then rp_Value rp else rp_TrueValue rp))) rps"

definition param_of :: "(string \<rightharpoonup> any_value) \<Rightarrow> string \<Rightarrow> any_value" where
  "param_of m k = (case m k of None \<Rightarrow> AnyNil | Some v \<Rightarrow> v)"

definition resolve_run_param ::
  "outputs \<Rightarrow> (string \<rightharpoonup> any_value) \<Rightarrow> PipelineRunParamWithValue \<Rightarrow> PipelineRunParamWithValue" where
  "resolve_run_param outs m runParam =
     (if rp_TrueValue runParam \<noteq> AnyNil then runParam
      else
        let text = strutil_String (rp_Value runParam);
            (ref, found) = ReplaceAllStringSubmatchFunc match_output text (repl_output outs);
            (ref, found') = ReplaceAllStringSubmatchFunc match_outputs ref (repl_output outs);
            reffedValue = (if found \<or> found' then AnyString ref else AnyNil);
            reffedValue = (case match_params text of None \<Rightarrow> reffedValue | Some k \<Rightarrow> param_of m k);
            reffedValue = (case match_params_v2 text of None \<Rightarrow> reffedValue | Some k \<Rightarrow> param_of m k)
        in runParam\<lparr>rp_TrueValue := reffedValue\<rparr>)"

section \<open>References are read back\<close>

datatype output_ref = RefV1 string string | RefV2 string string

fun ref_text :: "output_ref \<Rightarrow> string" where
  "ref_text (RefV1 t k) = ''${'' @ t @ '':OUTPUT:'' @ k @ ''}''"
| "ref_text (RefV2 t k) = ''${{ outputs.'' @ t @ ''.'' @ k @ '' }}''"

fun ref_task :: "output_ref \<Rightarrow> string" where
  "ref_task (RefV1 t k) = t" | "ref_task (RefV2 t k) = t"

fun ref_key :: "output_ref \<Rightarrow> string" where
  "ref_key (RefV1 t k) = k" | "ref_key (RefV2 t k) = k"

lemma strings_TrimSpace_frame:
  assumes "list_all is_space a" "list_all is_space b" "s \<noteq> []" "\<not> is_space (hd s)" "\<not> is_space (last s)"
  shows "strings_TrimSpace (a @ s @ b) = s"
proof -
  have "dropWhile is_space (a @ s @ b) = s @ b"
    using assms by (cases s) (auto simp: dropWhile_append list_all_iff)
  moreover have "dropWhile is_space (rev b @ rev s) = rev s"
    using assms by (cases s rule: rev_cases) (auto simp: dropWhile_append list_all_iff)
  ultimately show ?thesis by (simp add: strings_TrimSpace_def trim_left_def trim_right_def)
qed

lemma TrimPrefix_append [simp]: "strings_TrimPrefix (p @ s) p = s"
  by (simp add: strings_TrimPrefix_def)

lemma TrimSuffix_append [simp]: "strings_TrimSuffix (s @ p) p = s"
  by (auto simp: strings_TrimSuffix_def suffix_def)

lemma SplitN_char:
  "c \<notin> set a \<Longrightarrow> strings_SplitN (a @ c # b) [c] 2 = [a, b]"
  "c \<notin> set a \<Longrightarrow> c \<notin> set b \<Longrightarrow> strings_SplitN (a @ c # b @ c # d) [c] 3 = [a, b, d]"
  "c \<notin> set a \<Longrightarrow> 0 < n \<Longrightarrow> strings_SplitN a [c] n = [a]"
  by (auto simp: strings_SplitN_def strings_Cut_char numeral_2_eq_2 numeral_3_eq_3 gr0_conv_Suc)
     (metis (no_types) gen_split.simps(1) gen_split.simps(2) not0_implies_Suc option.case(1) strings_Cut_char(2))

text \<open>
  The text of a reference, with blanks around it, as the parsers see it: trimmed, and cut at
  the prefix and the suffix of their own form.
\<close>

lemma trim_ref:
  assumes "list_all is_space a" "list_all is_space b"
  shows "strings_TrimSpace (a @ ref_text r @ b) = ref_text r"
  by (rule strings_TrimSpace_frame [OF assms]) (cases r; simp add: is_space_def)+

lemma parse_RefV1:
  assumes "list_all is_space a" "list_all is_space b" "CHR '':'' \<notin> set t"
  shows "parsePipelineOutputRef (a @ ref_text (RefV1 t k) @ b) = Inr (t, k)"
proof -
  have "strings_TrimSuffix (strings_TrimPrefix (ref_text (RefV1 t k)) ''${'') ''}'' = t @ CHR '':'' # ''OUTPUT'' @ CHR '':'' # k"
    using TrimPrefix_append [of "''${''" "t @ '':OUTPUT:'' @ k @ ''}''"]
      TrimSuffix_append [of "t @ '':OUTPUT:'' @ k" "''}''"] by simp
  moreover have "strings_SplitN (t @ CHR '':'' # ''OUTPUT'' @ CHR '':'' # k) '':'' 3 = [t, ''OUTPUT'', k]"
    by (rule SplitN_char(2)) (use assms(3) in simp_all)
  ultimately show ?thesis
    unfolding parsePipelineOutputRef_def trim_ref [OF assms(1,2)] by simp
qed

lemma parse_RefV2:
  assumes "list_all is_space a" "list_all is_space b" "CHR ''.'' \<notin> set t"
  shows "parsePipelineOutputRefV2 (a @ ref_text (RefV2 t k) @ b) = Inr (t, k)"
proof -
  have "strings_TrimSuffix (strings_TrimPrefix (ref_text (RefV2 t k)) ''${{ outputs.'') '' }}'' = t @ CHR ''.'' # k"
    using TrimPrefix_append [of "''${{ outputs.''" "t @ ''.'' @ k @ '' }}''"]
      TrimSuffix_append [of "t @ ''.'' @ k" "'' }}''"] by simp
  with assms(3) show ?thesis
    unfolding parsePipelineOutputRefV2_def trim_ref [OF assms(1,2)] by (simp add: SplitN_char(1))
qed

lemma TrimSuffix_subset: "set (strings_TrimSuffix s p) \<subseteq> set s"
  by (auto simp: strings_TrimSuffix_def dest: in_set_takeD)

lemma TrimPrefix_subset: "set (strings_TrimPrefix s p) \<subseteq> set s"
  by (auto simp: strings_TrimPrefix_def dest: in_set_dropD)

lemma TrimSpace_subset: "set (strings_TrimSpace s) \<subseteq> set s"
  by (auto simp: strings_TrimSpace_def trim_left_def trim_right_def dest!: set_dropWhileD)

lemma trimmed_subset:
  "set (strings_TrimSuffix (strings_TrimPrefix (strings_TrimSpace s) p) q) \<subseteq> set s"
  by (rule order_trans [OF TrimSuffix_subset order_trans [OF TrimPrefix_subset TrimSpace_subset]])

text \<open>A separator that the text does not have keeps a parser from reading it.\<close>

lemma parse_not_RefV1:
  assumes "CHR '':'' \<notin> set ref" shows "\<exists>e. parsePipelineOutputRef ref = Inl e"
proof -
  let ?ref = "strings_TrimSuffix (strings_TrimPrefix (strings_TrimSpace ref) ''${'') ''}''"
  have "CHR '':'' \<notin> set ?ref" using assms trimmed_subset by blast
  then show ?thesis by (simp add: parsePipelineOutputRef_def SplitN_char(3) Let_def)
qed

lemma parse_not_RefV2:
  assumes "CHR ''.'' \<notin> set ref" shows "\<exists>e. parsePipelineOutputRefV2 ref = Inl e"
proof -
  let ?ref = "strings_TrimSuffix (strings_TrimPrefix (strings_TrimSpace ref) ''${{ outputs.'') '' }}''"
  have "CHR ''.'' \<notin> set ?ref" using assms trimmed_subset by blast
  then show ?thesis by (simp add: parsePipelineOutputRefV2_def SplitN_char(3) Let_def)
qed

section \<open>What the outputs are\<close>

text \<open>All outputs of tasks, in order: a later one replaces an earlier one of the same task and name.\<close>

definition output_pairs :: "PipelineTask list \<Rightarrow> ((string \<times> string) \<times> string) list" where
  "output_pairs tasks =
     concat (map (\<lambda>t. map (\<lambda>m. ((task_Name t, mf_Name m), mf_Value m)) (tr_Metadata (task_Result t))) tasks)"

definition last_output :: "PipelineTask list \<Rightarrow> string \<Rightarrow> string \<Rightarrow> string option" where
  "last_output tasks t k = map_of (rev (output_pairs tasks)) (t, k)"

lemma output_of_add_metadata:
  "output_of (add_metadata name metas outs) t k =
     (case map_of (rev (map (\<lambda>m. ((name, mf_Name m), mf_Value m)) metas)) (t, k) of
        Some v \<Rightarrow> Some v | None \<Rightarrow> output_of outs t k)"
proof (induction metas arbitrary: outs)
  case (Cons m metas)
  have "output_of (outs(name \<mapsto> (case outs name of None \<Rightarrow> Map.empty | Some m \<Rightarrow> m)(mf_Name m \<mapsto> mf_Value m))) t k =
      (if t = name \<and> k = mf_Name m then Some (mf_Value m) else output_of outs t k)"
    by (auto simp: output_of_def split: option.splits)
  then show ?case
    unfolding add_metadata.simps Let_def Cons.IH by (auto simp: map_add_def split: option.splits)
qed simp

lemma output_of_collect_outputs:
  "output_of (collect_outputs outs tasks) t k =
     (case map_of (rev (output_pairs tasks)) (t, k) of Some v \<Rightarrow> Some v | None \<Rightarrow> output_of outs t k)"
proof (induction tasks arbitrary: outs)
  case (Cons task tasks)
  then show ?case
    by (auto simp: output_pairs_def output_of_add_metadata map_add_def split: option.splits)
qed (simp add: output_pairs_def)

lemma output_of_collect: "output_of (collect_outputs Map.empty tasks) t k = last_output tasks t k"
  unfolding output_of_collect_outputs last_output_def by (simp add: output_of_def split: option.splits)

text \<open>A reference that only one of the parsers reads.\<close>

fun clear_ref :: "output_ref \<Rightarrow> bool" where
  "clear_ref (RefV1 t k) = (CHR '':'' \<notin> set t \<and> CHR ''.'' \<notin> set t \<and> CHR ''.'' \<notin> set k)"
| "clear_ref (RefV2 t k) = (CHR ''.'' \<notin> set t \<and> CHR '':'' \<notin> set t \<and> CHR '':'' \<notin> set k)"

lemma outputs_for_clear:
  assumes "clear_ref r" and "po_Ref def = ref_text r"
  shows "outputs_for outs def =
    [\<lparr>ov_PipelineOutput = def, ov_Value = any_of (output_of outs (ref_task r) (ref_key r))\<rparr>]"
proof (cases r)
  case (RefV1 t k)
  then have "parsePipelineOutputRef (po_Ref def) = Inr (t, k)" "\<exists>e. parsePipelineOutputRefV2 (po_Ref def) = Inl e"
    using assms parse_RefV1 [of "[]" "[]" t k] parse_not_RefV2 [of "po_Ref def"] by simp_all
  with RefV1 show ?thesis by (auto simp: outputs_for_def)
next
  case (RefV2 t k)
  then have "parsePipelineOutputRefV2 (po_Ref def) = Inr (t, k)" "\<exists>e. parsePipelineOutputRef (po_Ref def) = Inl e"
    using assms parse_RefV2 [of "[]" "[]" t k] parse_not_RefV1 [of "po_Ref def"] by simp_all
  with RefV2 show ?thesis by (auto simp: outputs_for_def)
qed



section \<open>A reference that both forms read\<close>

text \<open>The fields that the outputs of a nested pipeline become in the result of its parent task.\<close>

definition output_fields :: "PipelineOutputWithValue list \<Rightarrow> MetadataField list" where
  "output_fields ovs =
     map (\<lambda>ov. \<lparr>mf_Name = po_Name (ov_PipelineOutput ov), mf_Value = strutil_String (ov_Value ov),
                mf_Type = '''', mf_Labels = []\<rparr>) ovs"

lemma outputs_for_dotted:
  assumes "CHR '':'' \<notin> set t" "CHR ''.'' \<notin> set t" "CHR ''.'' \<notin> set k" "\<not> suffix '' }}'' (k' @ ''}'')"
    and "po_Ref def = ref_text (RefV1 t (k @ ''.'' @ k'))"
  shows "outputs_for outs def =
    [\<lparr>ov_PipelineOutput = def, ov_Value = any_of (output_of outs t (k @ ''.'' @ k'))\<rparr>,
     \<lparr>ov_PipelineOutput = def, ov_Value = any_of (output_of outs (''${'' @ t @ '':OUTPUT:'' @ k) (k' @ ''}''))\<rparr>]"
proof -
  let ?a = "''${'' @ t @ '':OUTPUT:'' @ k" and ?b = "k' @ ''}''"
  have ref: "po_Ref def = ?a @ CHR ''.'' # ?b" using assms(5) by simp
  have a: "CHR ''.'' \<notin> set ?a" using assms(2,3) by simp
  have "strings_TrimSpace (po_Ref def) = po_Ref def"
    using trim_ref [of "[]" "[]" "RefV1 t (k @ ''.'' @ k')"] assms(5) by simp
  moreover have "strings_TrimPrefix (po_Ref def) ''${{ outputs.'' = po_Ref def"
  proof -
    have "\<not> prefix ''${{ outputs.'' (po_Ref def)"
    proof
      assume "prefix ''${{ outputs.'' (po_Ref def)"
      then obtain z where "?a @ CHR ''.'' # ?b = ''${{ outputs'' @ CHR ''.'' # z" using ref by (auto simp: prefix_def)
      then have "strings_Cut ''.'' (?a @ CHR ''.'' # ?b) = strings_Cut ''.'' (''${{ outputs'' @ CHR ''.'' # z)" by simp
      then have "?a = ''${{ outputs''" using strings_Cut_char(1) [OF a, of ?b] by simp
      then have "CHR '':'' \<in> set ''${{ outputs''" by (metis (no_types, lifting) UnCI append_Cons list.set_intros(1) set_append)
      then show False by simp
    qed
    then show ?thesis by (simp add: strings_TrimPrefix_def)
  qed
  moreover have "strings_TrimSuffix (po_Ref def) '' }}'' = po_Ref def"
  proof -
    have "\<not> suffix '' }}'' (po_Ref def)"
      using assms(4) unfolding ref by (cases k' rule: rev_cases) (auto simp: suffix_append suffix_Cons Cons_eq_append_conv)
    then show ?thesis by (simp add: strings_TrimSuffix_def)
  qed
  ultimately have "parsePipelineOutputRefV2 (po_Ref def) = Inr (?a, ?b)"
    using SplitN_char(1) [OF a, of ?b] unfolding ref by (simp add: parsePipelineOutputRefV2_def)
  moreover have "parsePipelineOutputRef (po_Ref def) = Inr (t, k @ ''.'' @ k')"
    using parse_RefV1 [of "[]" "[]" t "k @ ''.'' @ k'"] assms(1,5) by simp
  ultimately show ?thesis by (simp add: outputs_for_def)
qed

text \<open>
  an output whose key has a dot is lost. A reference such as \<open>${build:OUTPUT:a.b}\<close> is read by
  the parser of the other form as well, which finds no task of that name, so the output is
  calculated twice, the second time without a value. In the result of the parent task the empty
  value comes last, and it is the one the tasks after it get.\<close>

theorem dotted_output_is_lost:
  assumes "CHR '':'' \<notin> set t" "CHR ''.'' \<notin> set t" "CHR ''.'' \<notin> set k" "\<not> suffix '' }}'' (k' @ ''}'')"
    and "po_Ref def = ref_text (RefV1 t (k @ ''.'' @ k'))"
    and "last_output tasks t (k @ ''.'' @ k') = Some v" "last_output tasks (''${'' @ t @ '':OUTPUT:'' @ k) (k' @ ''}'') = None"
    and "tr_Metadata (task_Result parent) = metas @ output_fields (calculate_outputs [def] tasks)"
  shows "map ov_Value (calculate_outputs [def] tasks) = [AnyString v, AnyNil] \<and>
         last_output [parent] (task_Name parent) (po_Name def) = Some ''''"
proof -
  have "calculate_outputs [def] tasks =
      [\<lparr>ov_PipelineOutput = def, ov_Value = AnyString v\<rparr>, \<lparr>ov_PipelineOutput = def, ov_Value = AnyNil\<rparr>]"
    using outputs_for_dotted [OF assms(1-5), of "collect_outputs Map.empty tasks"] assms(6,7)
    by (simp add: calculate_outputs_def output_of_collect any_of_def)
  with assms(8) show ?thesis
    by (simp add: last_output_def output_pairs_def output_fields_def strutil_String_def)
qed

theorem dotted_output_is_lost_witness:
  "\<exists>parent :: PipelineTask. last_output [parent] ''deploy'' ''image'' = Some '''' \<and>
     tr_Metadata (task_Result parent) = output_fields (calculate_outputs
       [\<lparr>po_Name = ''image'', po_Desc = '''', po_Ref = ''${build:OUTPUT:app.image}''\<rparr>]
       [(undefined :: PipelineTask)\<lparr>task_Name := ''build'', task_Result := empty_PipelineTaskResult\<lparr>tr_Metadata :=
          [\<lparr>mf_Name = ''app.image'', mf_Value = ''repo/app:1'', mf_Type = '''', mf_Labels = []\<rparr>]\<rparr>\<rparr>])"
proof -
  let ?def = "\<lparr>po_Name = ''image'', po_Desc = '''', po_Ref = ''${build:OUTPUT:app.image}''\<rparr>"
  let ?build = "(undefined :: PipelineTask)\<lparr>task_Name := ''build'', task_Result := empty_PipelineTaskResult\<lparr>tr_Metadata :=
          [\<lparr>mf_Name = ''app.image'', mf_Value = ''repo/app:1'', mf_Type = '''', mf_Labels = []\<rparr>]\<rparr>\<rparr>"
  let ?parent = "(undefined :: PipelineTask)\<lparr>task_Name := ''deploy'', task_Result := empty_PipelineTaskResult\<lparr>tr_Metadata :=
          output_fields (calculate_outputs [?def] [?build])\<rparr>\<rparr>"
  have "map ov_Value (calculate_outputs [?def] [?build]) = [AnyString ''repo/app:1'', AnyNil] \<and>
         last_output [?parent] (task_Name ?parent) (po_Name ?def) = Some ''''"
    by (rule dotted_output_is_lost [where t = "''build''" and k = "''app''" and k' = "''image''" and metas = "[]"])
       (simp_all add: last_output_def output_pairs_def suffix_def)
  then show ?thesis by (intro exI [of _ ?parent]) simp
qed

section \<open>References in parameters\<close>

lemma ReplaceAll_no_match:
  assumes "\<And>a b. s = a @ b \<Longrightarrow> re b = None"
  shows "ReplaceAllStringSubmatchFunc re s repl = (s, False)"
  using assms
proof (induction re s repl rule: ReplaceAllStringSubmatchFunc.induct)
  case (2 re c s repl)
  have "re (c # s) = None" using "2.prems" [of "[]"] by simp
  moreover have "ReplaceAllStringSubmatchFunc re s repl = (s, False)"
  proof (rule "2.IH"(1) [OF calculation])
    fix a b assume "s = a @ b"
    then show "re b = None" using "2.prems" [of "c # a" b] by simp
  qed
  ultimately show ?case by simp
qed simp

lemma match_outputs_None:
  assumes "\<not> strings_Contains s ''${{ outputs''" shows "ReplaceAllStringSubmatchFunc match_outputs s repl = (s, False)"
proof (rule ReplaceAll_no_match)
  fix a b assume "s = a @ b"
  with assms have "\<not> prefix ''${{ outputs'' b"
    by (auto simp: strings_Contains_sublist sublist_def prefix_def)
  then show "match_outputs b = None" by (simp add: match_outputs_def)
qed

lemma LastIndex_snoc: "strings_LastIndex (s @ [c]) [c] = int (length s)"
  by (induction s) auto

lemma match_output_ref:
  assumes "t \<noteq> []" "k \<noteq> []" "CHR '':'' \<notin> set t" "CHR '':'' \<notin> set k"
  shows "match_output (ref_text (RefV1 t k)) = Some ([ref_text (RefV1 t k), t, k], [])"
proof -
  let ?s = "ref_text (RefV1 t k)"
  have d: "drop 2 ?s = t @ '':OUTPUT:'' @ k @ ''}''" by simp
  have t: "takeWhile (\<lambda>c. c \<noteq> CHR '':'') (drop 2 ?s) = t" "dropWhile (\<lambda>c. c \<noteq> CHR '':'') (drop 2 ?s) = '':OUTPUT:'' @ k @ ''}''"
    unfolding d using assms(3) by (auto simp: takeWhile_append dropWhile_append)
  have k: "takeWhile (\<lambda>c. c \<noteq> CHR '':'') (k @ ''}'') = k @ ''}''" using assms(4) by (auto simp: takeWhile_append)
  have i: "strings_LastIndex (k @ ''}'') ''}'' = int (length k)" by (rule LastIndex_snoc)
  have "1 \<le> int (length k)" using assms(2) by (cases k) simp_all
  with assms(1) show ?thesis
    unfolding match_output_def Let_def t by (simp add: k i)
qed

lemma match_whole_hit:
  assumes "k \<noteq> []" "CHR 0x0A \<notin> set (c # k)"
  shows "match_whole pre post (pre @ c # k @ post) = Some k"
  using assms by (auto simp: match_whole_def suffix_def)

lemma match_whole_miss: "\<not> prefix pre s \<Longrightarrow> match_whole pre post s = None"
  by (simp add: match_whole_def)

lemma match_output_replaced:
  assumes "t \<noteq> []" "k \<noteq> []" "CHR '':'' \<notin> set t" "CHR '':'' \<notin> set k" "output_of outs t k = Some v"
  shows "ReplaceAllStringSubmatchFunc match_output (ref_text (RefV1 t k)) (repl_output outs) = (v, True)"
proof -
  have s: "ref_text (RefV1 t k) = CHR ''$'' # ''{'' @ t @ '':OUTPUT:'' @ k @ ''}''" by simp
  have "repl_output outs [ref_text (RefV1 t k), t, k] = (v, True)"
    using assms(5) by (auto simp: repl_output_def output_of_def split: option.splits)
  then show ?thesis
    using match_output_ref [OF assms(1-4)] unfolding s by simp
qed

lemma resolve_param_text:
  "rp_TrueValue rp = AnyNil \<Longrightarrow> rp_Value rp = AnyString s \<Longrightarrow> match_params s = Some k \<Longrightarrow> match_params_v2 s = None \<Longrightarrow>
   rp_TrueValue (resolve_run_param outs m rp) = param_of m k"
  "rp_TrueValue rp = AnyNil \<Longrightarrow> rp_Value rp = AnyString s \<Longrightarrow> match_params_v2 s = Some k \<Longrightarrow>
   rp_TrueValue (resolve_run_param outs m rp) = param_of m k"
  by (simp_all add: resolve_run_param_def strutil_String_def split: prod.splits)

text \<open>
  References in the parameters of a nested pipeline get the values of the parent: both
  forms of a reference to a parameter get the parent's value of any type, and a reference to
  an output gets the text of the output, unless that text has a reference in it or the task's name begins
  with \<open>params\<close>. A parameter that has its true value keeps it.\<close>

theorem resolve_run_param_correct:
  assumes "rp_TrueValue rp = AnyNil"
  shows "(k \<noteq> [] \<and> CHR 0x0A \<notin> set k \<and> rp_Value rp = AnyString (''${params.'' @ k @ ''}'') \<longrightarrow>
           rp_TrueValue (resolve_run_param outs m rp) = param_of m k) \<and>
         (k \<noteq> [] \<and> CHR 0x0A \<notin> set k \<and> rp_Value rp = AnyString (''${{ params.'' @ k @ '' }}'') \<longrightarrow>
           rp_TrueValue (resolve_run_param outs m rp) = param_of m k) \<and>
         (t \<noteq> [] \<and> k \<noteq> [] \<and> CHR '':'' \<notin> set t \<and> CHR '':'' \<notin> set k \<and> \<not> prefix ''params'' t \<and>
          output_of outs t k = Some v \<and> \<not> strings_Contains v ''${{ outputs'' \<and>
          \<not> prefix ''{ params'' (t @ '':OUTPUT:'') \<and> rp_Value rp = AnyString (ref_text (RefV1 t k)) \<longrightarrow>
           rp_TrueValue (resolve_run_param outs m rp) = AnyString v) \<and>
         (rp_TrueValue rp' \<noteq> AnyNil \<longrightarrow> resolve_run_param outs m rp' = rp')"
proof (intro conjI impI)
  assume a: "k \<noteq> [] \<and> CHR 0x0A \<notin> set k \<and> rp_Value rp = AnyString (''${params.'' @ k @ ''}'')"
  show "rp_TrueValue (resolve_run_param outs m rp) = param_of m k"
    by (rule resolve_param_text(1) [OF assms, of "''${params.'' @ k @ ''}''"])
       (use a match_whole_hit [of k "CHR ''.''" "''${params''" "''}''"] in
         \<open>simp_all add: match_params_def match_params_v2_def match_whole_miss\<close>)
next
  assume a: "k \<noteq> [] \<and> CHR 0x0A \<notin> set k \<and> rp_Value rp = AnyString (''${{ params.'' @ k @ '' }}'')"
  show "rp_TrueValue (resolve_run_param outs m rp) = param_of m k"
    by (rule resolve_param_text(2) [OF assms, of "''${{ params.'' @ k @ '' }}''"])
       (use a match_whole_hit [of k "CHR ''.''" "''${{ params''" "'' }}''"] in
         \<open>simp_all add: match_params_v2_def\<close>)
next
  assume a: "t \<noteq> [] \<and> k \<noteq> [] \<and> CHR '':'' \<notin> set t \<and> CHR '':'' \<notin> set k \<and> \<not> prefix ''params'' t \<and>
          output_of outs t k = Some v \<and> \<not> strings_Contains v ''${{ outputs'' \<and>
          \<not> prefix ''{ params'' (t @ '':OUTPUT:'') \<and> rp_Value rp = AnyString (ref_text (RefV1 t k))"
  let ?s = "ref_text (RefV1 t k)"
  have no_colon: "prefix p (t @ CHR '':'' # x) \<longleftrightarrow> prefix p t" if "CHR '':'' \<notin> set p" for p x
    using that by (auto simp: prefix_append prefix_Cons)
  have "\<not> prefix ''${params'' ?s" "\<not> prefix ''${{ params'' ?s"
    using a no_colon [of "''params''"] no_colon [of "''{ params''"] by auto
  then have "match_params ?s = None" "match_params_v2 ?s = None"
    by (simp_all add: match_params_def match_params_v2_def match_whole_miss)
  moreover have "ReplaceAllStringSubmatchFunc match_output ?s (repl_output outs) = (v, True)"
    using a by (intro match_output_replaced) simp_all
  moreover have "ReplaceAllStringSubmatchFunc match_outputs v (repl_output outs) = (v, False)"
    using a by (intro match_outputs_None) simp
  ultimately show "rp_TrueValue (resolve_run_param outs m rp) = AnyString v"
    using assms a by (simp add: resolve_run_param_def strutil_String_def)
next
  assume "rp_TrueValue rp' \<noteq> AnyNil"
  then show "resolve_run_param outs m rp' = rp'" by (simp add: resolve_run_param_def)
qed

theorem resolve_run_param_correct_witness:
  "rp_TrueValue (resolve_run_param Map.empty [''env'' \<mapsto> AnyInt 3]
     \<lparr>rp_Name = ''e'', rp_Value = AnyString ''${params.env}'', rp_TrueValue = AnyNil\<rparr>) = AnyInt 3 \<and>
   rp_TrueValue (resolve_run_param [''build'' \<mapsto> [''tag'' \<mapsto> ''v1'']] Map.empty
     \<lparr>rp_Name = ''t'', rp_Value = AnyString ''${build:OUTPUT:tag}'', rp_TrueValue = AnyNil\<rparr>) = AnyString ''v1''"
  using resolve_run_param_correct [of "\<lparr>rp_Name = ''e'', rp_Value = AnyString ''${params.env}'', rp_TrueValue = AnyNil\<rparr>"
      "''env''" Map.empty "[''env'' \<mapsto> AnyInt 3]"]
    resolve_run_param_correct [of "\<lparr>rp_Name = ''t'', rp_Value = AnyString ''${build:OUTPUT:tag}'', rp_TrueValue = AnyNil\<rparr>"
      "''tag''" "[''build'' \<mapsto> [''tag'' \<mapsto> ''v1'']]" Map.empty "''build''" "''v1''"]
  by (simp add: param_of_def output_of_def)

text \<open>The output of a task whose name begins with \<open>params\<close> is taken for a parameter, which does not exist.\<close>

lemma params_task_output_lost:
  assumes "rp_TrueValue rp = AnyNil" "rp_Value rp = AnyString (ref_text (RefV1 (''params'' @ c # t) k))"
    and "CHR 0x0A \<notin> set (c # t @ k)" "m (t @ '':OUTPUT:'' @ k) = None"
  shows "rp_TrueValue (resolve_run_param outs m rp) = AnyNil"
proof -
  let ?s = "''${params'' @ c # (t @ '':OUTPUT:'' @ k) @ ''}''"
  have "match_params ?s = Some (t @ '':OUTPUT:'' @ k)"
    unfolding match_params_def by (rule match_whole_hit) (use assms(3) in auto)
  moreover have "match_params_v2 ?s = None" by (simp add: match_params_v2_def match_whole_miss)
  ultimately have "rp_TrueValue (resolve_run_param outs m rp) = param_of m (t @ '':OUTPUT:'' @ k)"
    using resolve_param_text(1) [OF assms(1), of ?s] assms(2) by simp
  with assms(4) show ?thesis by (simp add: param_of_def)
qed

end
