(* ===== verification/Reconciler.thy ===== *)
theory Reconciler
  imports Reconcile_Task Dag Queue_Manage Snippet
begin

text \<open>
  The reconciler of a pipeline (\<^verbatim>\<open>src/modules/pipeline/pipengine/reconciler\<close>): which tasks can
  be scheduled next, saving a task, what one task of a pipeline goes through, the status of the
  pipeline before and after, its teardown, and the keys in etcd by which pipelines arrive. The
  reconciler's sync maps are lists of keys; a call that ranges over a Go map takes the order as
  an argument.
\<close>

section \<open>State\<close>

record Reconciler =
  rc_processingTasks :: "string list"
  rc_teardownPipelines :: "nat list"
  rc_QueueManager :: defaultManager
  rc_pipelines :: "(nat \<times> Pipeline) list"
  rc_tasks :: "(nat \<times> PipelineTask) list"
  rc_nextTaskID :: nat
  rc_watchKeys :: "string list"
  rc_exited :: "nat list"
  rc_faults :: "string option list"
  rc_pipelineEvents :: "(nat \<times> PipelineStatus) list"
  rc_now :: time

text \<open>The outcome of the next call to the database or to etcd.\<close>

definition rc_fault :: "Reconciler \<Rightarrow> string option \<times> Reconciler" where
  "rc_fault r =
     (case rc_faults r of
        [] \<Rightarrow> (None, r)
      | f # fs \<Rightarrow> (f, r\<lparr>rc_faults := fs\<rparr>))"

section \<open>Keys\<close>

definition etcdReconcilerWatchPrefix :: string where
  "etcdReconcilerWatchPrefix = ''/devops/pipeline/reconciler/''"

definition makePipelineWatchedKey :: "nat \<Rightarrow> string" where
  "makePipelineWatchedKey pipelineID = etcdReconcilerWatchPrefix @ FormatUint pipelineID"

definition parsePipelineIDFromWatchedKey :: "string \<Rightarrow> nat option" where
  "parsePipelineIDFromWatchedKey k = ParseUint (TrimPrefixes k [etcdReconcilerWatchPrefix])"

definition buildTaskDagName :: "nat \<Rightarrow> string \<Rightarrow> string" where
  "buildTaskDagName pipelineID taskName = FormatUint pipelineID @ ''_'' @ taskName"

section \<open>Schedulable tasks\<close>

definition dag_node :: "PipelineTask \<Rightarrow> NamedNode" where
  "dag_node task = \<lparr>nn_NodeName = NodeName task, nn_PrevNodeNames = PrevNodeNames task\<rparr>"

fun task_by_name :: "PipelineTask list \<Rightarrow> string \<Rightarrow> PipelineTask option" where
  "task_by_name [] name = None"
| "task_by_name (t # ts) name =
     (case task_by_name ts name of
        Some t' \<Rightarrow> Some t'
      | None \<Rightarrow> if task_Name t = name then Some t else None)"

text \<open>
  The loop over the nodes the graph offers: a task in process elsewhere is passed over.
  \<open>None\<close>: a node without a task, a nil pointer in the source.
\<close>

fun pick_tasks ::
  "nat \<Rightarrow> PipelineTask list \<Rightarrow> string list \<Rightarrow> string list \<Rightarrow> (PipelineTask list \<times> string list) option" where
  "pick_tasks pid tasks [] processing = Some ([], processing)"
| "pick_tasks pid tasks (nodeName # nodeNames) processing =
     (case task_by_name tasks nodeName of
        None \<Rightarrow> None
      | Some task \<Rightarrow>
          let k = buildTaskDagName pid (task_Name task)
          in if k \<in> set processing then pick_tasks pid tasks nodeNames processing
             else map_option (\<lambda>(ts, processing). (task # ts, processing))
                    (pick_tasks pid tasks nodeNames (k # processing)))"

text \<open>
  \<open>ord\<close> is the order in which the graph visits its nodes, \<open>ord'\<close> that in which the result is
  ranged over. \<open>None\<close>: the graph search does not return, or a nil task is dereferenced.
\<close>

definition getSchedulableTasks ::
  "string list \<Rightarrow> string list \<Rightarrow> nat \<Rightarrow> PipelineTask list \<Rightarrow> Reconciler
   \<Rightarrow> ((dag_error + PipelineTask list) \<times> Reconciler) option" where
  "getSchedulableTasks ord ord' pid tasks r =
     (case New ord (map dag_node tasks)
             [WithAllowMarkArbitraryNodesAsDone True, WithAllowNotCheckCycle True] of
        None \<Rightarrow> None
      | Some (Inl e) \<Rightarrow> Some (Inl e, r)
      | Some (Inr g) \<Rightarrow>
          (case GetSchedulable ord g (DoneTasks tasks) of
             None \<Rightarrow> None
           | Some (Inl e) \<Rightarrow> Some (Inl e, r)
           | Some (Inr m) \<Rightarrow>
               map_option (\<lambda>(ts, processing). (Inr ts, r\<lparr>rc_processingTasks := processing\<rparr>))
                 (pick_tasks pid tasks (filter (\<lambda>n. m n \<noteq> None) ord') (rc_processingTasks r))))"

section \<open>One task of the pipeline\<close>

text \<open>The status the executor reports replaces the task's, unless it is an abnormal failure.\<close>

definition correct_status :: "env \<Rightarrow> executor \<Rightarrow> TaskRun \<Rightarrow> TaskRun" where
  "correct_status en ex tr =
     (case with_world (ex_Status ex (task_of tr)) tr of
        (Inl _, tr) \<Rightarrow> tr
      | (Inr latest, tr) \<Rightarrow>
          if status_of tr \<noteq> sd_Status latest \<and> \<not> IsAbnormalFailedStatus (sd_Status latest)
          then Update en (set_status (sd_Status latest) tr) else tr)"

definition skip_task :: "env \<Rightarrow> TaskRun \<Rightarrow> TaskRun" where
  "skip_task en tr =
     Update en (set_task (\<lambda>t. t\<lparr>task_Status := PipelineStatusNoNeedBySystem,
                                 task_Extra := (task_Extra t)\<lparr>te_AllowFailure := True\<rparr>\<rparr>) tr)"

definition teardown_if_ended :: "env \<Rightarrow> reconcile_result \<Rightarrow> reconcile_result" where
  "teardown_if_ended en res =
     (case res of
        Finished err tr \<Rightarrow> Finished err (if IsEndStatus (status_of tr) then Teardown en tr else tr)
      | other \<Rightarrow> other)"

definition reconcile_one ::
  "nat \<Rightarrow> env \<Rightarrow> executor \<Rightarrow> make_task_run \<Rightarrow> (nat \<Rightarrow> first_signal) \<Rightarrow> PipelineStatus \<Rightarrow> TaskRun \<Rightarrow> reconcile_result" where
  "reconcile_one fuel en ex mk sel calcPStatus tr =
     (let tr = correct_status en ex tr
      in teardown_if_ended en
           (if calcPStatus = PipelineStatusFailed \<and> te_ActionIf (task_Extra (task_of tr)) = ''''
            then Finished None (skip_task en tr)
            else reconcileTask fuel en ex mk sel tr))"

section \<open>Saving a task\<close>

definition CreatePipelineTask :: "PipelineTask \<Rightarrow> Reconciler \<Rightarrow> (string + PipelineTask) \<times> Reconciler" where
  "CreatePipelineTask pt r =
     (case rc_fault r of
        (Some e, r) \<Rightarrow> (Inl e, r)
      | (None, r) \<Rightarrow>
          let pt = pt\<lparr>task_ID := rc_nextTaskID r\<rparr>
          in (Inr pt, r\<lparr>rc_tasks := rc_tasks r @ [(rc_nextTaskID r, pt)], rc_nextTaskID := rc_nextTaskID r + 1\<rparr>))"

text \<open>
  The last successful tasks of a rerun and the stages come from the caches of the pipeline's
  context, or an error of the query that fills them. A stage order beyond the stages is an index
  out of range, \<open>None\<close>. The row to insert has no identifier yet.
\<close>

definition saveTask ::
  "string + (string \<times> PipelineTask) list \<Rightarrow> string + PipelineStageWithTask list \<Rightarrow> PipelineTask \<Rightarrow> nat \<Rightarrow> Reconciler
   \<Rightarrow> ((string + PipelineTask) \<times> Reconciler) option" where
  "saveTask lastSuccessTaskMap stages task pid r =
     (if task_ID task > 0 then Some (Inr task, r)
      else (case lastSuccessTaskMap of
        Inl err \<Rightarrow> Some (Inl err, r)
      | Inr lastSuccessTasks \<Rightarrow>
     (case stages of
        Inl err \<Rightarrow> Some (Inl err, r)
      | Inr stages \<Rightarrow>
     (case map_of lastSuccessTasks (task_Name task) of
        Some lastSuccessTask \<Rightarrow>
          if te_StageOrder (task_Extra task) < length stages
          then Some (CreatePipelineTask (lastSuccessTask\<lparr>task_ID := 0, task_PipelineID := pid,
                       task_StageID := stage_ID (stages ! te_StageOrder (task_Extra task))\<rparr>) r)
          else None
      | None \<Rightarrow> Some (CreatePipelineTask task r)))))"

section \<open>Pipeline status\<close>

definition set_pipeline :: "nat \<Rightarrow> (Pipeline \<Rightarrow> Pipeline) \<Rightarrow> Reconciler \<Rightarrow> Reconciler" where
  "set_pipeline pid f r =
     (case map_of (rc_pipelines r) pid of
        None \<Rightarrow> r
      | Some p \<Rightarrow> r\<lparr>rc_pipelines := AList.update pid (f p) (rc_pipelines r)\<rparr>)"

definition updatePipelineStatus :: "nat \<Rightarrow> PipelineStatus \<Rightarrow> Reconciler \<Rightarrow> string option \<times> Reconciler" where
  "updatePipelineStatus pid st r =
     (case rc_fault r of
        (Some e, r) \<Rightarrow> (Some e, r)
      | (None, r) \<Rightarrow>
          let r = set_pipeline pid (p_Status_update (\<lambda>_. st)) r
          in (None, r\<lparr>rc_pipelineEvents := rc_pipelineEvents r @ [(pid, st)]\<rparr>))"

definition updateStatusBeforeReconcile :: "Pipeline \<Rightarrow> Reconciler \<Rightarrow> string option \<times> Reconciler" where
  "updateStatusBeforeReconcile p r =
     (if \<not> IsRunningStatus (p_Status p) then updatePipelineStatus (p_ID p) PipelineStatusRunning r
      else (None, r))"

text \<open>
  A pipeline's rows of the base and the extra table are one record here; reading it queries the
  two tables and the labels. An update of one table writes all its columns.
\<close>

definition GetPipeline :: "nat \<Rightarrow> Reconciler \<Rightarrow> (string + Pipeline) \<times> Reconciler" where
  "GetPipeline pid r =
     (case rc_fault r of
        (Some e, r) \<Rightarrow> (Inl e, r)
      | (None, r) \<Rightarrow>
          (case map_of (rc_pipelines r) pid of
             None \<Rightarrow> (Inl ''not found base'', r)
           | Some p \<Rightarrow>
               (case rc_fault r of
                  (Some e, r) \<Rightarrow> (Inl e, r)
                | (None, r) \<Rightarrow>
                    (case rc_fault r of
                       (Some e, r) \<Rightarrow> (Inl e, r)
                     | (None, r) \<Rightarrow> (Inr p, r)))))"

definition ListPipelineTasksByPipelineID :: "nat \<Rightarrow> Reconciler \<Rightarrow> (string + PipelineTask list) \<times> Reconciler" where
  "ListPipelineTasksByPipelineID pid r =
     (case rc_fault r of
        (Some e, r) \<Rightarrow>
          (Inl (''failed to list pipeline tasks by pipelineID ['' @ FormatUint pid @ '']: '' @ e), r)
      | (None, r) \<Rightarrow> (Inr (filter (\<lambda>t. task_PipelineID t = pid) (map snd (rc_tasks r))), r))"

definition GetPipelineWithTasks :: "nat \<Rightarrow> Reconciler \<Rightarrow> (string + PipelineWithTasks) \<times> Reconciler" where
  "GetPipelineWithTasks pid r =
     (case GetPipeline pid r of
        (Inl e, r) \<Rightarrow> (Inl e, r)
      | (Inr p, r) \<Rightarrow>
          (case ListPipelineTasksByPipelineID pid r of
             (Inl e, r) \<Rightarrow> (Inl e, r)
           | (Inr tasks, r) \<Rightarrow> (Inr \<lparr>pwt_Pipeline = p, pwt_Tasks = tasks\<rparr>, r)))"

definition UpdatePipelineBase :: "nat \<Rightarrow> Pipeline \<Rightarrow> Reconciler \<Rightarrow> string option \<times> Reconciler" where
  "UpdatePipelineBase pid p r =
     (case rc_fault r of
        (Some e, r) \<Rightarrow> (Some e, r)
      | (None, r) \<Rightarrow>
          (None, set_pipeline pid (\<lambda>row. row\<lparr>p_ClusterName := p_ClusterName p, p_Status := p_Status p,
             p_CostTimeSec := p_CostTimeSec p, p_TimeBegin := p_TimeBegin p, p_TimeEnd := p_TimeEnd p,
             p_IsSnippet := p_IsSnippet p, p_ParentPipelineID := p_ParentPipelineID p,
             p_ParentTaskID := p_ParentTaskID p\<rparr>) r))"

definition UpdatePipelineExtraByPipelineID :: "nat \<Rightarrow> Pipeline \<Rightarrow> Reconciler \<Rightarrow> string option \<times> Reconciler" where
  "UpdatePipelineExtraByPipelineID pid p r =
     (case rc_fault r of
        (Some e, r) \<Rightarrow> (Some e, r)
      | (None, r) \<Rightarrow>
          (None, set_pipeline pid (\<lambda>row. row\<lparr>p_Namespace := p_Namespace p,
             p_NotPipelineControlledNs := p_NotPipelineControlledNs p, p_TaskOperates := p_TaskOperates p,
             p_SnippetChain := p_SnippetChain p,
             p_DefinedOutputs := p_DefinedOutputs p, p_QueueInfo := p_QueueInfo p, p_Snapshot := p_Snapshot p,
             p_AppliedResources := p_AppliedResources p,
             p_CompleteReconcilerTeardown := p_CompleteReconcilerTeardown p\<rparr>) r))"

definition UpdatePipelineExtraSnapshot :: "nat \<Rightarrow> Pipeline \<Rightarrow> Reconciler \<Rightarrow> string option \<times> Reconciler" where
  "UpdatePipelineExtraSnapshot pid p r =
     (case rc_fault r of
        (Some e, r) \<Rightarrow> (Some e, r)
      | (None, r) \<Rightarrow>
          (None, set_pipeline pid (\<lambda>row. row\<lparr>p_Snapshot := p_Snapshot p,
             p_AppliedResources := p_AppliedResources p\<rparr>) r))"

definition rc_GetPipelineTask :: "nat \<Rightarrow> Reconciler \<Rightarrow> (string + PipelineTask) \<times> Reconciler" where
  "rc_GetPipelineTask tid r =
     (case rc_fault r of
        (Some e, r) \<Rightarrow> (Inl (''failed to get pipeline task by id ['' @ FormatUint tid @ '']: '' @ e), r)
      | (None, r) \<Rightarrow>
          (case map_of (rc_tasks r) tid of
             None \<Rightarrow> (Inl (''not found pipeline task by id ['' @ FormatUint tid @ '']''), r)
           | Some t \<Rightarrow> (Inr t, r)))"

text \<open>An update of some columns of a task; no row is no error.\<close>

definition rc_update_task ::
  "nat \<Rightarrow> (PipelineTask \<Rightarrow> PipelineTask) \<Rightarrow> Reconciler \<Rightarrow> string option \<times> Reconciler" where
  "rc_update_task tid f r =
     (case rc_fault r of
        (Some e, r) \<Rightarrow> (Some e, r)
      | (None, r) \<Rightarrow>
          (None, case map_of (rc_tasks r) tid of
                   None \<Rightarrow> r
                 | Some t \<Rightarrow> r\<lparr>rc_tasks := AList.update tid (f t) (rc_tasks r)\<rparr>))"

definition UpdatePipelineTaskStatus :: "nat \<Rightarrow> PipelineStatus \<Rightarrow> Reconciler \<Rightarrow> string option \<times> Reconciler" where
  "UpdatePipelineTaskStatus tid st r = rc_update_task tid (\<lambda>t. t\<lparr>task_Status := st\<rparr>) r"

definition UpdatePipelineTaskSnippetDetail ::
  "nat \<Rightarrow> PipelineTaskSnippetDetail \<Rightarrow> Reconciler \<Rightarrow> string option \<times> Reconciler" where
  "UpdatePipelineTaskSnippetDetail tid d r = rc_update_task tid (\<lambda>t. t\<lparr>task_SnippetPipelineDetail := Some d\<rparr>) r"

definition rc_UpdatePipelineTaskResult ::
  "nat \<Rightarrow> PipelineTaskResult \<Rightarrow> Reconciler \<Rightarrow> string option \<times> Reconciler" where
  "rc_UpdatePipelineTaskResult tid result r = rc_update_task tid (\<lambda>t. t\<lparr>task_Result := result\<rparr>) r"

subsection \<open>The end of a nested pipeline\<close>

definition calculateAndUpdatePipelineOutputValues ::
  "Pipeline \<Rightarrow> PipelineTask list \<Rightarrow> Reconciler \<Rightarrow> PipelineOutputWithValue list \<times> Pipeline \<times> Reconciler" where
  "calculateAndUpdatePipelineOutputValues p tasks r =
     (let outputValues = calculate_outputs (p_DefinedOutputs p) tasks;
          p = p\<lparr>p_Snapshot := (p_Snapshot p)\<lparr>sn_OutputValues := outputValues\<rparr>\<rparr>
      in (outputValues, p, snd (UpdatePipelineExtraSnapshot (p_ID p) p r)))"

text \<open>\<open>None\<close>: the pipeline has no parent task, a nil pointer in the source.\<close>

definition handleParentSnippetTaskOutputs ::
  "Pipeline \<Rightarrow> PipelineOutputWithValue list \<Rightarrow> Reconciler \<Rightarrow> (string option \<times> Reconciler) option" where
  "handleParentSnippetTaskOutputs snippetPipeline outputValues r =
     map_option (\<lambda>parentTaskID.
       (case rc_GetPipelineTask parentTaskID r of
          (Inl e, r) \<Rightarrow> (Some e, r)
        | (Inr parentTask, r) \<Rightarrow>
            let snippetDetail = (case task_SnippetPipelineDetail parentTask of
                  None \<Rightarrow> \<lparr>spd_Outputs = [], spd_DirectSnippetTasksNum = - 1, spd_RecursiveSnippetTasksNum = - 1\<rparr>
                | Some d \<Rightarrow> d)
            in (case UpdatePipelineTaskSnippetDetail parentTaskID (snippetDetail\<lparr>spd_Outputs := outputValues\<rparr>) r of
                  (Some e, r) \<Rightarrow> (Some (''failed to update pipeline task snippet detail, err: '' @ e), r)
                | (None, r) \<Rightarrow>
                    rc_UpdatePipelineTaskResult parentTaskID
                      (tr_Metadata_update (\<lambda>ms. ms @ output_fields (sn_OutputValues (p_Snapshot snippetPipeline)))
                        (task_Result parentTask)) r)))
       (p_ParentTaskID snippetPipeline)"

definition fulfillParentSnippetTask :: "Pipeline \<Rightarrow> Reconciler \<Rightarrow> (string option \<times> Reconciler) option" where
  "fulfillParentSnippetTask p r =
     (if \<not> p_IsSnippet p \<or> p_ParentTaskID p = None then Some (None, r)
      else (case GetPipelineWithTasks (p_ID p) r of
        (Inl e, r) \<Rightarrow> Some (Some e, r)
      | (Inr pWithTasks, r) \<Rightarrow>
          let tasks = pwt_Tasks pWithTasks;
              (outputValues, p, r) = calculateAndUpdatePipelineOutputValues (pwt_Pipeline pWithTasks) tasks r
          in (case handleParentSnippetTaskOutputs p outputValues r of
                None \<Rightarrow> None
              | Some (Some e, r) \<Rightarrow>
                  Some (Some (''failed to handler parent snippet task outputs, pipelineID: '' @ FormatUint (p_ID p) @
                              '', err: '' @ e), r)
              | Some (None, r) \<Rightarrow>
                  map_option (\<lambda>parentTaskID.
                    UpdatePipelineTaskStatus parentTaskID (CalculatePipelineStatusV2 tasks) r) (p_ParentTaskID p))))"

subsection \<open>Teardown\<close>

fun teardown_tasks :: "PipelineTask list \<Rightarrow> Reconciler \<Rightarrow> Reconciler" where
  "teardown_tasks [] r = r"
| "teardown_tasks (task # tasks) r =
     teardown_tasks tasks
       (if task_Status task = PipelineStatusAnalyzed \<or> task_Status task = PipelineStatusBorn
        then snd (UpdatePipelineTaskStatus (task_ID task) PipelineStatusNoNeedBySystem r) else r)"

text \<open>
  The calls deferred in \<open>teardownPipeline\<close> concern namespaces and cron jobs only. \<open>None\<close>: the nil
  pointer of a nested pipeline without parent task.
\<close>

definition teardownPipeline :: "PipelineWithTasks \<Rightarrow> Reconciler \<Rightarrow> Reconciler option" where
  "teardownPipeline pt r =
     (let p = pwt_Pipeline pt
      in if \<not> IsEndStatus (p_Status p) then Some r
         else if p_ID p \<in> set (rc_teardownPipelines r) then Some r
         else
           let r = r\<lparr>rc_teardownPipelines := p_ID p # rc_teardownPipelines r\<rparr>;
               r = teardown_tasks (pwt_Tasks pt) r
           in map_option (\<lambda>(_, r).
                let p = p\<lparr>p_TimeEnd := Some (rc_now r)\<rparr>;
                    p = p\<lparr>p_CostTimeSec := CalculatePipelineCostTimeSec (rc_now r) p\<rparr>;
                    r = snd (UpdatePipelineBase (p_ID p) p r);
                    p = p\<lparr>p_CompleteReconcilerTeardown := True\<rparr>
                in snd (UpdatePipelineExtraByPipelineID (p_ID p) p r))
                (fulfillParentSnippetTask p r))"

definition updateStatusAfterReconcile :: "nat \<Rightarrow> Reconciler \<Rightarrow> (string option \<times> Reconciler) option" where
  "updateStatusAfterReconcile pid r =
     (case GetPipelineWithTasks pid r of
        (Inl e, r) \<Rightarrow> Some (Some e, r)
      | (Inr pt, r) \<Rightarrow>
          let p = pwt_Pipeline pt
          in if IsEndStatus (p_Status p) then map_option (Pair None) (teardownPipeline pt r)
             else
               let calcPStatus = CalculatePipelineStatusV2 (pwt_Tasks pt)
               in if calcPStatus \<noteq> p_Status p then
                    (case updatePipelineStatus (p_ID p) calcPStatus r of
                       (err, r) \<Rightarrow>
                         map_option (Pair err)
                           (teardownPipeline (pt\<lparr>pwt_Pipeline := p\<lparr>p_Status := calcPStatus\<rparr>\<rparr>) r))
                  else map_option (Pair None) (teardownPipeline pt r))"

subsection \<open>Etcd keys\<close>

text \<open>
  A retry loop of the reconciler: \<open>pause\<close> is what happens while it sleeps, \<open>oor\<close> the
  platform's conversion of a float that is out of range.
\<close>

definition rc_loop ::
  "(float64 \<Rightarrow> int) \<Rightarrow> (duration \<Rightarrow> Reconciler \<Rightarrow> Reconciler) \<Rightarrow> duration
   \<Rightarrow> ('x \<times> Reconciler \<Rightarrow> (bool \<times> string option) \<times> 'x \<times> Reconciler) \<Rightarrow> 'x \<times> Reconciler \<Rightarrow> 'x \<times> Reconciler" where
  "rc_loop oor pause limit f s =
     snd (snd (loop_Do oor (\<lambda>d (x, r). (False, x, pause d r)) (\<lambda>_. False)
       (loop_New [WithDeclineRatio (Fin 2), WithDeclineLimit limit]) f s))"

definition etcd_change ::
  "(string list \<Rightarrow> string list) \<Rightarrow> unit \<times> Reconciler \<Rightarrow> (bool \<times> string option) \<times> unit \<times> Reconciler" where
  "etcd_change f = (\<lambda>(u, r).
     (case rc_fault r of
        (Some e, r) \<Rightarrow> ((False, Some e), (), r)
      | (None, r) \<Rightarrow> ((True, None), (), r\<lparr>rc_watchKeys := f (rc_watchKeys r)\<rparr>)))"

definition deleteEtcdWatchKey ::
  "(float64 \<Rightarrow> int) \<Rightarrow> (duration \<Rightarrow> Reconciler \<Rightarrow> Reconciler) \<Rightarrow> nat \<Rightarrow> Reconciler \<Rightarrow> Reconciler" where
  "deleteEtcdWatchKey oor pause pid r =
     snd (rc_loop oor pause (60 * Second) (etcd_change (filter (\<lambda>k. k \<noteq> makePipelineWatchedKey pid))) ((), r))"

definition rc_Add ::
  "(float64 \<Rightarrow> int) \<Rightarrow> (duration \<Rightarrow> Reconciler \<Rightarrow> Reconciler) \<Rightarrow> nat \<Rightarrow> Reconciler \<Rightarrow> Reconciler" where
  "rc_Add oor pause pid r =
     snd (rc_loop oor pause (60 * Second) (etcd_change (List.insert (makePipelineWatchedKey pid))) ((), r))"

definition reconcileAgain ::
  "(float64 \<Rightarrow> int) \<Rightarrow> (duration \<Rightarrow> Reconciler \<Rightarrow> Reconciler) \<Rightarrow> nat \<Rightarrow> Reconciler \<Rightarrow> Reconciler" where
  "reconcileAgain oor pause pid r = rc_Add oor pause pid (pause (5 * Second) r)"

definition closePipelineExitChannel :: "nat \<Rightarrow> Reconciler \<Rightarrow> Reconciler" where
  "closePipelineExitChannel pid r = r\<lparr>rc_exited := List.insert pid (rc_exited r)\<rparr>"

definition teardownCurrentReconcile ::
  "(float64 \<Rightarrow> int) \<Rightarrow> (duration \<Rightarrow> Reconciler \<Rightarrow> Reconciler) \<Rightarrow> nat \<Rightarrow> Reconciler \<Rightarrow> Reconciler" where
  "teardownCurrentReconcile oor pause pid r =
     (let r = closePipelineExitChannel pid r;
          r = deleteEtcdWatchKey oor pause pid r;
          r = r\<lparr>rc_teardownPipelines := filter (\<lambda>n. n \<noteq> pid) (rc_teardownPipelines r)\<rparr>
      in r\<lparr>rc_QueueManager := PopOutPipelineFromQueue (map_of (rc_pipelines r)) pid (rc_QueueManager r)\<rparr>)"

section \<open>A pipeline that arrives\<close>

text \<open>
  The handler of \<open>Listen\<close> for a key of the watched prefix, up to the reconciliation and after
  it. \<open>waitPop\<close> is what happens until the queue signals the channel \<open>popCh\<close>. The queue manager
  never asks for a retry, so a pipeline that cannot be queued fails. It writes the pipeline's
  status through its own log \<open>mgr_db_status\<close>.
\<close>

definition put_into_queue ::
  "(nat \<Rightarrow> PipelineQueue option) \<Rightarrow> nat \<Rightarrow> nat \<Rightarrow> Reconciler \<Rightarrow> queue_error + Reconciler" where
  "put_into_queue dbq popCh pid r =
     (case PutPipelineIntoQueue (map_of (rc_pipelines r)) dbq (rc_now r) popCh pid
             ((rc_QueueManager r)\<lparr>mgr_db_status := Map.empty\<rparr>) of
        Inl e \<Rightarrow> Inl e
      | Inr mgr \<Rightarrow>
          let r = r\<lparr>rc_QueueManager := mgr\<rparr>
          in Inr (case mgr_db_status mgr pid of
                    None \<Rightarrow> r
                  | Some st \<Rightarrow> set_pipeline pid (p_Status_update (\<lambda>_. st)) r))"

definition zero_Pipeline :: Pipeline where
  "zero_Pipeline =
     \<lparr>p_ID = 0, p_ClusterName = '''', p_Status = PipelineEmptyStatus, p_CostTimeSec = 0,
      p_TimeBegin = None, p_TimeEnd = None, p_TimeCreated = None, p_Namespace = '''', p_NotPipelineControlledNs = False,
      p_TaskOperates = [], p_IsSnippet = False,
      p_ParentPipelineID = None, p_ParentTaskID = None,
      p_SnippetChain = [], p_DefinedOutputs = [], p_Snapshot = empty_Snapshot, p_QueueInfo = None,
      p_AppliedResources = \<lparr>ar_Limits = \<lparr>ar_CPU = 0, ar_MemoryMB = 0\<rparr>, ar_Requests = \<lparr>ar_CPU = 0, ar_MemoryMB = 0\<rparr>\<rparr>,
      p_CompleteReconcilerTeardown = False\<rparr>"

definition fetch_pipeline ::
  "nat \<Rightarrow> Pipeline \<times> Reconciler \<Rightarrow> (bool \<times> string option) \<times> Pipeline \<times> Reconciler" where
  "fetch_pipeline pid = (\<lambda>(p, r).
     (case GetPipeline pid r of
        (Inl e, r) \<Rightarrow> ((False, Some e), zero_Pipeline, r)
      | (Inr p, r) \<Rightarrow> ((True, None), p, r)))"

text \<open>The pipeline to reconcile, if the handler gets that far.\<close>

definition Listen_begin ::
  "(float64 \<Rightarrow> int) \<Rightarrow> (duration \<Rightarrow> Reconciler \<Rightarrow> Reconciler) \<Rightarrow> (nat \<Rightarrow> Reconciler \<Rightarrow> Reconciler)
   \<Rightarrow> (nat \<Rightarrow> PipelineQueue option) \<Rightarrow> nat \<Rightarrow> string \<Rightarrow> Reconciler \<Rightarrow> nat option \<times> Reconciler" where
  "Listen_begin oor pause waitPop dbq popCh watchedKey r =
     (case parsePipelineIDFromWatchedKey watchedKey of
        None \<Rightarrow> (None, r)
      | Some pid \<Rightarrow>
          (case put_into_queue dbq popCh pid r of
             Inl _ \<Rightarrow> (None, snd (updatePipelineStatus pid PipelineStatusFailed r))
           | Inr r \<Rightarrow>
               (case rc_loop oor pause (10 * Second) (fetch_pipeline pid) (zero_Pipeline, waitPop popCh r) of
                  (p, r) \<Rightarrow>
                    if IsEndStatus (p_Status p) then (None, r)
                    else (case updateStatusBeforeReconcile p r of
                            (Some _, r) \<Rightarrow> (None, r)
                          | (None, r) \<Rightarrow> (Some pid, r)))))"

definition Listen_end ::
  "(float64 \<Rightarrow> int) \<Rightarrow> (duration \<Rightarrow> Reconciler \<Rightarrow> Reconciler)
   \<Rightarrow> nat \<Rightarrow> string option \<Rightarrow> Reconciler \<Rightarrow> Reconciler option" where
  "Listen_end oor pause pid reconcileErr r =
     map_option (\<lambda>(_, r). if reconcileErr \<noteq> None then reconcileAgain oor pause pid r else r)
       (updateStatusAfterReconcile pid (teardownCurrentReconcile oor pause pid r))"

section \<open>What is scheduled\<close>

lemma buildTaskDagName_inject [simp]:
  "buildTaskDagName pid n = buildTaskDagName pid m \<longleftrightarrow> n = m"
  by (simp add: buildTaskDagName_def)

text \<open>Marks of different pipelines never collide.\<close>

lemma buildTaskDagName_eq_iff:
  "buildTaskDagName pid n = buildTaskDagName pid' n' \<longleftrightarrow> pid = pid' \<and> n = n'"
proof
  have take: "takeWhile is_digit (buildTaskDagName i m) = FormatUint i" for i m
    using FormatUint_digits [of _ i]
    by (simp add: buildTaskDagName_def takeWhile_append2) (simp add: is_digit_def)
  assume eq: "buildTaskDagName pid n = buildTaskDagName pid' n'"
  then have "FormatUint pid = FormatUint pid'" using take by metis
  with eq show "pid = pid' \<and> n = n'" by simp
qed simp

lemma task_by_name_Some: "task_by_name ts n = Some t \<Longrightarrow> t \<in> set ts \<and> task_Name t = n"
  by (induction ts) (auto split: option.splits if_splits)

lemma task_by_name_None: "task_by_name ts n = None \<longleftrightarrow> n \<notin> task_Name ` set ts"
  by (induction ts) (auto split: option.splits)

lemma pick_tasks_spec:
  assumes "set ns \<subseteq> task_Name ` set tasks" and "distinct ns"
  shows "\<exists>ts processing'. pick_tasks pid tasks ns processing = Some (ts, processing') \<and>
    map task_Name ts = filter (\<lambda>n. buildTaskDagName pid n \<notin> set processing) ns \<and>
    set ts \<subseteq> set tasks \<and>
    set processing' = set processing \<union> buildTaskDagName pid ` task_Name ` set ts"
  using assms
proof (induction ns arbitrary: processing)
  case (Cons n ns)
  obtain t where t: "task_by_name tasks n = Some t" "t \<in> set tasks" "task_Name t = n"
    using Cons.prems(1) task_by_name_None [of tasks n] task_by_name_Some [of tasks n]
    by (cases "task_by_name tasks n") auto
  have ns: "set ns \<subseteq> task_Name ` set tasks" "distinct ns" "n \<notin> set ns" using Cons.prems by auto
  show ?case
  proof (cases "buildTaskDagName pid n \<in> set processing")
    case True
    with Cons.IH [OF ns(1,2), of processing] t show ?thesis by (auto simp: Let_def)
  next
    case False
    obtain ts processing' where
        "pick_tasks pid tasks ns (buildTaskDagName pid n # processing) = Some (ts, processing')"
        "map task_Name ts = filter (\<lambda>m. buildTaskDagName pid m \<notin> set (buildTaskDagName pid n # processing)) ns"
        "set ts \<subseteq> set tasks"
        "set processing' = set (buildTaskDagName pid n # processing) \<union> buildTaskDagName pid ` task_Name ` set ts"
      using Cons.IH [OF ns(1,2)] by blast
    moreover have "filter (\<lambda>m. buildTaskDagName pid m \<notin> set (buildTaskDagName pid n # processing)) ns =
        filter (\<lambda>m. buildTaskDagName pid m \<notin> set processing) ns"
      using ns(3) by (intro filter_cong) auto
    ultimately show ?thesis using False t by (auto simp: Let_def)
  qed
qed simp

text \<open>The tasks of a pipeline make a graph: their names differ and what they run after exists.\<close>

definition tasks_ok :: "PipelineTask list \<Rightarrow> bool" where
  "tasks_ok tasks \<longleftrightarrow> distinct (map task_Name tasks) \<and>
     (\<forall>t\<in>set tasks. set (te_RunAfter (task_Extra t)) \<subseteq> task_Name ` set tasks)"

definition runs_after :: "PipelineTask list \<Rightarrow> (string \<times> string) set" where
  "runs_after tasks = {(p, n). \<exists>t\<in>set tasks. task_Name t = n \<and> p \<in> set (te_RunAfter (task_Extra t))}"

lemmas dag_node_simps = dag_node_def NodeName_def PrevNodeNames_def

lemma node_names_tasks [simp]: "node_names (map dag_node tasks) = map task_Name tasks"
  by (simp add: node_names_def dag_node_simps)

lemma depends_tasks [simp]: "depends (map dag_node tasks) = runs_after tasks"
  by (auto simp: depends_def runs_after_def dag_node_simps)

abbreviation sched_options :: "dag_option list" where
  "sched_options \<equiv> [WithAllowMarkArbitraryNodesAsDone True, WithAllowNotCheckCycle True]"

lemma buildable_tasks: "buildable (map dag_node tasks) sched_options \<longleftrightarrow> tasks_ok tasks"
  by (fastforce simp: buildable_def cycle_check_off_def tasks_ok_def runs_after_def)

lemma addNodes_allowMark:
  "addNodes g ns = Inr g' \<Longrightarrow> g_allowMarkArbitraryNodesAsDone g' = g_allowMarkArbitraryNodesAsDone g"
  by (induction ns arbitrary: g) (auto simp: addNode_def split: sum.splits if_splits)

lemma addLinks_allowMark:
  "addLinks g ls = Some (Inr g') \<Longrightarrow> g_allowMarkArbitraryNodesAsDone g' = g_allowMarkArbitraryNodesAsDone g"
proof (induction ls arbitrary: g)
  case (Cons l ls)
  obtain n prev where l: "l = (n, prev)" by fastforce
  with Cons.prems obtain res where res: "addLink g n prev = Some res"
    by (cases "addLink g n prev") auto
  with l Cons.prems obtain g1 where g1: "addLink g n prev = Some (Inr g1)" "addLinks g1 ls = Some (Inr g')"
    by (cases res) auto
  then have "g_allowMarkArbitraryNodesAsDone g1 = g_allowMarkArbitraryNodesAsDone g"
    by (auto simp: addLink_def linkTwoNodes_def link_def Let_def bind_eq_Some_conv
        split: option.splits if_splits)
  with Cons.IH [OF g1(2)] show ?case by simp
qed simp

lemma New_allowMark:
  "New ord nodes sched_options = Some (Inr g) \<Longrightarrow> g_allowMarkArbitraryNodesAsDone g"
  by (auto simp: New_def Let_def dest!: addNodes_allowMark addLinks_allowMark split: sum.splits)

lemma task_dag:
  assumes "tasks_ok tasks" and ord: "distinct ord" "set ord = task_Name ` set tasks"
  obtains g where "New ord (map dag_node tasks) sched_options = Some (Inr g)" "dag_ok g"
    "names g = task_Name ` set tasks" "edges g = runs_after tasks"
    "\<And>t. t \<in> set tasks \<Longrightarrow> PrevNodes g (task_Name t) = te_RunAfter (task_Extra t)"
proof -
  have "set ord = set (node_names (map dag_node tasks))" using ord(2) by simp
  from New_correct [OF ord(1) this, of sched_options] assms(1) that show ?thesis
    by (auto simp: buildable_tasks) (auto simp: dag_node_simps)
qed

lemma DoneTasks_names: "set (DoneTasks tasks) \<subseteq> task_Name ` set tasks"
  by (auto simp: set_DoneTasks)

text \<open>The names of the tasks the graph offers.\<close>

definition offered :: "DAG \<Rightarrow> PipelineTask list \<Rightarrow> string set" where
  "offered g tasks = dom (scheduled g (set (DoneTasks tasks)))"

lemma getSchedulableTasks_ok:
  assumes ok: "tasks_ok tasks" and ord: "distinct ord" "set ord = task_Name ` set tasks"
    and ord': "distinct ord'" "set ord' = task_Name ` set tasks"
  obtains g ts processing where "dag_ok g" "names g = task_Name ` set tasks" "edges g = runs_after tasks"
    "\<And>t. t \<in> set tasks \<Longrightarrow> PrevNodes g (task_Name t) = te_RunAfter (task_Extra t)"
    "getSchedulableTasks ord ord' pid tasks r = Some (Inr ts, r\<lparr>rc_processingTasks := processing\<rparr>)"
    "map task_Name ts =
       filter (\<lambda>n. n \<in> offered g tasks \<and> buildTaskDagName pid n \<notin> set (rc_processingTasks r)) ord'"
    "set ts \<subseteq> set tasks"
    "set processing = set (rc_processingTasks r) \<union> buildTaskDagName pid ` task_Name ` set ts"
proof -
  obtain g where g: "New ord (map dag_node tasks) sched_options = Some (Inr g)" "dag_ok g"
    "names g = task_Name ` set tasks" "edges g = runs_after tasks"
    "\<And>t. t \<in> set tasks \<Longrightarrow> PrevNodes g (task_Name t) = te_RunAfter (task_Extra t)"
    using task_dag [OF ok ord] by blast
  from g(1) have "g_allowMarkArbitraryNodesAsDone g" by (simp add: New_allowMark)
  then have s: "GetSchedulable ord g (DoneTasks tasks) = Some (Inr (scheduled g (set (DoneTasks tasks))))"
    using GetSchedulable_total [OF g(2), of ord "DoneTasks tasks"] ord(2) g(3) DoneTasks_names [of tasks] by auto
  define ns where "ns = filter (\<lambda>n. scheduled g (set (DoneTasks tasks)) n \<noteq> None) ord'"
  have ns: "set ns \<subseteq> task_Name ` set tasks" "distinct ns"
    using ord' by (auto simp: ns_def)
  obtain ts processing where p: "pick_tasks pid tasks ns (rc_processingTasks r) = Some (ts, processing)"
    "map task_Name ts = filter (\<lambda>n. buildTaskDagName pid n \<notin> set (rc_processingTasks r)) ns"
    "set ts \<subseteq> set tasks"
    "set processing = set (rc_processingTasks r) \<union> buildTaskDagName pid ` task_Name ` set ts"
    using pick_tasks_spec [OF ns] by blast
  have "getSchedulableTasks ord ord' pid tasks r = Some (Inr ts, r\<lparr>rc_processingTasks := processing\<rparr>)"
    using g(1) s p(1) by (simp add: getSchedulableTasks_def ns_def)
  moreover have "map task_Name ts =
       filter (\<lambda>n. n \<in> offered g tasks \<and> buildTaskDagName pid n \<notin> set (rc_processingTasks r)) ord'"
    using p(2) by (simp add: ns_def offered_def domIff conj_commute)
  ultimately show ?thesis using that g p(3,4) by blast
qed

lemma getSchedulableTasks_bad:
  assumes "\<not> tasks_ok tasks" and "distinct ord" "set ord = task_Name ` set tasks"
  shows "\<exists>e. getSchedulableTasks ord ord' pid tasks r = Some (Inl e, r)"
proof -
  have "set ord = set (node_names (map dag_node tasks))" using assms(3) by simp
  from New_correct [OF assms(2) this, of sched_options] assms(1) show ?thesis
    by (auto simp: buildable_tasks getSchedulableTasks_def)
qed

lemma offered_spec:
  assumes "dag_ok g" "names g = task_Name ` set tasks"
    and "\<And>t. t \<in> set tasks \<Longrightarrow> PrevNodes g (task_Name t) = te_RunAfter (task_Extra t)"
    and "t \<in> set tasks" "task_Name t \<in> offered g tasks"
  shows "task_Name t \<notin> set (DoneTasks tasks)" "set (te_RunAfter (task_Extra t)) \<subseteq> set (DoneTasks tasks)"
  using assms(3) [OF assms(4)] assms(5) by (auto simp: offered_def scheduled_def split: if_splits)

definition may_start :: "nat \<Rightarrow> PipelineTask list \<Rightarrow> Reconciler \<Rightarrow> PipelineTask \<Rightarrow> bool" where
  "may_start pid tasks r t \<longleftrightarrow>
     t \<in> set tasks \<and> task_Name t \<notin> set (DoneTasks tasks) \<and>
     set (te_RunAfter (task_Extra t)) \<subseteq> set (DoneTasks tasks) \<and>
     buildTaskDagName pid (task_Name t) \<notin> set (rc_processingTasks r)"

definition schedules :: "nat \<Rightarrow> PipelineTask list \<Rightarrow> Reconciler \<Rightarrow> PipelineTask list \<Rightarrow> Reconciler \<Rightarrow> bool" where
  "schedules pid tasks r ts r' \<longleftrightarrow>
     distinct (map task_Name ts) \<and> (\<forall>t\<in>set ts. may_start pid tasks r t) \<and>
     set (rc_processingTasks r') =
       set (rc_processingTasks r) \<union> (\<lambda>t. buildTaskDagName pid (task_Name t)) ` set ts \<and>
     rc_processingTasks_update (\<lambda>_. []) r' = rc_processingTasks_update (\<lambda>_. []) r"

lemma getSchedulableTasks_schedules:
  assumes "tasks_ok tasks" and ord: "distinct ord" "set ord = task_Name ` set tasks"
    and ord': "distinct ord'" "set ord' = task_Name ` set tasks"
  shows "\<exists>ts r'. getSchedulableTasks ord ord' pid tasks r = Some (Inr ts, r') \<and> schedules pid tasks r ts r'"
  using assms
proof (rule getSchedulableTasks_ok [where pid = pid and r = r])
  fix g ts processing
  assume g: "dag_ok g" "names g = task_Name ` set tasks"
    "\<And>t. t \<in> set tasks \<Longrightarrow> PrevNodes g (task_Name t) = te_RunAfter (task_Extra t)"
    and res: "getSchedulableTasks ord ord' pid tasks r = Some (Inr ts, r\<lparr>rc_processingTasks := processing\<rparr>)"
    and m: "map task_Name ts =
       filter (\<lambda>n. n \<in> offered g tasks \<and> buildTaskDagName pid n \<notin> set (rc_processingTasks r)) ord'"
    and sub: "set ts \<subseteq> set tasks"
    and pr: "set processing = set (rc_processingTasks r) \<union> buildTaskDagName pid ` task_Name ` set ts"
  have "task_Name t \<in> offered g tasks \<and> buildTaskDagName pid (task_Name t) \<notin> set (rc_processingTasks r)"
    if "t \<in> set ts" for t
    using arg_cong [OF m, of set] that by auto
  then have "may_start pid tasks r t" if "t \<in> set ts" for t
    using offered_spec [OF g] sub that by (auto simp: may_start_def)
  moreover have "distinct (map task_Name ts)" using m ord'(1) by simp
  ultimately show ?thesis using res pr by (auto simp: schedules_def image_image)
qed

text \<open>
  C2: choosing the tasks to start always returns. It fails, and changes nothing, exactly when
  two tasks have a name in common or a task runs after one that does not exist. Otherwise every
  task it returns is not done, all tasks it runs after are, nobody else is at work on it, and
  it is marked as in process by the same call; the tasks differ, and nothing else changes.\<close>

theorem getSchedulableTasks_exclusive:
  assumes "distinct ord" "set ord = task_Name ` set tasks"
    and "distinct ord'" "set ord' = task_Name ` set tasks"
  shows "\<exists>res r'. getSchedulableTasks ord ord' pid tasks r = Some (res, r') \<and>
    (case res of
       Inl e \<Rightarrow> \<not> tasks_ok tasks \<and> r' = r
     | Inr ts \<Rightarrow> tasks_ok tasks \<and> schedules pid tasks r ts r')"
  using getSchedulableTasks_schedules [OF _ assms, of pid r] getSchedulableTasks_bad [OF _ assms(1,2), of ord' pid r]
  by (cases "tasks_ok tasks") fastforce+

text \<open>
  No pipeline gets stuck: if the tasks do not run after each other in a circle, some task
  is not done and nobody is at work on a task of the pipeline, then there is a task to start.\<close>

lemma schedulable_progress:
  assumes "tasks_ok tasks" and "acyclic (runs_after tasks)"
    and "distinct ord" "set ord = task_Name ` set tasks"
    and "distinct ord'" "set ord' = task_Name ` set tasks"
    and "\<exists>t\<in>set tasks. task_Name t \<notin> set (DoneTasks tasks)"
    and "\<forall>t\<in>set tasks. buildTaskDagName pid (task_Name t) \<notin> set (rc_processingTasks r)"
  shows "\<exists>t ts r'. getSchedulableTasks ord ord' pid tasks r = Some (Inr (t # ts), r')"
  using assms(1,3-6)
proof (rule getSchedulableTasks_ok [where pid = pid and r = r])
  fix g ts processing
  assume g: "dag_ok g" "names g = task_Name ` set tasks" "edges g = runs_after tasks"
    and res: "getSchedulableTasks ord ord' pid tasks r = Some (Inr ts, r\<lparr>rc_processingTasks := processing\<rparr>)"
    and m: "map task_Name ts =
       filter (\<lambda>n. n \<in> offered g tasks \<and> buildTaskDagName pid n \<notin> set (rc_processingTasks r)) ord'"
  have "set (DoneTasks tasks) \<subset> names g" using DoneTasks_names [of tasks] assms(7) g(2) by auto
  then obtain n where n: "n \<in> offered g tasks"
    using progress [OF g(1), of "set (DoneTasks tasks)"] assms(2) g(3) unfolding offered_def by fastforce
  then have "n \<in> task_Name ` set tasks" using g(2) by (auto simp: offered_def scheduled_def split: if_splits)
  with n assms(6,8) have "n \<in> set (map task_Name ts)" by (auto simp: m)
  with res show ?thesis by (cases ts) auto
qed

section \<open>The end of a pipeline\<close>

lemma rc_fault_Nil [simp]: "rc_faults r = [] \<Longrightarrow> rc_fault r = (None, r)"
  by (simp add: rc_fault_def)

definition rc_ok :: "Reconciler \<Rightarrow> bool" where
  "rc_ok r \<longleftrightarrow> distinct (map fst (rc_tasks r)) \<and> (\<forall>(i, t)\<in>set (rc_tasks r). task_ID t = i)"

text \<open>A task that has not begun; the end of its pipeline makes it superfluous.\<close>

definition not_begun :: "PipelineTask \<Rightarrow> bool" where
  "not_begun t \<longleftrightarrow> task_Status t = PipelineStatusAnalyzed \<or> task_Status t = PipelineStatusBorn"

lemma teardown_tasks_healthy:
  assumes "rc_faults r = []"
  shows "\<exists>rows. teardown_tasks ts r = r\<lparr>rc_tasks := rows\<rparr> \<and>
    (\<forall>i. map_of rows i =
       (if \<exists>t\<in>set ts. task_ID t = i \<and> not_begun t
        then map_option (task_Status_update (\<lambda>_. PipelineStatusNoNeedBySystem)) (map_of (rc_tasks r) i)
        else map_of (rc_tasks r) i))"
  using assms
proof (induction ts arbitrary: r)
  case Nil
  then show ?case by (auto intro: exI [of _ "rc_tasks r"])
next
  case (Cons t ts)
  define st :: "PipelineTask \<Rightarrow> PipelineTask" where "st = task_Status_update (\<lambda>_. PipelineStatusNoNeedBySystem)"
  define rows1 where "rows1 = (case (not_begun t, map_of (rc_tasks r) (task_ID t)) of
      (True, Some row) \<Rightarrow> AList.update (task_ID t) (st row) (rc_tasks r) | _ \<Rightarrow> rc_tasks r)"
  have one: "teardown_tasks (t # ts) r = teardown_tasks ts (r\<lparr>rc_tasks := rows1\<rparr>)"
    using Cons.prems
    by (auto simp: UpdatePipelineTaskStatus_def rc_update_task_def not_begun_def rows1_def st_def split: option.splits)
  have rows1: "map_of rows1 i =
      (if task_ID t = i \<and> not_begun t then map_option st (map_of (rc_tasks r) i) else map_of (rc_tasks r) i)" for i
    by (auto simp: rows1_def update_conv' split: option.splits bool.splits)
  from Cons.IH [of "r\<lparr>rc_tasks := rows1\<rparr>"] Cons.prems obtain rows where
    "teardown_tasks ts (r\<lparr>rc_tasks := rows1\<rparr>) = r\<lparr>rc_tasks := rows\<rparr>"
    "\<forall>i. map_of rows i = (if \<exists>t\<in>set ts. task_ID t = i \<and> not_begun t
        then map_option st (map_of rows1 i) else map_of rows1 i)"
    unfolding st_def [symmetric] by (auto cong: if_cong)
  moreover have "map_option st (map_option st x) = map_option st x" for x
    by (cases x) (simp_all add: st_def)
  ultimately show ?case
    unfolding one st_def [symmetric] by (intro exI [of _ rows]) (auto simp: rows1)
qed

lemma map_of_set_pipeline [simp]:
  "map_of (rc_pipelines (set_pipeline pid f r)) i =
     (if i = pid then map_option f (map_of (rc_pipelines r) pid) else map_of (rc_pipelines r) i)"
  by (auto simp: set_pipeline_def update_conv' split: option.split)

lemma set_pipeline_fields [simp]:
  "rc_tasks (set_pipeline pid f r) = rc_tasks r" "rc_faults (set_pipeline pid f r) = rc_faults r"
  "rc_teardownPipelines (set_pipeline pid f r) = rc_teardownPipelines r"
  "rc_now (set_pipeline pid f r) = rc_now r"
  by (auto simp: set_pipeline_def split: option.split)

definition tasks_of :: "nat \<Rightarrow> Reconciler \<Rightarrow> PipelineTask list" where
  "tasks_of pid r = filter (\<lambda>t. task_PipelineID t = pid) (map snd (rc_tasks r))"

lemma GetPipelineWithTasks_healthy:
  assumes "rc_faults r = []" and "map_of (rc_pipelines r) pid = Some p"
  shows "GetPipelineWithTasks pid r = (Inr \<lparr>pwt_Pipeline = p, pwt_Tasks = tasks_of pid r\<rparr>, r)"
  using assms by (simp add: GetPipelineWithTasks_def GetPipeline_def ListPipelineTasksByPipelineID_def tasks_of_def)

text \<open>The rows of tasks and pipeline at the end of the pipeline.\<close>

definition settled :: "nat \<Rightarrow> Reconciler \<Rightarrow> Reconciler \<Rightarrow> bool" where
  "settled pid r r' \<longleftrightarrow>
     (\<forall>i t. map_of (rc_tasks r) i = Some t \<longrightarrow>
        map_of (rc_tasks r') i =
          Some (if task_PipelineID t = pid \<and> not_begun t
                then t\<lparr>task_Status := PipelineStatusNoNeedBySystem\<rparr> else t))"

definition closed_row :: "time \<Rightarrow> Pipeline \<Rightarrow> Pipeline" where
  "closed_row now p =
     p\<lparr>p_TimeEnd := Some now,
       p_CostTimeSec := CalculatePipelineCostTimeSec now (p\<lparr>p_TimeEnd := Some now\<rparr>),
       p_CompleteReconcilerTeardown := True\<rparr>"

lemma settled_by_teardown:
  assumes "rc_ok r" and "\<forall>i. map_of rows i =
       (if \<exists>t\<in>set (tasks_of pid r). task_ID t = i \<and> not_begun t
        then map_option (task_Status_update (\<lambda>_. PipelineStatusNoNeedBySystem)) (map_of (rc_tasks r) i)
        else map_of (rc_tasks r) i)"
    and "rc_tasks r' = rows"
  shows "settled pid r r'"
proof (unfold settled_def, intro allI impI)
  fix i t assume t: "map_of (rc_tasks r) i = Some t"
  have "(\<exists>u\<in>set (tasks_of pid r). task_ID u = i \<and> not_begun u) \<longleftrightarrow> task_PipelineID t = pid \<and> not_begun t"
  proof -
    have "u = t" if "(j, u) \<in> set (rc_tasks r)" "task_ID u = i" for j u
    proof -
      have "j = i" using that assms(1) by (auto simp: rc_ok_def)
      with that t assms(1) show ?thesis by (simp add: rc_ok_def)
    qed
    moreover have "(i, t) \<in> set (rc_tasks r)" "task_ID t = i"
      using t map_of_SomeD [OF t] assms(1) by (auto simp: rc_ok_def)
    ultimately show ?thesis by (force simp: tasks_of_def)
  qed
  with t assms(2,3) show "map_of (rc_tasks r') i =
      Some (if task_PipelineID t = pid \<and> not_begun t
            then t\<lparr>task_Status := PipelineStatusNoNeedBySystem\<rparr> else t)"
    by simp
qed

text \<open>The two updates at the end of a teardown write all columns of the pipeline as it was read.\<close>

lemma teardownPipeline_closes:
  assumes "IsEndStatus (p_Status p)" and "p_ID p \<notin> set (rc_teardownPipelines r)"
    and "fulfillParentSnippetTask p (teardown_tasks (pwt_Tasks pt)
           (r\<lparr>rc_teardownPipelines := p_ID p # rc_teardownPipelines r\<rparr>)) = Some (e, r2)"
    and "rc_faults r2 = []" and "map_of (rc_pipelines r2) (p_ID p) = Some row"
    and "p_ID row = p_ID p" "p_TimeCreated row = p_TimeCreated p" and "pwt_Pipeline pt = p"
  shows "\<exists>r'. teardownPipeline pt r = Some r' \<and> rc_tasks r' = rc_tasks r2 \<and>
    rc_teardownPipelines r' = rc_teardownPipelines r2 \<and>
    map_of (rc_pipelines r') (p_ID p) = Some (closed_row (rc_now r2) p)"
  using assms
  by (cases row, cases p)
     (simp add: teardownPipeline_def UpdatePipelineExtraByPipelineID_def UpdatePipelineBase_def closed_row_def)

lemma marked_tasks_healthy:
  assumes "rc_faults r = []" and "rc_ok r"
  obtains rows where "teardown_tasks (tasks_of pid r) (r\<lparr>rc_teardownPipelines := ps\<rparr>) =
      r\<lparr>rc_teardownPipelines := ps, rc_tasks := rows\<rparr>"
    "\<And>r'. rc_tasks r' = rows \<Longrightarrow> settled pid r r'"
proof -
  let ?r = "r\<lparr>rc_teardownPipelines := ps\<rparr>"
  obtain rows where rows: "teardown_tasks (tasks_of pid r) ?r = ?r\<lparr>rc_tasks := rows\<rparr>"
    "\<forall>i. map_of rows i =
       (if \<exists>t\<in>set (tasks_of pid r). task_ID t = i \<and> not_begun t
        then map_option (task_Status_update (\<lambda>_. PipelineStatusNoNeedBySystem)) (map_of (rc_tasks r) i)
        else map_of (rc_tasks r) i)"
    using teardown_tasks_healthy [of ?r "tasks_of pid r"] assms(1) by (auto cong: if_cong)
  with settled_by_teardown [OF assms(2) rows(2)] that show ?thesis by simp
qed

lemma teardownPipeline_healthy:
  assumes "rc_faults r = []" and "\<not> p_IsSnippet p" and "IsEndStatus (p_Status p)"
    and "p_ID p \<notin> set (rc_teardownPipelines r)"
    and "map_of (rc_pipelines r) (p_ID p) = Some row" and "row\<lparr>p_Status := p_Status p\<rparr> = p"
    and "rc_ok r"
  shows "\<exists>r'. teardownPipeline \<lparr>pwt_Pipeline = p, pwt_Tasks = tasks_of (p_ID p) r\<rparr> r = Some r' \<and>
    settled (p_ID p) r r' \<and> map_of (rc_pipelines r') (p_ID p) = Some (closed_row (rc_now r) p) \<and>
    p_ID p \<in> set (rc_teardownPipelines r')"
proof -
  obtain rows where rows: "teardown_tasks (tasks_of (p_ID p) r) (r\<lparr>rc_teardownPipelines := p_ID p # rc_teardownPipelines r\<rparr>) =
      r\<lparr>rc_teardownPipelines := p_ID p # rc_teardownPipelines r, rc_tasks := rows\<rparr>"
    "\<And>r'. rc_tasks r' = rows \<Longrightarrow> settled (p_ID p) r r'"
    using marked_tasks_healthy [OF assms(1,7)] by metis
  let ?r2 = "r\<lparr>rc_teardownPipelines := p_ID p # rc_teardownPipelines r, rc_tasks := rows\<rparr>"
  have f: "fulfillParentSnippetTask p ?r2 = Some (None, ?r2)" using assms(2) by (simp add: fulfillParentSnippetTask_def)
  have row: "p_ID row = p_ID p" "p_TimeCreated row = p_TimeCreated p"
    using arg_cong [OF assms(6), of p_ID] arg_cong [OF assms(6), of p_TimeCreated] by simp_all
  have "\<exists>r'. teardownPipeline \<lparr>pwt_Pipeline = p, pwt_Tasks = tasks_of (p_ID p) r\<rparr> r = Some r' \<and>
      rc_tasks r' = rc_tasks ?r2 \<and> rc_teardownPipelines r' = rc_teardownPipelines ?r2 \<and>
      map_of (rc_pipelines r') (p_ID p) = Some (closed_row (rc_now ?r2) p)"
    by (rule teardownPipeline_closes [OF assms(3,4) _ _ _ row]) (use rows(1) f assms(1,5) in simp_all)
  then show ?thesis using rows(2) by auto
qed

definition next_status :: "nat \<Rightarrow> Pipeline \<Rightarrow> Reconciler \<Rightarrow> PipelineStatus" where
  "next_status pid p r =
     (if IsEndStatus (p_Status p) then p_Status p else CalculatePipelineStatusV2 (tasks_of pid r))"

text \<open>What is left to do after a reconciliation is the teardown of a pipeline with the new status.\<close>

lemma updateStatusAfterReconcile_healthy:
  assumes "rc_faults r = []" and "map_of (rc_pipelines r) pid = Some p" and "p_ID p = pid"
  obtains r1 where
    "updateStatusAfterReconcile pid r =
       map_option (Pair None) (teardownPipeline
          \<lparr>pwt_Pipeline = p\<lparr>p_Status := next_status pid p r\<rparr>, pwt_Tasks = tasks_of pid r\<rparr> r1)"
    "rc_faults r1 = []" "rc_tasks r1 = rc_tasks r" "rc_now r1 = rc_now r"
    "rc_teardownPipelines r1 = rc_teardownPipelines r"
    "map_of (rc_pipelines r1) pid = Some (p\<lparr>p_Status := next_status pid p r\<rparr>)"
proof -
  note [simp] = updateStatusAfterReconcile_def GetPipelineWithTasks_healthy [OF assms(1,2)]
    updatePipelineStatus_def next_status_def Let_def
  show ?thesis
  proof (cases "next_status pid p r = p_Status p")
    case True
    then show ?thesis using that [of r] assms by (cases "IsEndStatus (p_Status p)") auto
  next
    case False
    let ?st = "next_status pid p r"
    let ?r = "set_pipeline pid (p_Status_update (\<lambda>_. ?st)) r"
    from False show ?thesis
      using that [of "?r\<lparr>rc_pipelineEvents := rc_pipelineEvents ?r @ [(pid, ?st)]\<rparr>"] assms
      by (cases "IsEndStatus (p_Status p)") auto
  qed
qed

text \<open>
  C7: after the reconciliation of a pipeline, with database calls that succeed, an end status
  is kept (a user's stop is not overwritten) and any other is replaced by the status calculated
  from the tasks. If the pipeline has ended then, the tasks that had not begun are marked as not
  needed and no other task changes; the pipeline gets its end time, its cost time and the mark
  of a complete teardown. Otherwise tasks and teardown marks stay as they are.\<close>

theorem updateStatusAfterReconcile_settles:
  assumes "rc_faults r = []" and "map_of (rc_pipelines r) pid = Some p" and "p_ID p = pid"
    and "rc_ok r" and "\<not> p_IsSnippet p" and "pid \<notin> set (rc_teardownPipelines r)"
  shows "\<exists>r'. updateStatusAfterReconcile pid r = Some (None, r') \<and>
    (let st = (if IsEndStatus (p_Status p) then p_Status p else CalculatePipelineStatusV2 (tasks_of pid r)) in
     if IsEndStatus st
     then settled pid r r' \<and> pid \<in> set (rc_teardownPipelines r') \<and>
       map_of (rc_pipelines r') pid = Some (closed_row (rc_now r) (p\<lparr>p_Status := st\<rparr>))
     else rc_tasks r' = rc_tasks r \<and> rc_teardownPipelines r' = rc_teardownPipelines r \<and>
       map_of (rc_pipelines r') pid = Some (p\<lparr>p_Status := st\<rparr>))"
proof -
  define p' where "p' = p\<lparr>p_Status := next_status pid p r\<rparr>"
  obtain r1 where u: "updateStatusAfterReconcile pid r =
       map_option (Pair None) (teardownPipeline \<lparr>pwt_Pipeline = p', pwt_Tasks = tasks_of pid r\<rparr> r1)"
    and r1: "rc_faults r1 = []" "rc_tasks r1 = rc_tasks r" "rc_now r1 = rc_now r"
      "rc_teardownPipelines r1 = rc_teardownPipelines r" "map_of (rc_pipelines r1) pid = Some p'"
    using updateStatusAfterReconcile_healthy [OF assms(1-3)] unfolding p'_def by blast
  have p': "p_ID p' = pid" "\<not> p_IsSnippet p'" "p_Status p' = next_status pid p r"
    using assms(3,5) by (simp_all add: p'_def)
  have "rc_ok r1" "tasks_of pid r1 = tasks_of pid r" "settled pid r1 x = settled pid r x" for x
    using assms(4) r1(2) by (simp_all add: rc_ok_def tasks_of_def settled_def)
  with teardownPipeline_healthy [of r1 p' p'] r1 p' assms(6) u show ?thesis
    by (cases "IsEndStatus (next_status pid p r)")
       (auto simp: next_status_def Let_def p'_def teardownPipeline_def)
qed

text \<open>
  the key under which a pipeline is handed to the reconciler yields the pipeline's id
  again, for every 64-bit id.\<close>

theorem watched_key_round_trip:
  assumes "pid < 2 ^ 64"
  shows "parsePipelineIDFromWatchedKey (makePipelineWatchedKey pid) = Some pid"
proof -
  have "etcdReconcilerWatchPrefix \<noteq> []" by (simp add: etcdReconcilerWatchPrefix_def)
  with assms show ?thesis
    by (simp add: parsePipelineIDFromWatchedKey_def makePipelineWatchedKey_def TrimPrefixes_single
        del: TrimPrefixes.simps)
qed

theorem watched_key_round_trip_witness:
  "parsePipelineIDFromWatchedKey (makePipelineWatchedKey 20210923) = Some 20210923"
  by (rule watched_key_round_trip) simp

section \<open>Examples\<close>

definition build_and_test :: "PipelineStatus \<Rightarrow> PipelineStatus \<Rightarrow> PipelineTask list" where
  "build_and_test st1 st2 =
     [example_task ''build'' st1 [], (example_task ''test'' st2 [''build''])\<lparr>task_ID := 2\<rparr>]"

definition example_reconciler :: "PipelineTask list \<Rightarrow> Reconciler" where
  "example_reconciler tasks =
     \<lparr>rc_processingTasks = [], rc_teardownPipelines = [], rc_QueueManager = New_manager,
      rc_pipelines = [(1, sample_pipeline)], rc_tasks = map (\<lambda>t. (task_ID t, t)) tasks,
      rc_nextTaskID = 3, rc_watchKeys = [makePipelineWatchedKey 1], rc_exited = [], rc_faults = [],
      rc_pipelineEvents = [], rc_now = 7\<rparr>"

lemma build_and_test_names [simp]:
  "task_Name ` set (build_and_test st1 st2) = {''build'', ''test''}"
  "tasks_ok (build_and_test st1 st2)"
  by (simp_all add: build_and_test_def example_task_def tasks_ok_def)

lemma build_and_test_acyclic [simp]: "acyclic (runs_after (build_and_test st1 st2))"
proof -
  have "runs_after (build_and_test st1 st2) = {(''build'', ''test'')}"
    by (auto simp: runs_after_def build_and_test_def example_task_def)
  then show ?thesis by (simp add: acyclic_insert) (simp add: acyclic_def)
qed

lemma build_and_test_Done:
  "DoneTasks (build_and_test PipelineStatusSuccess PipelineStatusAnalyzed) = [''build'']"
  by (simp add: build_and_test_def example_task_def status_defs)

theorem getSchedulableTasks_exclusive_witness:
  "\<exists>ts r'. getSchedulableTasks [''build'', ''test''] [''test'', ''build''] 1
       (build_and_test PipelineStatusSuccess PipelineStatusAnalyzed)
       (example_reconciler (build_and_test PipelineStatusSuccess PipelineStatusAnalyzed)) = Some (Inr ts, r') \<and>
     schedules 1 (build_and_test PipelineStatusSuccess PipelineStatusAnalyzed)
       (example_reconciler (build_and_test PipelineStatusSuccess PipelineStatusAnalyzed)) ts r'"
proof -
  let ?ts = "build_and_test PipelineStatusSuccess PipelineStatusAnalyzed"
  have "set [''test'', ''build''] = task_Name ` set ?ts" by auto
  from getSchedulableTasks_exclusive [OF _ _ _ this, of "[''build'', ''test'']" 1 "example_reconciler ?ts"]
  obtain res r' where "getSchedulableTasks [''build'', ''test''] [''test'', ''build''] 1 ?ts (example_reconciler ?ts) = Some (res, r')"
    "case res of Inl e \<Rightarrow> \<not> tasks_ok ?ts \<and> r' = example_reconciler ?ts
       | Inr ts \<Rightarrow> tasks_ok ?ts \<and> schedules 1 ?ts (example_reconciler ?ts) ts r'"
    by auto
  then show ?thesis by (cases res) auto
qed

theorem updateStatusAfterReconcile_settles_witness:
  "\<exists>r'. updateStatusAfterReconcile 1
       (example_reconciler (build_and_test PipelineStatusFailed PipelineStatusAnalyzed)) = Some (None, r') \<and>
     map_of (rc_pipelines r') 1 \<noteq> None"
proof -
  let ?r = "example_reconciler (build_and_test PipelineStatusFailed PipelineStatusAnalyzed)"
  have "rc_ok ?r" by (simp add: rc_ok_def example_reconciler_def build_and_test_def example_task_def)
  from updateStatusAfterReconcile_settles [OF _ _ _ this, of 1 sample_pipeline] show ?thesis
    by (auto simp: example_reconciler_def sample_pipeline_def Let_def split: if_splits)
qed

end
