(* ===== verification/Reconcile_System.thy ===== *)
theory Reconcile_System
  imports Reconciler
begin

text \<open>
  The reconciliation of one pipeline as a system of goroutines
  (\<^verbatim>\<open>src/modules/pipeline/pipengine/reconciler/reconcile.go\<close>). A call of \<open>reconcile\<close> reads the
  tasks, chooses those to start and spawns a goroutine for each; a goroutine saves its task,
  works on it, takes back the mark that it is in process and calls \<open>reconcile\<close> again. The
  goroutines interleave at these points, with each other and with everything else the server
  does. Only the work on the task is abstract here: any writes of the task's own row; what it
  does in detail is the subject of \<open>Reconcile_Task\<close>.
\<close>

section \<open>States and steps\<close>

text \<open>
  The calls of \<open>reconcile\<close> that have not read the tasks, the task lists read by calls that have
  not chosen yet, the goroutines before and after \<open>saveTask\<close> (the task scheduled and the task
  saved), and the goroutines that have returned without telling the wait group.
\<close>

record system =
  sys_R :: Reconciler
  sys_calls :: nat
  sys_read :: "PipelineTask list list"
  sys_spawned :: "PipelineTask list"
  sys_saved :: "(PipelineTask \<times> PipelineTask) list"
  sys_lost :: "PipelineTask list"

text \<open>\<open>merge\<close> stands for \<open>MergePipelineYmlTasks\<close> on the cached stages, file and action data.\<close>

definition YmlTaskMergeDBTasks ::
  "(PipelineTask list \<Rightarrow> string + PipelineTask list) \<Rightarrow> nat \<Rightarrow> Reconciler
   \<Rightarrow> (string + PipelineTask list) \<times> Reconciler" where
  "YmlTaskMergeDBTasks merge pid r =
     (case ListPipelineTasksByPipelineID pid r of
        (Inl e, r) \<Rightarrow> (Inl e, r)
      | (Inr tasks, r) \<Rightarrow> (merge tasks, r))"

definition write_row :: "PipelineTask \<Rightarrow> PipelineTask \<Rightarrow> Reconciler \<Rightarrow> Reconciler" where
  "write_row t t' r = r\<lparr>rc_tasks := AList.update (task_ID t) t' (rc_tasks r)\<rparr>"

definition unmark :: "nat \<Rightarrow> PipelineTask \<Rightarrow> Reconciler \<Rightarrow> Reconciler" where
  "unmark pid t r =
     r\<lparr>rc_processingTasks := removeAll (buildTaskDagName pid (task_Name t)) (rc_processingTasks r)\<rparr>"

definition same_marks :: "nat \<Rightarrow> Reconciler \<Rightarrow> Reconciler \<Rightarrow> bool" where
  "same_marks pid r r' \<longleftrightarrow>
     (\<forall>n. buildTaskDagName pid n \<in> set (rc_processingTasks r') \<longleftrightarrow>
          buildTaskDagName pid n \<in> set (rc_processingTasks r))"

inductive reconcile_step ::
  "nat \<Rightarrow> (PipelineTask list \<Rightarrow> string + PipelineTask list) \<Rightarrow> system \<Rightarrow> system \<Rightarrow> bool"
  for pid merge where
  read:
  "sys_calls s = Suc n \<Longrightarrow> YmlTaskMergeDBTasks merge pid (sys_R s) = (Inr tasks, r) \<Longrightarrow>
   reconcile_step pid merge s (s\<lparr>sys_R := r, sys_calls := n, sys_read := sys_read s @ [tasks]\<rparr>)"
| read_failed:
  "sys_calls s = Suc n \<Longrightarrow> YmlTaskMergeDBTasks merge pid (sys_R s) = (Inl e, r) \<Longrightarrow>
   reconcile_step pid merge s (s\<lparr>sys_R := r, sys_calls := n\<rparr>)"
| schedule:
  "sys_read s = xs @ tasks # ys \<Longrightarrow>
   distinct ord \<Longrightarrow> set ord = task_Name ` set tasks \<Longrightarrow>
   distinct ord' \<Longrightarrow> set ord' = task_Name ` set tasks \<Longrightarrow>
   getSchedulableTasks ord ord' pid tasks (sys_R s) = Some (Inr ts, r) \<Longrightarrow>
   reconcile_step pid merge s (s\<lparr>sys_R := r, sys_read := xs @ ys, sys_spawned := sys_spawned s @ ts\<rparr>)"
| schedule_failed:
  "sys_read s = xs @ tasks # ys \<Longrightarrow>
   distinct ord \<Longrightarrow> set ord = task_Name ` set tasks \<Longrightarrow>
   getSchedulableTasks ord ord' pid tasks (sys_R s) = Some (Inl e, r) \<Longrightarrow>
   reconcile_step pid merge s (s\<lparr>sys_R := r, sys_read := xs @ ys\<rparr>)"
| save:
  "sys_spawned s = xs @ t # ys \<Longrightarrow>
   saveTask lastSuccess stages t pid (sys_R s) = Some (Inr t', r) \<Longrightarrow>
   reconcile_step pid merge s
     (s\<lparr>sys_R := r, sys_spawned := xs @ ys, sys_saved := sys_saved s @ [(t, t')]\<rparr>)"
| save_failed:
  "sys_spawned s = xs @ t # ys \<Longrightarrow>
   saveTask lastSuccess stages t pid (sys_R s) = Some (Inl e, r) \<Longrightarrow>
   reconcile_step pid merge s
     (s\<lparr>sys_R := r, sys_spawned := xs @ ys, sys_lost := sys_lost s @ [t]\<rparr>)"
| work:
  "(t, t') \<in> set (sys_saved s) \<Longrightarrow>
   reconcile_step pid merge s (s\<lparr>sys_R := write_row t' t'' (sys_R s)\<rparr>)"
| finish:
  "sys_saved s = xs @ (t, t') # ys \<Longrightarrow>
   reconcile_step pid merge s
     (s\<lparr>sys_R := unmark pid t (sys_R s), sys_saved := xs @ ys, sys_calls := sys_calls s + 1\<rparr>)"
| others:
  "same_marks pid (sys_R s) r \<Longrightarrow> reconcile_step pid merge s (s\<lparr>sys_R := r\<rparr>)"

definition starts :: "nat \<Rightarrow> system \<Rightarrow> bool" where
  "starts pid s \<longleftrightarrow>
     sys_calls s = 1 \<and> sys_read s = [] \<and> sys_spawned s = [] \<and> sys_saved s = [] \<and> sys_lost s = [] \<and>
     (\<forall>n. buildTaskDagName pid n \<notin> set (rc_processingTasks (sys_R s)))"

text \<open>The states the reconciliation of a pipeline can get into.\<close>

definition reaches ::
  "nat \<Rightarrow> (PipelineTask list \<Rightarrow> string + PipelineTask list) \<Rightarrow> system \<Rightarrow> bool" where
  "reaches pid merge s \<longleftrightarrow> (\<exists>s0. starts pid s0 \<and> (reconcile_step pid merge)\<^sup>*\<^sup>* s0 s)"

section \<open>The marks\<close>

text \<open>The tasks some goroutine holds, in the sense that it has not taken back its mark.\<close>

definition holders :: "system \<Rightarrow> PipelineTask list" where
  "holders s = sys_spawned s @ map fst (sys_saved s) @ sys_lost s"

definition marks_ok :: "nat \<Rightarrow> system \<Rightarrow> bool" where
  "marks_ok pid s \<longleftrightarrow>
     distinct (map task_Name (holders s)) \<and>
     (\<forall>n. buildTaskDagName pid n \<in> set (rc_processingTasks (sys_R s)) \<longleftrightarrow> n \<in> task_Name ` set (holders s))"

lemma marks_ok_starts: "starts pid s \<Longrightarrow> marks_ok pid s"
  by (simp add: starts_def marks_ok_def holders_def)

lemma marks_ok_same:
  "marks_ok pid s \<Longrightarrow> same_marks pid (sys_R s) (sys_R s') \<Longrightarrow>
   mset (map task_Name (holders s')) = mset (map task_Name (holders s)) \<Longrightarrow> marks_ok pid s'"
  unfolding marks_ok_def same_marks_def
  by (metis list.set_map mset_eq_imp_distinct_iff mset_eq_setD)

lemma rc_fault_marks: "rc_processingTasks (snd (rc_fault r)) = rc_processingTasks r"
  by (simp add: rc_fault_def split: list.split)

lemma same_marks_read: "YmlTaskMergeDBTasks merge pid r = (res, r') \<Longrightarrow> same_marks pid r r'"
  using rc_fault_marks [of r]
  by (auto simp: YmlTaskMergeDBTasks_def ListPipelineTasksByPipelineID_def same_marks_def
      split: sum.splits prod.splits option.splits)

lemma same_marks_save: "saveTask m stages t pid r = Some (res, r') \<Longrightarrow> same_marks pid r r'"
  using rc_fault_marks [of r]
  by (auto simp: saveTask_def CreatePipelineTask_def same_marks_def Let_def
      split: sum.splits prod.splits option.splits if_splits)

lemma getSchedulableTasks_Inr:
  assumes "getSchedulableTasks ord ord' pid tasks r = Some (Inr ts, r')"
    and "distinct ord" "set ord = task_Name ` set tasks" "distinct ord'" "set ord' = task_Name ` set tasks"
  shows "schedules pid tasks r ts r'"
  using assms getSchedulableTasks_schedules [OF _ assms(2-5), of pid r]
    getSchedulableTasks_bad [OF _ assms(2,3), of ord' pid r]
  by (cases "tasks_ok tasks") fastforce+

lemma getSchedulableTasks_Inl:
  "getSchedulableTasks ord ord' pid tasks r = Some (Inl e, r') \<Longrightarrow> r' = r"
  by (auto simp: getSchedulableTasks_def split: option.splits sum.splits)

lemma marks_ok_schedule:
  assumes ok: "marks_ok pid s" and sch: "schedules pid tasks (sys_R s) ts r"
  shows "marks_ok pid (s\<lparr>sys_R := r, sys_read := reads, sys_spawned := sys_spawned s @ ts\<rparr>)"
proof -
  let ?s = "s\<lparr>sys_R := r, sys_read := reads, sys_spawned := sys_spawned s @ ts\<rparr>"
  have h: "mset (map task_Name (holders ?s)) = mset (map task_Name (holders s) @ map task_Name ts)"
    by (simp add: holders_def)
  have new: "task_Name t \<notin> task_Name ` set (holders s)" if "t \<in> set ts" for t
    using sch ok that unfolding schedules_def may_start_def marks_ok_def by blast
  have "task_Name ` set (holders s) \<inter> task_Name ` set ts = {}"
  proof (rule Int_emptyI)
    fix n assume n: "n \<in> task_Name ` set (holders s)" "n \<in> task_Name ` set ts"
    from n(2) obtain t where "t \<in> set ts" "n = task_Name t" by (rule imageE)
    with new n(1) show False by simp
  qed
  then have "distinct (map task_Name (holders s) @ map task_Name ts)"
    using ok sch by (simp add: marks_ok_def schedules_def)
  then have "distinct (map task_Name (holders ?s))" using h by (metis mset_eq_imp_distinct_iff)
  moreover have "task_Name ` set (holders ?s) = task_Name ` set (holders s) \<union> task_Name ` set ts"
    by (auto simp: holders_def)
  ultimately show ?thesis using ok sch by (auto simp: marks_ok_def schedules_def)
qed

lemma marks_ok_finish:
  assumes ok: "marks_ok pid s" and sv: "sys_saved s = xs @ (t, t') # ys"
  shows "marks_ok pid (s\<lparr>sys_R := unmark pid t (sys_R s), sys_saved := xs @ ys, sys_calls := n\<rparr>)"
proof -
  let ?s = "s\<lparr>sys_R := unmark pid t (sys_R s), sys_saved := xs @ ys, sys_calls := n\<rparr>"
  have h: "mset (map task_Name (holders s)) = mset (task_Name t # map task_Name (holders ?s))"
    using sv by (simp add: holders_def)
  have d: "distinct (task_Name t # map task_Name (holders ?s))"
    using ok h unfolding marks_ok_def by (metis mset_eq_imp_distinct_iff)
  have "set (map task_Name (holders s)) = set (task_Name t # map task_Name (holders ?s))"
    using h by (rule mset_eq_setD)
  then have names: "task_Name ` set (holders s) = insert (task_Name t) (task_Name ` set (holders ?s))"
    by simp
  have "buildTaskDagName pid m \<in> set (rc_processingTasks (unmark pid t (sys_R s))) \<longleftrightarrow>
      m \<noteq> task_Name t \<and> m \<in> task_Name ` set (holders s)" for m
    using ok by (auto simp: marks_ok_def unmark_def)
  moreover have "task_Name t \<notin> task_Name ` set (holders ?s)" using d by simp
  ultimately show ?thesis using d names by (simp add: marks_ok_def) metis
qed

lemma reconcile_step_marks_ok:
  "reconcile_step pid merge s s' \<Longrightarrow> marks_ok pid s \<Longrightarrow> marks_ok pid s'"
proof (induction rule: reconcile_step.induct)
  case (schedule s xs tasks ys ord ord' ts r)
  then show ?case by (intro marks_ok_schedule [OF _ getSchedulableTasks_Inr [where tasks = tasks]])
next
  case (finish s xs t t' ys)
  then show ?case by (intro marks_ok_finish)
next
  case (save s xs t ys lastSuccess stages t' r)
  from save.prems show ?case
    by (rule marks_ok_same) (use save.hyps in \<open>auto simp: holders_def dest: same_marks_save\<close>)
next
  case (save_failed s xs t ys lastSuccess stages e r)
  from save_failed.prems show ?case
    by (rule marks_ok_same) (use save_failed.hyps in \<open>auto simp: holders_def dest: same_marks_save\<close>)
qed (auto elim!: marks_ok_same dest: same_marks_read getSchedulableTasks_Inl
       simp: holders_def same_marks_def write_row_def)

lemma reaches_marks_ok: "reaches pid merge s \<Longrightarrow> marks_ok pid s"
proof -
  assume "reaches pid merge s"
  then obtain s0 where "starts pid s0" "(reconcile_step pid merge)\<^sup>*\<^sup>* s0 s" by (auto simp: reaches_def)
  from this(2,1) show "marks_ok pid s"
    by induction (auto intro: marks_ok_starts reconcile_step_marks_ok)
qed

text \<open>
  C1: however the goroutines of a pipeline interleave, no task is in the hands of two of
  them, and the marks in \<open>processingTasks\<close> are exactly those of the tasks in somebody's hands.\<close>

theorem one_goroutine_per_task:
  assumes "reaches pid merge s"
  shows "distinct (map task_Name (holders s)) \<and>
    (\<forall>n. buildTaskDagName pid n \<in> set (rc_processingTasks (sys_R s)) \<longleftrightarrow> n \<in> task_Name ` set (holders s))"
  using reaches_marks_ok [OF assms] by (simp add: marks_ok_def)

section \<open>A task whose row cannot be created\<close>

lemma reconcile_steps_marks_ok:
  "(reconcile_step pid merge)\<^sup>*\<^sup>* s s' \<Longrightarrow> marks_ok pid s \<Longrightarrow> marks_ok pid s'"
  by (induction rule: rtranclp_induct) (auto intro: reconcile_step_marks_ok)

lemma reconcile_steps_lost:
  "(reconcile_step pid merge)\<^sup>*\<^sup>* s s' \<Longrightarrow> set (sys_lost s) \<subseteq> set (sys_lost s')"
proof (induction rule: rtranclp_induct)
  case (step s' s'')
  from step.hyps(2) have "set (sys_lost s') \<subseteq> set (sys_lost s'')"
    by cases auto
  with step.IH show ?case by blast
qed simp

lemma lost_not_held:
  assumes "marks_ok pid s" and "t \<in> set (sys_lost s)"
  shows "task_Name t \<notin> task_Name ` set (sys_spawned s)" "task_Name t \<notin> task_Name ` set (map fst (sys_saved s))"
    and "buildTaskDagName pid (task_Name t) \<in> set (rc_processingTasks (sys_R s))"
proof -
  have t: "task_Name t \<in> task_Name ` set (sys_lost s)" using assms(2) by (rule imageI)
  have "distinct (map task_Name (sys_spawned s) @ map task_Name (map fst (sys_saved s)) @ map task_Name (sys_lost s))"
    using assms(1) by (simp add: marks_ok_def holders_def)
  then have "task_Name ` set (sys_spawned s) \<inter> task_Name ` set (sys_lost s) = {}"
    "task_Name ` set (map fst (sys_saved s)) \<inter> task_Name ` set (sys_lost s) = {}"
    by (simp_all only: distinct_append list.set_map set_append) blast+
  with t show "task_Name t \<notin> task_Name ` set (sys_spawned s)" "task_Name t \<notin> task_Name ` set (map fst (sys_saved s))"
    by (metis disjoint_iff)+
  show "buildTaskDagName pid (task_Name t) \<in> set (rc_processingTasks (sys_R s))"
    using assms(1) t by (auto simp: marks_ok_def holders_def)
qed


section \<open>Runs\<close>

definition build_task :: "PipelineStatus \<Rightarrow> PipelineTask" where
  "build_task st = example_task ''build'' st []"

definition lint_task :: "PipelineStatus \<Rightarrow> PipelineTask" where
  "lint_task st = (example_task ''lint'' st [])\<lparr>task_ID := 2\<rparr>"

lemma example_tasks_simps [simp]:
  "task_ID (build_task st) = 1" "task_Name (build_task st) = ''build''" "task_Status (build_task st) = st"
  "task_PipelineID (build_task st) = 1" "te_RunAfter (task_Extra (build_task st)) = []"
  "task_ID (lint_task st) = 2" "task_Name (lint_task st) = ''lint''" "task_Status (lint_task st) = st"
  "task_PipelineID (lint_task st) = 1" "te_RunAfter (task_Extra (lint_task st)) = []"
  by (simp_all add: build_task_def lint_task_def example_task_def)

lemmas schedule_eval = getSchedulableTasks_def New_def dag_node_simps addNode_def links_of_def status_defs
  GetSchedulable_def toMap_def findSchedulable_Cons getRoots_def PrevNodes_def NextNodes_def isSchedulable_def Let_def
  checkNotVisited_def

definition at_rest :: "Reconciler \<Rightarrow> system" where
  "at_rest r = \<lparr>sys_R = r, sys_calls = 1, sys_read = [], sys_spawned = [], sys_saved = [], sys_lost = []\<rparr>"

lemma starts_at_rest: "rc_processingTasks r = [] \<Longrightarrow> starts pid (at_rest r)"
  by (simp add: starts_def at_rest_def)

subsection \<open>A task row that cannot be inserted\<close>

definition unsaved_merge :: "PipelineTask list \<Rightarrow> string + PipelineTask list" where
  "unsaved_merge _ = Inr [(build_task PipelineStatusAnalyzed)\<lparr>task_ID := 0\<rparr>]"

definition refused_insert :: Reconciler where
  "refused_insert = (example_reconciler [])\<lparr>rc_faults := [None, Some ''duplicate entry'']\<rparr>"

definition lost_build :: system where
  "lost_build =
     \<lparr>sys_R = refused_insert\<lparr>rc_processingTasks := [buildTaskDagName 1 ''build''], rc_faults := []\<rparr>,
      sys_calls = 0, sys_read = [], sys_spawned = [], sys_saved = [],
      sys_lost = [(build_task PipelineStatusAnalyzed)\<lparr>task_ID := 0\<rparr>]\<rparr>"

lemma reaches_lost_build: "reaches 1 unsaved_merge lost_build"
proof -
  let ?t = "(build_task PipelineStatusAnalyzed)\<lparr>task_ID := 0\<rparr>"
  let ?s0 = "at_rest refused_insert"
  let ?r1 = "refused_insert\<lparr>rc_faults := [Some ''duplicate entry'']\<rparr>"
  let ?s1 = "?s0\<lparr>sys_R := ?r1, sys_calls := 0, sys_read := [[?t]]\<rparr>"
  let ?r2 = "?r1\<lparr>rc_processingTasks := [buildTaskDagName 1 ''build'']\<rparr>"
  let ?s2 = "?s0\<lparr>sys_R := ?r2, sys_calls := 0, sys_spawned := [?t]\<rparr>"
  have "reconcile_step 1 unsaved_merge ?s0 ?s1"
    using reconcile_step.read [of ?s0 0 unsaved_merge 1 "[?t]" ?r1]
    by (simp add: at_rest_def YmlTaskMergeDBTasks_def ListPipelineTasksByPipelineID_def rc_fault_def
        refused_insert_def unsaved_merge_def)
  moreover have "getSchedulableTasks [''build''] [''build''] 1 [?t] ?r1 = Some (Inr [?t], ?r2)"
    by (simp add: schedule_eval refused_insert_def example_reconciler_def)
  then have "reconcile_step 1 unsaved_merge ?s1 ?s2"
    using reconcile_step.schedule [of ?s1 "[]" "[?t]" "[]" "[''build'']" "[''build'']" 1 "[?t]" ?r2 unsaved_merge]
    by (simp add: at_rest_def)
  moreover have "saveTask (Inr []) (Inr []) ?t 1 ?r2 = Some (Inl ''duplicate entry'', ?r2\<lparr>rc_faults := []\<rparr>)"
    by (simp add: saveTask_def CreatePipelineTask_def rc_fault_def)
  then have "reconcile_step 1 unsaved_merge ?s2 lost_build"
    using reconcile_step.save_failed [of ?s2 "[]" ?t "[]" "Inr []" "Inr []" 1 "''duplicate entry''" "?r2\<lparr>rc_faults := []\<rparr>" unsaved_merge]
    by (simp add: at_rest_def lost_build_def)
  ultimately have "(reconcile_step 1 unsaved_merge)\<^sup>*\<^sup>* ?s0 lost_build" by (auto intro: converse_rtranclp_into_rtranclp)
  moreover have "starts 1 ?s0" by (rule starts_at_rest) (simp add: refused_insert_def example_reconciler_def)
  ultimately show ?thesis by (auto simp: reaches_def)
qed

theorem one_goroutine_per_task_witness:
  "distinct (map task_Name (holders lost_build)) \<and>
   (\<forall>n. buildTaskDagName 1 n \<in> set (rc_processingTasks (sys_R lost_build)) \<longleftrightarrow> n \<in> task_Name ` set (holders lost_build))"
  by (rule one_goroutine_per_task [OF reaches_lost_build])


subsection \<open>A call that has read the tasks too early\<close>

text \<open>
  Between a call's reading of the tasks and its choice of those to start, another task can end
  and give up its mark. The call then starts a task again that is done in the database; the
  goroutine asks the executor for the status first, which keeps it from doing the work twice.
\<close>

definition two_running :: Reconciler where
  "two_running = example_reconciler [build_task PipelineStatusRunning, lint_task PipelineStatusRunning]"

abbreviation rows :: "PipelineStatus \<Rightarrow> PipelineStatus \<Rightarrow> (nat \<times> PipelineTask) list" where
  "rows st1 st2 \<equiv> [(1, build_task st1), (2, lint_task st2)]"

definition sys_at ::
  "PipelineStatus \<Rightarrow> PipelineStatus \<Rightarrow> string list \<Rightarrow> nat \<Rightarrow> PipelineTask list list \<Rightarrow> PipelineTask list
   \<Rightarrow> PipelineTask list \<Rightarrow> system" where
  "sys_at st1 st2 marks calls tasks spawned saved =
     \<lparr>sys_R = two_running\<lparr>rc_processingTasks := map (buildTaskDagName 1) marks, rc_tasks := rows st1 st2\<rparr>,
      sys_calls = calls, sys_read = tasks, sys_spawned = spawned, sys_saved = map (\<lambda>t. (t, t)) saved,
      sys_lost = []\<rparr>"

abbreviation running where "running \<equiv> PipelineStatusRunning"
abbreviation success where "success \<equiv> PipelineStatusSuccess"

lemma two_running_simps [simp]:
  "rc_processingTasks two_running = []" "rc_faults two_running = []" "rc_tasks two_running = rows running running"
  by (simp_all add: two_running_def example_reconciler_def)

lemma sys_at_read:
  "reconcile_step 1 Inr (sys_at st1 st2 marks (Suc n) tasks spawned saved)
     (sys_at st1 st2 marks n (tasks @ [[build_task st1, lint_task st2]]) spawned saved)"
  using reconcile_step.read [of "sys_at st1 st2 marks (Suc n) tasks spawned saved" n Inr 1 "[build_task st1, lint_task st2]"
      "sys_R (sys_at st1 st2 marks n tasks spawned saved)"]
  by (simp add: sys_at_def YmlTaskMergeDBTasks_def ListPipelineTasksByPipelineID_def)

lemma sys_at_save:
  assumes "task_ID t > 0"
  shows "reconcile_step 1 Inr (sys_at st1 st2 marks n tasks (t # spawned) saved)
     (sys_at st1 st2 marks n tasks spawned (saved @ [t]))"
  using assms reconcile_step.save [of "sys_at st1 st2 marks n tasks (t # spawned) saved" "[]" t spawned "Inr []" "Inr []" 1 t
      "sys_R (sys_at st1 st2 marks n tasks spawned saved)" Inr]
  by (simp add: sys_at_def saveTask_def)

lemma sys_at_work:
  "lint_task st \<in> set saved \<Longrightarrow> reconcile_step 1 Inr (sys_at st1 st2 marks n tasks spawned saved)
     (sys_at st1 st2' marks n tasks spawned saved)"
  "build_task st \<in> set saved \<Longrightarrow> reconcile_step 1 Inr (sys_at st1 st2 marks n tasks spawned saved)
     (sys_at st1' st2 marks n tasks spawned saved)"
  using reconcile_step.work [of "lint_task st" "lint_task st" "sys_at st1 st2 marks n tasks spawned saved" 1 Inr "lint_task st2'"]
    reconcile_step.work [of "build_task st" "build_task st" "sys_at st1 st2 marks n tasks spawned saved" 1 Inr "build_task st1'"]
  by (auto simp: sys_at_def write_row_def)

lemma sys_at_finish:
  "reconcile_step 1 Inr (sys_at st1 st2 marks n tasks spawned (ts @ t # us))
     (sys_at st1 st2 (removeAll (task_Name t) marks) (Suc n) tasks spawned (ts @ us))"
proof -
  have "removeAll (buildTaskDagName 1 m) (map (buildTaskDagName 1) marks) = map (buildTaskDagName 1) (removeAll m marks)" for m
    by (induction marks) auto
  then show ?thesis
    using reconcile_step.finish [of "sys_at st1 st2 marks n tasks spawned (ts @ t # us)" "map (\<lambda>t. (t, t)) ts" t t
        "map (\<lambda>t. (t, t)) us" 1 Inr]
    by (simp add: sys_at_def unmark_def two_running_def example_reconciler_def)
qed

theorem stale_read_starts_a_task_again:
  "\<exists>s. reaches 1 Inr s \<and> build_task running \<in> set (sys_spawned s) \<and>
     map_of (rc_tasks (sys_R s)) (task_ID (build_task running)) = Some (build_task success)"
proof -
  let ?b = "build_task running" and ?l = "lint_task running"
  let ?ord = "[''build'', ''lint'']"
  have "reconcile_step 1 Inr (sys_at running running [] 1 [] [] []) (sys_at running running [] 0 [[?b, ?l]] [] [])"
    using sys_at_read [of running running "[]" 0 "[]" "[]" "[]"] by simp
  moreover have "reconcile_step 1 Inr (sys_at running running [] 0 [[?b, ?l]] [] [])
      (sys_at running running [''lint'', ''build''] 0 [] [?b, ?l] [])"
    using reconcile_step.schedule [of "sys_at running running [] 0 [[?b, ?l]] [] []" "[]" "[?b, ?l]" "[]" ?ord ?ord 1
        "[?b, ?l]" "sys_R (sys_at running running [''lint'', ''build''] 0 [] [] [])" Inr]
    by (simp add: sys_at_def schedule_eval two_running_def example_reconciler_def)
  moreover note sys_at_save [of ?b running running "[''lint'', ''build'']" 0 "[]" "[?l]" "[]"]
  moreover note sys_at_save [of ?l running running "[''lint'', ''build'']" 0 "[]" "[]" "[?b]"]
  moreover note sys_at_work(1) [of running "[?b, ?l]" running running "[''lint'', ''build'']" 0 "[]" "[]" success]
  moreover note sys_at_finish [of running success "[''lint'', ''build'']" 0 "[]" "[]" "[?b]" ?l "[]"]
  moreover note sys_at_read [of running success "[''build'']" 0 "[]" "[]" "[?b]"]
  moreover note sys_at_work(2) [of running "[?b]" running success "[''build'']" 0 "[[?b, lint_task success]]" "[]" success]
  moreover note sys_at_finish [of success success "[''build'']" 0 "[[?b, lint_task success]]" "[]" "[]" ?b "[]"]
  moreover have "reconcile_step 1 Inr (sys_at success success [] 1 [[?b, lint_task success]] [] [])
      (sys_at success success [''build''] 1 [] [?b] [])"
    using reconcile_step.schedule [of "sys_at success success [] 1 [[?b, lint_task success]] [] []" "[]" "[?b, lint_task success]" "[]"
        ?ord ?ord 1 "[?b]" "sys_R (sys_at success success [''build''] 1 [] [] [])" Inr]
    by (simp add: sys_at_def schedule_eval two_running_def example_reconciler_def)
  ultimately have "(reconcile_step 1 Inr)\<^sup>*\<^sup>* (sys_at running running [] 1 [] [] []) (sys_at success success [''build''] 1 [] [?b] [])"
    by (auto intro: converse_rtranclp_into_rtranclp)
  moreover have "starts 1 (sys_at running running [] 1 [] [] [])" by (simp add: starts_def sys_at_def)
  ultimately have "reaches 1 Inr (sys_at success success [''build''] 1 [] [?b] [])" by (auto simp: reaches_def)
  moreover have "?b \<in> set (sys_spawned (sys_at success success [''build''] 1 [] [?b] []))"
    "map_of (rc_tasks (sys_R (sys_at success success [''build''] 1 [] [?b] []))) (task_ID ?b) = Some (build_task success)"
    by (simp_all add: sys_at_def)
  ultimately show ?thesis by blast
qed

end
