(* ===== verification/Task_Liveness.thy ===== *)
theory Task_Liveness
  imports Reconcile_Task
begin

text \<open>
  When the reconciliation of a task ends. \<open>reconcileTask\<close> may run for ever (a platform error is
  retried without end), so its end has hypotheses, stated here as predicates: nobody else
  writes the rows (\<open>alone\<close>), the executor creates and starts the job and knows an end status of it
  from some instant on (\<open>finishing\<close>), and the preparation succeeds (\<open>preparing\<close>). Database calls
  may fail, the throttler may hold the task back, and the signals may come in any order.
\<close>

section \<open>The hypotheses\<close>

definition alone :: "env \<Rightarrow> bool" where
  "alone en \<longleftrightarrow>
     (\<forall>d w. length (w_faults (env_pause en d w)) \<le> length (w_faults w) \<and>
            w_tasks (env_pause en d w) = w_tasks w \<and> w_pstatus (env_pause en d w) = w_pstatus w \<and>
            w_counts (env_pause en d w) = w_counts w \<and> w_ctxDone (env_pause en d w) = w_ctxDone w \<and>
            w_now w < w_now (env_pause en d w))"

text \<open>\<open>Unknown\<close> is an end status, but polling goes on after it.\<close>

definition known_end :: "PipelineStatusDesc \<Rightarrow> bool" where
  "known_end d \<longleftrightarrow> IsEndStatus (sd_Status d) \<and> sd_Status d \<noteq> PipelineStatusUnknown"

definition finishing :: "executor \<Rightarrow> time \<Rightarrow> bool" where
  "finishing ex due \<longleftrightarrow>
     (\<forall>t w. ex_Create ex t w = (None, w) \<and> ex_Start ex t w = (Inr NoData, w) \<and> ex_Cancel ex t w = (None, w) \<and>
            (\<exists>d. ex_Status ex t w = (Inr d, w) \<and> (due \<le> w_now w \<longrightarrow> known_end d)) \<and>
            (\<exists>r. ex_Inspect ex t w = (r, w)))"

text \<open>A task in status \<open>st\<close> that does not loop.\<close>

definition plain :: "PipelineStatus \<Rightarrow> PipelineTask \<Rightarrow> bool" where
  "plain st t \<longleftrightarrow> task_Status t = st \<and> te_LoopOptions (task_Extra t) = None"

definition preparing :: "make_task_run \<Rightarrow> bool" where
  "preparing mk \<longleftrightarrow>
     (\<forall>t w. plain PipelineStatusAnalyzed t \<longrightarrow>
        (\<exists>t' th. mk t w = ((False, None), t', w\<lparr>w_throttler := th\<rparr>) \<and>
           plain PipelineStatusBorn t' \<and> task_ID t' = task_ID t))"

text \<open>The pipeline goes on, the run is not stopped, and there are fewer failures and less time ahead
  than a loop has rounds.\<close>

definition quiet :: "time \<Rightarrow> TaskRun \<Rightarrow> bool" where
  "quiet due tr \<longleftrightarrow>
     (\<exists>pst. map_of (w_pstatus (run_W tr)) (p_ID (run_P tr)) = Some pst \<and> \<not> IsEndStatus pst) \<and>
     \<not> w_ctxDone (run_W tr) \<and> int (length (w_faults (run_W tr))) < 2 ^ 64 - 1 \<and>
     due - w_now (run_W tr) < 2 ^ 64 - 1 \<and> \<not> IsEndStatus (run_QueriedPipelineStatus tr) \<and>
     \<not> run_PExit tr \<and> \<not> run_StopQueueLoop tr \<and> \<not> run_StopWaitLoop tr \<and> \<not> run_QuitWaitTimeout tr"

text \<open>The row of the task has the status of the task.\<close>

definition row_of :: "TaskRun \<Rightarrow> PipelineTask option" where
  "row_of tr = map_of (w_tasks (run_W tr)) (task_ID (task_of tr))"

definition stored :: "PipelineStatus \<Rightarrow> TaskRun \<Rightarrow> bool" where
  "stored st tr \<longleftrightarrow> (\<exists>row. row_of tr = Some row \<and> plain st row \<and> task_ID row = task_ID (task_of tr))"

definition ready :: "time \<Rightarrow> PipelineStatus \<Rightarrow> TaskRun \<Rightarrow> bool" where
  "ready due st tr \<longleftrightarrow> quiet due tr \<and> plain st (task_of tr) \<and> stored st tr"

lemma alone_calm: "alone en \<Longrightarrow> calm en"
  by (simp add: alone_def calm_def)

section \<open>What keeps a run ready\<close>

lemma quiet_world:
  assumes "quiet due tr" and "w_pstatus w = w_pstatus (run_W tr)" "w_ctxDone w = w_ctxDone (run_W tr)"
    "length (w_faults w) \<le> length (w_faults (run_W tr))" "w_now (run_W tr) \<le> w_now w"
  shows "quiet due (tr\<lparr>run_W := w\<rparr>)"
  using assms by (auto simp: quiet_def)

lemma ready_world:
  assumes "ready due st tr" and "w_pstatus w = w_pstatus (run_W tr)" "w_ctxDone w = w_ctxDone (run_W tr)"
    "length (w_faults w) \<le> length (w_faults (run_W tr))" "w_now (run_W tr) \<le> w_now w" "w_tasks w = w_tasks (run_W tr)"
  shows "ready due st (tr\<lparr>run_W := w\<rparr>)"
  using assms by (simp add: ready_def quiet_world stored_def row_of_def)

lemma ready_sleep: "alone en \<Longrightarrow> ready due st tr \<Longrightarrow> ready due st (sleep_run en d tr)"
  unfolding sleep_run_def by (rule ready_world) (auto simp: alone_def intro: less_imp_le)

lemma quiet_sleep: "alone en \<Longrightarrow> quiet due tr \<Longrightarrow> quiet due (sleep_run en d tr)"
  unfolding sleep_run_def by (rule quiet_world) (auto simp: alone_def intro: less_imp_le)

lemma sleep_tasks: "alone en \<Longrightarrow> w_tasks (run_W (sleep_run en d tr)) = w_tasks (run_W tr)"
  by (simp add: sleep_run_def alone_def)

lemma row_of_sleep: "alone en \<Longrightarrow> row_of (sleep_run en d tr) = row_of tr"
  by (simp add: row_of_def sleep_tasks)

lemma ready_fault:
  "ready due st tr \<Longrightarrow> length fs \<le> length (w_faults (run_W tr)) \<Longrightarrow>
   ready due st (tr\<lparr>run_W := (run_W tr)\<lparr>w_faults := fs\<rparr>\<rparr>)"
  by (rule ready_world) simp_all

lemma quiet_task [simp]: "quiet due (tr\<lparr>run_Task := t\<rparr>) = quiet due tr" "quiet due (set_task f tr) = quiet due tr"
  by (simp_all add: quiet_def set_task_def)

lemma ready_fetchLatestTask:
  assumes "ready due st tr" and "fetchLatestTask tr = (e, tr')"
  shows "ready due st tr' \<and> w_now (run_W tr') = w_now (run_W tr)"
proof (cases "run_W tr" rule: take_fault_cases)
  case (1 fs)
  from assms(1) obtain row where row: "row_of tr = Some row" "plain st row" "task_ID row = task_ID (task_of tr)"
    by (auto simp: ready_def stored_def)
  have "tr' = tr\<lparr>run_Task := row, run_W := (run_W tr)\<lparr>w_faults := fs\<rparr>\<rparr>"
    using assms(2) row(1) 1 by (cases tr) (auto simp: fetchLatestTask_def with_world_def GetPipelineTask_def row_of_def)
  moreover have "ready due st (tr\<lparr>run_Task := row\<rparr>)"
    using assms(1) row by (simp add: ready_def stored_def row_of_def)
  ultimately show ?thesis using ready_fault [of due st "tr\<lparr>run_Task := row\<rparr>" fs] 1(2) by simp
next
  case (2 e' fs)
  then have "tr' = tr\<lparr>run_W := (run_W tr)\<lparr>w_faults := fs\<rparr>\<rparr>"
    using assms(2) by (simp add: fetchLatestTask_def with_world_def GetPipelineTask_def)
  with 2(2) ready_fault [OF assms(1), of fs] show ?thesis by simp
qed

lemma ready_fetchLatestPipelineStatus:
  assumes "ready due st tr" and "fetchLatestPipelineStatus tr = (e, tr')"
  shows "ready due st tr'"
proof (cases "run_W tr" rule: take_fault_cases)
  case (1 fs)
  from assms(1) obtain pst where p: "map_of (w_pstatus (run_W tr)) (p_ID (run_P tr)) = Some pst" "\<not> IsEndStatus pst"
    by (auto simp: ready_def quiet_def)
  have "tr' = tr\<lparr>run_QueriedPipelineStatus := pst, run_W := (run_W tr)\<lparr>w_faults := fs\<rparr>\<rparr>"
    using assms(2) p(1) 1 by (cases tr) (auto simp: fetchLatestPipelineStatus_def with_world_def GetPipelineStatus_def)
  moreover have "ready due st (tr\<lparr>run_QueriedPipelineStatus := pst\<rparr>)"
    using assms(1) p by (simp add: ready_def stored_def row_of_def quiet_def)
  ultimately show ?thesis using ready_fault [of due st "tr\<lparr>run_QueriedPipelineStatus := pst\<rparr>" fs] 1(2) by simp
next
  case (2 e' fs)
  then have "tr' = tr\<lparr>run_W := (run_W tr)\<lparr>w_faults := fs\<rparr>\<rparr>"
    using assms(2) by (simp add: fetchLatestPipelineStatus_def with_world_def GetPipelineStatus_def)
  with 2(2) ready_fault [OF assms(1), of fs] show ?thesis by simp
qed

lemma ready_until_fetched:
  assumes "alone en" and "ready due st tr" shows "ready due st (until_fetched en tr)"
proof -
  define body where "body = (\<lambda>(u :: unit, tr).
    (case fetchLatestTask tr of (e, tr) \<Rightarrow> ((e = None, None :: string option), u, tr)))"
  obtain e x tr' where l: "run_loop en [WithDeclineRatio (Fin 2), WithDeclineLimit Minute]
      body ((), tr) = (e, x, tr')" by (metis surj_pair)
  have "ready due st tr'"
    by (rule run_loop_inv [where P = "\<lambda>_. ready due st", OF _ _ assms(2) l])
       (auto simp: body_def ready_sleep [OF assms(1)] dest: ready_fetchLatestTask split: prod.splits)
  with l show ?thesis by (simp add: until_fetched_def body_def)
qed

lemma ready_until_status_fetched:
  assumes "alone en" and "ready due st tr" shows "ready due st (until_status_fetched en tr)"
proof -
  define body where "body = (\<lambda>(u :: unit, tr).
    (case fetchLatestPipelineStatus tr of (e, tr) \<Rightarrow> ((e = None, None :: string option), u, tr)))"
  obtain e x tr' where l: "run_loop en [WithDeclineRatio (Fin 2), WithDeclineLimit Minute]
      body ((), tr) = (e, x, tr')" by (metis surj_pair)
  have "ready due st tr'"
    by (rule run_loop_inv [where P = "\<lambda>_. ready due st", OF _ _ assms(2) l])
       (auto simp: body_def ready_sleep [OF assms(1)] dest: ready_fetchLatestPipelineStatus split: prod.splits)
  with l show ?thesis by (simp add: until_status_fetched_def body_def)
qed

section \<open>The end of an operation\<close>

lemma plain_set_status [simp]: "plain st (task_of (set_status st' tr)) \<longleftrightarrow> st = st' \<and> te_LoopOptions (task_Extra (task_of tr)) = None"
  by (auto simp: plain_def set_status_def set_task_def)

lemma quiet_EnsureFetch:
  assumes "alone en" and "quiet due tr"
  shows "quiet due (EnsureFetchLatestPipelineStatus en tr) \<and>
    w_tasks (run_W (EnsureFetchLatestPipelineStatus en tr)) = w_tasks (run_W tr)"
proof -
  define body where "body = (\<lambda>(latestPStatus :: PipelineStatus, tr).
                (case with_world (GetPipelineStatus (p_ID (run_P tr))) tr of
                   (Inl e, tr) \<Rightarrow> ((False, Some e), PipelineEmptyStatus, tr)
                 | (Inr st, tr) \<Rightarrow> ((True, None), st, tr)))"
  obtain e x tr' where l: "run_loop en [WithDeclineRatio (Fin 2), WithDeclineLimit (10 * Second)]
      body (PipelineEmptyStatus, tr) = (e, x, tr')" by (metis surj_pair)
  have *: "\<not> IsEndStatus x \<and> quiet due tr' \<and> w_tasks (run_W tr') = w_tasks (run_W tr)"
  proof (rule run_loop_inv [where P = "\<lambda>x a. \<not> IsEndStatus x \<and> quiet due a \<and> w_tasks (run_W a) = w_tasks (run_W tr)", OF _ _ _ l])
    fix x a r x' b
    assume I: "\<not> IsEndStatus x \<and> quiet due a \<and> w_tasks (run_W a) = w_tasks (run_W tr)" and b: "body (x, a) = (r, x', b)"
    from I obtain pst where p: "map_of (w_pstatus (run_W a)) (p_ID (run_P a)) = Some pst" "\<not> IsEndStatus pst"
      by (auto simp: quiet_def)
    have "\<exists>fs. b = a\<lparr>run_W := (run_W a)\<lparr>w_faults := fs\<rparr>\<rparr> \<and> length fs \<le> length (w_faults (run_W a)) \<and> x' \<in> {pst, PipelineEmptyStatus}"
      by (cases "run_W a" rule: take_fault_cases)
         (use b p(1) in \<open>auto simp: body_def with_world_def GetPipelineStatus_def intro: less_imp_le\<close>)
    with p(2) I show "\<not> IsEndStatus x' \<and> quiet due b \<and> w_tasks (run_W b) = w_tasks (run_W tr)"
      by (auto intro!: quiet_world simp: status_defs)
  next
    show "\<not> IsEndStatus PipelineEmptyStatus \<and> quiet due tr \<and> w_tasks (run_W tr) = w_tasks (run_W tr)"
      using assms(2) by (simp add: status_defs)
  qed (use assms(1) in \<open>auto simp: quiet_sleep sleep_tasks\<close>)
  have "EnsureFetchLatestPipelineStatus en tr = tr'\<lparr>run_QueriedPipelineStatus := x\<rparr>"
    using l by (simp add: EnsureFetchLatestPipelineStatus_def body_def)
  with * show ?thesis by (simp add: quiet_def)
qed

lemma ready_Update:
  assumes "alone en" and "quiet due tr" "plain st (task_of tr)" "row_of tr \<noteq> None"
  shows "ready due st (Update en tr)"
proof -
  obtain e u tr' where l: "run_loop en [WithDeclineRatio (Fin 2), WithDeclineLimit (10 * Second)]
      (Update_body en) ((), tr) = (e, u, tr')" by (metis surj_pair)
  have "quiet due tr' \<and> row_of tr' \<noteq> None"
  proof (rule run_loop_inv [where P = "\<lambda>_ a. quiet due a \<and> row_of a \<noteq> None", OF _ _ _ l])
    fix x a r x' b
    assume I: "quiet due a \<and> row_of a \<noteq> None" and b: "Update_body en (x, a) = (r, x', b)"
    show "quiet due b \<and> row_of b \<noteq> None"
      by (cases "run_W a" rule: take_fault_cases)
         (use I b in \<open>auto simp: Update_body_def with_world_def UpdatePipelineTask_def UpdatePipelineTask_loop.simps
            row_of_def write_task_def update_conv' intro!: quiet_world\<close>)
  qed (use assms in \<open>auto simp: quiet_sleep row_of_sleep\<close>)
  then have q: "quiet due (Update en tr)"
    using l quiet_world [of due tr' "(run_W tr')\<lparr>w_events := w_events (run_W tr') @ [task_of tr']\<rparr>"]
    by (simp add: Update_def emit_event_def)
  have "\<exists>now. map_of (w_tasks (run_W (Update en tr))) (task_ID (task_of tr)) =
           Some ((task_of tr)\<lparr>task_TimeUpdated := now\<rparr>) \<and>
         last (w_events (run_W (Update en tr))) = task_of tr"
    by (rule Update_writes [OF alone_calm [OF assms(1)]]) (use assms(2,4) in \<open>simp_all add: row_of_def quiet_def\<close>)
  with q assms(3) show ?thesis by (auto simp: ready_def stored_def row_of_def plain_def)
qed

lemma record_errors_ready [simp]:
  "quiet due (record_errors t msgs tr) = quiet due tr" "row_of (record_errors t msgs tr) = row_of tr"
  "plain st (task_of (record_errors t msgs tr)) = plain st (task_of tr)"
  by (simp_all add: record_errors_def append_error_def row_of_def plain_def)

text \<open>An operation without errors ends with the status its callback left.\<close>

lemma finish_op_plain:
  assumes "plain st (task_of tr)"
  shows "finish_op en itr oldStatus startTime [] msgs tr =
    Some (None, Update en (if IsEndStatus st then EnsureFetchLatestPipelineStatus en (record_errors startTime msgs tr)
                           else record_errors startTime msgs tr))"
proof -
  have "plain st (task_of (record_errors startTime msgs tr))" using assms by simp
  then have "handleTaskLoop en (record_errors startTime msgs tr) =
      Some (None, if IsEndStatus st then EnsureFetchLatestPipelineStatus en (record_errors startTime msgs tr)
                  else record_errors startTime msgs tr)"
    by (auto simp: handleTaskLoop_def Let_def plain_def)
  then show ?thesis by (simp add: finish_op_def op_result_error_def is_platform_error_def)
qed

lemma finish_op_ready:
  assumes "alone en" and "quiet due tr" "plain st (task_of tr)" "row_of tr \<noteq> None"
  shows "\<exists>tr'. finish_op en itr oldStatus startTime [] msgs tr = Some (None, tr') \<and> ready due st tr'"
proof -
  let ?rec = "record_errors startTime msgs tr"
  have "ready due st (Update en (if IsEndStatus st then EnsureFetchLatestPipelineStatus en ?rec else ?rec))"
    by (rule ready_Update [OF assms(1)])
       (use assms(2-4) quiet_EnsureFetch [OF assms(1), of due ?rec] in \<open>simp_all add: row_of_def\<close>)
  with finish_op_plain [OF assms(3)] show ?thesis by simp
qed

text \<open>
  One operation on a ready task moves it on to a status of \<open>nxt\<close>, when its processing succeeds
  and its callbacks lead there, unless the context of the run is done first.
\<close>

lemma Do_moves_on:
  assumes "alone en" and "ready due st tr" and "\<not> IsEndStatus st"
    and processing: "\<And>tr. ready due st tr \<Longrightarrow> \<exists>data tr'. op_Processing itr tr = (Inr data, tr') \<and> ready due st tr' \<and> ok data"
    and when_done: "\<And>data tr. ready due st tr \<Longrightarrow> ok data \<Longrightarrow>
      \<exists>tr' st'. op_WhenDone itr data tr = (Returned None, tr') \<and> quiet due tr' \<and> row_of tr' \<noteq> None \<and>
        plain st' (task_of tr') \<and> nxt st'"
    and when_timeout: "\<And>t tr. op_TimeoutConfig itr t \<noteq> None \<Longrightarrow> ready due st tr \<Longrightarrow>
      \<exists>tr' st'. op_WhenTimeout itr tr = (Returned None, tr') \<and> plain st' (task_of tr') \<and> nxt st' \<and> IsEndStatus st'"
  shows "\<exists>tr'. Do en itr sel tr = Some (None, tr') \<and>
    (sel = CtxFirst \<and> run_PExit tr' \<or> (\<exists>st'. nxt st' \<and> (ready due st' tr' \<or> IsEndStatus (status_of tr'))))"
proof -
  let ?f = "until_status_fetched en tr"
  have f: "ready due st ?f" "\<not> IsEndStatus (run_QueriedPipelineStatus ?f)"
    using ready_until_status_fetched [OF assms(1,2)] by (auto simp: ready_def quiet_def)
  consider "sel = CtxFirst" | t where "sel = TimeoutFirst" "op_TimeoutConfig itr tr = Some t"
    | "Do_signal en itr sel tr = process en itr ?f"
    using f(2) by (cases sel; cases "op_TimeoutConfig itr tr") (auto simp: Do_signal_def Let_def split: prod.splits)
  then show ?thesis
  proof cases
    case 1
    then have "Do_signal en itr sel tr = (CtxDone, ?f)"
      using f(2) by (simp add: Do_signal_def Let_def)
    with 1 f(1) finish_op_plain [of st "?f\<lparr>run_PExit := True\<rparr>"] show ?thesis
      by (auto simp: Do_def waitOp_def wait_signal_def ready_def)
  next
    case (2 t)
    obtain d where s: "Do_signal en itr sel tr = (TimeoutCh d, ?f)"
      using 2 f(2) by (cases t) (auto simp: Do_signal_def Let_def)
    obtain tr1 st' where w: "op_WhenTimeout itr (until_fetched en ?f) = (Returned None, tr1)"
      "plain st' (task_of tr1)" "nxt st'" "IsEndStatus st'"
      using when_timeout [OF _ ready_until_fetched [OF assms(1) f(1)], of tr] 2(2) by auto
    have "task_Status (task_of tr1) = st'" using w(2) by (simp add: plain_def)
    with s w finish_op_plain [OF w(2)] show ?thesis by (auto simp: Do_def waitOp_def wait_signal_def)
  next
    case 3
    obtain data tr1 where p: "op_Processing itr ?f = (Inr data, tr1)" "ready due st tr1" "ok data"
      using processing [OF f(1)] by blast
    let ?g = "until_fetched en tr1"
    have g: "ready due st ?g" by (rule ready_until_fetched [OF assms(1) p(2)])
    then have "Do_signal en itr sel tr = (DoneCh data, ?g)"
      using 3 p(1) assms(3) by (simp add: process_def handleProcessingResult_def ready_def plain_def)
    moreover obtain tr2 st' where w: "op_WhenDone itr data ?g = (Returned None, tr2)" "quiet due tr2"
      "row_of tr2 \<noteq> None" "plain st' (task_of tr2)" "nxt st'"
      using when_done [OF g p(3)] by blast
    moreover obtain tr3 where "finish_op en itr (status_of tr) (w_now (run_W tr)) [] [] tr2 = Some (None, tr3)" "ready due st' tr3"
      using finish_op_ready [OF assms(1) w(2,4,3)] by blast
    ultimately show ?thesis by (auto simp: Do_def waitOp_def wait_signal_def)
  qed
qed

section \<open>The operations\<close>

text \<open>A write of the result of the task keeps the run ready, and takes no time.\<close>

lemma ready_write_result:
  assumes "ready due st tr" and "with_world (UpdatePipelineTaskResult (task_ID (task_of tr)) result) tr = (e, tr')"
  shows "ready due st tr' \<and> w_now (run_W tr') = w_now (run_W tr)"
proof (cases "run_W tr" rule: take_fault_cases)
  case (1 fs)
  let ?a = "tr\<lparr>run_W := (run_W tr)\<lparr>w_faults := fs\<rparr>\<rparr>"
  let ?w = "write_task (task_ID (task_of tr)) (task_Result_update (\<lambda>_. result)) ((run_W tr)\<lparr>w_faults := fs\<rparr>)"
  have tr': "tr' = ?a\<lparr>run_W := ?w\<rparr>"
    using assms(2) 1 by (simp add: with_world_def UpdatePipelineTaskResult_def update_columns_def)
  have a: "ready due st ?a" by (rule ready_fault [OF assms(1) 1(2)])
  then obtain row where row: "row_of ?a = Some row" "plain st row" "task_ID row = task_ID (task_of tr)"
    by (auto simp: ready_def stored_def)
  have w: "w_pstatus ?w = w_pstatus (run_W tr)" "w_ctxDone ?w = w_ctxDone (run_W tr)" "w_faults ?w = fs"
    "w_now ?w = w_now (run_W tr)"
    using row(1) by (simp_all add: write_task_def row_of_def)
  have "quiet due tr'"
    using quiet_world [of due ?a ?w] a w unfolding tr' by (simp add: ready_def)
  moreover have "stored st tr'"
    using row map_of_write_task [of "(run_W tr)\<lparr>w_faults := fs\<rparr>" "task_ID (task_of tr)" row]
    unfolding tr' stored_def row_of_def by (simp add: plain_def)
  moreover have "plain st (task_of tr')" using assms(1) tr' by (simp add: ready_def)
  ultimately show ?thesis using w tr' by (simp add: ready_def)
next
  case (2 e' fs)
  then have "tr' = tr\<lparr>run_W := (run_W tr)\<lparr>w_faults := fs\<rparr>\<rparr>"
    using assms(2) by (simp add: with_world_def UpdatePipelineTaskResult_def update_columns_def)
  with 2(2) ready_fault [OF assms(1), of fs] show ?thesis by simp
qed

lemma ready_set_result:
  assumes "ready due st tr" shows "ready due st (set_task (task_Result_update f) tr)"
  using assms by (simp add: ready_def stored_def row_of_def plain_def)

lemma ready_append_error: "ready due st tr \<Longrightarrow> ready due st (append_error r tr)"
  unfolding append_error_def by (rule ready_set_result)

lemma ready_AppendLastMsg:
  assumes "ready due st tr" and "AppendLastMsg msg tr = (e, tr')"
  shows "ready due st tr' \<and> w_now (run_W tr') = w_now (run_W tr)"
proof -
  obtain e1 tr1 where f: "fetchLatestTask tr = (e1, tr1)" by (metis surj_pair)
  note r = ready_fetchLatestTask [OF assms(1) f]
  show ?thesis
    using assms f r ready_write_result [OF ready_append_error, of due st tr1 "new_response msg" _ e tr']
    by (auto simp: AppendLastMsg_def Let_def split: if_splits option.splits)
qed

lemma ready_UpdateTaskInspect:
  assumes "ready due st tr" and "UpdateTaskInspect inspect tr = (e, tr')"
  shows "ready due st tr' \<and> w_now (run_W tr') = w_now (run_W tr)"
proof -
  obtain e1 tr1 where f: "fetchLatestTask tr = (e1, tr1)" by (metis surj_pair)
  note r = ready_fetchLatestTask [OF assms(1) f]
  show ?thesis
    using assms f r ready_write_result [OF ready_set_result, of due st tr1 _ _ e tr']
    by (auto simp: UpdateTaskInspect_def Let_def split: if_splits option.splits)
qed

lemma ready_throttler:
  "ready due st tr \<Longrightarrow> ready due st (tr\<lparr>run_W := (run_W tr)\<lparr>w_throttler := th\<rparr>\<rparr>)"
  by (rule ready_world) simp_all

lemma ready_pop_body:
  assumes "ready due st tr" and "pop_body en (alerted, tr) = (r, a, tr')" shows "ready due st tr'"
proof -
  let ?k = "te_UUID (task_Extra (task_of tr))" and ?t = "w_throttler (run_W tr)"
  obtain p det t where pop: "th_PopPending (env_ord1 en ?t ?k) (env_ord2 en ?t ?k) ?t ?k = (p, det, t)" by (metis surj_pair)
  let ?tr = "tr\<lparr>run_W := (run_W tr)\<lparr>w_throttler := t\<rparr>\<rparr>"
  obtain e tr1 where m: "AppendLastMsg (''Pop pending failed, detail: '' @ PopDetails_String det) ?tr = (e, tr1)" by (metis surj_pair)
  have "ready due st ?tr" by (rule ready_throttler [OF assms(1)])
  with ready_AppendLastMsg [OF this m] assms(2) pop m show ?thesis
    by (auto simp: pop_body_def Let_def split: if_splits option.splits)
qed

lemma start_Processing_ready:
  assumes "alone en" "finishing ex due" "ready due st tr"
  shows "\<exists>tr'. start_Processing en ex tr = (Inr NoData, tr') \<and> ready due st tr'"
proof -
  obtain e x tr' where l: "run_loop en [WithDeclineRatio (Fin 2), WithDeclineLimit (30 * Second)]
      (pop_body en) (False, tr) = (e, x, tr')" by (metis surj_pair)
  have "ready due st tr'"
    by (rule run_loop_inv [where P = "\<lambda>_. ready due st", OF _ _ assms(3) l])
       (auto simp: ready_sleep [OF assms(1)] dest: ready_pop_body)
  with l assms(2) show ?thesis
    by (auto simp: start_Processing_def with_world_def finishing_def injectVolumeID_def)
qed

section \<open>Polling\<close>

text \<open>The rule for a loop that polls, with a measure of its own.\<close>

lemma run_loop_measure:
  assumes "\<And>x tr abort err x' tr'. I x tr \<Longrightarrow> f (x, tr) = ((abort, err), x', tr') \<Longrightarrow>
      (if abort then Q err x' tr'
       else (\<forall>d. I x' (sleep_run en d tr') \<and> (m (sleep_run en d tr') :: nat) < m tr))"
    and "I x tr" and "int (m tr) < 2 ^ 64 - 1"
    and "run_loop en [WithDeclineRatio r, WithDeclineLimit d] f (x, tr) = (e, x', tr')"
  shows "Q e x' tr'"
proof -
  let ?pause = "\<lambda>d (x, tr). (False, x, sleep_run en d tr)"
  have "case loop_Do (env_oor en) ?pause (\<lambda>_. False)
          (loop_New [WithDeclineRatio r, WithDeclineLimit d]) f (x, tr) of (err, l', s') \<Rightarrow> case_prod (Q err) s'"
    by (rule loop_Do_rule [where I = "case_prod I" and m = "\<lambda>(x, tr). m tr"])
       (use assms(1-3) loop_New_plain in \<open>force+\<close>)
  with assms(4) show ?thesis by (auto simp: run_loop_def split: prod.splits)
qed

text \<open>The time left until the job is known to have ended.\<close>

abbreviation time_left :: "time \<Rightarrow> TaskRun \<Rightarrow> nat" where
  "time_left due tr \<equiv> nat (due - w_now (run_W tr))"

lemma sleep_now: "alone en \<Longrightarrow> w_now (run_W tr) < w_now (run_W (sleep_run en d tr))"
  by (simp add: sleep_run_def alone_def)

lemma time_left_bound: "ready due st tr \<Longrightarrow> int (time_left due tr) < 2 ^ 64 - 1"
  by (simp add: ready_def quiet_def)

lemma with_world_id: "f (run_W tr) = (r, run_W tr) \<Longrightarrow> with_world f tr = (r, tr)"
  by (simp add: with_world_def)

lemma finishingE:
  assumes "finishing ex due"
  obtains d i where "with_world (ex_Status ex (task_of tr)) tr = (Inr d, tr)"
    "\<not> known_end d \<Longrightarrow> w_now (run_W tr) < due"
    "with_world (ex_Inspect ex (task_of tr')) tr' = (i, tr')"
  using assms unfolding finishing_def by (metis with_world_id not_le)

text \<open>The messages of a poll: what is logged for the task keeps the run ready.\<close>

lemma queue_body_ready:
  assumes "finishing ex due" "ready due st tr" "queue_body ex (msg, tr) = ((abort, err), msg', tr')"
  shows "ready due st tr' \<and> w_now (run_W tr') = w_now (run_W tr) \<and> (if abort then err = None else w_now (run_W tr) < due)"
proof -
  obtain d where d: "with_world (ex_Status ex (task_of tr)) tr = (Inr d, tr)"
    "\<not> known_end d \<Longrightarrow> w_now (run_W tr) < due"
    using finishingE [OF assms(1)] by metis
  have q: "\<not> w_ctxDone (run_W tr)" using assms(2) by (simp add: ready_def quiet_def)
  let ?log = "sd_Desc d \<noteq> '''' \<and> sd_Desc d \<noteq> msg"
  define tr1 where "tr1 = (if ?log then snd (AppendLastMsg (sd_Desc d) tr) else tr)"
  have 1: "ready due st tr1 \<and> w_now (run_W tr1) = w_now (run_W tr)"
    using ready_AppendLastMsg [OF assms(2)] assms(2) by (simp add: tr1_def) (metis prod.collapse)
  obtain i where i: "with_world (ex_Inspect ex (task_of tr1)) tr1 = (i, tr1)"
    using finishingE [OF assms(1)] by metis
  define tr2 where "tr2 = (if \<not> IsEndStatus (sd_Status d) \<and> sd_Status d \<noteq> PipelineStatusRunning
     then (case i of Inl _ \<Rightarrow> tr1 | Inr desc \<Rightarrow> if desc \<noteq> '''' then snd (UpdateTaskInspect desc tr1) else tr1) else tr1)"
  have 2: "ready due st tr2 \<and> w_now (run_W tr2) = w_now (run_W tr)"
    using ready_UpdateTaskInspect [of due st tr1] 1
    by (simp add: tr2_def split: sum.splits) (metis prod.collapse)
  have s: "\<not> run_StopQueueLoop tr2" using 2 by (simp add: ready_def quiet_def)
  have "queue_body ex (msg, tr) =
      (if sd_Status d = PipelineStatusUnknown then ((False, Some err4EnableDeclineRatio), if ?log then sd_Desc d else msg, tr2)
       else if sd_Status d = PipelineStatusRunning \<or> IsEndStatus (sd_Status d)
       then ((True, None), if ?log then sd_Desc d else msg, tr2)
       else ((run_StopQueueLoop tr2, Some err4EnableDeclineRatio), if ?log then sd_Desc d else msg, tr2))"
    using q d(1) i by (auto simp: queue_body_def Let_def tr1_def tr2_def split: sum.splits)
  with assms(3) 2 s d(2) show ?thesis by (auto simp: known_end_def split: if_splits)
qed

lemma queue_Processing_ready:
  assumes "alone en" "finishing ex due" "ready due st tr"
  shows "\<exists>tr'. queue_Processing en ex tr = (Inr NoData, tr') \<and> ready due st tr'"
proof -
  obtain e x tr' where l: "run_loop en [WithDeclineRatio (Fin (3 / 2)), WithDeclineLimit (10 * Second)]
      (queue_body ex) ('''', tr) = (e, x, tr')" by (metis surj_pair)
  have "e = None \<and> ready due st tr'"
  proof (rule run_loop_measure [where I = "\<lambda>_. ready due st" and m = "time_left due"
        and Q = "\<lambda>e _ tr. e = None \<and> ready due st tr", OF _ assms(3) time_left_bound [OF assms(3)] l])
    fix x tr abort err x' tr'
    assume "ready due st tr" "queue_body ex (x, tr) = ((abort, err), x', tr')"
    from queue_body_ready [OF assms(2) this] show "if abort then err = None \<and> ready due st tr'
         else \<forall>d. ready due st (sleep_run en d tr') \<and> time_left due (sleep_run en d tr') < time_left due tr"
      using ready_sleep [OF assms(1)] sleep_now [OF assms(1), of tr'] by auto
  qed
  with l show ?thesis by (simp add: queue_Processing_def poll_loop_options_def)
qed

lemma wait_body_ready:
  assumes "finishing ex due" "ready due st tr" "wait_body ex (data, tr) = ((abort, err), data', tr')"
  shows "tr' = tr \<and> (if abort then err = None \<and> (\<exists>d. data' = DataStatus d \<and> IsEndStatus (sd_Status d)) else w_now (run_W tr) < due)"
proof -
  obtain d where d: "with_world (ex_Status ex (task_of tr)) tr = (Inr d, tr)"
    "\<not> known_end d \<Longrightarrow> w_now (run_W tr) < due"
    using finishingE [OF assms(1)] by metis
  have q: "\<not> w_ctxDone (run_W tr)" "\<not> run_QuitWaitTimeout tr" "\<not> run_StopWaitLoop tr"
    using assms(2) by (simp_all add: ready_def quiet_def)
  with d assms(3) show ?thesis
    by (auto simp: wait_body_def known_end_def split: if_splits)
qed

lemma wait_Processing_ready:
  assumes "alone en" "finishing ex due" "ready due st tr"
  shows "\<exists>d tr'. wait_Processing en ex tr = (Inr (DataStatus d), tr') \<and> ready due st tr' \<and> IsEndStatus (sd_Status d)"
proof -
  obtain e x tr' where l: "run_loop en [WithDeclineRatio (Fin (3 / 2)), WithDeclineLimit (10 * Second)]
      (wait_body ex) (NoData, tr) = (e, x, tr')" by (metis surj_pair)
  let ?Q = "\<lambda>e x tr. e = None \<and> (\<exists>d. x = DataStatus d \<and> IsEndStatus (sd_Status d)) \<and> ready due st tr"
  have "?Q e x tr'"
  proof (rule run_loop_measure [where I = "\<lambda>_. ready due st" and m = "time_left due" and Q = ?Q,
        OF _ assms(3) time_left_bound [OF assms(3)] l])
    fix x tr abort err x' tr'
    assume r: "ready due st tr" "wait_body ex (x, tr) = ((abort, err), x', tr')"
    from wait_body_ready [OF assms(2) this] r(1) show "if abort then ?Q err x' tr'
         else \<forall>d. ready due st (sleep_run en d tr') \<and> time_left due (sleep_run en d tr') < time_left due tr"
      using ready_sleep [OF assms(1)] sleep_now [OF assms(1), of tr'] by auto
  qed
  with l show ?thesis by (auto simp: wait_Processing_def poll_loop_options_def)
qed

section \<open>A task is brought to its end\<close>

lemma end_task_plain:
  "te_LoopOptions (task_Extra (task_of tr)) = None \<Longrightarrow> plain st (task_of (end_task st tr))"
  "task_ID (task_of (end_task st tr)) = task_ID (task_of tr)" "quiet due (end_task st tr) = quiet due tr"
  by (simp_all add: end_task_def plain_def CalculateTaskCostTimeSec_def Let_def split: prod.splits)

lemma ready_loop_options: "ready due st tr \<Longrightarrow> te_LoopOptions (task_Extra (task_of tr)) = None"
  by (simp add: ready_def plain_def)

lemma ready_row: "ready due st tr \<Longrightarrow> row_of tr \<noteq> None"
  by (auto simp: ready_def stored_def)

lemma wait_WhenDone_ends:
  assumes "finishing ex due" "ready due st tr"
  shows "\<exists>tr'. wait_WhenDone ex (DataStatus d) tr = (Returned None, tr') \<and> quiet due tr' \<and> row_of tr' \<noteq> None \<and>
    plain (sd_Status d) (task_of tr')"
proof -
  obtain i where i: "with_world (ex_Inspect ex (task_of tr)) tr = (i, tr)"
    using finishingE [OF assms(1)] by metis
  define tr1 where "tr1 = (if IsFailedStatus (sd_Status d)
     then (case i of Inl _ \<Rightarrow> tr | Inr desc \<Rightarrow> if desc \<noteq> '''' then snd (UpdateTaskInspect desc tr) else tr) else tr)"
  have r: "ready due st tr1"
    using ready_UpdateTaskInspect [OF assms(2)] assms(2)
    by (simp add: tr1_def split: sum.splits) (metis prod.collapse)
  have "wait_WhenDone ex (DataStatus d) tr = (Returned None, end_task (sd_Status d) tr1)"
    using i by (simp add: wait_WhenDone_def tr1_def split: sum.splits)
  moreover have "row_of (end_task (sd_Status d) tr1) = row_of tr1"
    by (simp add: row_of_def end_task_plain) (simp add: end_task_def)
  ultimately show ?thesis
    using r ready_row [OF r] end_task_plain(1) [OF ready_loop_options [OF r]] end_task_plain(3)
    by (auto simp: ready_def)
qed

lemma wait_WhenTimeout_ends:
  assumes "finishing ex due" "ready due st tr"
  shows "\<exists>tr' st'. wait_WhenTimeout ex tr = (Returned None, tr') \<and> plain st' (task_of tr') \<and> IsEndStatus st'"
proof -
  let ?q = "tr\<lparr>run_QuitQueueTimeout := True\<rparr>"
  obtain d where d: "with_world (ex_Status ex (task_of tr)) ?q = (Inr d, ?q)"
    using finishingE [OF assms(1), of ?q] by auto
  show ?thesis
  proof (cases "IsEndStatus (sd_Status d)")
    case True
    have "ready due st (?q\<lparr>run_FakeTimeout := True\<rparr>)"
      using assms(2) by (simp add: ready_def quiet_def stored_def row_of_def)
    from wait_WhenDone_ends [OF assms(1) this, of d] d True show ?thesis
      by (auto simp: wait_WhenTimeout_def)
  next
    case False
    have "IsEndStatus PipelineStatusTimeout" by (simp add: status_defs)
    with d False assms(1) ready_loop_options [OF assms(2)] show ?thesis
      by (auto simp: wait_WhenTimeout_def wait_timed_out_def Let_def with_world_def finishing_def plain_def set_task_def)
  qed
qed

text \<open>How many operations a task is away from its end.\<close>

definition rounds_left :: "PipelineStatus \<Rightarrow> nat" where
  "rounds_left st =
     (case st of PipelineStatusAnalyzed \<Rightarrow> 5 | PipelineStatusBorn \<Rightarrow> 4 | PipelineStatusCreated \<Rightarrow> 3
       | PipelineStatusQueue \<Rightarrow> 2 | PipelineStatusRunning \<Rightarrow> 1 | _ \<Rightarrow> 0)"

lemma rounds_left_simps [simp]:
  "rounds_left PipelineStatusAnalyzed = 5" "rounds_left PipelineStatusBorn = 4"
  "rounds_left PipelineStatusCreated = 3" "rounds_left PipelineStatusQueue = 2"
  "rounds_left PipelineStatusRunning = 1"
  by (simp_all add: rounds_left_def)

lemma rounds_left_cases:
  assumes "0 < rounds_left st"
  obtains "st = PipelineStatusAnalyzed" | "st = PipelineStatusBorn" | "st = PipelineStatusCreated"
    | "st = PipelineStatusQueue" | "st = PipelineStatusRunning"
  using assms by (cases st) (auto simp: rounds_left_def)

lemma working_not_end: "0 < rounds_left st \<Longrightarrow> \<not> IsEndStatus st"
  by (erule rounds_left_cases) (simp_all add: status_defs)

lemma ready_set_task:
  assumes "ready due st tr" and "task_ID (f (task_of tr)) = task_ID (task_of tr)"
  shows "quiet due (set_task f tr)" "row_of (set_task f tr) \<noteq> None"
  using assms ready_row [OF assms(1)] by (simp_all add: ready_def row_of_def)

abbreviation moved_on :: "time \<Rightarrow> first_signal \<Rightarrow> nat \<Rightarrow> TaskRun \<Rightarrow> bool" where
  "moved_on due sel n tr \<equiv> sel = CtxFirst \<and> run_PExit tr \<or> IsEndStatus (status_of tr) \<or>
     (\<exists>st'. rounds_left st' = n \<and> 0 < n \<and> ready due st' tr)"

lemma Do_moves_on_to:
  assumes "alone en" and "ready due st tr" and "\<not> IsEndStatus st" "op_TimeoutConfig itr = (\<lambda>_. None)"
    and "\<And>tr. ready due st tr \<Longrightarrow> \<exists>tr'. op_Processing itr tr = (Inr NoData, tr') \<and> ready due st tr'"
    and "\<And>tr. ready due st tr \<Longrightarrow>
      \<exists>tr'. op_WhenDone itr NoData tr = (Returned None, tr') \<and> quiet due tr' \<and> row_of tr' \<noteq> None \<and> plain st' (task_of tr')"
    and "0 < rounds_left st'"
  shows "\<exists>tr'. Do en itr sel tr = Some (None, tr') \<and> moved_on due sel (rounds_left st') tr'"
proof -
  have "\<exists>tr'. Do en itr sel tr = Some (None, tr') \<and> (sel = CtxFirst \<and> run_PExit tr' \<or>
      (\<exists>s. s = st' \<and> (ready due s tr' \<or> IsEndStatus (status_of tr'))))"
    by (rule Do_moves_on [where ok = "\<lambda>data. data = NoData" and nxt = "\<lambda>s. s = st'", OF assms(1-3)])
       (use assms(4-6) in auto)
  with assms(7) show ?thesis by blast
qed

lemma prepare_moves_on:
  assumes "alone en" "preparing mk" "ready due PipelineStatusAnalyzed tr"
  shows "\<exists>tr'. Do en (NewPrepare mk) sel tr = Some (None, tr') \<and> moved_on due sel (rounds_left PipelineStatusBorn) tr'"
proof -
  have "\<exists>tr'. prepare_WhenDone mk NoData tr = (Returned None, tr') \<and> quiet due tr' \<and> row_of tr' \<noteq> None \<and>
      plain PipelineStatusBorn (task_of tr')" if r: "ready due PipelineStatusAnalyzed tr" for tr
  proof -
    obtain t th where m: "mk (task_of tr) (run_W tr) = ((False, None), t, (run_W tr)\<lparr>w_throttler := th\<rparr>)"
      "plain PipelineStatusBorn t" "task_ID t = task_ID (task_of tr)"
      using assms(2) r unfolding preparing_def ready_def by blast
    have "ready due PipelineStatusAnalyzed (tr\<lparr>run_W := (run_W tr)\<lparr>w_throttler := th\<rparr>\<rparr>)"
      by (rule ready_throttler [OF r])
    with m show ?thesis
      by (auto simp: prepare_WhenDone_def ready_def stored_def row_of_def quiet_def)
  qed
  then show ?thesis
    by (intro Do_moves_on_to [OF assms(1,3) working_not_end]) (simp_all add: NewPrepare_def)
qed

lemma create_moves_on:
  assumes "alone en" "finishing ex due" "ready due PipelineStatusBorn tr"
  shows "\<exists>tr'. Do en (NewCreate ex) sel tr = Some (None, tr') \<and> moved_on due sel (rounds_left PipelineStatusCreated) tr'"
proof (rule Do_moves_on_to [OF assms(1,3) working_not_end])
  fix tr assume r: "ready due PipelineStatusBorn tr"
  show "\<exists>tr'. op_Processing (NewCreate ex) tr = (Inr NoData, tr') \<and> ready due PipelineStatusBorn tr'"
    using r assms(2) by (simp add: NewCreate_def create_Processing_def with_world_def finishing_def)
  show "\<exists>tr'. op_WhenDone (NewCreate ex) NoData tr = (Returned None, tr') \<and> quiet due tr' \<and> row_of tr' \<noteq> None \<and>
      plain PipelineStatusCreated (task_of tr')"
    using ready_set_task [OF r] ready_loop_options [OF r]
    by (simp add: NewCreate_def create_WhenDone_def set_status_def plain_def)
qed (simp_all add: NewCreate_def)

lemma start_moves_on:
  assumes "alone en" "finishing ex due" "ready due PipelineStatusCreated tr"
  shows "\<exists>tr'. Do en (NewStart en ex) sel tr = Some (None, tr') \<and> moved_on due sel (rounds_left PipelineStatusQueue) tr'"
proof (rule Do_moves_on_to [OF assms(1,3) working_not_end])
  fix tr assume r: "ready due PipelineStatusCreated tr"
  show "\<exists>tr'. op_Processing (NewStart en ex) tr = (Inr NoData, tr') \<and> ready due PipelineStatusCreated tr'"
    using start_Processing_ready [OF assms(1,2) r] by (simp add: NewStart_def)
  show "\<exists>tr'. op_WhenDone (NewStart en ex) NoData tr = (Returned None, tr') \<and> quiet due tr' \<and> row_of tr' \<noteq> None \<and>
      plain PipelineStatusQueue (task_of tr')"
    using ready_set_task [OF r] ready_loop_options [OF r]
    by (simp add: NewStart_def start_WhenDone_def plain_def)
qed (simp_all add: NewStart_def)

lemma queue_moves_on:
  assumes "alone en" "finishing ex due" "ready due PipelineStatusQueue tr"
  shows "\<exists>tr'. Do en (NewQueueOp en ex) sel tr = Some (None, tr') \<and> moved_on due sel (rounds_left PipelineStatusRunning) tr'"
proof (rule Do_moves_on_to [OF assms(1,3) working_not_end])
  fix tr assume r: "ready due PipelineStatusQueue tr"
  show "\<exists>tr'. op_Processing (NewQueueOp en ex) tr = (Inr NoData, tr') \<and> ready due PipelineStatusQueue tr'"
    using queue_Processing_ready [OF assms(1,2) r] by (simp add: NewQueueOp_def)
  show "\<exists>tr'. op_WhenDone (NewQueueOp en ex) NoData tr = (Returned None, tr') \<and> quiet due tr' \<and> row_of tr' \<noteq> None \<and>
      plain PipelineStatusRunning (task_of tr')"
    using ready_set_task [OF r] ready_loop_options [OF r]
    by (simp add: NewQueueOp_def queue_WhenDone_def plain_def Let_def)
qed (simp_all add: NewQueueOp_def)

lemma wait_moves_on:
  assumes "alone en" "finishing ex due" "ready due PipelineStatusRunning tr"
  shows "\<exists>tr'. Do en (NewWait en ex) sel tr = Some (None, tr') \<and> moved_on due sel 0 tr'"
proof -
  have "\<exists>tr'. Do en (NewWait en ex) sel tr = Some (None, tr') \<and> (sel = CtxFirst \<and> run_PExit tr' \<or>
      (\<exists>s. IsEndStatus s \<and> (ready due s tr' \<or> IsEndStatus (status_of tr'))))"
  proof (rule Do_moves_on [where ok = "\<lambda>data. \<exists>d. data = DataStatus d \<and> IsEndStatus (sd_Status d)"
        and nxt = IsEndStatus, OF assms(1,3)])
    show "\<not> IsEndStatus PipelineStatusRunning" by (simp add: status_defs)
  qed (use wait_Processing_ready [OF assms(1,2)] wait_WhenDone_ends [OF assms(2)] wait_WhenTimeout_ends [OF assms(2)]
        in \<open>fastforce simp: NewWait_def\<close>)+
  then show ?thesis by (auto simp: ready_def plain_def)
qed

lemma op_moves_on:
  assumes "alone en" "finishing ex due" "preparing mk" "ready due st tr" "0 < rounds_left st"
  shows "\<exists>itr tr'. op_for en ex mk st = Some itr \<and> Do en itr sel tr = Some (None, tr') \<and>
    moved_on due sel (rounds_left st - 1) tr'"
  using assms(5)
proof (cases rule: rounds_left_cases)
  case 1
  with prepare_moves_on [OF assms(1,3), of due tr sel] assms(4) show ?thesis by (simp add: op_for_def)
next
  case 2
  with create_moves_on [OF assms(1,2), of tr sel] assms(4) show ?thesis by (simp add: op_for_def)
next
  case 3
  with start_moves_on [OF assms(1,2), of tr sel] assms(4) show ?thesis by (simp add: op_for_def)
next
  case 4
  with queue_moves_on [OF assms(1,2), of tr sel] assms(4) show ?thesis by (simp add: op_for_def)
next
  case 5
  with wait_moves_on [OF assms(1,2), of tr sel] assms(4) show ?thesis by (simp add: op_for_def)
qed

lemma reconcile_loop_ends:
  assumes "alone en" "finishing ex due" "preparing mk"
  shows "ready due st tr \<Longrightarrow> 0 < rounds_left st \<Longrightarrow> rounds_left st < fuel \<Longrightarrow>
    \<exists>tr'. reconcile_loop fuel en ex mk sel rnd n tr = Finished None tr' \<and>
      (IsEndStatus (status_of tr') \<or> run_PExit tr' \<and> (\<exists>i. sel i = CtxFirst))"
proof (induction fuel arbitrary: st rnd tr)
  case (Suc fuel)
  obtain itr tr1 where d: "op_for en ex mk st = Some itr" "Do en itr (sel rnd) tr = Some (None, tr1)"
    and m: "moved_on due (sel rnd) (rounds_left st - 1) tr1"
    using op_moves_on [OF assms Suc.prems(1,2)] by blast
  have st: "status_of tr = st" "\<not> run_PExit tr" using Suc.prems(1) by (simp_all add: ready_def plain_def quiet_def)
  obtain k where k: "fuel = Suc k" using Suc.prems(2,3) by (cases fuel) auto
  consider "IsEndStatus (status_of tr1)" | "sel rnd = CtxFirst" "run_PExit tr1" "\<not> IsEndStatus (status_of tr1)"
    | st' where "ready due st' tr1" "rounds_left st' = rounds_left st - 1" "0 < rounds_left st'" "\<not> IsEndStatus (status_of tr1)"
    using m by auto
  then show ?case
  proof cases
    case 3
    have "rounds_left st' < fuel" using 3 Suc.prems(3) by simp
    from Suc.IH [OF 3(1,3) this] 3(4) d st show ?thesis by simp
  qed (use d st k in auto)
qed simp


text \<open>A clock that never stands still, a job that is known to have succeeded from instant 100 on.\<close>

definition ticking_env :: env where
  "ticking_env = example_env\<lparr>env_pause := (\<lambda>d w. w\<lparr>w_now := w_now w + max 1 d\<rparr>)\<rparr>"

definition slow_executor :: executor where
  "slow_executor = example_executor\<lparr>ex_Status := (\<lambda>_ w.
     (Inr \<lparr>sd_Status = (if w_now w < 100 then PipelineStatusUnknown else PipelineStatusSuccess), sd_Desc = ''''\<rparr>, w))\<rparr>"


end
