(* ===== verification/Nested_Pipeline.thy ===== *)
theory Nested_Pipeline
  imports Reconciler
begin

text \<open>
  A task that is a pipeline of its own (\<^verbatim>\<open>snippet.go\<close> and \<open>reconcileSnippetTask\<close> of
  \<^verbatim>\<open>reconcile_data_process.go\<close>): creating the nested pipeline, handing it secrets and
  parameters of its parents, reconciling it, and what its end leaves in the parent's task. The
  services that look up, build and store a pipeline from its file are arguments, the record
  \<open>pipelineSvcFunc\<close>; so is the merge of the file with the stored tasks, and the reconciliation of the
  nested pipeline.
\<close>

section \<open>What a nested pipeline gets from its parents\<close>

definition GetPipelineOutputs :: "nat \<Rightarrow> Reconciler \<Rightarrow> (string + outputs) \<times> Reconciler" where
  "GetPipelineOutputs pid r =
     (case ListPipelineTasksByPipelineID pid r of
        (Inl e, r) \<Rightarrow> (Inl e, r)
      | (Inr tasks, r) \<Rightarrow> (Inr (collect_outputs Map.empty tasks), r))"

definition copy_run_info :: "Pipeline \<Rightarrow> Pipeline \<Rightarrow> Pipeline" where
  "copy_run_info rootPipeline p =
     p\<lparr>p_Snapshot := (p_Snapshot p)\<lparr>sn_PlatformSecrets := sn_PlatformSecrets (p_Snapshot rootPipeline),
         sn_Secrets := sn_Secrets (p_Snapshot rootPipeline), sn_Envs := sn_Envs (p_Snapshot rootPipeline)\<rparr>\<rparr>"

definition resolve_run_params :: "outputs \<Rightarrow> Pipeline \<Rightarrow> Pipeline \<Rightarrow> Pipeline" where
  "resolve_run_params outs parentPipeline p =
     p\<lparr>p_Snapshot := (p_Snapshot p)\<lparr>sn_RunPipelineParams :=
         map (resolve_run_param outs (run_param_map Map.empty (sn_RunPipelineParams (p_Snapshot parentPipeline))))
           (sn_RunPipelineParams (p_Snapshot p))\<rparr>\<rparr>"

text \<open>The error, the pipeline and the state afterwards. \<open>None\<close>: an empty chain or no parent, where the source panics.\<close>

definition copyParentPipelineRunInfo ::
  "Pipeline \<Rightarrow> Reconciler \<Rightarrow> ((string option \<times> Pipeline) \<times> Reconciler) option" where
  "copyParentPipelineRunInfo snippetPipeline r =
     (case p_SnippetChain snippetPipeline of
        [] \<Rightarrow> None
      | rootPipelineID # _ \<Rightarrow>
     (case GetPipeline rootPipelineID r of
        (Inl e, r) \<Rightarrow> Some ((Some e, snippetPipeline), r)
      | (Inr rootPipeline, r) \<Rightarrow>
          let p = copy_run_info rootPipeline snippetPipeline
          in (case p_ParentPipelineID p of
                None \<Rightarrow> None
              | Some parentID \<Rightarrow>
          (case GetPipelineOutputs parentID r of
             (Inl e, r) \<Rightarrow> Some ((Some e, p), r)
           | (Inr outs, r) \<Rightarrow>
          (case GetPipeline parentID r of
             (Inl e, r) \<Rightarrow> Some ((Some e, p), r)
           | (Inr parentPipeline, r) \<Rightarrow>
               let p = resolve_run_params outs parentPipeline p
               in (case UpdatePipelineExtraSnapshot (p_ID p) p r of (e, r) \<Rightarrow> Some ((e, p), r)))))))"

section \<open>Creating and reconciling it\<close>

record pipelineSvcFunc =
  svc_HandleQuery :: "PipelineTask \<Rightarrow> Reconciler \<Rightarrow> (string + (string \<times> string) list) \<times> Reconciler"
  svc_configKey :: "PipelineTask \<Rightarrow> string"
  svc_MakeSnippetPipeline4Create :: "Pipeline \<Rightarrow> PipelineTask \<Rightarrow> string \<Rightarrow> string + Pipeline"
  svc_CreatePipelineGraph :: "Pipeline \<Rightarrow> Reconciler \<Rightarrow> (string + Pipeline) \<times> Reconciler"

text \<open>All columns of a task; zero affected rows are tried three times more and then passed over.\<close>

fun rc_UpdatePipelineTask ::
  "(duration \<Rightarrow> Reconciler \<Rightarrow> Reconciler) \<Rightarrow> nat \<Rightarrow> nat \<Rightarrow> PipelineTask \<Rightarrow> Reconciler \<Rightarrow> string option \<times> Reconciler" where
  "rc_UpdatePipelineTask pause retries tid task r =
     (case rc_fault r of
        (Some e, r) \<Rightarrow> (Some e, r)
      | (None, r) \<Rightarrow>
          if map_of (rc_tasks r) tid \<noteq> None then (None, r\<lparr>rc_tasks := AList.update tid task (rc_tasks r)\<rparr>)
          else (case retries of
                  0 \<Rightarrow> (None, r)
                | Suc n \<Rightarrow> rc_UpdatePipelineTask pause n tid task (pause (2 * Second) r)))"

declare rc_UpdatePipelineTask.simps [simp del]

definition plain_error :: "string \<Rightarrow> PipelineTaskErrResponse" where
  "plain_error msg = \<lparr>er_Msg = msg, er_Ctx = \<lparr>ec_StartTime = 0, ec_EndTime = 0, ec_Count = 0\<rparr>\<rparr>"

text \<open>The task the caller holds is changed through its pointer: it is part of the result.\<close>

definition createSnippetPipeline ::
  "(duration \<Rightarrow> Reconciler \<Rightarrow> Reconciler) \<Rightarrow> pipelineSvcFunc \<Rightarrow> PipelineTask \<Rightarrow> Pipeline \<Rightarrow> Reconciler
   \<Rightarrow> (string + Pipeline) \<times> PipelineTask \<times> Reconciler" where
  "createSnippetPipeline pause svc task p r =
     (case svc_HandleQuery svc task r of
        (Inl e, r) \<Rightarrow>
          let task = task\<lparr>task_Result := tr_Errors_update (\<lambda>es. es @ [plain_error e]) (task_Result task),
                          task_Status := PipelineStatusFailed\<rparr>
          in (case rc_UpdatePipelineTask pause 3 (task_ID task) task r of
                (Some updateErr, r) \<Rightarrow> (Inl updateErr, task, r)
              | (None, r) \<Rightarrow> (Inl e, task, r))
      | (Inr yamls, r) \<Rightarrow>
          if yamls = [] then (Inl (''not find snippet '' @ svc_configKey svc task @ '' yml''), task, r)
          else (case svc_MakeSnippetPipeline4Create svc p task (lookup_env yamls (svc_configKey svc task)) of
            Inl e \<Rightarrow> (Inl e, task, r)
          | Inr snippetPipeline \<Rightarrow>
          (case svc_CreatePipelineGraph svc snippetPipeline r of
            (Inl e, r) \<Rightarrow> (Inl e, task, r)
          | (Inr snippetPipeline, r) \<Rightarrow>
              let task = task\<lparr>task_SnippetPipelineID := Some (p_ID snippetPipeline),
                   task_Extra := (task_Extra task)\<lparr>te_AppliedResources := p_AppliedResources snippetPipeline\<rparr>\<rparr>
              in (case rc_UpdatePipelineTask pause 3 (task_ID task) task r of
                    (Some e, r) \<Rightarrow> (Inl e, task, r)
                  | (None, r) \<Rightarrow> (Inr snippetPipeline, task, r)))))"

text \<open>The pipeline of the task: the one bound to it, or a new one.\<close>

definition snippet_pipeline_of ::
  "(duration \<Rightarrow> Reconciler \<Rightarrow> Reconciler) \<Rightarrow> pipelineSvcFunc \<Rightarrow> PipelineTask \<Rightarrow> Pipeline \<Rightarrow> Reconciler
   \<Rightarrow> (string + Pipeline) \<times> PipelineTask \<times> Reconciler" where
  "snippet_pipeline_of pause svc task p r =
     (case task_SnippetPipelineID task of
        Some n \<Rightarrow>
          if n > 0 then (case GetPipeline n r of (res, r) \<Rightarrow> (res, task, r))
          else createSnippetPipeline pause svc task p r
      | None \<Rightarrow> createSnippetPipeline pause svc task p r)"

text \<open>The first run: what happens to the nested pipeline before it is reconciled.\<close>

definition snippet_first_run ::
  "(Pipeline \<Rightarrow> Reconciler \<Rightarrow> (string + PipelineTask list) \<times> Reconciler) \<Rightarrow> PipelineTask \<Rightarrow> Pipeline \<Rightarrow> Reconciler
   \<Rightarrow> ((string option \<times> Pipeline) \<times> Reconciler) option" where
  "snippet_first_run merge task sp r =
     (if p_Status sp \<noteq> PipelineStatusAnalyzed then Some ((None, sp), r)
      else (case copyParentPipelineRunInfo sp r of
        None \<Rightarrow> None
      | Some ((Some e, sp), r) \<Rightarrow> Some ((Some e, sp), r)
      | Some ((None, sp), r) \<Rightarrow>
          let sp = sp\<lparr>p_TimeBegin := Some (rc_now r)\<rparr>
          in Some (case UpdatePipelineBase (p_ID sp) sp r of
            (Some e, r) \<Rightarrow> ((Some e, sp), r)
          | (None, r) \<Rightarrow>
          (case merge sp r of
            (Inl e, r) \<Rightarrow> ((Some e, sp), r)
          | (Inr tasks, r) \<Rightarrow>
          (case UpdatePipelineTaskSnippetDetail (task_ID task)
                  \<lparr>spd_Outputs = [], spd_DirectSnippetTasksNum = int (length tasks), spd_RecursiveSnippetTasksNum = - 1\<rparr> r of
            (Some e, r) \<Rightarrow> ((Some e, sp), r)
          | (None, r) \<Rightarrow>
          (case UpdatePipelineTaskStatus (task_ID task) PipelineStatusRunning r of
            (e, r) \<Rightarrow> ((e, sp), r)))))))"

text \<open>
  The deferred calls come last: the latest task is read before the end of the nested pipeline
  is written to its row. An error of \<open>updateStatusAfterReconcile\<close> is only logged.
\<close>

definition reconcileSnippetTask ::
  "(float64 \<Rightarrow> int) \<Rightarrow> (duration \<Rightarrow> Reconciler \<Rightarrow> Reconciler) \<Rightarrow> pipelineSvcFunc
   \<Rightarrow> (Pipeline \<Rightarrow> Reconciler \<Rightarrow> (string + PipelineTask list) \<times> Reconciler)
   \<Rightarrow> (nat \<Rightarrow> Reconciler \<Rightarrow> string option \<times> Reconciler)
   \<Rightarrow> PipelineTask \<Rightarrow> Pipeline \<Rightarrow> Reconciler \<Rightarrow> ((string + PipelineTask) \<times> Reconciler) option" where
  "reconcileSnippetTask oor pause svc merge reconcile task p r =
     (case snippet_pipeline_of pause svc task p r of
        (Inl e, task, r) \<Rightarrow> Some (Inl e, r)
      | (Inr sp, task, r) \<Rightarrow>
     (case snippet_first_run merge task sp r of
        None \<Rightarrow> None
      | Some ((Some e, sp), r) \<Rightarrow> Some (Inl e, r)
      | Some ((None, sp), r) \<Rightarrow>
     (case updateStatusBeforeReconcile sp r of
        (Some e, r) \<Rightarrow> Some (Inl e, r)
      | (None, r) \<Rightarrow>
          let (err, r) = reconcile (p_ID sp) r;
              (res, r) = (case err of
                            Some e \<Rightarrow> (Inl e, r)
                          | None \<Rightarrow> rc_GetPipelineTask (task_ID task) r);
              r = teardownCurrentReconcile oor pause (p_ID sp) r
          in map_option (\<lambda>(_, r). (res, r)) (updateStatusAfterReconcile (p_ID sp) r))))"

section \<open>What its end leaves in the parentTask's task\<close>

definition fulfilled_task :: "PipelineOutputWithValue list \<Rightarrow> PipelineStatus \<Rightarrow> PipelineTask \<Rightarrow> PipelineTask" where
  "fulfilled_task ovs st parentTask = parentTask\<lparr>
     task_SnippetPipelineDetail := Some ((case task_SnippetPipelineDetail parentTask of
         None \<Rightarrow> \<lparr>spd_Outputs = [], spd_DirectSnippetTasksNum = - 1, spd_RecursiveSnippetTasksNum = - 1\<rparr>
       | Some d \<Rightarrow> d)\<lparr>spd_Outputs := ovs\<rparr>),
     task_Result := tr_Metadata_update (\<lambda>ms. ms @ output_fields ovs) (task_Result parentTask),
     task_Status := st\<rparr>"

lemma rc_update_task_healthy:
  "rc_faults r = [] \<Longrightarrow> map_of (rc_tasks r) tid = Some t \<Longrightarrow>
   rc_update_task tid f r = (None, r\<lparr>rc_tasks := AList.update tid (f t) (rc_tasks r)\<rparr>)"
  by (simp add: rc_update_task_def)

lemma fulfillParentSnippetTask_healthy:
  assumes "rc_faults r = []" and "map_of (rc_pipelines r) (p_ID p) = Some row" "p_ID row = p_ID p"
    and "p_IsSnippet p" "p_ParentTaskID p = Some tid" "p_ParentTaskID row = Some tid"
    and "map_of (rc_tasks r) tid = Some parentTask"
  shows "\<exists>r'. fulfillParentSnippetTask p r = Some (None, r') \<and> rc_faults r' = [] \<and> rc_now r' = rc_now r \<and>
    rc_teardownPipelines r' = rc_teardownPipelines r \<and>
    map_of (rc_tasks r') = (map_of (rc_tasks r))(tid \<mapsto>
      fulfilled_task (calculate_outputs (p_DefinedOutputs row) (tasks_of (p_ID p) r))
        (CalculatePipelineStatusV2 (tasks_of (p_ID p) r)) parentTask) \<and>
    map_of (rc_pipelines r') (p_ID p) = Some (row\<lparr>p_Snapshot := (p_Snapshot row)\<lparr>sn_OutputValues :=
      calculate_outputs (p_DefinedOutputs row) (tasks_of (p_ID p) r)\<rparr>\<rparr>)"
proof -
  define ovs where "ovs = calculate_outputs (p_DefinedOutputs row) (tasks_of (p_ID p) r)"
  let ?st = "CalculatePipelineStatusV2 (tasks_of (p_ID p) r)"
  let ?row = "row\<lparr>p_Snapshot := (p_Snapshot row)\<lparr>sn_OutputValues := ovs\<rparr>\<rparr>"
  define r1 where "r1 = snd (UpdatePipelineExtraSnapshot (p_ID row) ?row r)"
  have r1: "rc_faults r1 = []" "map_of (rc_tasks r1) tid = Some parentTask" "rc_tasks r1 = rc_tasks r" "rc_now r1 = rc_now r"
    "rc_teardownPipelines r1 = rc_teardownPipelines r" "map_of (rc_pipelines r1) (p_ID p) = Some ?row"
    using assms by (simp_all add: r1_def UpdatePipelineExtraSnapshot_def)
  have g: "GetPipelineWithTasks (p_ID p) r = (Inr \<lparr>pwt_Pipeline = row, pwt_Tasks = tasks_of (p_ID p) r\<rparr>, r)"
    by (rule GetPipelineWithTasks_healthy [OF assms(1,2)])
  have c: "calculateAndUpdatePipelineOutputValues row (tasks_of (p_ID p) r) r = (ovs, ?row, r1)"
    by (simp add: calculateAndUpdatePipelineOutputValues_def Let_def ovs_def r1_def)
  have "fulfillParentSnippetTask p r = Some (None,
      r1\<lparr>rc_tasks := AList.update tid (fulfilled_task ovs ?st parentTask) (rc_tasks r1)\<rparr>)"
    using assms(4-6) g c r1(1,2)
    by (simp add: fulfillParentSnippetTask_def handleParentSnippetTaskOutputs_def rc_GetPipelineTask_def
        UpdatePipelineTaskSnippetDetail_def rc_UpdatePipelineTaskResult_def UpdatePipelineTaskStatus_def
        rc_update_task_healthy update_conv' fulfilled_task_def Let_def)
  with r1 show ?thesis unfolding ovs_def by (auto simp: update_conv')
qed

lemma teardown_tasks_rows:
  "rc_tasks a = rc_tasks b \<Longrightarrow> rc_faults a = [] \<Longrightarrow> rc_faults b = [] \<Longrightarrow>
   rc_tasks (teardown_tasks ts a) = rc_tasks (teardown_tasks ts b)"
proof (induction ts arbitrary: a b)
  case (Cons t ts)
  let ?u = "UpdatePipelineTaskStatus (task_ID t) PipelineStatusNoNeedBySystem"
  have "rc_tasks (snd (?u a)) = rc_tasks (snd (?u b))" "rc_faults (snd (?u a)) = []" "rc_faults (snd (?u b)) = []"
    using Cons.prems by (auto simp: UpdatePipelineTaskStatus_def rc_update_task_def split: option.splits)
  then show ?case using Cons.IH [of "snd (?u a)" "snd (?u b)"] Cons.IH [OF Cons.prems] by simp
qed simp

text \<open>
  C12: when a nested pipeline has ended, its parent task has its status and its outputs: the
  status is calculated from the tasks, those that had not begun being marked first, the outputs
  are appended to the metadata of the task's result and recorded in its details, no other task
  of another pipeline changes. But the outputs stored with the nested pipeline itself do not
  last: the last update of the teardown writes all columns as they were read before.\<close>

theorem nested_pipeline_fulfills_parent:
  assumes "rc_faults r = []" and "map_of (rc_pipelines r) pid = Some p" "p_ID p = pid" and "rc_ok r"
    and "p_IsSnippet p" "p_ParentTaskID p = Some tid"
    and "map_of (rc_tasks r) tid = Some parentTask" "task_PipelineID parentTask \<noteq> pid"
    and "pid \<notin> set (rc_teardownPipelines r)" and "IsEndStatus (next_status pid p r)"
  defines "tasks \<equiv> tasks_of pid (teardown_tasks (tasks_of pid r) r)"
  shows "\<exists>r'. updateStatusAfterReconcile pid r = Some (None, r') \<and>
    map_of (rc_tasks r') tid = Some (fulfilled_task (calculate_outputs (p_DefinedOutputs p) tasks)
      (CalculatePipelineStatusV2 tasks) parentTask) \<and>
    (\<forall>i t. i \<noteq> tid \<and> map_of (rc_tasks r) i = Some t \<and> task_PipelineID t \<noteq> pid \<longrightarrow> map_of (rc_tasks r') i = Some t) \<and>
    map_of (rc_pipelines r') pid = Some (closed_row (rc_now r) (p\<lparr>p_Status := next_status pid p r\<rparr>))"
proof -
  define p' where "p' = p\<lparr>p_Status := next_status pid p r\<rparr>"
  obtain r1 where u: "updateStatusAfterReconcile pid r =
       map_option (Pair None) (teardownPipeline \<lparr>pwt_Pipeline = p', pwt_Tasks = tasks_of pid r\<rparr> r1)"
    and r1: "rc_faults r1 = []" "rc_tasks r1 = rc_tasks r" "rc_now r1 = rc_now r"
      "rc_teardownPipelines r1 = rc_teardownPipelines r" "map_of (rc_pipelines r1) pid = Some p'"
    using updateStatusAfterReconcile_healthy [OF assms(1-3)] unfolding p'_def by blast
  have p': "p_ID p' = pid" "p_IsSnippet p'" "p_ParentTaskID p' = Some tid" "IsEndStatus (p_Status p')"
    using assms(3,5,6,10) by (simp_all add: p'_def)
  have ok: "rc_ok r1" and t1: "tasks_of pid r1 = tasks_of pid r" using assms(4) r1(2) by (simp_all add: rc_ok_def tasks_of_def)
  obtain rows where rows: "teardown_tasks (tasks_of pid r1) (r1\<lparr>rc_teardownPipelines := pid # rc_teardownPipelines r1\<rparr>) =
      r1\<lparr>rc_teardownPipelines := pid # rc_teardownPipelines r1, rc_tasks := rows\<rparr>"
    "\<And>r'. rc_tasks r' = rows \<Longrightarrow> settled pid r1 r'"
    using marked_tasks_healthy [OF r1(1) ok] by metis
  let ?r2 = "r1\<lparr>rc_teardownPipelines := pid # rc_teardownPipelines r1, rc_tasks := rows\<rparr>"
  have settled: "map_of rows i = Some t" if "map_of (rc_tasks r) i = Some t" "task_PipelineID t \<noteq> pid" for i t
    using rows(2) [of ?r2] that r1(2) by (simp add: settled_def)
  obtain r3 where f: "fulfillParentSnippetTask p' ?r2 = Some (None, r3)" "rc_faults r3 = []" "rc_now r3 = rc_now r1"
    "map_of (rc_tasks r3) = (map_of rows)(tid \<mapsto> fulfilled_task (calculate_outputs (p_DefinedOutputs p') (tasks_of pid ?r2))
        (CalculatePipelineStatusV2 (tasks_of pid ?r2)) parentTask)"
    "map_of (rc_pipelines r3) pid = Some (p'\<lparr>p_Snapshot := (p_Snapshot p')\<lparr>sn_OutputValues :=
      calculate_outputs (p_DefinedOutputs p') (tasks_of pid ?r2)\<rparr>\<rparr>)"
    using fulfillParentSnippetTask_healthy [of ?r2 p' p' tid parentTask] r1 p' settled [OF assms(7,8)] by auto
  have "rows = rc_tasks (teardown_tasks (tasks_of pid r1) (r1\<lparr>rc_teardownPipelines := pid # rc_teardownPipelines r1\<rparr>))"
    using rows(1) by simp
  also have "\<dots> = rc_tasks (teardown_tasks (tasks_of pid r) r)"
    unfolding t1 by (rule teardown_tasks_rows) (use r1 assms(1) in simp_all)
  finally have "tasks_of pid ?r2 = tasks" by (simp add: tasks_def tasks_of_def)
  moreover obtain row3 where row3: "map_of (rc_pipelines r3) pid = Some row3" "p_ID row3 = pid"
      "p_TimeCreated row3 = p_TimeCreated p'"
    using f(5) p'(1) by simp
  moreover have "\<exists>r'. teardownPipeline \<lparr>pwt_Pipeline = p', pwt_Tasks = tasks_of pid r1\<rparr> r1 = Some r' \<and>
      rc_tasks r' = rc_tasks r3 \<and> rc_teardownPipelines r' = rc_teardownPipelines r3 \<and>
      map_of (rc_pipelines r') (p_ID p') = Some (closed_row (rc_now r3) p')"
    by (rule teardownPipeline_closes [OF p'(4) _ _ f(2), where row = row3])
       (use f(1) row3 rows(1) p' r1(4) assms(9) in simp_all)
  ultimately show ?thesis using u f r1(3) t1 p'(1) settled by (auto simp: p'_def)
qed

section \<open>An example\<close>

definition nested_pipeline :: Pipeline where
  "nested_pipeline = sample_pipeline\<lparr>p_ID := 2, p_IsSnippet := True, p_ParentPipelineID := Some 1,
     p_ParentTaskID := Some 1, p_SnippetChain := [1],
     p_DefinedOutputs := [\<lparr>po_Name = ''image'', po_Desc = '''', po_Ref = ''${make:OUTPUT:tag}''\<rparr>]\<rparr>"

definition parent_task :: PipelineTask where
  "parent_task = (example_task ''build'' PipelineStatusRunning [])\<lparr>task_IsSnippet := True, task_SnippetPipelineID := Some 2\<rparr>"

definition nested_task :: PipelineTask where
  "nested_task = (example_task ''make'' PipelineStatusSuccess [])\<lparr>task_ID := 2, task_PipelineID := 2,
     task_Result := empty_PipelineTaskResult\<lparr>tr_Metadata :=
       [\<lparr>mf_Name = ''tag'', mf_Value = ''app:1'', mf_Type = '''', mf_Labels = []\<rparr>]\<rparr>\<rparr>"

definition nested_reconciler :: Reconciler where
  "nested_reconciler = (example_reconciler [parent_task, nested_task])\<lparr>
     rc_pipelines := [(1, sample_pipeline), (2, nested_pipeline)]\<rparr>"

theorem nested_pipeline_fulfills_parent_witness:
  "\<exists>r' t p. updateStatusAfterReconcile 2 nested_reconciler = Some (None, r') \<and>
     map_of (rc_tasks r') 1 = Some t \<and> task_Status t = PipelineStatusSuccess \<and>
     map mf_Value (tr_Metadata (task_Result t)) = [''app:1''] \<and>
     map_of (rc_pipelines r') 2 = Some p \<and> sn_OutputValues (p_Snapshot p) = []"
proof -
  let ?r = nested_reconciler
  note [simp] = nested_reconciler_def example_reconciler_def parent_task_def nested_task_def example_task_def
    nested_pipeline_def sample_pipeline_def tasks_of_def next_status_def status_defs
  have st: "CalculatePipelineStatusV2 [nested_task] = PipelineStatusSuccess"
    by code_simp
  have ts: "tasks_of 2 ?r = [nested_task]" "teardown_tasks (tasks_of 2 ?r) ?r = ?r" by simp_all
  have out: "calculate_outputs (p_DefinedOutputs nested_pipeline) [nested_task] =
      [\<lparr>ov_PipelineOutput = \<lparr>po_Name = ''image'', po_Desc = '''', po_Ref = ''${make:OUTPUT:tag}''\<rparr>, ov_Value = AnyString ''app:1''\<rparr>]"
    by code_simp
  have n: "next_status 2 nested_pipeline ?r = PipelineStatusSuccess" using st ts(1) by simp
  have "\<exists>r'. updateStatusAfterReconcile 2 ?r = Some (None, r') \<and>
    map_of (rc_tasks r') 1 = Some (fulfilled_task (calculate_outputs (p_DefinedOutputs nested_pipeline)
        (tasks_of 2 (teardown_tasks (tasks_of 2 ?r) ?r)))
      (CalculatePipelineStatusV2 (tasks_of 2 (teardown_tasks (tasks_of 2 ?r) ?r))) parent_task) \<and>
    (\<forall>i t. i \<noteq> 1 \<and> map_of (rc_tasks ?r) i = Some t \<and> task_PipelineID t \<noteq> 2 \<longrightarrow> map_of (rc_tasks r') i = Some t) \<and>
    map_of (rc_pipelines r') 2 = Some (closed_row (rc_now ?r) (nested_pipeline\<lparr>p_Status := next_status 2 nested_pipeline ?r\<rparr>))"
  proof (rule nested_pipeline_fulfills_parent)
    show "rc_ok ?r" by (simp add: rc_ok_def)
    show "IsEndStatus (next_status 2 nested_pipeline ?r)" unfolding n by simp
  qed simp_all
  then obtain r' where r': "updateStatusAfterReconcile 2 ?r = Some (None, r')"
    "map_of (rc_tasks r') 1 = Some (fulfilled_task (calculate_outputs (p_DefinedOutputs nested_pipeline) [nested_task])
       PipelineStatusSuccess parent_task)"
    "map_of (rc_pipelines r') 2 = Some (closed_row (rc_now ?r) (nested_pipeline\<lparr>p_Status := PipelineStatusSuccess\<rparr>))"
    unfolding ts(2) unfolding ts(1) st n by blast
  show ?thesis
    by (intro exI conjI, rule r'(1), rule r'(2), simp add: fulfilled_task_def,
        simp only: out, simp add: fulfilled_task_def output_fields_def strutil_String_def empty_PipelineTaskResult_def,
        rule r'(3), simp add: closed_row_def empty_Snapshot_def)
qed

end
