(* ===== verification/Pipeline_Yml.thy ===== *)
theory Pipeline_Yml
  imports Strutil Task_Op
begin

text \<open>
  The structure of a pipeline file and the visitors that complete and check it
  (\<^verbatim>\<open>src/pkg/parser/pipelineyml\<close>). A map of a file is an association list in the order in which
  the program happens to range over it. Reading and writing YAML and JSON is the business of
  libraries; the text they produce is an argument.
\<close>

section \<open>Values, actions, files\<close>

text \<open>
  A value of a parameter: nil, a string, another scalar with the text \<open>fmt\<close> gives it, a
  struct (a time stamp), a map with arbitrary keys, a map with string keys, a list.
\<close>

datatype yaml_value =
    YNil | YString string | YScalar string | YStruct string | YMap "(yaml_value \<times> yaml_value) list"
  | YObject "(string \<times> yaml_value) list" | YList "yaml_value list"

text \<open>The verb \<open>%v\<close> on a value and \<open>json.Marshal\<close>.\<close>

record yml_lib =
  yl_Sprint :: "yaml_value \<Rightarrow> string"
  yl_Marshal :: "yaml_value \<Rightarrow> string + string"

record Resources =
  rs_CPU :: rat
  rs_MaxCPU :: rat
  rs_Mem :: int
  rs_Disk :: int
  rs_Network :: "(string \<times> string) list"

record SnippetConfig =
  sc_Source :: string
  sc_Name :: string
  sc_Labels :: "(string \<times> string) list"

record ActionCache =
  ca_Key :: string
  ca_Path :: string

record Action =
  ac_Alias :: string
  ac_Description :: string
  ac_Version :: string
  ac_Params :: "(string \<times> yaml_value) list"
  ac_Labels :: "(string \<times> string) list"
  ac_Workspace :: string
  ac_Image :: string
  ac_Commands :: "string list"
  ac_Loop :: "PipelineTaskLoop option"
  ac_Timeout :: int
  ac_Resources :: Resources
  ac_Type :: string
  ac_Caches :: "ActionCache list"
  ac_SnippetConfig :: "SnippetConfig option"
  ac_If :: string
  ac_Needs :: "string list"
  ac_NeedNamespaces :: "string list"
  ac_Namespaces :: "string list"

definition empty_Action :: Action where
  "empty_Action =
     \<lparr>ac_Alias = [], ac_Description = [], ac_Version = [], ac_Params = [], ac_Labels = [], ac_Workspace = [],
      ac_Image = [], ac_Commands = [], ac_Loop = None, ac_Timeout = 0,
      ac_Resources = \<lparr>rs_CPU = 0, rs_MaxCPU = 0, rs_Mem = 0, rs_Disk = 0, rs_Network = []\<rparr>,
      ac_Type = [], ac_Caches = [], ac_SnippetConfig = None, ac_If = [], ac_Needs = [], ac_NeedNamespaces = [],
      ac_Namespaces = []\<rparr>"

text \<open>A nil action stands for a type without a body, as in \<open>- git:\<close>.\<close>

type_synonym typedActionMap = "(string \<times> Action option) list"

record Stage =
  sg_Actions :: "typedActionMap list"

record CronCompensator =
  cc_Enable :: bool
  cc_LatestFirst :: bool
  cc_StopIfLatterExecuted :: bool

record NetworkHookInfo =
  nh_Hook :: string
  nh_Client :: string
  nh_Labels :: "(string \<times> yaml_value) list"

record StorageConfig =
  so_Context :: string

record PushTrigger =
  pt_Branches :: "string list"
  pt_Tags :: "string list"

record MergeTrigger =
  mt_Branches :: "string list"

record TriggerConfig =
  tc_Push :: "PushTrigger option"
  tc_Merge :: "MergeTrigger option"

record PipelineTrigger =
  tr_On :: string
  tr_Filter :: "(string \<times> string) list option"

record PipelineParam =
  pp_Name :: string
  pp_Required :: bool
  pp_Default :: yaml_value
  pp_Desc :: string
  pp_Type :: string

text \<open>The outputs of a file have the fields of \<^verbatim>\<open>apistructs.PipelineOutput\<close>: one record serves both.\<close>

record Spec =
  sp_Version :: string
  sp_On :: "TriggerConfig option"
  sp_Triggers :: "PipelineTrigger list"
  sp_Storage :: "StorageConfig option"
  sp_Envs :: "(string \<times> string) list option"
  sp_Cron :: string
  sp_CronCompensator :: "CronCompensator option"
  sp_Stages :: "Stage list"
  sp_Params :: "PipelineParam list"
  sp_Outputs :: "PipelineOutput list"
  sp_Lifecycle :: "NetworkHookInfo list"
  sp_errs :: "string list"
  sp_warns :: "string list"
  sp_allActions :: "(string \<times> Action \<times> nat) list"

definition empty_Spec :: Spec where
  "empty_Spec =
     \<lparr>sp_Version = [], sp_On = None, sp_Triggers = [], sp_Storage = None, sp_Envs = None, sp_Cron = [],
      sp_CronCompensator = None, sp_Stages = [], sp_Params = [], sp_Outputs = [], sp_Lifecycle = [], sp_errs = [],
      sp_warns = [], sp_allActions = []\<rparr>"

section \<open>Errors\<close>

text \<open>
  What is known about the place of an error. Indices that are missing make the construction of
  the prefix panic, which is recovered from: the prefix is what was built so far.
\<close>

datatype place = NoPlace | InStage nat | AtAction nat string | AtIndex nat nat

fun place_prefix :: "place \<Rightarrow> string" where
  "place_prefix NoPlace = []"
| "place_prefix (InStage si) = ''stageNum: '' @ FormatUint (si + 1) @ '', ''"
| "place_prefix (AtAction si name) = ''stageNum: '' @ FormatUint (si + 1) @ '', action '' @ quote_text name"
| "place_prefix (AtIndex si ai) =
     ''stageNum: '' @ FormatUint (si + 1) @ '', actionNum '' @ FormatUint (ai + 1)"

definition error_text :: "string \<Rightarrow> place \<Rightarrow> string" where
  "error_text err pl = (if place_prefix pl = [] then err else place_prefix pl @ '': '' @ err)"

definition appendError :: "string \<Rightarrow> place \<Rightarrow> Spec \<Rightarrow> Spec" where
  "appendError err pl s = s\<lparr>sp_errs := sp_errs s @ [error_text err pl]\<rparr>"

text \<open>A warning prints an index as it is.\<close>

definition warn_text :: "string \<Rightarrow> place \<Rightarrow> string" where
  "warn_text warn pl =
     (case pl of
        AtIndex si ai \<Rightarrow> ''stageNum: '' @ FormatUint (si + 1) @ '', action '' @ FormatUint ai @ '': '' @ warn
      | _ \<Rightarrow> error_text warn pl)"

definition appendWarn :: "string \<Rightarrow> place \<Rightarrow> Spec \<Rightarrow> Spec" where
  "appendWarn warn pl s = (if warn = [] then s else s\<lparr>sp_warns := sp_warns s @ [warn_text warn pl]\<rparr>)"

definition mergeErrors :: "Spec \<Rightarrow> string option" where
  "mergeErrors s = (if sp_errs s = [] then None else Some (strutil_Join (sp_errs s) [CHR 0x0A] True))"

section \<open>Parameters\<close>

definition noNullParams :: "Action \<Rightarrow> Action" where
  "noNullParams action =
     action\<lparr>ac_Params := map (\<lambda>(k, v). (k, if v = YNil then YString [] else v)) (ac_Params action)\<rparr>"

fun markInterfaceType :: "yml_lib \<Rightarrow> yaml_value \<Rightarrow> yaml_value" where
  "markInterfaceType lib (YMap kvs) =
     YObject (fold (\<lambda>(k, v). AList.update k v) (map (\<lambda>(k, v). (yl_Sprint lib k, markInterfaceType lib v)) kvs) [])"
| "markInterfaceType lib (YList vs) = YList (map (markInterfaceType lib) vs)"
| "markInterfaceType lib v = v"

definition markParamsValueType :: "yml_lib \<Rightarrow> Action \<Rightarrow> Action" where
  "markParamsValueType lib action =
     action\<lparr>ac_Params := map (\<lambda>(k, v). (k, markInterfaceType lib v)) (ac_Params action)\<rparr>"

definition flat_value :: "yml_lib \<Rightarrow> yaml_value \<Rightarrow> string + yaml_value" where
  "flat_value lib v =
     (case v of
        YNil \<Rightarrow> Inr (YString [])
      | YString s \<Rightarrow> Inr (YString s)
      | YScalar s \<Rightarrow> Inr (YString s)
      | _ \<Rightarrow> (case yl_Marshal lib (markInterfaceType lib v) of Inl e \<Rightarrow> Inl e | Inr s \<Rightarrow> Inr (YString s)))"

text \<open>The first value that cannot be encoded ends the loop; what was converted before stays.\<close>

fun flat_loop :: "yml_lib \<Rightarrow> (string \<times> yaml_value) list \<Rightarrow> string option \<times> (string \<times> yaml_value) list" where
  "flat_loop lib [] = (None, [])"
| "flat_loop lib ((k, v) # kvs) =
     (case flat_value lib v of
        Inl e \<Rightarrow> (Some e, (k, v) # kvs)
      | Inr w \<Rightarrow> (case flat_loop lib kvs of (e, rest) \<Rightarrow> (e, (k, w) # rest)))"

definition flatParams :: "yml_lib \<Rightarrow> Action \<Rightarrow> string option \<times> Action" where
  "flatParams lib action =
     (case flat_loop lib (ac_Params action) of (e, ps) \<Rightarrow> (e, action\<lparr>ac_Params := ps\<rparr>))"

section \<open>Stages\<close>

text \<open>
  While the stages are visited: the namespaces and the actions of the stages before, those of this
  stage, and the file with its errors. \<open>iter\<close> gives the order in which \<open>toList\<close> and
  \<open>toListStr\<close> happen to list a map for the action of a name in a stage.
\<close>

type_synonym iteration = "nat \<Rightarrow> string \<Rightarrow> string list \<Rightarrow> string list"

record stage_walk =
  sw_availableNamespaces :: "string list"
  sw_availableActions :: "string list"
  sw_stageNamespaces :: "string list"
  sw_stageActions :: "string list"
  sw_spec :: Spec

definition add_error :: "string \<Rightarrow> place \<Rightarrow> stage_walk \<Rightarrow> stage_walk" where
  "add_error err pl w = w\<lparr>sw_spec := appendError err pl (sw_spec w)\<rparr>"

definition aliasRegex :: "string \<Rightarrow> bool" where
  "aliasRegex s \<longleftrightarrow> CHR 0x5C \<notin> set s"

definition check_alias :: "nat \<Rightarrow> string \<Rightarrow> stage_walk \<Rightarrow> stage_walk" where
  "check_alias si name w =
     (let w = (if map_of (sp_allActions (sw_spec w)) name \<noteq> None
               then add_error (''action name '' @ quote_text name @ '' is duplicated'') (AtAction si name) w else w)
      in if \<not> aliasRegex name
         then add_error (''invalid action alias name: '' @ name @ '', regex: ^[^'' @
                replicate 2 (CHR 0x5C) @ '']*$'') NoPlace w
         else w)"

definition complete_params :: "yml_lib \<Rightarrow> bool \<Rightarrow> nat \<Rightarrow> Action \<Rightarrow> stage_walk \<Rightarrow> Action \<times> stage_walk" where
  "complete_params lib flat si action w =
     (let action = markParamsValueType lib (noNullParams action)
      in if flat
         then (case flatParams lib action of
                 (None, action) \<Rightarrow> (action, w)
               | (Some e, action) \<Rightarrow> (action, add_error e (AtAction si (ac_Alias action)) w))
         else (action, w))"

definition insert_all :: "string list \<Rightarrow> string list \<Rightarrow> string list" where
  "insert_all xs ys = ys @ filter (\<lambda>x. x \<notin> set ys) (remdups xs)"

definition check_namespaces :: "nat \<Rightarrow> Action \<Rightarrow> stage_walk \<Rightarrow> stage_walk" where
  "check_namespaces si action w =
     fold (\<lambda>ns w. if ns \<in> set (sw_availableNamespaces w)
                  then add_error (''action namespaces '' @ quote_text ns @ '' is duplicated'')
                         (AtAction si (ac_Alias action)) w
                  else w) (ac_Namespaces action) w"

definition visit_action ::
  "yml_lib \<Rightarrow> bool \<Rightarrow> iteration \<Rightarrow> nat \<Rightarrow> string \<times> Action option \<Rightarrow> stage_walk
   \<Rightarrow> (string \<times> Action option) \<times> stage_walk" where
  "visit_action lib flat iter si entry w =
     (let actionType = fst entry;
          action = (case snd entry of None \<Rightarrow> empty_Action | Some a \<Rightarrow> a);
          action = (if ac_Alias action = [] then action\<lparr>ac_Alias := actionType\<rparr> else action);
          w = check_alias si (ac_Alias action) w;
          action = action\<lparr>ac_Type := actionType\<rparr>;
          (action, w) = complete_params lib flat si action w;
          action = (if ac_Needs action = [] then action\<lparr>ac_Needs := iter si (ac_Alias action) (sw_availableActions w)\<rparr> else action);
          action = (if ac_NeedNamespaces action = []
                    then action\<lparr>ac_NeedNamespaces := iter si (ac_Alias action) (sw_availableNamespaces w)\<rparr> else action);
          action = action\<lparr>ac_Namespaces := DedupSlice (ac_Namespaces action @ [ac_Alias action]) False\<rparr>;
          w = check_namespaces si action w;
          w = w\<lparr>sw_stageNamespaces := insert_all (ac_Namespaces action) (sw_stageNamespaces w),
                sw_stageActions := insert_all [ac_Alias action] (sw_stageActions w),
                sw_spec := (sw_spec w)\<lparr>sp_allActions :=
                   AList.update (ac_Alias action) (action, si) (sp_allActions (sw_spec w))\<rparr>\<rparr>
      in ((actionType, Some action), w))"

fun visit_entries ::
  "yml_lib \<Rightarrow> bool \<Rightarrow> iteration \<Rightarrow> nat \<Rightarrow> typedActionMap \<Rightarrow> stage_walk
   \<Rightarrow> typedActionMap \<times> stage_walk" where
  "visit_entries lib flat iter si [] w = ([], w)"
| "visit_entries lib flat iter si (e # es) w =
     (case visit_action lib flat iter si e w of
        (e', w) \<Rightarrow> (case visit_entries lib flat iter si es w of (es', w) \<Rightarrow> (e' # es', w)))"

definition check_size :: "nat \<Rightarrow> nat \<Rightarrow> typedActionMap \<Rightarrow> stage_walk \<Rightarrow> stage_walk" where
  "check_size si ai m w =
     (let w = (if length m = 0 then add_error ''empty!'' (AtIndex si ai) w else w)
      in if length m > 1
         then add_error (''indent is incorrect! nearby: '' @ strutil_Join (map fst m) '', '' True) (AtIndex si ai) w
         else w)"

fun visit_maps ::
  "yml_lib \<Rightarrow> bool \<Rightarrow> iteration \<Rightarrow> nat \<Rightarrow> nat \<Rightarrow> typedActionMap list \<Rightarrow> stage_walk
   \<Rightarrow> typedActionMap list \<times> stage_walk" where
  "visit_maps lib flat iter si ai [] w = ([], w)"
| "visit_maps lib flat iter si ai (m # ms) w =
     (case visit_entries lib flat iter si m (check_size si ai m w) of
        (m', w) \<Rightarrow> (case visit_maps lib flat iter si (Suc ai) ms w of (ms', w) \<Rightarrow> (m' # ms', w)))"

definition visit_stage ::
  "yml_lib \<Rightarrow> bool \<Rightarrow> iteration \<Rightarrow> nat \<Rightarrow> Stage \<Rightarrow> stage_walk \<Rightarrow> Stage \<times> stage_walk" where
  "visit_stage lib flat iter si stage w =
     (let w = (if length (sg_Actions stage) = 0 then add_error ''doesn't have any actions'' (InStage si) w else w);
          w = w\<lparr>sw_stageNamespaces := [], sw_stageActions := []\<rparr>;
          (ms, w) = visit_maps lib flat iter si 0 (sg_Actions stage) w
      in (stage\<lparr>sg_Actions := ms\<rparr>,
          w\<lparr>sw_availableNamespaces := insert_all (sw_stageNamespaces w) (sw_availableNamespaces w),
            sw_availableActions := insert_all (sw_stageActions w) (sw_availableActions w)\<rparr>))"

fun visit_stages ::
  "yml_lib \<Rightarrow> bool \<Rightarrow> iteration \<Rightarrow> nat \<Rightarrow> Stage list \<Rightarrow> stage_walk \<Rightarrow> Stage list \<times> stage_walk" where
  "visit_stages lib flat iter si [] w = ([], w)"
| "visit_stages lib flat iter si (stage # stages) w =
     (case visit_stage lib flat iter si stage w of
        (stage', w) \<Rightarrow> (case visit_stages lib flat iter (Suc si) stages w of (ss, w) \<Rightarrow> (stage' # ss, w)))"

definition StageVisitor_Visit :: "yml_lib \<Rightarrow> bool \<Rightarrow> iteration \<Rightarrow> Spec \<Rightarrow> Spec" where
  "StageVisitor_Visit lib flat iter s =
     (if sp_Stages s = [] then s
      else case visit_stages lib flat iter 0 (sp_Stages s)
                  \<lparr>sw_availableNamespaces = [], sw_availableActions = [], sw_stageNamespaces = [],
                   sw_stageActions = [], sw_spec = s\<lparr>sp_allActions := []\<rparr>\<rparr> of
             (stages, w) \<Rightarrow> (sw_spec w)\<lparr>sp_Stages := stages\<rparr>)"

text \<open>The actions with the index of their stage, in the order of \<open>LoopStagesActions\<close>; a nil action is \<open>None\<close>.\<close>

definition LoopStagesActions :: "Spec \<Rightarrow> (nat \<times> Action option) list" where
  "LoopStagesActions s =
     concat (map (\<lambda>(si, stage). map (\<lambda>e. (si, snd e)) (concat (sg_Actions stage))) (List.enumerate 0 (sp_Stages s)))"

section \<open>Other checks\<close>

definition VersionVisitor_Visit :: "Spec \<Rightarrow> Spec" where
  "VersionVisitor_Visit s =
     (if sp_Version s = [] then appendError ''no version'' NoPlace s
      else if sp_Version s = ''1.1'' then s
      else appendError (''invalid version: '' @ sp_Version s @ '', only support 1.1'') NoPlace s)"

definition TimeoutDuration4Forever :: int where
  "TimeoutDuration4Forever = - 1"

definition check_timeout :: "nat \<times> Action option \<Rightarrow> Spec \<Rightarrow> Spec option" where
  "check_timeout x s =
     (case x of
        (si, None) \<Rightarrow> None
      | (si, Some action) \<Rightarrow>
          Some (if ac_Timeout action < TimeoutDuration4Forever
                then appendError (''invalid timeout: '' @ Itoa (ac_Timeout action) @ '' (only -1 means forever)'')
                       (AtAction si (ac_Alias action)) s
                else s))"

text \<open>\<open>None\<close>: a nil action is dereferenced.\<close>

fun timeout_loop :: "(nat \<times> Action option) list \<Rightarrow> Spec \<Rightarrow> Spec option" where
  "timeout_loop [] s = Some s"
| "timeout_loop (x # xs) s = (case check_timeout x s of None \<Rightarrow> None | Some s \<Rightarrow> timeout_loop xs s)"

definition TimeoutVisitor_Visit :: "Spec \<Rightarrow> Spec option" where
  "TimeoutVisitor_Visit s = timeout_loop (LoopStagesActions s) s"

definition envKeyRegexp :: "string \<Rightarrow> bool" where
  "envKeyRegexp k \<longleftrightarrow>
     (case k of
        [] \<Rightarrow> False
      | c # cs \<Rightarrow> (is_letter c \<or> c = CHR ''_'') \<and> list_all (\<lambda>c. is_alnum c \<or> c = CHR ''_'') cs)"

definition CheckEnvs :: "(string \<times> string) list \<Rightarrow> string list" where
  "CheckEnvs envs =
     map (\<lambda>(k, v). ''invalid env key: '' @ k @ '' (must match: ^[a-zA-Z_][a-zA-Z0-9_]*$)'')
       (filter (\<lambda>(k, v). \<not> envKeyRegexp k) envs)"

definition EnvVisitor_Visit :: "(string \<times> string) list \<Rightarrow> Spec \<Rightarrow> Spec" where
  "EnvVisitor_Visit envs s =
     (let es = fold (\<lambda>(k, v). AList.update k v) envs (case sp_Envs s of None \<Rightarrow> [] | Some es \<Rightarrow> es)
      in fold (\<lambda>e. appendError e NoPlace) (CheckEnvs es) (s\<lparr>sp_Envs := Some es\<rparr>))"

definition GetAction :: "Spec \<Rightarrow> string \<Rightarrow> string + Action" where
  "GetAction s alias =
     (case map_of (sp_allActions s) alias of
        None \<Rightarrow> Inl (''not found, alias: '' @ alias)
      | Some (action, _) \<Rightarrow> Inr action)"

definition ListAction :: "Spec \<Rightarrow> (string \<times> Action) list" where
  "ListAction s = map (\<lambda>(alias, action, _). (alias, action)) (sp_allActions s)"

definition IsCustom :: "string \<Rightarrow> bool" where
  "IsCustom t \<longleftrightarrow> t = ''custom-script''"

definition IsSnippet :: "string \<Rightarrow> bool" where
  "IsSnippet t \<longleftrightarrow> t = ''snippet''"

definition GetActionTypeVersion :: "Action \<Rightarrow> string" where
  "GetActionTypeVersion action =
     (if ac_Version action \<noteq> [] then ac_Type action @ ''@'' @ ac_Version action else ac_Type action)"

section \<open>What a visit of the stages does\<close>

subsection \<open>The file as it is written\<close>

text \<open>The name an entry gets, the namespaces it claims, and whether its parameters can be converted.\<close>

definition entry_action :: "string \<times> Action option \<Rightarrow> Action" where
  "entry_action e = (case snd e of None \<Rightarrow> empty_Action | Some a \<Rightarrow> a)"

definition entry_alias :: "string \<times> Action option \<Rightarrow> string" where
  "entry_alias e = (if ac_Alias (entry_action e) = [] then fst e else ac_Alias (entry_action e))"

definition entry_namespaces :: "string \<times> Action option \<Rightarrow> string set" where
  "entry_namespaces e = insert (entry_alias e) (set (ac_Namespaces (entry_action e)))"

definition entry_params_ok :: "yml_lib \<Rightarrow> bool \<Rightarrow> string \<times> Action option \<Rightarrow> bool" where
  "entry_params_ok lib flat e \<longleftrightarrow>
     (flat \<longrightarrow> fst (flatParams lib (markParamsValueType lib (noNullParams (entry_action e)))) = None)"

definition entry_ok :: "yml_lib \<Rightarrow> bool \<Rightarrow> string set \<Rightarrow> string \<times> Action option \<Rightarrow> bool" where
  "entry_ok lib flat N e \<longleftrightarrow>
     aliasRegex (entry_alias e) \<and> entry_params_ok lib flat e \<and> entry_namespaces e \<inter> N = {}"

abbreviation stage_entries :: "Stage \<Rightarrow> typedActionMap" where
  "stage_entries stage \<equiv> concat (sg_Actions stage)"

definition stage_aliases :: "Stage \<Rightarrow> string list" where
  "stage_aliases stage = map entry_alias (stage_entries stage)"

definition stage_namespaces :: "Stage \<Rightarrow> string set" where
  "stage_namespaces stage = (\<Union>e\<in>set (stage_entries stage). entry_namespaces e)"

definition stage_shape :: "Stage \<Rightarrow> bool" where
  "stage_shape stage \<longleftrightarrow> sg_Actions stage \<noteq> [] \<and> (\<forall>m\<in>set (sg_Actions stage). length m = 1)"

text \<open>
  A file whose stages are in order: no stage is empty, every item of a stage is one action, all
  actions have different names without a backslash, no action claims a namespace of an earlier
  stage, and the parameters can be converted.
\<close>

definition stages_ok :: "yml_lib \<Rightarrow> bool \<Rightarrow> Stage list \<Rightarrow> bool" where
  "stages_ok lib flat ss \<longleftrightarrow>
     distinct (concat (map stage_aliases ss)) \<and>
     (\<forall>i<length ss. stage_shape (ss ! i) \<and>
        (\<forall>e\<in>set (stage_entries (ss ! i)). entry_ok lib flat (\<Union>s\<in>set (take i ss). stage_namespaces s) e))"

subsection \<open>One action\<close>

abbreviation sw_errs :: "stage_walk \<Rightarrow> string list" where
  "sw_errs w \<equiv> sp_errs (sw_spec w)"

abbreviation sw_known :: "stage_walk \<Rightarrow> string set" where
  "sw_known w \<equiv> fst ` set (sp_allActions (sw_spec w))"

text \<open>What a step keeps: the lists of earlier stages; errors are only added.\<close>

definition walks :: "stage_walk \<Rightarrow> stage_walk \<Rightarrow> bool" where
  "walks w w' \<longleftrightarrow> prefix (sw_errs w) (sw_errs w') \<and> sp_Cron (sw_spec w') = sp_Cron (sw_spec w) \<and>
     sw_availableActions w' = sw_availableActions w \<and> sw_availableNamespaces w' = sw_availableNamespaces w"

lemma walks_refl [simp]: "walks w w"
  by (simp add: walks_def)

lemma walks_trans [trans]: "walks a b \<Longrightarrow> walks b c \<Longrightarrow> walks a c"
  by (auto simp: walks_def intro: prefix_order.trans)

lemma walks_same_errs:
  assumes "walks a b" "walks b c"
  shows "sw_errs c = sw_errs a \<longleftrightarrow> sw_errs b = sw_errs a \<and> sw_errs c = sw_errs b"
  using assms by (auto simp: walks_def intro: prefix_order.antisym)

lemma add_error_simps [simp]:
  "sw_errs (add_error e pl w) = sw_errs w @ [error_text e pl]"
  "sw_availableActions (add_error e pl w) = sw_availableActions w"
  "sw_availableNamespaces (add_error e pl w) = sw_availableNamespaces w"
  "sw_stageActions (add_error e pl w) = sw_stageActions w"
  "sw_stageNamespaces (add_error e pl w) = sw_stageNamespaces w"
  "sp_allActions (sw_spec (add_error e pl w)) = sp_allActions (sw_spec w)"
  "sp_Cron (sw_spec (add_error e pl w)) = sp_Cron (sw_spec w)"
  by (simp_all add: add_error_def appendError_def)

lemma set_insert_all [simp]: "set (insert_all xs ys) = set xs \<union> set ys"
  by (auto simp: insert_all_def)

lemma set_DedupSlice [simp]: "set (DedupSlice ss False) = set ss"
  by (simp add: DedupSlice_def set_dedup_loop)

text \<open>A check: nothing but the errors may change.\<close>

definition quiet :: "stage_walk \<Rightarrow> stage_walk \<Rightarrow> bool" where
  "quiet w w' \<longleftrightarrow> walks w w' \<and> sw_stageActions w' = sw_stageActions w \<and>
     sw_stageNamespaces w' = sw_stageNamespaces w \<and> sp_allActions (sw_spec w') = sp_allActions (sw_spec w)"

lemma quiet_refl [simp]: "quiet w w"
  by (simp add: quiet_def)

lemma quiet_add_error [simp]: "quiet w v \<Longrightarrow> quiet w (add_error e pl v)"
  by (auto simp: quiet_def walks_def)

lemma quiet_trans [trans]: "quiet a b \<Longrightarrow> quiet b c \<Longrightarrow> quiet a c"
  using walks_trans by (auto simp: quiet_def)

lemma quiet_walks: "quiet w w' \<Longrightarrow> walks w w'"
  by (simp add: quiet_def)

lemma quiet_check_alias: "quiet w (check_alias si a w)"
  by (simp add: check_alias_def Let_def)

lemma errs_check_alias:
  "sw_errs (check_alias si a w) = sw_errs w \<longleftrightarrow> a \<notin> sw_known w \<and> aliasRegex a"
  by (auto simp: check_alias_def Let_def map_of_eq_None_iff)

lemma check_namespaces_walk:
  "quiet w (check_namespaces si action w) \<and>
   (sw_errs (check_namespaces si action w) = sw_errs w \<longleftrightarrow>
      set (ac_Namespaces action) \<inter> set (sw_availableNamespaces w) = {})"
proof -
  let ?f = "\<lambda>ns w. if ns \<in> set (sw_availableNamespaces w)
     then add_error (''action namespaces '' @ quote_text ns @ '' is duplicated'') (AtAction si (ac_Alias action)) w else w"
  have "quiet w (fold ?f nss w) \<and>
      (sw_errs (fold ?f nss w) = sw_errs w \<longleftrightarrow> set nss \<inter> set (sw_availableNamespaces w) = {})" for nss
  proof (induction nss arbitrary: w)
    case (Cons ns nss)
    have q: "quiet w (?f ns w)" by simp
    note IH = Cons.IH [of "?f ns w"]
    have "sw_errs (fold ?f nss (?f ns w)) = sw_errs w \<longleftrightarrow>
        sw_errs (?f ns w) = sw_errs w \<and> sw_errs (fold ?f nss (?f ns w)) = sw_errs (?f ns w)"
      using IH q by (intro walks_same_errs) (auto dest: quiet_walks)
    then show ?case using IH q quiet_trans [OF q] by (auto simp: quiet_def walks_def)
  qed simp
  then show ?thesis by (simp add: check_namespaces_def)
qed

lemma flatParams_keeps: "\<exists>ps. snd (flatParams lib action) = action\<lparr>ac_Params := ps\<rparr>"
  by (auto simp: flatParams_def split: prod.splits)

lemma complete_params_walk:
  assumes "complete_params lib flat si action w = (action', w')"
  shows "quiet w w'"
    "sw_errs w' = sw_errs w \<longleftrightarrow>
       (flat \<longrightarrow> fst (flatParams lib (markParamsValueType lib (noNullParams action))) = None)"
    "\<exists>ps. action' = action\<lparr>ac_Params := ps\<rparr>"
  using assms flatParams_keeps [of lib "markParamsValueType lib (noNullParams action)"]
  by (auto simp: complete_params_def Let_def markParamsValueType_def noNullParams_def
      split: if_splits prod.splits option.splits)

lemma flatParams_cong:
  "ac_Params a = ac_Params b \<Longrightarrow>
     fst (flatParams lib (markParamsValueType lib (noNullParams a))) =
     fst (flatParams lib (markParamsValueType lib (noNullParams b)))"
  by (simp add: flatParams_def markParamsValueType_def noNullParams_def split: prod.splits)

text \<open>What the visitor leaves as it is in an action.\<close>

definition keeps_rest :: "Action \<Rightarrow> Action \<Rightarrow> bool" where
  "keeps_rest a b \<longleftrightarrow>
     b = a\<lparr>ac_Alias := ac_Alias b, ac_Type := ac_Type b, ac_Params := ac_Params b, ac_Needs := ac_Needs b,
           ac_NeedNamespaces := ac_NeedNamespaces b, ac_Namespaces := ac_Namespaces b\<rparr>"

lemma keeps_rest_fields: "keeps_rest a b \<Longrightarrow> ac_Timeout b = ac_Timeout a \<and> ac_Resources b = ac_Resources a"
  unfolding keeps_rest_def by (cases a; cases b) simp

definition completed :: "iteration \<Rightarrow> nat \<Rightarrow> string list \<Rightarrow> string \<times> Action option \<Rightarrow> Action \<Rightarrow> bool" where
  "completed iter si avail e a \<longleftrightarrow>
     ac_Alias a = entry_alias e \<and> ac_Type a = fst e \<and> keeps_rest (entry_action e) a \<and>
     ac_Needs a = (if ac_Needs (entry_action e) = [] then iter si (entry_alias e) avail
                   else ac_Needs (entry_action e)) \<and>
     set (ac_Namespaces a) = entry_namespaces e"

lemma visit_action_walk:
  assumes "visit_action lib flat iter si e w = (e', w')"
  shows "walks w w'"
    "\<exists>a. e' = (fst e, Some a) \<and> completed iter si (sw_availableActions w) e a"
    "set (sw_stageActions w') = insert (entry_alias e) (set (sw_stageActions w))"
    "set (sw_stageNamespaces w') = entry_namespaces e \<union> set (sw_stageNamespaces w)"
    "sw_known w' = insert (entry_alias e) (sw_known w)"
    "sw_errs w' = sw_errs w \<longleftrightarrow>
       entry_alias e \<notin> sw_known w \<and> entry_ok lib flat (set (sw_availableNamespaces w)) e"
proof -
  define a1 where "a1 = (entry_action e)\<lparr>ac_Alias := entry_alias e, ac_Type := fst e\<rparr>"
  define w1 where "w1 = check_alias si (entry_alias e) w"
  obtain a2 w2 where c: "complete_params lib flat si a1 w1 = (a2, w2)" by fastforce
  obtain ps where a2: "a2 = a1\<lparr>ac_Params := ps\<rparr>" using complete_params_walk(3) [OF c] by blast
  define a3 where "a3 = (if ac_Needs a2 = [] then a2\<lparr>ac_Needs := iter si (ac_Alias a2) (sw_availableActions w2)\<rparr> else a2)"
  define a4 where "a4 = (if ac_NeedNamespaces a3 = []
     then a3\<lparr>ac_NeedNamespaces := iter si (ac_Alias a3) (sw_availableNamespaces w2)\<rparr> else a3)"
  define a5 where "a5 = a4\<lparr>ac_Namespaces := DedupSlice (ac_Namespaces a4 @ [ac_Alias a4]) False\<rparr>"
  define w3 where "w3 = check_namespaces si a5 w2"
  have a1: "(let a = (case snd e of None \<Rightarrow> empty_Action | Some a \<Rightarrow> a);
                 a = (if ac_Alias a = [] then a\<lparr>ac_Alias := fst e\<rparr> else a) in a) = (entry_action e)\<lparr>ac_Alias := entry_alias e\<rparr>"
    by (simp add: entry_action_def entry_alias_def)
  have res: "e' = (fst e, Some a5)"
    "w' = w3\<lparr>sw_stageNamespaces := insert_all (ac_Namespaces a5) (sw_stageNamespaces w3),
                sw_stageActions := insert_all [ac_Alias a5] (sw_stageActions w3),
                sw_spec := (sw_spec w3)\<lparr>sp_allActions :=
                   AList.update (ac_Alias a5) (a5, si) (sp_allActions (sw_spec w3))\<rparr>\<rparr>"
    using assms a1 c unfolding visit_action_def a3_def a4_def a5_def w3_def w1_def a1_def
    by (simp_all add: Let_def split: prod.splits)
  have q: "quiet w w1" "quiet w1 w2" "quiet w2 w3"
    using quiet_check_alias complete_params_walk(1) [OF c] check_namespaces_walk by (auto simp: w1_def w3_def)
  have w2: "sw_availableActions w2 = sw_availableActions w" "sw_availableNamespaces w2 = sw_availableNamespaces w"
    using q by (auto simp: quiet_def walks_def)
  have a5: "ac_Alias a5 = entry_alias e" "ac_Type a5 = fst e" "keeps_rest (entry_action e) a5" "set (ac_Namespaces a5) = entry_namespaces e"
    "ac_Needs a5 = (if ac_Needs (entry_action e) = [] then iter si (entry_alias e) (sw_availableActions w)
                   else ac_Needs (entry_action e))"
    by (simp_all add: a5_def a4_def a3_def a2 a1_def w2 entry_namespaces_def keeps_rest_def)
  have q3: "quiet w w3" using q quiet_trans by blast
  then show "walks w w'" by (auto simp: res quiet_def walks_def)
  show "\<exists>a. e' = (fst e, Some a) \<and> completed iter si (sw_availableActions w) e a" using res(1) a5 by (simp add: completed_def)
  show "set (sw_stageActions w') = insert (entry_alias e) (set (sw_stageActions w))"
    "set (sw_stageNamespaces w') = entry_namespaces e \<union> set (sw_stageNamespaces w)"
    "sw_known w' = insert (entry_alias e) (sw_known w)"
    using q3 by (simp_all add: res(2) quiet_def a5 dom_update)
  have "sw_errs w1 = sw_errs w \<longleftrightarrow> entry_alias e \<notin> sw_known w \<and> aliasRegex (entry_alias e)"
    by (simp add: w1_def errs_check_alias)
  moreover have "sw_errs w2 = sw_errs w1 \<longleftrightarrow> entry_params_ok lib flat e"
    using complete_params_walk(2) [OF c] flatParams_cong [of a1 "entry_action e"]
    by (simp add: a1_def entry_params_ok_def)
  moreover have "sw_errs w3 = sw_errs w2 \<longleftrightarrow> entry_namespaces e \<inter> set (sw_availableNamespaces w) = {}"
    using check_namespaces_walk [of w2 si a5] by (simp add: w3_def a5 w2)
  moreover have "sw_errs w3 = sw_errs w \<longleftrightarrow> sw_errs w1 = sw_errs w \<and> sw_errs w2 = sw_errs w1 \<and> sw_errs w3 = sw_errs w2"
    using walks_same_errs [of w w1 w3] walks_same_errs [of w1 w2 w3] q walks_trans by (metis quiet_walks)
  moreover have "sw_errs w' = sw_errs w3" by (simp add: res)
  ultimately show "sw_errs w' = sw_errs w \<longleftrightarrow>
       entry_alias e \<notin> sw_known w \<and> entry_ok lib flat (set (sw_availableNamespaces w)) e"
    by (auto simp: entry_ok_def)
qed


subsection \<open>A stage, a file\<close>

definition entries_completed :: "iteration \<Rightarrow> nat \<Rightarrow> string list \<Rightarrow> typedActionMap \<Rightarrow> typedActionMap \<Rightarrow> bool" where
  "entries_completed iter si avail es es' \<longleftrightarrow>
     list_all2 (\<lambda>e e'. \<exists>a. e' = (fst e, Some a) \<and> completed iter si avail e a) es es'"

text \<open>
  A part of the walk that handles the entries \<open>es\<close> of one stage: what it registers, and that it
  reports an error unless \<open>P\<close> holds, the entries are in order and their names are new.
\<close>

definition visits :: "yml_lib \<Rightarrow> bool \<Rightarrow> bool \<Rightarrow> typedActionMap \<Rightarrow> stage_walk \<Rightarrow> stage_walk \<Rightarrow> bool" where
  "visits lib flat P es w w' \<longleftrightarrow> walks w w' \<and>
    set (sw_stageActions w') = entry_alias ` set es \<union> set (sw_stageActions w) \<and>
    set (sw_stageNamespaces w') = \<Union> (entry_namespaces ` set es) \<union> set (sw_stageNamespaces w) \<and>
    sw_known w' = entry_alias ` set es \<union> sw_known w \<and>
    (sw_errs w' = sw_errs w \<longleftrightarrow>
       P \<and> distinct (map entry_alias es) \<and> entry_alias ` set es \<inter> sw_known w = {} \<and>
       (\<forall>e\<in>set es. entry_ok lib flat (set (sw_availableNamespaces w)) e))"

lemma visits_walks: "visits lib flat P es w w' \<Longrightarrow> walks w w'"
  by (simp add: visits_def)

lemma visits_quiet: "quiet w w' \<Longrightarrow> visits lib flat (sw_errs w' = sw_errs w) [] w w'"
  by (simp add: visits_def quiet_def)

lemma visits_append:
  assumes a: "visits lib flat P es1 w w1" and b: "visits lib flat Q es2 w1 w2"
  shows "visits lib flat (P \<and> Q) (es1 @ es2) w w2"
proof -
  have w: "walks w w1" "walks w1 w2" using a b visits_walks by blast+
  have N: "sw_availableNamespaces w1 = sw_availableNamespaces w" using w(1) by (simp add: walks_def)
  have k: "sw_known w1 = entry_alias ` set es1 \<union> sw_known w" using a by (simp add: visits_def)
  have "sw_errs w2 = sw_errs w \<longleftrightarrow> sw_errs w1 = sw_errs w \<and> sw_errs w2 = sw_errs w1"
    using walks_same_errs [OF w] .
  also have "sw_errs w2 = sw_errs w1 \<longleftrightarrow> Q \<and> distinct (map entry_alias es2) \<and>
      entry_alias ` set es2 \<inter> (entry_alias ` set es1 \<union> sw_known w) = {} \<and>
      (\<forall>e\<in>set es2. entry_ok lib flat (set (sw_availableNamespaces w)) e)"
    using b unfolding visits_def k N by blast
  also have "sw_errs w1 = sw_errs w \<longleftrightarrow> P \<and> distinct (map entry_alias es1) \<and>
      entry_alias ` set es1 \<inter> sw_known w = {} \<and>
      (\<forall>e\<in>set es1. entry_ok lib flat (set (sw_availableNamespaces w)) e)"
    using a unfolding visits_def by blast
  finally have "sw_errs w2 = sw_errs w \<longleftrightarrow> (P \<and> Q) \<and> distinct (map entry_alias (es1 @ es2)) \<and>
      entry_alias ` set (es1 @ es2) \<inter> sw_known w = {} \<and>
      (\<forall>e\<in>set (es1 @ es2). entry_ok lib flat (set (sw_availableNamespaces w)) e)"
    by (simp add: image_Un Int_Un_distrib Int_Un_distrib2 Int_commute ball_Un) blast
  moreover have "walks w w2" using w walks_trans by blast
  ultimately show ?thesis using a b unfolding visits_def by (simp add: image_Un Un_assoc Un_left_commute)
qed

lemma visit_action_visits:
  "visit_action lib flat iter si e w = (e', w') \<Longrightarrow> visits lib flat True [e] w w'"
  using visit_action_walk [of lib flat iter si e w e' w'] by (simp add: visits_def)

lemma visit_entries_visits:
  "visit_entries lib flat iter si es w = (es', w') \<Longrightarrow>
     visits lib flat True es w w' \<and> entries_completed iter si (sw_availableActions w) es es'"
proof (induction es arbitrary: w es' w')
  case Nil
  then show ?case using visits_quiet [OF quiet_refl, of lib flat w] by (simp add: entries_completed_def)
next
  case (Cons e es)
  obtain e1 w1 where s: "visit_action lib flat iter si e w = (e1, w1)" by fastforce
  obtain es1 where r: "visit_entries lib flat iter si es w1 = (es1, w')" and es': "es' = e1 # es1"
    using Cons.prems s by (auto split: prod.splits)
  have "entries_completed iter si (sw_availableActions w) (e # es) es'"
    using Cons.IH [OF r] visit_action_walk(1,2) [OF s] by (simp add: entries_completed_def es' walks_def)
  then show ?case using visits_append [OF visit_action_visits [OF s]] Cons.IH [OF r] by fastforce
qed

lemma check_size_visits: "visits lib flat (length m = 1) [] w (check_size si ai m w)"
proof -
  have "sw_errs (check_size si ai m w) = sw_errs w \<longleftrightarrow> length m = 1"
    by (cases m) (auto simp: check_size_def Let_def)
  moreover have "quiet w (check_size si ai m w)" by (simp add: check_size_def Let_def)
  ultimately show ?thesis using visits_quiet [of w "check_size si ai m w" lib flat] by simp
qed

lemma visit_maps_visits:
  "visit_maps lib flat iter si ai ms w = (ms', w') \<Longrightarrow>
     visits lib flat (\<forall>m\<in>set ms. length m = 1) (concat ms) w w' \<and> list_all2 (entries_completed iter si (sw_availableActions w)) ms ms'"
proof (induction ms arbitrary: ai w ms' w')
  case Nil
  then show ?case using visits_quiet [OF quiet_refl, of lib flat w] by simp
next
  case (Cons m ms)
  define w0 where "w0 = check_size si ai m w"
  obtain m1 w1 where s: "visit_entries lib flat iter si m w0 = (m1, w1)" by fastforce
  obtain ms1 where r: "visit_maps lib flat iter si (Suc ai) ms w1 = (ms1, w')" and ms': "ms' = m1 # ms1"
    using Cons.prems s by (auto simp: w0_def split: prod.splits)
  have v0: "visits lib flat (length m = 1) [] w w0" unfolding w0_def by (rule check_size_visits)
  note v1 = visit_entries_visits [OF s] and IH = Cons.IH [OF r]
  have v: "visits lib flat (length m = 1) m w w1" using visits_append [OF v0 conjunct1 [OF v1]] by simp
  have "list_all2 (entries_completed iter si (sw_availableActions w)) (m # ms) ms'"
    using IH v1 visits_walks [OF v] visits_walks [OF v0] by (simp add: ms' walks_def)
  then show ?case using visits_append [OF v conjunct1 [OF IH]] by simp
qed


definition stage_completed :: "iteration \<Rightarrow> nat \<Rightarrow> string list \<Rightarrow> Stage \<Rightarrow> Stage \<Rightarrow> bool" where
  "stage_completed iter si avail st st' \<longleftrightarrow> list_all2 (entries_completed iter si avail) (sg_Actions st) (sg_Actions st')"

lemma stage_aliases_set: "set (stage_aliases st) = entry_alias ` set (stage_entries st)"
  by (simp add: stage_aliases_def)

lemma visit_stage_walk:
  assumes "visit_stage lib flat iter si st w = (st', w')"
  shows "prefix (sw_errs w) (sw_errs w') \<and> sp_Cron (sw_spec w') = sp_Cron (sw_spec w)"
    "stage_completed iter si (sw_availableActions w) st st'"
    "set (sw_availableActions w') = set (stage_aliases st) \<union> set (sw_availableActions w)"
    "set (sw_availableNamespaces w') = stage_namespaces st \<union> set (sw_availableNamespaces w)"
    "sw_known w' = set (stage_aliases st) \<union> sw_known w"
    "sw_errs w' = sw_errs w \<longleftrightarrow> stage_shape st \<and>
       distinct (stage_aliases st) \<and> set (stage_aliases st) \<inter> sw_known w = {} \<and>
       (\<forall>e\<in>set (stage_entries st). entry_ok lib flat (set (sw_availableNamespaces w)) e)"
proof -
  define w0 where "w0 = (if length (sg_Actions st) = 0 then add_error ''doesn't have any actions'' (InStage si) w else w)"
  define w1 where "w1 = w0\<lparr>sw_stageNamespaces := [], sw_stageActions := []\<rparr>"
  obtain ms w2 where m: "visit_maps lib flat iter si 0 (sg_Actions st) w1 = (ms, w2)" by fastforce
  have r: "st' = st\<lparr>sg_Actions := ms\<rparr>"
    "w' = w2\<lparr>sw_availableNamespaces := insert_all (sw_stageNamespaces w2) (sw_availableNamespaces w2),
            sw_availableActions := insert_all (sw_stageActions w2) (sw_availableActions w2)\<rparr>"
    using assms m by (simp_all add: visit_stage_def w0_def w1_def Let_def split: prod.splits)
  note v = visit_maps_visits [OF m]
  have w1: "walks w w1" "sw_stageActions w1 = []" "sw_stageNamespaces w1 = []" "sw_known w1 = sw_known w"
    "sw_errs w1 = sw_errs w \<longleftrightarrow> sg_Actions st \<noteq> []"
    by (auto simp: w0_def w1_def walks_def)
  have w2: "walks w1 w2" using v visits_walks by blast
  show "prefix (sw_errs w) (sw_errs w') \<and> sp_Cron (sw_spec w') = sp_Cron (sw_spec w)" using walks_trans [OF w1(1) w2] by (simp add: r walks_def)
  show "stage_completed iter si (sw_availableActions w) st st'"
    using v w1(1) by (simp add: stage_completed_def r walks_def)
  show "set (sw_availableActions w') = set (stage_aliases st) \<union> set (sw_availableActions w)"
    "set (sw_availableNamespaces w') = stage_namespaces st \<union> set (sw_availableNamespaces w)"
    "sw_known w' = set (stage_aliases st) \<union> sw_known w"
    using v w1 w2 by (simp_all add: r visits_def walks_def stage_aliases_set stage_namespaces_def)
  have "sw_errs w' = sw_errs w \<longleftrightarrow> sw_errs w1 = sw_errs w \<and> sw_errs w2 = sw_errs w1"
    using walks_same_errs [OF w1(1) w2] by (simp add: r)
  also have "sw_errs w2 = sw_errs w1 \<longleftrightarrow> (\<forall>m\<in>set (sg_Actions st). length m = 1) \<and>
       distinct (stage_aliases st) \<and> set (stage_aliases st) \<inter> sw_known w = {} \<and>
       (\<forall>e\<in>set (stage_entries st). entry_ok lib flat (set (sw_availableNamespaces w)) e)"
    using v w1(1,4) by (simp add: visits_def walks_def stage_aliases_def)
  finally show "sw_errs w' = sw_errs w \<longleftrightarrow> stage_shape st \<and>
       distinct (stage_aliases st) \<and> set (stage_aliases st) \<inter> sw_known w = {} \<and>
       (\<forall>e\<in>set (stage_entries st). entry_ok lib flat (set (sw_availableNamespaces w)) e)"
    by (simp add: w1(5) stage_shape_def)
qed

abbreviation earlier_aliases :: "nat \<Rightarrow> Stage list \<Rightarrow> string set" where
  "earlier_aliases i ss \<equiv> \<Union>s\<in>set (take i ss). set (stage_aliases s)"

abbreviation earlier_namespaces :: "nat \<Rightarrow> Stage list \<Rightarrow> string set" where
  "earlier_namespaces i ss \<equiv> \<Union>s\<in>set (take i ss). stage_namespaces s"

lemma visit_stages_completes:
  "visit_stages lib flat iter si ss w = (ss', w') \<Longrightarrow>
     length ss' = length ss \<and> prefix (sw_errs w) (sw_errs w') \<and> sp_Cron (sw_spec w') = sp_Cron (sw_spec w) \<and>
     (\<forall>i<length ss. \<exists>avail. stage_completed iter (si + i) avail (ss ! i) (ss' ! i) \<and>
        set avail = set (sw_availableActions w) \<union> earlier_aliases i ss)"
proof (induction ss arbitrary: si w ss' w')
  case (Cons st ss)
  obtain st1 w1 where s: "visit_stage lib flat iter si st w = (st1, w1)" by fastforce
  obtain ss1 where r: "visit_stages lib flat iter (Suc si) ss w1 = (ss1, w')" and ss': "ss' = st1 # ss1"
    using Cons.prems s by (auto split: prod.splits)
  note IH = Cons.IH [OF r]
  have "prefix (sw_errs w) (sw_errs w') \<and> sp_Cron (sw_spec w') = sp_Cron (sw_spec w)"
    using visit_stage_walk(1) [OF s] IH prefix_order.trans by metis
  moreover have "\<exists>avail. stage_completed iter (si + i) avail ((st # ss) ! i) (ss' ! i) \<and>
        set avail = set (sw_availableActions w) \<union> earlier_aliases i (st # ss)" if "i < length (st # ss)" for i
  proof (cases i)
    case 0
    then show ?thesis using visit_stage_walk(2) [OF s] by (auto simp: ss')
  next
    case (Suc j)
    with that have "j < length ss" by simp
    then obtain avail where "stage_completed iter (Suc si + j) avail (ss ! j) (ss1 ! j)"
      "set avail = set (sw_availableActions w1) \<union> earlier_aliases j ss"
      using IH by blast
    then show ?thesis using visit_stage_walk(3) [OF s] by (auto simp: Suc ss' intro!: exI [of _ avail])
  qed
  ultimately show ?case using IH by (simp add: ss')
qed simp

lemma visit_stages_errs:
  "visit_stages lib flat iter si ss w = (ss', w') \<Longrightarrow>
     sw_errs w' = sw_errs w \<longleftrightarrow>
       distinct (concat (map stage_aliases ss)) \<and> set (concat (map stage_aliases ss)) \<inter> sw_known w = {} \<and>
       (\<forall>i<length ss. stage_shape (ss ! i) \<and> (\<forall>e\<in>set (stage_entries (ss ! i)).
          entry_ok lib flat (set (sw_availableNamespaces w) \<union> earlier_namespaces i ss) e))"
proof (induction ss arbitrary: si w ss' w')
  case (Cons st ss)
  obtain st1 w1 where s: "visit_stage lib flat iter si st w = (st1, w1)" by fastforce
  obtain ss1 where r: "visit_stages lib flat iter (Suc si) ss w1 = (ss1, w')"
    using Cons.prems s by (auto split: prod.splits)
  note v = visit_stage_walk [OF s]
  define G where "G i \<longleftrightarrow> stage_shape ((st # ss) ! i) \<and> (\<forall>e\<in>set (stage_entries ((st # ss) ! i)).
     entry_ok lib flat (set (sw_availableNamespaces w) \<union> earlier_namespaces i (st # ss)) e)" for i
  have "prefix (sw_errs w1) (sw_errs w')" using visit_stages_completes [OF r] by blast
  with v(1) have "sw_errs w' = sw_errs w \<longleftrightarrow> sw_errs w1 = sw_errs w \<and> sw_errs w' = sw_errs w1"
    using prefix_order.antisym by force
  also have "sw_errs w' = sw_errs w1 \<longleftrightarrow>
       distinct (concat (map stage_aliases ss)) \<and>
       set (concat (map stage_aliases ss)) \<inter> (set (stage_aliases st) \<union> sw_known w) = {} \<and>
       (\<forall>i<length ss. G (Suc i))"
    using Cons.IH [OF r] by (simp only: v(4,5)) (simp add: G_def Un_ac)
  also have "sw_errs w1 = sw_errs w \<longleftrightarrow> distinct (stage_aliases st) \<and> set (stage_aliases st) \<inter> sw_known w = {} \<and> G 0"
    unfolding v(6) by (auto simp: G_def)
  finally have "sw_errs w' = sw_errs w \<longleftrightarrow> distinct (concat (map stage_aliases (st # ss))) \<and>
      set (concat (map stage_aliases (st # ss))) \<inter> sw_known w = {} \<and> G 0 \<and> (\<forall>i<length ss. G (Suc i))"
    by (simp only: list.map concat.simps distinct_append set_append Int_Un_distrib Int_Un_distrib2 Un_empty) blast
  then show ?case unfolding G_def [symmetric] by (simp add: All_less_Suc2)
qed simp


subsection \<open>The whole visit\<close>

lemma StageVisitor_Visit_stages:
  assumes "sp_Stages s \<noteq> []"
  obtains ss' w' where
    "visit_stages lib flat iter 0 (sp_Stages s)
       \<lparr>sw_availableNamespaces = [], sw_availableActions = [], sw_stageNamespaces = [],
        sw_stageActions = [], sw_spec = s\<lparr>sp_allActions := []\<rparr>\<rparr> = (ss', w')"
    "StageVisitor_Visit lib flat iter s = (sw_spec w')\<lparr>sp_Stages := ss'\<rparr>"
  using assms by (fastforce simp: StageVisitor_Visit_def split: prod.splits)

lemma visit_reports: "sp_errs (StageVisitor_Visit lib flat iter s) = sp_errs s \<longleftrightarrow> stages_ok lib flat (sp_Stages s)"
proof (cases "sp_Stages s = []")
  case True
  then show ?thesis by (simp add: StageVisitor_Visit_def stages_ok_def)
next
  case False
  show ?thesis
  proof (rule StageVisitor_Visit_stages [OF False, of lib flat iter])
    fix ss' w'
    assume v: "visit_stages lib flat iter 0 (sp_Stages s)
         \<lparr>sw_availableNamespaces = [], sw_availableActions = [], sw_stageNamespaces = [],
          sw_stageActions = [], sw_spec = s\<lparr>sp_allActions := []\<rparr>\<rparr> = (ss', w')"
      and r: "StageVisitor_Visit lib flat iter s = (sw_spec w')\<lparr>sp_Stages := ss'\<rparr>"
    show ?thesis using visit_stages_errs [OF v] by (simp add: r stages_ok_def)
  qed
qed

lemma visit_keeps:
  "prefix (sp_errs s) (sp_errs (StageVisitor_Visit lib flat iter s))"
  "sp_Cron (StageVisitor_Visit lib flat iter s) = sp_Cron s"
  by (auto simp: StageVisitor_Visit_def dest!: visit_stages_completes split: prod.splits)

text \<open>The entries of a file with the index of their stage.\<close>

definition file_entries :: "Stage list \<Rightarrow> (nat \<times> string \<times> Action option) list" where
  "file_entries ss = concat (map (\<lambda>(si, st). map (Pair si) (stage_entries st)) (List.enumerate 0 ss))"

lemma LoopStagesActions_entries: "LoopStagesActions s = map (apsnd snd) (file_entries (sp_Stages s))"
  by (simp add: LoopStagesActions_def file_entries_def map_concat comp_def case_prod_unfold)

definition lists_map :: "iteration \<Rightarrow> bool" where
  "lists_map iter \<longleftrightarrow> (\<forall>si a xs. set (iter si a xs) = set xs)"

text \<open>What the visit makes of an entry: the names of all earlier stages are what it needs, unless it says so.\<close>

definition needs_earlier :: "Stage list \<Rightarrow> nat \<Rightarrow> string \<times> Action option \<Rightarrow> Action \<Rightarrow> bool" where
  "needs_earlier ss si e a \<longleftrightarrow>
     ac_Alias a = entry_alias e \<and> ac_Type a = fst e \<and> keeps_rest (entry_action e) a \<and>
     set (ac_Namespaces a) = entry_namespaces e \<and>
     set (ac_Needs a) = (if ac_Needs (entry_action e) = [] then earlier_aliases si ss
                         else set (ac_Needs (entry_action e)))"

lemma list_all2_concatI:
  "list_all2 (list_all2 R) xss yss \<Longrightarrow> list_all2 R (concat xss) (concat yss)"
  by (induction rule: list_all2_induct) (auto intro: list_all2_appendI)

lemma stage_completed_needs:
  assumes "stage_completed iter si avail st st'" "lists_map iter" "set avail = earlier_aliases si ss"
  shows "list_all2 (\<lambda>e e'. \<exists>a. e' = (fst e, Some a) \<and> needs_earlier ss si e a) (stage_entries st) (stage_entries st')"
  using assms(1) unfolding stage_completed_def
  by (intro list_all2_concatI, elim list_all2_mono)
    (auto simp: entries_completed_def completed_def needs_earlier_def assms(3)
       assms(2) [unfolded lists_map_def] elim!: list_all2_mono)

lemma visit_needs_nonempty:
  assumes "lists_map iter" "sp_Stages s \<noteq> []"
  shows "list_all2 (\<lambda>(si, e) (si', x). si' = si \<and> (\<exists>a. x = Some a \<and> needs_earlier (sp_Stages s) si e a))
           (file_entries (sp_Stages s)) (LoopStagesActions (StageVisitor_Visit lib flat iter s))"
proof (rule StageVisitor_Visit_stages [OF assms(2), of lib flat iter])
  let ?ss = "sp_Stages s"
  fix ss' w'
  assume v: "visit_stages lib flat iter 0 ?ss
       \<lparr>sw_availableNamespaces = [], sw_availableActions = [], sw_stageNamespaces = [],
        sw_stageActions = [], sw_spec = s\<lparr>sp_allActions := []\<rparr>\<rparr> = (ss', w')"
    and r: "StageVisitor_Visit lib flat iter s = (sw_spec w')\<lparr>sp_Stages := ss'\<rparr>"
  note c = visit_stages_completes [OF v]
  have "list_all2 (\<lambda>e e'. \<exists>a. e' = (fst e, Some a) \<and> needs_earlier ?ss i e a) (stage_entries (?ss ! i)) (stage_entries (ss' ! i))"
    if i: "i < length ?ss" for i
  proof -
    from c i obtain avail where "stage_completed iter i avail (?ss ! i) (ss' ! i)" "set avail = earlier_aliases i ?ss"
      by auto
    then show ?thesis by (intro stage_completed_needs [OF _ assms(1)])
  qed
  then have "list_all2 (\<lambda>(si, e) (si', e'). si' = si \<and> (\<exists>a. snd e' = Some a \<and> needs_earlier ?ss si e a))
      (map (Pair i) (stage_entries (?ss ! i))) (map (Pair i) (stage_entries (ss' ! i)))" if "i < length ?ss" for i
    using that by (fastforce simp: list.rel_map elim!: list_all2_mono)
  then have "list_all2 (\<lambda>(si, e) (si', e'). si' = si \<and> (\<exists>a. snd e' = Some a \<and> needs_earlier ?ss si e a))
      (file_entries ?ss) (file_entries ss')"
    using c unfolding file_entries_def
    by - (rule list_all2_concatI, rule list_all2_all_nthI, simp_all add: nth_enumerate_eq)
  then show ?thesis by (simp add: LoopStagesActions_entries r list.rel_map case_prod_unfold)
qed


lemma visit_needs:
  assumes "lists_map iter"
  shows "list_all2 (\<lambda>(si, e) (si', x). si' = si \<and> (\<exists>a. x = Some a \<and> needs_earlier (sp_Stages s) si e a))
           (file_entries (sp_Stages s)) (LoopStagesActions (StageVisitor_Visit lib flat iter s))"
  using visit_needs_nonempty [OF assms, of s lib flat]
  by (cases "sp_Stages s = []") (simp_all add: StageVisitor_Visit_def LoopStagesActions_def file_entries_def)

section \<open>The visit as a whole\<close>

text \<open>
  C39: a visit of the stages of a file adds no error exactly when every stage has an action, every
  item of a stage is one action, all actions have different names without a backslash, no action
  claims a namespace of an earlier stage, and, if the parameters are flattened, they can be encoded.
  Whatever it reports, the actions are those of the file in the same order afterwards: each has the
  type it stands under, the name it was given or else its type, and it needs, unless the file says
  otherwise, exactly the actions of all earlier stages.\<close>

theorem StageVisitor_completes:
  assumes "lists_map iter"
  shows "(sp_errs (StageVisitor_Visit lib flat iter s) = sp_errs s \<longleftrightarrow> stages_ok lib flat (sp_Stages s)) \<and>
    list_all2 (\<lambda>(si, e) (si', x). si' = si \<and> (\<exists>a. x = Some a \<and> needs_earlier (sp_Stages s) si e a))
      (file_entries (sp_Stages s)) (LoopStagesActions (StageVisitor_Visit lib flat iter s))"
  using visit_reports visit_needs [OF assms] by blast

section \<open>An example: two stages\<close>

definition example_lib :: yml_lib where
  "example_lib = \<lparr>yl_Sprint = (\<lambda>_. ''key''), yl_Marshal = (\<lambda>_. Inr ''{}'')\<rparr>"

definition two_stages :: "string \<Rightarrow> Spec" where
  "two_stages alias =
     empty_Spec\<lparr>sp_Version := ''1.1'',
      sp_Stages :=
        [\<lparr>sg_Actions = [[(''git'', None)]]\<rparr>,
         \<lparr>sg_Actions = [[(''java'', Some (empty_Action\<lparr>ac_Alias := alias\<rparr>))], [(''js'', None)]]\<rparr>]\<rparr>"

lemmas yml_entry_eval = entry_alias_def entry_action_def empty_Action_def entry_namespaces_def
lemmas yml_eval = two_stages_def stage_aliases_def stage_namespaces_def stage_shape_def yml_entry_eval

lemma stages_ok_two_stages: "stages_ok example_lib False (sp_Stages (two_stages ''jar''))"
  by (auto simp: stages_ok_def yml_eval entry_ok_def entry_params_ok_def aliasRegex_def less_Suc_eq nth_Cons')

lemma not_stages_ok_two_stages: "\<not> stages_ok example_lib False (sp_Stages (two_stages ''git''))"
  by (simp add: stages_ok_def yml_eval)

theorem StageVisitor_completes_witness:
  "sp_errs (StageVisitor_Visit example_lib False (\<lambda>_ _ xs. xs) (two_stages ''jar'')) = [] \<and>
   sp_errs (StageVisitor_Visit example_lib False (\<lambda>_ _ xs. xs) (two_stages ''git'')) \<noteq> [] \<and>
   map (\<lambda>(si, x). (si, map_option ac_Alias x, map_option (set \<circ> ac_Needs) x))
     (LoopStagesActions (StageVisitor_Visit example_lib False (\<lambda>_ _ xs. xs) (two_stages ''jar''))) =
   [(0, Some ''git'', Some {}), (1, Some ''jar'', Some {''git''}), (1, Some ''js'', Some {''git''})]"
proof -
  let ?e = "(''java'', Some (empty_Action\<lparr>ac_Alias := ''jar''\<rparr>))"
  have i: "lists_map (\<lambda>_ _ xs. xs)" by (simp add: lists_map_def)
  have e: "sp_errs (two_stages a) = []" for a by (simp add: two_stages_def empty_Spec_def)
  have ss: "sp_Stages (two_stages ''jar'') = [\<lparr>sg_Actions = [[(''git'', None)]]\<rparr>, \<lparr>sg_Actions = [[?e], [(''js'', None)]]\<rparr>]"
    by (simp add: two_stages_def)
  then have fe: "file_entries (sp_Stages (two_stages ''jar'')) = [(0, ''git'', None), (1, ?e), (1, ''js'', None)]"
    by (simp add: file_entries_def)
  have n: "needs_earlier (sp_Stages (two_stages ''jar'')) 0 (''git'', None) a \<Longrightarrow> ac_Alias a = ''git'' \<and> set (ac_Needs a) = {}"
    "needs_earlier (sp_Stages (two_stages ''jar'')) 1 ?e a \<Longrightarrow> ac_Alias a = ''jar'' \<and> set (ac_Needs a) = {''git''}"
    "needs_earlier (sp_Stages (two_stages ''jar'')) 1 (''js'', None) a \<Longrightarrow> ac_Alias a = ''js'' \<and> set (ac_Needs a) = {''git''}" for a
    by (simp_all add: needs_earlier_def ss stage_aliases_def yml_entry_eval)
  note c = StageVisitor_completes [OF i, of example_lib False]
  have "map (\<lambda>(si, x). (si, map_option ac_Alias x, map_option (set \<circ> ac_Needs) x))
     (LoopStagesActions (StageVisitor_Visit example_lib False (\<lambda>_ _ xs. xs) (two_stages ''jar''))) =
   [(0, Some ''git'', Some {}), (1, Some ''jar'', Some {''git''}), (1, Some ''js'', Some {''git''})]"
    using conjunct2 [OF c [of "two_stages ''jar''"]] n unfolding fe by (force simp: list_all2_Cons1)
  then show ?thesis
    using conjunct1 [OF c [of "two_stages ''jar''"]] conjunct1 [OF c [of "two_stages ''git''"]]
    by (simp only: e stages_ok_two_stages not_stages_ok_two_stages simp_thms)
qed

end
