(* ===== verification/Pipeline_Ref.thy ===== *)
theory Pipeline_Ref
  imports Pipeline_Yml Snippet
begin

text \<open>
  References in a pipeline file (\<^verbatim>\<open>src/pkg/parser/pipelineyml/visitor_ref_op.go\<close>): in the
  parameters, commands, cache paths and conditions of an action, \<open>${alias}\<close>, \<open>${alias:OUTPUT:key}\<close>,
  \<open>${{ dirs.alias }}\<close> and \<open>${{ outputs.alias.key }}\<close> are replaced by directories and outputs of
  earlier actions. A visitor shares its actions with the file by pointers; the model writes them
  back. \<open>None\<close> stands for a panic, from which \<open>New\<close> recovers.
\<close>

section \<open>Data\<close>

record RefOp =
  ro_Ori :: string
  ro_Ref :: string
  ro_Op :: string
  ro_Key :: string
  ro_Ex :: string
  ro_IsAlias :: bool
  ro_IsNamespace :: bool
  ro_RefStageIndex :: int
  ro_CurrentStageIndex :: int

record HandleResult =
  hr_Errs :: "string list"
  hr_Warns :: "string list"

definition HandleResult_AppendError :: "string \<Rightarrow> HandleResult \<Rightarrow> HandleResult" where
  "HandleResult_AppendError err r = r\<lparr>hr_Errs := hr_Errs r @ [err]\<rparr>"

definition HandleResult_AppendWarn :: "string \<Rightarrow> HandleResult \<Rightarrow> HandleResult" where
  "HandleResult_AppendWarn warn r = r\<lparr>hr_Warns := hr_Warns r @ [warn]\<rparr>"

text \<open>The list of actions is in the order in which the map is ranged over.\<close>

record RefOpVisitor =
  rv_aliasToCheck :: "string list"
  rv_allActions :: "(string \<times> Action \<times> nat) list"
  rv_availableRefs :: "string \<rightharpoonup> string"
  rv_availableOutputs :: outputs
  rv_allowMissingCustomScriptOutputs :: bool

text \<open>\<open>mock.MockValue\<close>, base64 decoding, and the two directions of the YAML library.\<close>

record ref_lib =
  rl_MockValue :: "string \<Rightarrow> string"
  rl_Base64Decode :: "string \<Rightarrow> string + string"
  rl_Marshal :: "yaml_value \<Rightarrow> string + string"
  rl_Unmarshal :: "string \<Rightarrow> yaml_value \<Rightarrow> string + yaml_value"

section \<open>Placeholders\<close>

text \<open>The expressions \<open>\${([^{}]+)}\<close> and \<open>\${{[ ]([^{}\s]+)[ ]}}\<close>: neither leaves a choice where to stop.\<close>

definition OldRe :: matcher where
  "OldRe s =
     (if prefix ''${'' s then
        let inner = takeWhile (\<lambda>c. c \<noteq> CHR ''{'' \<and> c \<noteq> CHR ''}'') (drop 2 s);
            rest = drop (2 + length inner) s
        in if inner \<noteq> [] \<and> prefix ''}'' rest then Some ([''${'' @ inner @ ''}'', inner], drop 1 rest) else None
      else None)"

definition re_space :: "char \<Rightarrow> bool" where
  "re_space c \<longleftrightarrow> c \<in> set [CHR 0x09, CHR 0x0A, CHR 0x0C, CHR 0x0D, CHR 0x20]"

definition PhRe :: matcher where
  "PhRe s =
     (if prefix ''${{ '' s then
        let inner = takeWhile (\<lambda>c. c \<noteq> CHR ''{'' \<and> c \<noteq> CHR ''}'' \<and> \<not> re_space c) (drop 4 s);
            rest = drop (4 + length inner) s
        in if inner \<noteq> [] \<and> prefix '' }}'' rest then Some ([''${{ '' @ inner @ '' }}'', inner], drop 3 rest) else None
      else None)"

text \<open>
  \<open>ReplaceAllStringSubmatchFunc\<close> with a function that also changes a state: the text between the
  matches is kept.
\<close>

function replace_matches ::
  "matcher \<Rightarrow> (string list \<Rightarrow> 'a \<Rightarrow> (string \<times> 'a) option) \<Rightarrow> string \<Rightarrow> 'a \<Rightarrow> (string \<times> 'a) option" where
  "replace_matches re repl [] st = Some ([], st)"
| "replace_matches re repl (c # s) st =
     (case re (c # s) of
        Some (groups, rest) \<Rightarrow>
          if length rest < length (c # s) then
            (case repl groups st of
               None \<Rightarrow> None
             | Some (t, st) \<Rightarrow> map_option (\<lambda>(r, st). (t @ r, st)) (replace_matches re repl rest st))
          else None
      | None \<Rightarrow> map_option (\<lambda>(r, st). (c # r, st)) (replace_matches re repl s st))"
  by pat_completeness auto
termination
  by (relation "measure (\<lambda>(re, repl, s, st). length s)") auto

section \<open>One reference\<close>

fun getStageIndex :: "(string \<times> Action \<times> nat) list \<Rightarrow> string \<Rightarrow> int \<times> bool \<times> bool" where
  "getStageIndex [] namespace = (- 1, False, False)"
| "getStageIndex ((_, action, si) # actions) namespace =
     (if ac_Alias action = namespace then (int si, True, True)
      else if namespace \<in> set (ac_Namespaces action) then (int si, False, True)
      else getStageIndex actions namespace)"

text \<open>\<open>strconv.Quote\<close>: bytes from 128 on are taken as parts of printable characters.\<close>

definition quote_char :: "char \<Rightarrow> string" where
  "quote_char c =
     (let n = of_char c :: nat;
          esc = [(7, CHR ''a''), (8, CHR ''b''), (9, CHR ''t''), (10, CHR ''n''), (11, CHR ''v''), (12, CHR ''f''), (13, CHR ''r''),
                 (34, CHR 0x22), (92, CHR 0x5C)]
      in (case map_of esc n of
            Some e \<Rightarrow> [CHR 0x5C, e]
          | None \<Rightarrow>
              if n < 32 \<or> n = 127
              then [CHR 0x5C, CHR ''x'', ''0123456789abcdef'' ! (n div 16), ''0123456789abcdef'' ! (n mod 16)]
              else [c]))"

definition expression_Quote :: "string \<Rightarrow> string" where
  "expression_Quote s = [CHR 0x22] @ concat (map quote_char s) @ [CHR 0x22]"

definition handleRefEx :: "string \<Rightarrow> RefOp \<Rightarrow> string" where
  "handleRefEx output refOp = (if ro_Ex refOp = ''escape'' then expression_Quote output else output)"

definition handleOneRefOrShellFormat :: "RefOpVisitor \<Rightarrow> RefOp \<Rightarrow> HandleResult \<Rightarrow> string \<times> HandleResult" where
  "handleOneRefOrShellFormat v refOp r =
     (if ro_IsAlias refOp \<or> ro_IsNamespace refOp
      then (case rv_availableRefs v (ro_Ref refOp) of
              None \<Rightarrow>
                (ro_Ori refOp,
                 if ro_CurrentStageIndex refOp = ro_RefStageIndex refOp
                 then HandleResult_AppendError (''invalid ref: '' @ ro_Ori refOp @ '', cannot reference parallel action '' @
                        quote_text (ro_Ref refOp)) r
                 else HandleResult_AppendError (''invalid ref: '' @ ro_Ori refOp @ '', cannot reference not-executed action '' @
                        quote_text (ro_Ref refOp)) r)
            | Some refValue \<Rightarrow> (refValue, r))
      else (ro_Ori refOp, r))"

definition handleOneRefShellFormat :: "RefOp \<Rightarrow> HandleResult \<Rightarrow> string \<times> HandleResult" where
  "handleOneRefShellFormat refOp r =
     (ro_Ori refOp,
      if ro_IsAlias refOp
      then HandleResult_AppendError (quote_text (ro_Ori refOp) @
             '', bad format, only support `${alias}` or `${alias:OPERATION:key}`'') r
      else r)"

definition handleOneRefOpOutput :: "RefOpVisitor \<Rightarrow> RefOp \<Rightarrow> HandleResult \<Rightarrow> string \<times> HandleResult" where
  "handleOneRefOpOutput v refOp r =
     (case output_of (rv_availableOutputs v) (ro_Ref refOp) (ro_Key refOp) of
        Some output \<Rightarrow> (handleRefEx output refOp, r)
      | None \<Rightarrow>
          (ro_Ori refOp,
           if ro_RefStageIndex refOp < ro_CurrentStageIndex refOp
           then (if rv_allowMissingCustomScriptOutputs v
                 then HandleResult_AppendWarn (quote_text (ro_Ori refOp) @ '', action '' @ quote_text (ro_Ref refOp) @
                        '' may not have output '' @ quote_text (ro_Key refOp)) r
                 else HandleResult_AppendError (quote_text (ro_Ori refOp) @ '', action '' @ quote_text (ro_Ref refOp) @
                        '' doesn't have output '' @ quote_text (ro_Key refOp)) r)
           else if ro_RefStageIndex refOp = ro_CurrentStageIndex refOp
           then HandleResult_AppendError (quote_text (ro_Ori refOp) @ '', cannot reference parallel action '' @
                  quote_text (ro_Ref refOp)) r
           else HandleResult_AppendError (quote_text (ro_Ori refOp) @ '', cannot reference not-executed action '' @
                  quote_text (ro_Ref refOp)) r))"

definition handleOneRefOp :: "RefOpVisitor \<Rightarrow> RefOp \<Rightarrow> HandleResult \<Rightarrow> string \<times> HandleResult" where
  "handleOneRefOp v refOp r =
     (if \<not> ro_IsAlias refOp
      then (ro_Ori refOp, HandleResult_AppendError (quote_text (ro_Ori refOp) @ '', not found alias '' @
              quote_text (ro_Ref refOp) @ '' in pipeline'') r)
      else if ro_Op refOp = ''OUTPUT'' then handleOneRefOpOutput v refOp r
      else (ro_Ori refOp, HandleResult_AppendError (quote_text (ro_Ori refOp) @ '', invalid operation ['' @ ro_Op refOp @
              ''], only support [OUTPUT] now'') r))"

definition new_RefOp :: "RefOpVisitor \<Rightarrow> nat \<Rightarrow> string \<Rightarrow> string \<Rightarrow> RefOp" where
  "new_RefOp v stageIndex ori ref =
     (case getStageIndex (rv_allActions v) ref of
        (refStageIndex, isAlias, isNamespace) \<Rightarrow>
          \<lparr>ro_Ori = ori, ro_Ref = ref, ro_Op = [], ro_Key = [], ro_Ex = [], ro_IsAlias = isAlias,
           ro_IsNamespace = isNamespace, ro_RefStageIndex = refStageIndex, ro_CurrentStageIndex = int stageIndex\<rparr>)"

definition old_placeholder :: "RefOpVisitor \<Rightarrow> nat \<Rightarrow> string list \<Rightarrow> HandleResult \<Rightarrow> (string \<times> HandleResult) option" where
  "old_placeholder v stageIndex sub r =
     (let ss = strings_SplitN (sub ! 1) '':'' 3;
          refOp = new_RefOp v stageIndex (sub ! 0) (ss ! 0)
      in Some (if length ss = 1 then handleOneRefOrShellFormat v refOp r
               else if length ss = 2 then handleOneRefShellFormat refOp r
               else handleOneRefOp v (refOp\<lparr>ro_Op := ss ! 1, ro_Key := ss ! 2\<rparr>) r))"

definition handleOneParamOrCmd :: "RefOpVisitor \<Rightarrow> nat \<Rightarrow> string \<Rightarrow> HandleResult \<Rightarrow> (string \<times> HandleResult) option" where
  "handleOneParamOrCmd v stageIndex ori r = replace_matches OldRe (old_placeholder v stageIndex) ori r"

text \<open>\<open>${{ outputs.alias }}\<close> has no third part, which is read all the same.\<close>

definition new_placeholder ::
  "ref_lib \<Rightarrow> RefOpVisitor \<Rightarrow> nat \<Rightarrow> string \<Rightarrow> string list \<Rightarrow> HandleResult \<Rightarrow> (string \<times> HandleResult) option" where
  "new_placeholder lib v stageIndex ori sub r =
     (let ss = strings_SplitN (strings_Trim (sub ! 1) '' '') ''.'' 4
      in if length ss < 2 then Some (sub ! 0, r)
         else
           let refOp = new_RefOp v stageIndex (sub ! 0) (ss ! 1)
           in if ss ! 0 = ''dirs'' then Some (handleOneRefOrShellFormat v refOp r)
              else if ss ! 0 = ''outputs'' then
                (if length ss < 3 then None
                 else Some (handleOneRefOp v (refOp\<lparr>ro_Op := ''OUTPUT'', ro_Key := ss ! 2,
                              ro_Ex := (if length ss = 4 then ss ! 3 else [])\<rparr>) r))
              else if ss ! 0 = ''random'' then Some (rl_MockValue lib (ss ! 1), r)
              else if ss ! 0 = ''base64-decode'' then
                (case rl_Base64Decode lib (ss ! 1) of
                   Inl err \<Rightarrow>
                     Some (ro_Ori refOp, HandleResult_AppendError (''failed to base64 decode for '' @ ori @ '', err: '' @ err) r)
                 | Inr decodeBytes \<Rightarrow>
                     Some (handleRefEx decodeBytes (refOp\<lparr>ro_Ex := (if length ss \<ge> 3 then ss ! 2 else [])\<rparr>), r))
              else Some (ro_Ori refOp, r))"

definition handleOneParamOrCmdV2 ::
  "ref_lib \<Rightarrow> RefOpVisitor \<Rightarrow> nat \<Rightarrow> string \<Rightarrow> HandleResult \<Rightarrow> (string \<times> HandleResult) option" where
  "handleOneParamOrCmdV2 lib v stageIndex ori r = replace_matches PhRe (new_placeholder lib v stageIndex ori) ori r"

section \<open>An action\<close>

type_synonym handler = "string \<Rightarrow> HandleResult \<Rightarrow> (string \<times> HandleResult) option"

definition handle_param :: "ref_lib \<Rightarrow> handler \<Rightarrow> yaml_value \<Rightarrow> HandleResult \<Rightarrow> (yaml_value \<times> HandleResult) option" where
  "handle_param lib h val r =
     (case rl_Marshal lib val of
        Inl err \<Rightarrow> Some (val, HandleResult_AppendError err r)
      | Inr valueYAMLByte \<Rightarrow>
          (case h (butlast valueYAMLByte) r of
             None \<Rightarrow> None
           | Some (replaced, r) \<Rightarrow>
               (case rl_Unmarshal lib replaced val of
                  Inl err \<Rightarrow> Some (val, HandleResult_AppendError err r)
                | Inr val' \<Rightarrow> Some (val', r))))"

fun handle_params ::
  "ref_lib \<Rightarrow> handler \<Rightarrow> (string \<times> yaml_value) list \<Rightarrow> HandleResult \<Rightarrow> ((string \<times> yaml_value) list \<times> HandleResult) option" where
  "handle_params lib h [] r = Some ([], r)"
| "handle_params lib h ((k, val) # kvs) r =
     (case handle_param lib h val r of
        None \<Rightarrow> None
      | Some (val', r) \<Rightarrow> map_option (\<lambda>(kvs, r). ((k, val') # kvs, r)) (handle_params lib h kvs r))"

fun handle_texts :: "handler \<Rightarrow> string list \<Rightarrow> HandleResult \<Rightarrow> (string list \<times> HandleResult) option" where
  "handle_texts h [] r = Some ([], r)"
| "handle_texts h (s # ss) r =
     (case h s r of
        None \<Rightarrow> None
      | Some (t, r) \<Rightarrow> map_option (\<lambda>(ts, r). (t # ts, r)) (handle_texts h ss r))"

definition AppendPlaceholder :: "string \<Rightarrow> string" where
  "AppendPlaceholder cond = ''${{ '' @ cond @ '' }}''"

definition handle_if :: "handler \<Rightarrow> string \<Rightarrow> HandleResult \<Rightarrow> (string \<times> HandleResult) option" where
  "handle_if h cond r =
     (if cond = [] then Some (cond, r)
      else map_option (\<lambda>(replaced, r). (AppendPlaceholder replaced, r)) (h (ReplacePlaceholder cond) r))"

definition handleAction :: "ref_lib \<Rightarrow> handler \<Rightarrow> Action \<Rightarrow> HandleResult \<Rightarrow> (Action \<times> HandleResult) option" where
  "handleAction lib h action r =
     (case handle_params lib h (ac_Params action) r of
        None \<Rightarrow> None
      | Some (params, r) \<Rightarrow>
     (case handle_texts h (ac_Commands action) r of
        None \<Rightarrow> None
      | Some (commands, r) \<Rightarrow>
     (case handle_texts h (map ca_Path (ac_Caches action)) r of
        None \<Rightarrow> None
      | Some (paths, r) \<Rightarrow>
     (case handle_if h (ac_If action) r of
        None \<Rightarrow> None
      | Some (cond, r) \<Rightarrow>
          Some (action\<lparr>ac_Params := params, ac_Commands := commands,
                  ac_Caches := map2 (\<lambda>c p. c\<lparr>ca_Path := p\<rparr>) (ac_Caches action) paths, ac_If := cond\<rparr>, r)))))"

section \<open>All actions\<close>

text \<open>The last element for which \<open>f\<close> succeeds is replaced.\<close>

fun write_last :: "('a \<Rightarrow> 'a option) \<Rightarrow> 'a list \<Rightarrow> 'a list option" where
  "write_last f [] = None"
| "write_last f (x # xs) =
     (case write_last f xs of
        Some ys \<Rightarrow> Some (x # ys)
      | None \<Rightarrow> (case f x of Some y \<Rightarrow> Some (y # xs) | None \<Rightarrow> None))"

text \<open>
  The action that \<open>allActions\<close> holds under a name is the last one the stage visitor met, and the
  same object as in its stage.
\<close>

definition write_action :: "string \<Rightarrow> Action \<Rightarrow> Spec \<Rightarrow> Spec" where
  "write_action alias a s =
     (let entry = (\<lambda>e. case snd e of
              None \<Rightarrow> None
            | Some b \<Rightarrow> if ac_Alias b = alias then Some (fst e, Some a) else None);
          stage = (\<lambda>st. map_option (\<lambda>ms. st\<lparr>sg_Actions := ms\<rparr>) (write_last (write_last entry) (sg_Actions st)));
          allActions = map (\<lambda>(k, b, si). (k, if k = alias then a else b, si)) (sp_allActions s)
      in s\<lparr>sp_allActions := allActions,
           sp_Stages := (case write_last stage (sp_Stages s) of None \<Rightarrow> sp_Stages s | Some ss \<Rightarrow> ss)\<rparr>)"

text \<open>
  The errors found so far are reported again for every action that follows. \<open>Inl\<close>: a panic, with
  the file as it is then.
\<close>

fun ref_loop ::
  "ref_lib \<Rightarrow> RefOpVisitor \<Rightarrow> (string \<times> Action \<times> nat) list \<Rightarrow> HandleResult \<Rightarrow> Spec \<Rightarrow> Spec + Spec" where
  "ref_loop lib v [] r s = Inr s"
| "ref_loop lib v ((alias, action, stageIndex) # actions) r s =
     (if ac_Alias action \<notin> set (rv_aliasToCheck v) then ref_loop lib v actions r s
      else (case handleAction lib (handleOneParamOrCmd v stageIndex) action r of
              None \<Rightarrow> Inl s
            | Some (action, r) \<Rightarrow>
                (case handleAction lib (handleOneParamOrCmdV2 lib v stageIndex) action r of
                   None \<Rightarrow> Inl s
                 | Some (action, r) \<Rightarrow>
                     let s = write_action alias action s;
                         s = fold (\<lambda>err. appendError err (AtAction stageIndex (ac_Alias action))) (hr_Errs r) s;
                         s = fold (\<lambda>warn. appendWarn warn (AtAction stageIndex (ac_Alias action))) (hr_Warns r) s
                     in ref_loop lib v actions r s)))"

definition RefOpVisitor_Visit :: "ref_lib \<Rightarrow> RefOpVisitor \<Rightarrow> Spec \<Rightarrow> Spec + Spec" where
  "RefOpVisitor_Visit lib v s =
     ref_loop lib (v\<lparr>rv_allActions := sp_allActions s\<rparr>) (sp_allActions s) \<lparr>hr_Errs = [], hr_Warns = []\<rparr> s"

section \<open>What becomes of a text\<close>

subsection \<open>Matches\<close>

lemma replace_matches_plain:
  assumes "\<And>s. re s \<noteq> None \<Longrightarrow> prefix ''$'' s" "CHR ''$'' \<notin> set p"
  shows "replace_matches re repl (p @ s) st = map_option (\<lambda>(r, st). (p @ r, st)) (replace_matches re repl s st)"
  using assms(2)
proof (induction p)
  case Nil
  show ?case by (simp add: option.map_ident)
next
  case (Cons c p)
  have "\<not> prefix ''$'' (c # p @ s)" using Cons.prems by auto
  then have "re (c # p @ s) = None" using assms(1) by blast
  then show ?case using Cons by (simp add: option.map_comp comp_def case_prod_unfold)
qed

lemma replace_matches_hit:
  assumes "re (m @ s) = Some (g, s)" "m \<noteq> []" "repl g st = Some (t, st')"
  shows "replace_matches re repl (m @ s) st = map_option (\<lambda>(r, st). (t @ r, st)) (replace_matches re repl s st')"
  using assms by (cases m) simp_all

lemma OldRe_starts: "OldRe s \<noteq> None \<Longrightarrow> prefix ''$'' s"
  by (cases s) (auto simp: OldRe_def split: if_splits)

lemma PhRe_starts: "PhRe s \<noteq> None \<Longrightarrow> prefix ''$'' s"
  by (cases s) (auto simp: PhRe_def split: if_splits)

definition clean :: "string \<Rightarrow> bool" where
  "clean s \<longleftrightarrow> s \<noteq> [] \<and> list_all (\<lambda>c. c \<notin> set ''{}:. '' \<and> \<not> re_space c) s"

lemma OldRe_hit:
  assumes "inner \<noteq> []" "list_all (\<lambda>c. c \<noteq> CHR ''{'' \<and> c \<noteq> CHR ''}'') inner"
  shows "OldRe (''${'' @ inner @ ''}'' @ s) = Some ([''${'' @ inner @ ''}'', inner], s)"
proof -
  have "takeWhile (\<lambda>c. c \<noteq> CHR ''{'' \<and> c \<noteq> CHR ''}'') (inner @ CHR ''}'' # s) = inner"
    using assms(2) by (simp add: list_all_iff takeWhile_append2)
  then show ?thesis using assms(1) by (simp add: OldRe_def)
qed

lemma PhRe_hit:
  assumes "inner \<noteq> []" "list_all (\<lambda>c. c \<noteq> CHR ''{'' \<and> c \<noteq> CHR ''}'' \<and> \<not> re_space c) inner"
  shows "PhRe (''${{ '' @ inner @ '' }}'' @ s) = Some ([''${{ '' @ inner @ '' }}'', inner], s)"
proof -
  have "takeWhile (\<lambda>c. c \<noteq> CHR ''{'' \<and> c \<noteq> CHR ''}'' \<and> \<not> re_space c) (inner @ CHR '' '' # ''}}'' @ s) = inner"
    using assms(2) by (simp add: list_all_iff takeWhile_append2 re_space_def)
  then show ?thesis using assms(1) by (simp add: PhRe_def Let_def eval_nat_numeral)
qed

subsection \<open>Texts with references\<close>

text \<open>
  A text is plain pieces and references: to an output, to the directory of an action, or something
  that only looks like a reference, as a variable of the shell. \<open>new\<close> selects the notation.
\<close>

datatype ref_seg = is_Plain: Plain string | OutputRef string string | DirRef string | ShellVar string

fun seg_inner :: "bool \<Rightarrow> ref_seg \<Rightarrow> string" where
  "seg_inner new (Plain s) = s"
| "seg_inner new (OutputRef a k) = (if new then ''outputs.'' @ a @ ''.'' @ k else a @ '':OUTPUT:'' @ k)"
| "seg_inner new (DirRef a) = (if new then ''dirs.'' @ a else a)"
| "seg_inner new (ShellVar x) = x"

definition seg_text :: "bool \<Rightarrow> ref_seg \<Rightarrow> string" where
  "seg_text new seg =
     (case seg of
        Plain s \<Rightarrow> s
      | _ \<Rightarrow> if new then ''${{ '' @ seg_inner new seg @ '' }}'' else ''${'' @ seg_inner new seg @ ''}'')"

definition alias_stage :: "RefOpVisitor \<Rightarrow> string \<Rightarrow> nat option" where
  "alias_stage v a = map_option snd (map_of (rv_allActions v) a)"

text \<open>Actions are listed under their names, and no action claims the name of another one as a namespace.\<close>

definition names_clear :: "(string \<times> Action \<times> nat) list \<Rightarrow> bool" where
  "names_clear actions \<longleftrightarrow> distinct (map fst actions) \<and>
     (\<forall>(k, a, si)\<in>set actions. ac_Alias a = k \<and> set (ac_Namespaces a) \<inter> fst ` set actions \<subseteq> {k})"

definition known_name :: "RefOpVisitor \<Rightarrow> string \<Rightarrow> bool" where
  "known_name v x \<longleftrightarrow> (\<exists>(k, a, si)\<in>set (rv_allActions v). x = ac_Alias a \<or> x \<in> set (ac_Namespaces a))"

fun seg_ok :: "RefOpVisitor \<Rightarrow> ref_seg \<Rightarrow> bool" where
  "seg_ok v (Plain s) \<longleftrightarrow> CHR ''$'' \<notin> set s"
| "seg_ok v (OutputRef a k) \<longleftrightarrow> clean a \<and> clean k \<and> alias_stage v a \<noteq> None"
| "seg_ok v (DirRef a) \<longleftrightarrow> clean a \<and> alias_stage v a \<noteq> None"
| "seg_ok v (ShellVar x) \<longleftrightarrow> clean x \<and> \<not> known_name v x"

fun seg_value :: "bool \<Rightarrow> RefOpVisitor \<Rightarrow> ref_seg \<Rightarrow> string" where
  "seg_value new v (OutputRef a k) =
     (case output_of (rv_availableOutputs v) a k of Some x \<Rightarrow> x | None \<Rightarrow> seg_text new (OutputRef a k))"
| "seg_value new v (DirRef a) = (case rv_availableRefs v a of Some x \<Rightarrow> x | None \<Rightarrow> seg_text new (DirRef a))"
| "seg_value new v seg = seg_text new seg"

text \<open>
  A missing output is a warning only if it may be missing and its action comes before; all other
  missing things are errors.
\<close>

fun seg_warns :: "RefOpVisitor \<Rightarrow> nat \<Rightarrow> ref_seg \<Rightarrow> bool" where
  "seg_warns v si (OutputRef a k) \<longleftrightarrow>
     output_of (rv_availableOutputs v) a k = None \<and> rv_allowMissingCustomScriptOutputs v \<and> the (alias_stage v a) < si"
| "seg_warns v si seg \<longleftrightarrow> False"

fun seg_fails :: "RefOpVisitor \<Rightarrow> nat \<Rightarrow> ref_seg \<Rightarrow> bool" where
  "seg_fails v si (OutputRef a k) \<longleftrightarrow>
     output_of (rv_availableOutputs v) a k = None \<and> \<not> (rv_allowMissingCustomScriptOutputs v \<and> the (alias_stage v a) < si)"
| "seg_fails v si (DirRef a) \<longleftrightarrow> rv_availableRefs v a = None"
| "seg_fails v si seg \<longleftrightarrow> False"

definition adds :: "nat \<Rightarrow> nat \<Rightarrow> HandleResult \<Rightarrow> HandleResult \<Rightarrow> bool" where
  "adds e w r r' \<longleftrightarrow> prefix (hr_Errs r) (hr_Errs r') \<and> length (hr_Errs r') = length (hr_Errs r) + e \<and>
     prefix (hr_Warns r) (hr_Warns r') \<and> length (hr_Warns r') = length (hr_Warns r) + w"

lemma adds_simps [simp]:
  "adds 0 0 r r" "adds (Suc 0) 0 r (HandleResult_AppendError x r)" "adds 0 (Suc 0) r (HandleResult_AppendWarn x r)"
  by (simp_all add: adds_def HandleResult_AppendError_def HandleResult_AppendWarn_def)

lemma adds_trans: "adds e w r r' \<Longrightarrow> adds e' w' r' r'' \<Longrightarrow> adds (e + e') (w + w') r r''"
  by (auto simp: adds_def intro: prefix_order.trans)

subsection \<open>Names\<close>

lemma getStageIndex_alias:
  assumes "names_clear actions" "map_of actions a = Some (act, si)"
  shows "getStageIndex actions a = (int si, True, True)"
  using assms
proof (induction actions)
  case (Cons x actions)
  obtain k b sj where x: "x = (k, b, sj)" by (cases x)
  have c: "names_clear actions" using Cons.prems(1) by (fastforce simp: names_clear_def)
  have b: "ac_Alias b = k" "set (ac_Namespaces b) \<inter> (insert k (fst ` set actions)) \<subseteq> {k}"
    using Cons.prems(1) x by (auto simp: names_clear_def)
  show ?case
  proof (cases "k = a")
    case False
    then have m: "map_of actions a = Some (act, si)" using Cons.prems(2) x by simp
    then have "a \<in> fst ` set actions" by (metis domI dom_map_of_conv_image_fst)
    then have "a \<notin> set (ac_Namespaces b)" using b(2) False by auto
    then show ?thesis using Cons.IH [OF c m] b(1) False by (simp add: x)
  qed (use Cons.prems(2) x b(1) in simp)
qed simp

lemma getStageIndex_unknown:
  "(\<forall>(k, a, si)\<in>set actions. x \<noteq> ac_Alias a \<and> x \<notin> set (ac_Namespaces a)) \<Longrightarrow>
     getStageIndex actions x = (- 1, False, False)"
  by (induction actions) auto


subsection \<open>One piece\<close>

lemma new_RefOp_alias:
  assumes "names_clear (rv_allActions v)" "alias_stage v a = Some sj"
  shows "new_RefOp v si ori a =
    \<lparr>ro_Ori = ori, ro_Ref = a, ro_Op = [], ro_Key = [], ro_Ex = [], ro_IsAlias = True,
     ro_IsNamespace = True, ro_RefStageIndex = int sj, ro_CurrentStageIndex = int si\<rparr>"
  using assms getStageIndex_alias [OF assms(1)] by (auto simp: alias_stage_def new_RefOp_def)

lemma new_RefOp_unknown:
  "\<not> known_name v x \<Longrightarrow> new_RefOp v si ori x =
    \<lparr>ro_Ori = ori, ro_Ref = x, ro_Op = [], ro_Key = [], ro_Ex = [], ro_IsAlias = False,
     ro_IsNamespace = False, ro_RefStageIndex = - 1, ro_CurrentStageIndex = int si\<rparr>"
  by (subst new_RefOp_def, subst getStageIndex_unknown) (auto simp: known_name_def)

lemma clean_split:
  assumes "clean a" "clean k"
  shows "strings_SplitN (a @ '':OUTPUT:'' @ k) '':'' 3 = [a, ''OUTPUT'', k]" "strings_SplitN a '':'' 3 = [a]"
    "strings_SplitN (''outputs.'' @ a @ ''.'' @ k) ''.'' 4 = [''outputs'', a, k]"
    "strings_SplitN (''dirs.'' @ a) ''.'' 4 = [''dirs'', a]" "strings_SplitN a ''.'' 4 = [a]"
proof -
  have c: "CHR '':'' \<notin> set a" "CHR ''.'' \<notin> set a" "CHR ''.'' \<notin> set k" using assms by (auto simp: clean_def list_all_iff)
  show "strings_SplitN (a @ '':OUTPUT:'' @ k) '':'' 3 = [a, ''OUTPUT'', k]"
    using SplitN_char(2) [OF c(1), of "''OUTPUT''" k] by simp
  show "strings_SplitN a '':'' 3 = [a]" "strings_SplitN a ''.'' 4 = [a]"
    using SplitN_char(3) [OF c(1), of 3] SplitN_char(3) [OF c(2), of 4] by simp_all
  have "gen_split 3 ''.'' (strings_Join [''outputs'', a, k] ''.'') = [''outputs'', a, k]"
    "gen_split 3 ''.'' (strings_Join [''dirs'', a] ''.'') = [''dirs'', a]"
    using c by (intro gen_split_Join; simp)+
  then show "strings_SplitN (''outputs.'' @ a @ ''.'' @ k) ''.'' 4 = [''outputs'', a, k]"
    "strings_SplitN (''dirs.'' @ a) ''.'' 4 = [''dirs'', a]"
    by (simp_all add: strings_SplitN_def)
qed

lemma handle_output:
  "\<exists>r'. handleOneRefOp v \<lparr>ro_Ori = seg_text new (OutputRef a k), ro_Ref = a, ro_Op = ''OUTPUT'', ro_Key = k, ro_Ex = [],
      ro_IsAlias = True, ro_IsNamespace = True, ro_RefStageIndex = int sj, ro_CurrentStageIndex = int si\<rparr> r =
      (seg_value new v (OutputRef a k), r') \<and>
    (alias_stage v a = Some sj \<longrightarrow>
      adds (of_bool (seg_fails v si (OutputRef a k))) (of_bool (seg_warns v si (OutputRef a k))) r r')"
  by (cases "output_of (rv_availableOutputs v) a k")
    (auto simp: handleOneRefOp_def handleOneRefOpOutput_def handleRefEx_def)

lemma handle_dir:
  "\<exists>r'. handleOneRefOrShellFormat v \<lparr>ro_Ori = seg_text new (DirRef a), ro_Ref = a, ro_Op = [], ro_Key = [], ro_Ex = [],
      ro_IsAlias = True, ro_IsNamespace = True, ro_RefStageIndex = int sj, ro_CurrentStageIndex = int si\<rparr> r =
      (seg_value new v (DirRef a), r') \<and>
    adds (of_bool (seg_fails v si (DirRef a))) (of_bool (seg_warns v si (DirRef a))) r r'"
  by (cases "rv_availableRefs v a") (auto simp: handleOneRefOrShellFormat_def)

abbreviation seg_adds :: "RefOpVisitor \<Rightarrow> nat \<Rightarrow> ref_seg \<Rightarrow> HandleResult \<Rightarrow> HandleResult \<Rightarrow> bool" where
  "seg_adds v si seg r r' \<equiv> adds (of_bool (seg_fails v si seg)) (of_bool (seg_warns v si seg)) r r'"

lemma old_placeholder_seg:
  assumes "names_clear (rv_allActions v)" "seg_ok v seg" "\<not> is_Plain seg"
  shows "\<exists>r'. old_placeholder v si [seg_text False seg, seg_inner False seg] r = Some (seg_value False v seg, r') \<and>
    seg_adds v si seg r r'"
proof (cases seg)
  case (OutputRef a k)
  with assms(2) obtain sj where "alias_stage v a = Some sj" "clean a" "clean k" by auto
  then show ?thesis
    using handle_output [of v False a k sj si r] new_RefOp_alias [OF assms(1)] clean_split(1) [of a k]
    by (auto simp: OutputRef old_placeholder_def Let_def)
next
  case (DirRef a)
  with assms(2) obtain sj where "alias_stage v a = Some sj" "clean a" by auto
  then show ?thesis
    using handle_dir [of v False a sj si r] new_RefOp_alias [OF assms(1)] clean_split [of a a]
    by (auto simp: DirRef old_placeholder_def)
next
  case (ShellVar x)
  with assms(2) have "\<not> known_name v x" "clean x" by auto
  then show ?thesis
    by (simp add: ShellVar old_placeholder_def clean_split(2) [of x x] new_RefOp_unknown handleOneRefOrShellFormat_def)
qed (use assms in simp)

lemma strings_Trim_clean: "list_all (\<lambda>c. \<not> re_space c) s \<Longrightarrow> strings_Trim s '' '' = s"
proof -
  assume "list_all (\<lambda>c. \<not> re_space c) s"
  then have "\<forall>c\<in>set s. c \<noteq> CHR '' ''" by (auto simp: list_all_iff re_space_def)
  moreover have "dropWhile (\<lambda>c. c \<in> set '' '') xs = xs" if "\<forall>c\<in>set xs. c \<noteq> CHR '' ''" for xs :: string
    using that by (cases xs) auto
  ultimately show ?thesis unfolding strings_Trim_def by (metis rev_rev_ident set_rev)
qed

lemma inner_chars:
  assumes "seg_ok v seg" "\<not> is_Plain seg"
  shows "seg_inner new seg \<noteq> []" "list_all (\<lambda>c. c \<noteq> CHR ''{'' \<and> c \<noteq> CHR ''}'' \<and> \<not> re_space c) (seg_inner new seg)"
    "list_all (\<lambda>c. c \<noteq> CHR ''{'' \<and> c \<noteq> CHR ''}'') (seg_inner new seg)"
    "list_all (\<lambda>c. \<not> re_space c) (seg_inner new seg)"
  using assms by (cases seg; auto simp: clean_def list_all_iff re_space_def)+

lemma new_placeholder_seg:
  assumes "names_clear (rv_allActions v)" "seg_ok v seg" "\<not> is_Plain seg"
  shows "\<exists>r'. new_placeholder lib v si ori [seg_text True seg, seg_inner True seg] r = Some (seg_value True v seg, r') \<and>
    seg_adds v si seg r r'"
proof -
  have t: "strings_Trim (seg_inner True seg) '' '' = seg_inner True seg"
    using inner_chars(4) [OF assms(2,3)] by (rule strings_Trim_clean)
  show ?thesis
  proof (cases seg)
    case (OutputRef a k)
    with assms(2) obtain sj where "alias_stage v a = Some sj" "clean a" "clean k" by auto
    then show ?thesis
      using handle_output [of v True a k sj si r] new_RefOp_alias [OF assms(1)] t clean_split(3) [of a k]
      by (auto simp: OutputRef new_placeholder_def Let_def)
  next
    case (DirRef a)
    with assms(2) obtain sj where "alias_stage v a = Some sj" "clean a" by auto
    then show ?thesis
      using handle_dir [of v True a sj si r] new_RefOp_alias [OF assms(1)] t clean_split(4) [of a a]
      by (auto simp: DirRef new_placeholder_def Let_def)
  next
    case (ShellVar x)
    with assms(2) have "clean x" by auto
    then show ?thesis using t by (simp add: ShellVar new_placeholder_def clean_split(5) [of x x])
  qed (use assms in simp)
qed


subsection \<open>A whole text\<close>

lemma replace_seg:
  assumes "\<And>s. re s \<noteq> None \<Longrightarrow> prefix ''$'' s" "seg_ok v seg"
    and hit: "\<And>s. \<not> is_Plain seg \<Longrightarrow> re (seg_text new seg @ s) = Some ([seg_text new seg, seg_inner new seg], s)"
    and repl: "\<not> is_Plain seg \<Longrightarrow>
      \<exists>r'. repl [seg_text new seg, seg_inner new seg] r = Some (seg_value new v seg, r') \<and> seg_adds v si seg r r'"
  shows "\<exists>r'. seg_adds v si seg r r' \<and>
    (\<forall>s. replace_matches re repl (seg_text new seg @ s) r =
       map_option (\<lambda>(t, r). (seg_value new v seg @ t, r)) (replace_matches re repl s r'))"
proof (cases "is_Plain seg")
  case True
  then obtain p where p: "seg = Plain p" by (cases seg) auto
  have "replace_matches re repl (p @ s) r = map_option (\<lambda>(t, r). (p @ t, r)) (replace_matches re repl s r)" for s
    by (rule replace_matches_plain, erule assms(1), use assms(2) p in simp)
  then show ?thesis by (intro exI [of _ r]) (simp add: p seg_text_def)
next
  case False
  then obtain r' where r': "repl [seg_text new seg, seg_inner new seg] r = Some (seg_value new v seg, r')"
    "seg_adds v si seg r r'" using repl by blast
  have "seg_text new seg \<noteq> []" using False by (cases seg) (simp_all add: seg_text_def)
  then have "replace_matches re repl (seg_text new seg @ s) r =
      map_option (\<lambda>(t, r). (seg_value new v seg @ t, r)) (replace_matches re repl s r')" for s
    using hit [OF False, of s] r'(1) by (intro replace_matches_hit)
  with r'(2) show ?thesis by (intro exI [of _ r']) simp
qed

lemma replace_segs:
  assumes "\<And>seg r. seg \<in> set segs \<Longrightarrow> \<exists>r'. seg_adds v si seg r r' \<and>
    (\<forall>s. replace_matches re repl (seg_text new seg @ s) r =
       map_option (\<lambda>(t, r). (seg_value new v seg @ t, r)) (replace_matches re repl s r'))"
  shows "\<exists>r'. replace_matches re repl (concat (map (seg_text new) segs)) r =
      Some (concat (map (seg_value new v) segs), r') \<and>
    adds (length (filter (seg_fails v si) segs)) (length (filter (seg_warns v si) segs)) r r'"
  using assms
proof (induction segs arbitrary: r)
  case (Cons seg segs)
  from Cons.prems [of seg r] obtain r1 where r1: "seg_adds v si seg r r1"
    "\<And>s. replace_matches re repl (seg_text new seg @ s) r =
       map_option (\<lambda>(t, r). (seg_value new v seg @ t, r)) (replace_matches re repl s r1)" by auto
  from Cons.IH [OF Cons.prems, of r1] obtain r' where r': "replace_matches re repl (concat (map (seg_text new) segs)) r1 =
      Some (concat (map (seg_value new v) segs), r')"
    "adds (length (filter (seg_fails v si) segs)) (length (filter (seg_warns v si) segs)) r1 r'" by auto
  show ?case using r1(2) [of "concat (map (seg_text new) segs)"] r'(1) adds_trans [OF r1(1) r'(2)]
    by (auto split: if_splits)
qed simp



section \<open>An example\<close>

definition example_refs :: RefOpVisitor where
  "example_refs =
     \<lparr>rv_aliasToCheck = [''test''],
      rv_allActions = [(''build'', empty_Action\<lparr>ac_Alias := ''build'', ac_Namespaces := [''build'']\<rparr>, 0),
                       (''test'', empty_Action\<lparr>ac_Alias := ''test'', ac_Namespaces := [''test'']\<rparr>, 1)],
      rv_availableRefs = [''build'' \<mapsto> ''/build''],
      rv_availableOutputs = [''build'' \<mapsto> [''image'' \<mapsto> ''app'']], rv_allowMissingCustomScriptOutputs = False\<rparr>"


lemma outputs_without_key_panics:
  "handleOneParamOrCmdV2 lib v si ''${{ outputs.build }}'' r = None"
proof -
  have i: "list_all (\<lambda>c. c \<noteq> CHR ''{'' \<and> c \<noteq> CHR ''}'' \<and> \<not> re_space c) ''outputs.build''"
    "list_all (\<lambda>c. \<not> re_space c) ''outputs.build''" by (simp_all add: re_space_def)
  have "strings_SplitN ''outputs.build'' ''.'' 4 = [''outputs'', ''build'']"
    by (simp add: strings_SplitN_def eval_nat_numeral)
  then have "new_placeholder lib v si ori [''${{ outputs.build }}'', ''outputs.build''] r = None" for ori
    using strings_Trim_clean [OF i(2)] by (simp add: new_placeholder_def Let_def)
  then show ?thesis using PhRe_hit [OF _ i(1), of "[]"] by (simp add: handleOneParamOrCmdV2_def)
qed

text \<open>The errors of one action are reported again for the next one.\<close>

lemma errors_are_repeated:
  assumes "ac_Alias b \<in> set (rv_aliasToCheck v)" "ac_Params b = []" "ac_Commands b = []" "ac_Caches b = []" "ac_If b = []"
  shows "\<exists>s'. ref_loop lib v [(k, b, si)] r s = Inr s' \<and>
     sp_errs s' = sp_errs s @ map (\<lambda>e. error_text e (AtAction si (ac_Alias b))) (hr_Errs r)"
proof -
  have f: "sp_errs (fold (\<lambda>err. appendError err pl) es s) = sp_errs s @ map (\<lambda>e. error_text e pl) es" for es pl s
    by (induction es arbitrary: s) (simp_all add: appendError_def)
  have g: "sp_errs (fold (\<lambda>warn. appendWarn warn pl) es s) = sp_errs s" for es pl s
    by (induction es arbitrary: s) (simp_all add: appendWarn_def)
  show ?thesis using assms by (simp add: handleAction_def handle_if_def Let_def f g write_action_def)
qed

end
