(* ===== verification/Pipeline_Graph.thy ===== *)
theory Pipeline_Graph
  imports Pipeline_Yml
begin

text \<open>
  The form of a pipeline file that is drawn as a graph (\<^verbatim>\<open>apistructs.PipelineYml\<close>) and its conversion
  from and to the form that is run, from \<^verbatim>\<open>src/pkg/parser/pipelineyml/graph_pipelineyml.go\<close>. The records
  of the two packages that have the same fields are one record. The fields \<open>FlatActions\<close> and
  \<open>SnippetStages\<close>, which neither conversion reads or writes, are left out.
\<close>

section \<open>The graph form\<close>

record graph_Resources =
  gr_Cpu :: rat
  gr_Mem :: float64
  gr_Disk :: float64

record PipelineYmlAction =
  ya_Alias :: string
  ya_Type :: string
  ya_Description :: string
  ya_Version :: string
  ya_Params :: "(string \<times> yaml_value) list"
  ya_Image :: string
  ya_Commands :: "string list"
  ya_Timeout :: int
  ya_Namespaces :: "string list"
  ya_Resources :: graph_Resources
  ya_DisplayName :: string
  ya_LogoUrl :: string
  ya_Caches :: "ActionCache list"
  ya_SnippetConfig :: "SnippetConfig option"
  ya_If :: string
  ya_Loop :: "PipelineTaskLoop option"

record graph_yml =
  gy_Version :: string
  gy_Envs :: "(string \<times> string) list option"
  gy_Cron :: string
  gy_CronCompensator :: "CronCompensator option"
  gy_Stages :: "PipelineYmlAction option list list"
  gy_Params :: "PipelineParam list"
  gy_Outputs :: "PipelineOutput list"
  gy_NeedUpgrade :: bool
  gy_YmlContent :: string
  gy_On :: "TriggerConfig option"
  gy_Triggers :: "PipelineTrigger list"
  gy_Lifecycle :: "NetworkHookInfo list"

section \<open>Graph to file\<close>

definition toPipelineYamlParam :: "PipelineParam \<Rightarrow> PipelineParam" where
  "toPipelineYamlParam p =
     \<lparr>pp_Name = pp_Name p, pp_Required = pp_Required p, pp_Default = pp_Default p, pp_Desc = pp_Desc p, pp_Type = pp_Type p\<rparr>"

definition toPipelineYamlOutput :: "PipelineOutput \<Rightarrow> PipelineOutput" where
  "toPipelineYamlOutput p = \<lparr>po_Name = po_Name p, po_Desc = po_Desc p, po_Ref = po_Ref p\<rparr>"

definition toPipelineYamlHookInfo :: "NetworkHookInfo \<Rightarrow> NetworkHookInfo" where
  "toPipelineYamlHookInfo h = \<lparr>nh_Hook = nh_Hook h, nh_Client = nh_Client h, nh_Labels = nh_Labels h\<rparr>"

text \<open>The result of a conversion of a float that is out of range is the argument \<open>oor\<close>.\<close>

definition action_of_graph :: "(float64 \<Rightarrow> int) \<Rightarrow> PipelineYmlAction \<Rightarrow> typedActionMap" where
  "action_of_graph oor a =
     [(ya_Type a, Some (empty_Action
        \<lparr>ac_Alias := ya_Alias a, ac_Description := ya_Description a, ac_Version := ya_Version a, ac_Params := ya_Params a,
         ac_Image := ya_Image a, ac_Commands := ya_Commands a, ac_Timeout := ya_Timeout a, ac_If := ya_If a,
         ac_Loop := ya_Loop a, ac_Type := ya_Type a, ac_Namespaces := ya_Namespaces a,
         ac_Resources := \<lparr>rs_CPU = gr_Cpu (ya_Resources a), rs_MaxCPU = 0,
           rs_Mem = int64_of_float oor (gr_Mem (ya_Resources a)),
           rs_Disk = int64_of_float oor (gr_Disk (ya_Resources a)), rs_Network = []\<rparr>,
         ac_SnippetConfig := map_option (\<lambda>c. \<lparr>sc_Source = sc_Source c, sc_Name = sc_Name c, sc_Labels = sc_Labels c\<rparr>)
           (ya_SnippetConfig a),
         ac_Caches := map (\<lambda>c. \<lparr>ca_Key = ca_Key c, ca_Path = ca_Path c\<rparr>) (ya_Caches a)\<rparr>))]"

text \<open>An action that is null panics.\<close>

definition spec_of_graph :: "(float64 \<Rightarrow> int) \<Rightarrow> graph_yml \<Rightarrow> Spec option" where
  "spec_of_graph oor g =
     (if list_all (list_all (\<lambda>a. a \<noteq> None)) (gy_Stages g)
      then Some (empty_Spec
        \<lparr>sp_Version := gy_Version g, sp_Envs := gy_Envs g, sp_Cron := gy_Cron g,
         sp_CronCompensator := map_option (\<lambda>c. \<lparr>cc_Enable = cc_Enable c, cc_LatestFirst = cc_LatestFirst c,
           cc_StopIfLatterExecuted = cc_StopIfLatterExecuted c\<rparr>) (gy_CronCompensator g),
         sp_Stages := map (\<lambda>stage. \<lparr>sg_Actions = map (\<lambda>a. action_of_graph oor (the a)) stage\<rparr>) (gy_Stages g),
         sp_Params := map toPipelineYamlParam (gy_Params g), sp_Outputs := map toPipelineYamlOutput (gy_Outputs g),
         sp_Lifecycle := map toPipelineYamlHookInfo (gy_Lifecycle g)\<rparr>)
      else None)"

section \<open>File to graph\<close>

definition toApiParam :: "PipelineParam \<Rightarrow> PipelineParam" where
  "toApiParam p =
     \<lparr>pp_Name = pp_Name p, pp_Required = pp_Required p, pp_Default = pp_Default p, pp_Desc = pp_Desc p, pp_Type = pp_Type p\<rparr>"

definition toApiOutput :: "PipelineOutput \<Rightarrow> PipelineOutput" where
  "toApiOutput p = \<lparr>po_Name = po_Name p, po_Desc = po_Desc p, po_Ref = po_Ref p\<rparr>"

definition toApiSnippetConfig :: "SnippetConfig option \<Rightarrow> SnippetConfig option" where
  "toApiSnippetConfig v = map_option (\<lambda>c. \<lparr>sc_Source = sc_Source c, sc_Name = sc_Name c, sc_Labels = sc_Labels c\<rparr>) v"

definition graph_on :: "TriggerConfig option \<Rightarrow> TriggerConfig option" where
  "graph_on on =
     (case on of
        None \<Rightarrow> None
      | Some c \<Rightarrow>
          if tc_Merge c \<noteq> None \<or> tc_Push c \<noteq> None
          then Some \<lparr>tc_Push = map_option (\<lambda>p. \<lparr>pt_Branches = pt_Branches p, pt_Tags = pt_Tags p\<rparr>) (tc_Push c),
                     tc_Merge = map_option (\<lambda>m. \<lparr>mt_Branches = mt_Branches m\<rparr>) (tc_Merge c)\<rparr>
          else None)"

definition DefaultCronCompensator :: CronCompensator where
  "DefaultCronCompensator = \<lparr>cc_Enable = False, cc_LatestFirst = True, cc_StopIfLatterExecuted = True\<rparr>"

definition cronCompensatorReset :: "CronCompensator option \<Rightarrow> CronCompensator option" where
  "cronCompensatorReset c =
     (case c of
        None \<Rightarrow> None
      | Some k \<Rightarrow>
          if cc_Enable k = cc_Enable DefaultCronCompensator \<and> cc_LatestFirst k = cc_LatestFirst DefaultCronCompensator \<and>
             cc_StopIfLatterExecuted k = cc_StopIfLatterExecuted DefaultCronCompensator
          then None else c)"

definition graph_of_action :: "Action \<Rightarrow> PipelineYmlAction" where
  "graph_of_action a =
     \<lparr>ya_Alias = ac_Alias a, ya_Type = ac_Type a, ya_Description = [], ya_Version = ac_Version a, ya_Params = ac_Params a,
      ya_Image = ac_Image a, ya_Commands = ac_Commands a, ya_Timeout = ac_Timeout a, ya_Namespaces = ac_Namespaces a,
      ya_Resources = \<lparr>gr_Cpu = rs_CPU (ac_Resources a), gr_Mem = float_of_int (rs_Mem (ac_Resources a)),
        gr_Disk = float_of_int (rs_Disk (ac_Resources a))\<rparr>,
      ya_DisplayName = [], ya_LogoUrl = [],
      ya_Caches = map (\<lambda>c. \<lparr>ca_Key = ca_Key c, ca_Path = ca_Path c\<rparr>) (ac_Caches a),
      ya_SnippetConfig = (if ac_SnippetConfig a \<noteq> None then toApiSnippetConfig (ac_SnippetConfig a) else None),
      ya_If = ac_If a, ya_Loop = ac_Loop a\<rparr>"

text \<open>The stages, converted last; an action that is null panics.\<close>

definition graph_stages :: "Stage list \<Rightarrow> PipelineYmlAction option list list option" where
  "graph_stages stages =
     (if list_all (\<lambda>stage. list_all (list_all (\<lambda>(_, a). a \<noteq> None)) (sg_Actions stage)) stages
      then Some (map (\<lambda>stage. map (\<lambda>(_, a). Some (graph_of_action (the a))) (concat (sg_Actions stage))) stages)
      else None)"

text \<open>The field \<open>CronCompensator\<close> of the result is reset, and never set.\<close>

definition graph_of_spec :: "bool \<Rightarrow> string \<Rightarrow> Spec \<Rightarrow> graph_yml option" where
  "graph_of_spec needUpgrade content s =
     map_option (\<lambda>stages.
       \<lparr>gy_Version = sp_Version s, gy_Envs = sp_Envs s, gy_Cron = sp_Cron s,
        gy_CronCompensator = cronCompensatorReset None, gy_Stages = stages,
        gy_Params = map toApiParam (sp_Params s), gy_Outputs = map toApiOutput (sp_Outputs s),
        gy_NeedUpgrade = needUpgrade, gy_YmlContent = content, gy_On = graph_on (sp_On s), gy_Triggers = sp_Triggers s,
        gy_Lifecycle = map (\<lambda>h. \<lparr>nh_Hook = nh_Hook h, nh_Client = nh_Client h, nh_Labels = nh_Labels h\<rparr>) (sp_Lifecycle s)\<rparr>)
       (graph_stages (sp_Stages s))"

section \<open>There and back\<close>

text \<open>What of an action survives the way to the graph and back.\<close>

definition graph_part :: "Action \<Rightarrow> Action" where
  "graph_part a =
     a\<lparr>ac_Description := [], ac_Labels := [], ac_Workspace := [], ac_Needs := [], ac_NeedNamespaces := [],
       ac_Resources := (ac_Resources a)\<lparr>rs_MaxCPU := 0, rs_Network := []\<rparr>\<rparr>"

definition exact_sizes :: "Action \<Rightarrow> bool" where
  "exact_sizes a \<longleftrightarrow> \<bar>rs_Mem (ac_Resources a)\<bar> < 2 ^ 53 \<and> \<bar>rs_Disk (ac_Resources a)\<bar> < 2 ^ 53"

lemma int_of_float_of_int: "\<bar>n\<bar> < 2 ^ 53 \<Longrightarrow> int64_of_float oor (float_of_int n) = n"
  by (auto simp: float_of_int_exact int64_of_float_def trunc_rat_def)

lemma copy_record [simp]:
  "\<lparr>ca_Key = ca_Key c, ca_Path = ca_Path c\<rparr> = c"
  "\<lparr>sc_Source = sc_Source sc, sc_Name = sc_Name sc, sc_Labels = sc_Labels sc\<rparr> = sc"
  "\<lparr>nh_Hook = nh_Hook h, nh_Client = nh_Client h, nh_Labels = nh_Labels h\<rparr> = h"
  by simp_all

lemma action_there_and_back:
  "exact_sizes a \<Longrightarrow> action_of_graph oor (graph_of_action a) = [(ac_Type a, Some (graph_part a))]"
  by (cases a) (simp add: action_of_graph_def graph_of_action_def graph_part_def empty_Action_def exact_sizes_def
      int_of_float_of_int toApiSnippetConfig_def option.map_ident)

lemma params_there_and_back [simp]:
  "toPipelineYamlParam (toApiParam p) = p" "toPipelineYamlOutput (toApiOutput x) = x" "toPipelineYamlHookInfo h = h"
  by (simp_all add: toPipelineYamlParam_def toApiParam_def toPipelineYamlOutput_def toApiOutput_def toPipelineYamlHookInfo_def)

definition spec_graph_part :: "Spec \<Rightarrow> Spec" where
  "spec_graph_part s =
     s\<lparr>sp_On := None, sp_Triggers := [], sp_Storage := None, sp_CronCompensator := None, sp_errs := [], sp_warns := [],
       sp_allActions := [],
       sp_Stages := map (\<lambda>stage. \<lparr>sg_Actions = map (\<lambda>(_, a). [(ac_Type (the a), Some (graph_part (the a)))])
         (concat (sg_Actions stage))\<rparr>) (sp_Stages s)\<rparr>"

lemma spec_there_and_back:
  assumes "\<And>stage tam e. stage \<in> set (sp_Stages s) \<Longrightarrow> tam \<in> set (sg_Actions stage) \<Longrightarrow> e \<in> set tam \<Longrightarrow>
      \<exists>a. snd e = Some a \<and> exact_sizes a"
  shows "\<exists>g. graph_of_spec up content s = Some g \<and> spec_of_graph oor g = Some (spec_graph_part s)"
proof -
  let ?gs = "map (\<lambda>stage. map (\<lambda>(_, a). Some (graph_of_action (the a))) (concat (sg_Actions stage))) (sp_Stages s)"
  have gs: "graph_stages (sp_Stages s) = Some ?gs"
    using assms by (fastforce simp: graph_stages_def list_all_iff)
  have "action_of_graph oor (graph_of_action (the a)) = [(ac_Type (the a), Some (graph_part (the a)))]"
    if "stage \<in> set (sp_Stages s)" "(t, a) \<in> set (concat (sg_Actions stage))" for stage t a
    using assms [of stage _ "(t, a)"] that by (fastforce simp: action_there_and_back)
  then have returned: "map (\<lambda>stage. \<lparr>sg_Actions = map (\<lambda>a. action_of_graph oor (the a)) stage\<rparr>) ?gs =
      sp_Stages (spec_graph_part s)"
    by (simp add: spec_graph_part_def del: set_concat) (intro ballI map_cong refl, fastforce)
  have "list_all (list_all (\<lambda>a. a \<noteq> None)) ?gs" by (auto simp: list_all_iff)
  moreover obtain g where g: "graph_of_spec up content s = Some g" and "gy_Stages g = ?gs"
    and "gy_Version g = sp_Version s" "gy_Envs g = sp_Envs s" "gy_Cron g = sp_Cron s" "gy_CronCompensator g = None"
    "map toPipelineYamlParam (gy_Params g) = sp_Params s" "map toPipelineYamlOutput (gy_Outputs g) = sp_Outputs s"
    "map toPipelineYamlHookInfo (gy_Lifecycle g) = sp_Lifecycle s"
    by (simp add: graph_of_spec_def gs cronCompensatorReset_def comp_def map_idI)
  ultimately have "spec_of_graph oor g = Some (empty_Spec\<lparr>sp_Version := sp_Version s, sp_Envs := sp_Envs s,
      sp_Cron := sp_Cron s, sp_Stages := sp_Stages (spec_graph_part s), sp_Params := sp_Params s,
      sp_Outputs := sp_Outputs s, sp_Lifecycle := sp_Lifecycle s\<rparr>)"
    by (simp only: spec_of_graph_def returned [symmetric]) (simp add: empty_Spec_def)
  then show ?thesis using g by (cases s) (simp add: empty_Spec_def spec_graph_part_def)
qed

end
