(* ===== verification/Pipeline_Parse.thy ===== *)
theory Pipeline_Parse
  imports Pipeline_Ref Pipeline_Graph
begin

text \<open>
  Reading a pipeline file (\<^verbatim>\<open>pipelineyml.go\<close>, \<^verbatim>\<open>parse.go\<close>, \<^verbatim>\<open>generate.go\<close> and the visitors of
  secrets, labels, parameters and cron under \<^verbatim>\<open>src/pkg/parser/pipelineyml\<close>): the text is decoded,
  rewritten, decoded again, and then completed and checked. The YAML library, the cron package
  and the upgrade of files of version 1.0 (\<^verbatim>\<open>upgrade_v1.go\<close>) are arguments. The order of a list that
  stands for a map is the order in which the program happens to range over it.
\<close>

section \<open>Rewriting the text\<close>

text \<open>The expression \<open>\(\(([^()\s]+)\)\)\<close>.\<close>

definition validSecretRegexp :: matcher where
  "validSecretRegexp s =
     (if prefix ''(('' s then
        let inner = takeWhile (\<lambda>c. c \<noteq> CHR ''('' \<and> c \<noteq> CHR '')'' \<and> \<not> re_space c) (drop 2 s);
            rest = drop (2 + length inner) s
        in if inner \<noteq> [] \<and> prefix ''))'' rest then Some ([''(('' @ inner @ ''))'', inner], drop 2 rest) else None
      else None)"

definition unwrapSecret :: "string \<Rightarrow> string" where
  "unwrapSecret wrappedSecret = TrimSuffixes (TrimPrefixes wrappedSecret [''((''] ) [''))'']"

definition ReplaceRandomParams :: "(string \<Rightarrow> string) \<Rightarrow> string \<Rightarrow> string" where
  "ReplaceRandomParams mock ori =
     (case replace_matches PhRe (\<lambda>sub st.
         let ss = strings_SplitN (strings_Trim (sub ! 1) '' '') ''.'' 3
         in Some (if length ss < 2 then sub ! 0
                  else if ss ! 0 = ''random'' then mock (ss ! 1) else sub ! 0, st)) ori () of
        None \<Rightarrow> ori
      | Some (t, _) \<Rightarrow> t)"

text \<open>The errors \<open>RenderSecrets\<close> collects stay in a local variable; the error it returns is always nil.\<close>

definition RenderSecrets ::
  "(string \<Rightarrow> string) \<Rightarrow> string \<Rightarrow> (string \<times> string) list \<Rightarrow> string \<times> string option" where
  "RenderSecrets mock input secrets =
     (let replaced =
            (case replace_matches validSecretRegexp (\<lambda>sub st.
                Some (case map_of secrets (unwrapSecret (sub ! 0)) of None \<Rightarrow> sub ! 0 | Some val \<Rightarrow> val, st)) input () of
               None \<Rightarrow> input
             | Some (t, _) \<Rightarrow> t)
      in (fold (\<lambda>(k, val). replace_all (''${{ configs.'' @ k @ '' }}'') (ReplaceRandomParams mock val)) secrets replaced,
          None))"

definition RenderLabels :: "string \<Rightarrow> (string \<times> string) list \<Rightarrow> string" where
  "RenderLabels input labels =
     fold (\<lambda>(k, val) replaced.
       let ss = strings_SplitN k ''.'' 4
       in if length ss \<noteq> 3 then replaced
          else if ss ! 0 \<noteq> ''triggers'' then replaced
          else replace_all (''${{ triggers.'' @ ss ! 1 @ ''.'' @ ss ! 2 @ '' }}'') val replaced) labels input"

text \<open>\<open>AnyOther\<close> is the text of a number with a fraction, a truth value or a value of another kind.\<close>

definition param_text :: "any_value \<Rightarrow> string" where
  "param_text val =
     (case val of AnyNil \<Rightarrow> ''<nil>'' | AnyString s \<Rightarrow> s | AnyInt n \<Rightarrow> Itoa n | AnyOther s \<Rightarrow> s)"

definition ReplacePipelineParams :: "(string \<Rightarrow> string) \<Rightarrow> string \<Rightarrow> (string \<times> any_value) list \<Rightarrow> string" where
  "ReplacePipelineParams mock pipeline params =
     fold (\<lambda>(k, val) pipeline.
       let replaceStr = ReplaceRandomParams mock (param_text val)
       in replace_all (''${{ params.'' @ k @ '' }}'') replaceStr
            (replace_all (''${params.'' @ k @ ''}'') replaceStr pipeline)) params pipeline"

section \<open>Cron expressions\<close>

fun fields_acc :: "string \<Rightarrow> string \<Rightarrow> string list" where
  "fields_acc w [] = (if w = [] then [] else [w])"
| "fields_acc w (c # s) =
     (if is_space c then (if w = [] then [] else [w]) @ fields_acc [] s else fields_acc (w @ [c]) s)"

definition strings_Fields :: "string \<Rightarrow> string list" where
  "strings_Fields s = fields_acc [] s"

record CronVisitor =
  cv_cronStartTime :: "time option"
  cv_cronEndTime :: "time option"
  cv_count :: int
  cv_nextTimes :: "time list"
  cv_isCron :: bool

definition maxListNextScheduleCount :: nat where
  "maxListNextScheduleCount = 1000"

definition NewCronVisitor :: CronVisitor where
  "NewCronVisitor =
     \<lparr>cv_cronStartTime = None, cv_cronEndTime = None, cv_count = 5, cv_nextTimes = [], cv_isCron = False\<rparr>"

text \<open>A schedule is its method \<open>Next\<close>.\<close>

function next_times :: "(time \<Rightarrow> time) \<Rightarrow> time option \<Rightarrow> int \<Rightarrow> time \<Rightarrow> time list \<Rightarrow> time list" where
  "next_times sched endTime cnt scheduleFrom ts =
     (if length ts \<ge> maxListNextScheduleCount then ts
      else if cnt \<ge> 0 \<and> int (length ts) \<ge> cnt then ts
      else
        let nextTime = sched scheduleFrom
        in if (case endTime of None \<Rightarrow> False | Some e \<Rightarrow> e < nextTime) then ts
           else next_times sched endTime cnt nextTime (ts @ [nextTime]))"
  by auto
termination
  by (relation "measure (\<lambda>(_, _, _, _, ts). maxListNextScheduleCount - length ts)") auto

declare next_times.simps [simp del]

record cron_lib =
  cl_Parse :: "string \<Rightarrow> string + (time \<Rightarrow> time)"
  cl_ParseStandard :: "string \<Rightarrow> string + (time \<Rightarrow> time)"
  cl_now :: time

definition CronVisitor_Visit :: "cron_lib \<Rightarrow> CronVisitor \<Rightarrow> Spec \<Rightarrow> CronVisitor \<times> Spec" where
  "CronVisitor_Visit lib v s =
     (if sp_Cron s = [] then (v\<lparr>cv_isCron := False\<rparr>, s\<lparr>sp_CronCompensator := None\<rparr>)
      else
        let v = v\<lparr>cv_isCron := True\<rparr>;
            fields = strings_Fields (sp_Cron s);
            s = (if length fields = 7 then s\<lparr>sp_Cron := strings_Join (butlast fields) '' ''\<rparr> else s);
            res = (if length fields = 7 \<or> length fields = 6 then cl_Parse lib (sp_Cron s) else cl_ParseStandard lib (sp_Cron s))
        in (case res of
              Inl err \<Rightarrow> (v, appendError err NoPlace s)
            | Inr sched \<Rightarrow>
                let scheduleFrom = (case cv_cronStartTime v of None \<Rightarrow> cl_now lib | Some t \<Rightarrow> t)
                in (v\<lparr>cv_nextTimes := next_times sched (cv_cronEndTime v) (cv_count v) scheduleFrom (cv_nextTimes v)\<rparr>, s)))"

section \<open>Reading a file\<close>

text \<open>The mapping of action types and the snippet caches, which only the upgrade and other callers use, are left out.\<close>

record PipelineYml =
  py_data :: string
  py_s :: Spec
  py_needUpgrade :: bool
  py_upgradedYmlContent :: string
  py_envs :: "(string \<times> string) list option"
  py_flatParams :: bool
  py_aliasToCheckRefOp :: "string list"
  py_refs :: "string \<rightharpoonup> string"
  py_outputs :: outputs
  py_allowMissingCustomScriptOutputs :: bool
  py_secrets :: "(string \<times> string) list option"
  py_secretsRecursiveRenderTimes :: int
  py_triggerLabels :: "(string \<times> string) list option"
  py_runParams :: "(string \<times> any_value) list option"

text \<open>The file a call without options starts with.\<close>

definition new_PipelineYml :: "string \<Rightarrow> PipelineYml" where
  "new_PipelineYml b =
     \<lparr>py_data = b, py_s = empty_Spec, py_needUpgrade = False, py_upgradedYmlContent = [], py_envs = None,
      py_flatParams = False, py_aliasToCheckRefOp = [],
      py_refs = Map.empty, py_outputs = Map.empty, py_allowMissingCustomScriptOutputs = False, py_secrets = None,
      py_secretsRecursiveRenderTimes = 0, py_triggerLabels = None, py_runParams = None\<rparr>"

text \<open>How far a call gets: a panic with the file at that point and its message, an early return, or on.\<close>

datatype new_step = Panicked Spec string | Failed string | Going PipelineYml

fun then_step :: "new_step \<Rightarrow> (PipelineYml \<Rightarrow> new_step) \<Rightarrow> new_step" where
  "then_step (Going y) f = f y"
| "then_step x f = x"

text \<open>
  The YAML library on the three types it is used with, formatting of a text without arguments, the
  reader of files of version 1.0, and the order in which maps are ranged over.
\<close>

record new_lib =
  nl_Version :: "string \<Rightarrow> string + string"
  nl_Graph :: "string \<Rightarrow> string + graph_yml"
  nl_Encode :: "Spec \<Rightarrow> string + string"
  nl_Unmarshal :: "string \<Rightarrow> Spec \<Rightarrow> string option \<times> Spec"
  nl_parseV1 :: "PipelineYml \<Rightarrow> new_step"
  nl_Errorf :: "string \<Rightarrow> string"
  nl_oor :: "float64 \<Rightarrow> int"
  nl_yml :: yml_lib
  nl_ref :: ref_lib
  nl_cron :: cron_lib
  nl_iter :: iteration
  nl_iter2 :: iteration
  nl_panic :: string

definition polishNamespaces :: "Spec \<Rightarrow> Spec" where
  "polishNamespaces s =
     s\<lparr>sp_Stages := map (\<lambda>stage. stage\<lparr>sg_Actions := map (map (\<lambda>(t, action).
         (t, map_option (\<lambda>a. a\<lparr>ac_Namespaces := RemoveSlice (ac_Namespaces a) [ac_Alias a]\<rparr>) action)))
         (sg_Actions stage)\<rparr>) (sp_Stages s)\<rparr>"

definition GenerateYml :: "new_lib \<Rightarrow> Spec \<Rightarrow> (string + string) \<times> Spec" where
  "GenerateYml lib s = (let s = polishNamespaces s in (nl_Encode lib s, s))"

definition ConvertGraphPipelineYmlContent :: "new_lib \<Rightarrow> string \<Rightarrow> (string + string) option" where
  "ConvertGraphPipelineYmlContent lib d =
     (case nl_Graph lib d of
        Inl err \<Rightarrow> Some (Inl err)
      | Inr frontendYmlSpec \<Rightarrow> map_option (\<lambda>s. fst (GenerateYml lib s)) (spec_of_graph (nl_oor lib) frontendYmlSpec))"

text \<open>What the deferred function of \<open>parse\<close> makes of an error.\<close>

definition parse_error :: "new_lib \<Rightarrow> string list \<Rightarrow> string \<Rightarrow> string" where
  "parse_error lib errs err =
     (let polishErrs = filter (\<lambda>s. \<not> strings_Contains s ''cannot unmarshal'') errs;
          errs = (if length errs \<ge> 2 \<and> polishErrs \<noteq> [] then polishErrs else errs)
      in if errs \<noteq> [] then nl_Errorf lib (strutil_Join errs [CHR 0x0A] True) else err)"

text \<open>
  A file that is read neither as a file nor as a graph is refused. The text a graph is converted to
  is read again, so nothing in the function itself ends the recursion: \<open>None\<close> stands for no end.
\<close>

partial_function (option) yml_parse :: "new_lib \<Rightarrow> string \<Rightarrow> string list \<Rightarrow> PipelineYml \<Rightarrow> new_step option" where
  "yml_parse lib b errs y =
     (case nl_Version lib b of
        Inl err \<Rightarrow> Some (Failed (parse_error lib errs (''failed to get version from yaml, err: '' @ err)))
      | Inr version \<Rightarrow>
          if version = ''1.1'' then
            (case nl_Unmarshal lib b (py_s y) of
               (None, s) \<Rightarrow> Some (Going (y\<lparr>py_s := s\<rparr>))
             | (Some err, s) \<Rightarrow>
                 let errs = errs @ [''parsed by 1.1 spec, err: '' @ err]
                 in (case ConvertGraphPipelineYmlContent lib b of
                       None \<Rightarrow> Some (Panicked s (nl_panic lib))
                     | Some (Inl err) \<Rightarrow>
                         Some (Failed (parse_error lib (errs @ [''parsed by 1.1 spec(apistructs), err: '' @ err]) err))
                     | Some (Inr converted) \<Rightarrow>
                         Option.bind (yml_parse lib converted errs (y\<lparr>py_s := s, py_data := converted\<rparr>)) (\<lambda>r.
                           Some (case r of Failed err \<Rightarrow> Failed (parse_error lib errs err) | _ \<Rightarrow> r))))
          else if version = ''1.0'' \<or> version = ''1'' then
            Some (case nl_parseV1 lib (y\<lparr>py_needUpgrade := True\<rparr>) of
                    Failed err \<Rightarrow> Failed (parse_error lib errs (''failed to parse 1.0 pipelineyml, err: '' @ err))
                  | Going y \<Rightarrow> Going (y\<lparr>py_data := py_upgradedYmlContent y\<rparr>)
                  | Panicked s err \<Rightarrow> Panicked s err)
          else Some (Failed (parse_error lib errs
                 (''invalid version: '' @ version @ '', currently support: 1.0, 1.1''))))"

definition unmarshal_into :: "new_lib \<Rightarrow> string \<Rightarrow> Spec \<Rightarrow> Spec" where
  "unmarshal_into lib d s =
     (case nl_Unmarshal lib d s of
        (None, s) \<Rightarrow> s
      | (Some err, s) \<Rightarrow> appendError err NoPlace s)"

fun render_times :: "nat \<Rightarrow> (string \<Rightarrow> string) \<Rightarrow> string \<Rightarrow> (string \<times> string) list \<Rightarrow> string" where
  "render_times 0 mock d secrets = d"
| "render_times (Suc n) mock d secrets = render_times n mock (fst (RenderSecrets mock d secrets)) secrets"

definition SecretVisitor_Visit :: "new_lib \<Rightarrow> string \<Rightarrow> (string \<times> string) list \<Rightarrow> int \<Rightarrow> Spec \<Rightarrow> Spec" where
  "SecretVisitor_Visit lib d secrets recursiveRenderTimes s =
     unmarshal_into lib
       (render_times (if recursiveRenderTimes < 1 then 2 else nat recursiveRenderTimes) (rl_MockValue (nl_ref lib)) d secrets) s"

definition SecretNotFoundSecret_Visit :: "new_lib \<Rightarrow> string \<Rightarrow> (string \<times> string) list \<Rightarrow> Spec \<Rightarrow> Spec" where
  "SecretNotFoundSecret_Visit lib d secrets s =
     (case RenderSecrets (rl_MockValue (nl_ref lib)) d secrets of
        (_, Some err) \<Rightarrow> appendError err NoPlace s
      | (_, None) \<Rightarrow> s)"

definition EnvInsertVisitor_Visit :: "new_lib \<Rightarrow> (string \<times> string) list option \<Rightarrow> Spec \<Rightarrow> Spec" where
  "EnvInsertVisitor_Visit lib envs s =
     (case envs of
        None \<Rightarrow> s
      | Some envs \<Rightarrow>
          let es = fold (\<lambda>(k, val). AList.update k val) envs (case sp_Envs s of None \<Rightarrow> [] | Some es \<Rightarrow> es)
          in (case GenerateYml lib (s\<lparr>sp_Envs := Some es\<rparr>) of
                (Inl err, s) \<Rightarrow> appendError err NoPlace s
              | (Inr _, s) \<Rightarrow> s))"

definition ParamsVisitor_Visit :: "new_lib \<Rightarrow> string \<Rightarrow> (string \<times> any_value) list \<Rightarrow> Spec \<Rightarrow> Spec" where
  "ParamsVisitor_Visit lib d runParams s =
     (let runParamsMap = fold (\<lambda>(k, val). AList.update k val) runParams [];
          replaced = ReplacePipelineParams (rl_MockValue (nl_ref lib)) d runParamsMap
      in (case nl_Unmarshal lib replaced s of
            (None, s) \<Rightarrow> s
          | (Some err, s) \<Rightarrow> appendError (''failed to unmarshal to spec after replaced params, err: '' @ err) NoPlace s))"

definition generate_step :: "new_lib \<Rightarrow> PipelineYml \<Rightarrow> new_step" where
  "generate_step lib y =
     (case GenerateYml lib (py_s y) of
        (Inl err, s) \<Rightarrow> Panicked s err
      | (Inr d, s) \<Rightarrow> Going (y\<lparr>py_data := d, py_s := s\<rparr>))"

definition labels_step :: "new_lib \<Rightarrow> PipelineYml \<Rightarrow> new_step" where
  "labels_step lib y =
     (case py_triggerLabels y of
        None \<Rightarrow> Going y
      | Some labels \<Rightarrow>
          generate_step lib (y\<lparr>py_s := unmarshal_into lib (RenderLabels (py_data y) labels) (py_s y)\<rparr>))"

definition secrets_visit :: "new_lib \<Rightarrow> (string \<times> string) list \<Rightarrow> PipelineYml \<Rightarrow> PipelineYml" where
  "secrets_visit lib secrets y =
     y\<lparr>py_s := SecretVisitor_Visit lib (py_data y) secrets (py_secretsRecursiveRenderTimes y) (py_s y)\<rparr>"

definition secrets_step :: "new_lib \<Rightarrow> PipelineYml \<Rightarrow> new_step" where
  "secrets_step lib y =
     (case py_secrets y of
        None \<Rightarrow> Going y
      | Some secrets \<Rightarrow>
          let y = secrets_visit lib secrets y;
              y = y\<lparr>py_s := EnvInsertVisitor_Visit lib (py_envs y) (py_s y)\<rparr>
          in then_step (generate_step lib y) (\<lambda>y.
               let y = secrets_visit lib secrets y
               in Going (y\<lparr>py_s := SecretNotFoundSecret_Visit lib (py_data y) secrets (py_s y)\<rparr>)))"

definition params_step :: "new_lib \<Rightarrow> PipelineYml \<Rightarrow> new_step" where
  "params_step lib y =
     (case py_runParams y of
        None \<Rightarrow> Going y
      | Some runParams \<Rightarrow>
          let y = y\<lparr>py_s := ParamsVisitor_Visit lib (py_data y) runParams (py_s y)\<rparr>
          in (case mergeErrors (py_s y) of
                Some err \<Rightarrow> Failed err
              | None \<Rightarrow>
                  then_step (generate_step lib y) (\<lambda>y.
                    Going (case py_secrets y of None \<Rightarrow> y | Some secrets \<Rightarrow> secrets_visit lib secrets y))))"

definition refs_step :: "new_lib \<Rightarrow> PipelineYml \<Rightarrow> new_step" where
  "refs_step lib y =
     (if py_aliasToCheckRefOp y = [] then Going y
      else (case RefOpVisitor_Visit (nl_ref lib)
                   \<lparr>rv_aliasToCheck = py_aliasToCheckRefOp y, rv_allActions = [], rv_availableRefs = py_refs y,
                    rv_availableOutputs = py_outputs y,
                    rv_allowMissingCustomScriptOutputs = py_allowMissingCustomScriptOutputs y\<rparr> (py_s y) of
              Inl s \<Rightarrow> Panicked s (nl_panic lib)
            | Inr s \<Rightarrow> Going (y\<lparr>py_s := s\<rparr>)))"

definition stages_step :: "new_lib \<Rightarrow> PipelineYml \<Rightarrow> new_step" where
  "stages_step lib y =
     (let s = StageVisitor_Visit (nl_yml lib) False (nl_iter lib) (py_s y);
          s = snd (CronVisitor_Visit (nl_cron lib) NewCronVisitor s)
      in (case TimeoutVisitor_Visit s of
            None \<Rightarrow> Panicked s (nl_panic lib)
          | Some s \<Rightarrow>
              then_step (refs_step lib (y\<lparr>py_s := s\<rparr>)) (\<lambda>y.
                Going (if py_flatParams y
                       then y\<lparr>py_s := StageVisitor_Visit (nl_yml lib) True (nl_iter2 lib) (py_s y)\<rparr> else y))))"

definition visit_steps :: "new_lib \<Rightarrow> PipelineYml \<Rightarrow> new_step" where
  "visit_steps lib y =
     (let s = EnvVisitor_Visit (case py_envs y of None \<Rightarrow> [] | Some envs \<Rightarrow> envs) (VersionVisitor_Visit (py_s y))
      in then_step (then_step (then_step (labels_step lib (y\<lparr>py_s := s\<rparr>)) (secrets_step lib)) (params_step lib)) (stages_step lib))"

text \<open>The deferred function of \<open>New\<close> and its return.\<close>

definition new_result :: "new_step \<Rightarrow> string + PipelineYml" where
  "new_result r =
     (case r of
        Panicked s err \<Rightarrow>
          Inl (case mergeErrors (appendError (''recover from parser, err: '' @ err) NoPlace s) of None \<Rightarrow> [] | Some e \<Rightarrow> e)
      | Failed err \<Rightarrow> Inl err
      | Going y \<Rightarrow> (case mergeErrors (py_s y) of None \<Rightarrow> Inr y | Some err \<Rightarrow> Inl err))"

definition yml_New :: "new_lib \<Rightarrow> string \<Rightarrow> PipelineYml \<Rightarrow> (string + PipelineYml) option" where
  "yml_New lib b y =
     map_option (\<lambda>r. new_result (then_step r (visit_steps lib))) (yml_parse lib (NormalizeNewlines b) [] y)"

definition ConvertToGraphPipelineYml :: "new_lib \<Rightarrow> string \<Rightarrow> (string + graph_yml option) option" where
  "ConvertToGraphPipelineYml lib d =
     map_option (\<lambda>r. case r of
         Inl err \<Rightarrow> Inl err
       | Inr y \<Rightarrow>
           if py_needUpgrade y then Inr (graph_of_spec True (py_upgradedYmlContent y) (py_s y))
           else (case GenerateYml lib (py_s y) of
                   (Inl err, _) \<Rightarrow> Inl err
                 | (Inr content, s) \<Rightarrow> Inr (graph_of_spec False content s))) (yml_New lib d (new_PipelineYml d))"

section \<open>Cron times\<close>

text \<open>The times listed are those \<open>Next\<close> gives one after the other.\<close>

definition stops :: "(time \<Rightarrow> time) \<Rightarrow> time option \<Rightarrow> int \<Rightarrow> time \<Rightarrow> nat \<Rightarrow> bool" where
  "stops sched endTime cnt t n \<longleftrightarrow>
     n \<ge> maxListNextScheduleCount \<or> 0 \<le> cnt \<and> cnt \<le> int n \<or> (\<exists>e. endTime = Some e \<and> e < (sched ^^ Suc n) t)"

lemma next_times_spec:
  "ts = map (\<lambda>i. (sched ^^ Suc i) t) [0..<length ts] \<Longrightarrow> scheduleFrom = (sched ^^ length ts) t \<Longrightarrow>
     \<exists>n\<ge>length ts. next_times sched endTime cnt scheduleFrom ts = map (\<lambda>i. (sched ^^ Suc i) t) [0..<n] \<and>
       stops sched endTime cnt t n \<and> (\<forall>m. length ts \<le> m \<and> m < n \<longrightarrow> \<not> stops sched endTime cnt t m)"
proof (induction sched endTime cnt scheduleFrom ts rule: next_times.induct)
  case (1 sched endTime cnt scheduleFrom ts)
  have nx: "sched scheduleFrom = (sched ^^ Suc (length ts)) t" using "1.prems"(2) by simp
  have s: "stops sched endTime cnt t (length ts) \<longleftrightarrow> length ts \<ge> maxListNextScheduleCount \<or>
      0 \<le> cnt \<and> cnt \<le> int (length ts) \<or> (case endTime of None \<Rightarrow> False | Some e \<Rightarrow> e < sched scheduleFrom)"
    unfolding stops_def nx by (auto split: option.splits)
  show ?case
  proof (cases "stops sched endTime cnt t (length ts)")
    case True
    then have "next_times sched endTime cnt scheduleFrom ts = ts"
      unfolding s by (subst next_times.simps) (auto simp: Let_def)
    with True "1.prems"(1) show ?thesis by (intro exI [of _ "length ts"]) auto
  next
    case False
    let ?ts = "ts @ [sched scheduleFrom]"
    have "?ts = map (\<lambda>i. (sched ^^ Suc i) t) [0..<length ?ts]"
      using "1.prems"(1) nx by simp
    moreover have "sched scheduleFrom = (sched ^^ length ?ts) t" using nx by simp
    ultimately obtain n where n: "length ?ts \<le> n"
      "next_times sched endTime cnt (sched scheduleFrom) ?ts = map (\<lambda>i. (sched ^^ Suc i) t) [0..<n]"
      "stops sched endTime cnt t n" "\<And>m. length ?ts \<le> m \<and> m < n \<Longrightarrow> \<not> stops sched endTime cnt t m"
      using "1.IH" [OF _ _ refl] False unfolding s by fastforce
    have "next_times sched endTime cnt scheduleFrom ts = next_times sched endTime cnt (sched scheduleFrom) ?ts"
      using False unfolding s by (subst next_times.simps) (auto simp: Let_def)
    moreover have "\<not> stops sched endTime cnt t m" if "length ts \<le> m" "m < n" for m
      using n(4) [of m] False that by (cases "m = length ts") auto
    ultimately show ?thesis using n(1-3) by (intro exI [of _ n]) auto
  qed
qed

text \<open>
  C38: for a cron expression that can be parsed, the visitor lists the times the schedule gives one
  after the other from the start time, or from now. It always ends: at the first of the number
  asked for, a thousand times, and the first time after the end.\<close>

theorem CronVisitor_lists_next_times:
  assumes "sp_Cron s \<noteq> []" "cv_nextTimes v = []"
    and "strings_Fields (sp_Cron s) = fs" "length fs \<noteq> 7"
    and "(if length fs = 6 then cl_Parse lib (sp_Cron s) else cl_ParseStandard lib (sp_Cron s)) = Inr sched"
    and "t = (case cv_cronStartTime v of None \<Rightarrow> cl_now lib | Some t \<Rightarrow> t)"
  shows "\<exists>n. CronVisitor_Visit lib v s =
       (v\<lparr>cv_isCron := True, cv_nextTimes := map (\<lambda>i. (sched ^^ Suc i) t) [0..<n]\<rparr>, s) \<and>
     stops sched (cv_cronEndTime v) (cv_count v) t n \<and> (\<forall>m<n. \<not> stops sched (cv_cronEndTime v) (cv_count v) t m)"
proof -
  obtain n where n: "next_times sched (cv_cronEndTime v) (cv_count v) t [] = map (\<lambda>i. (sched ^^ Suc i) t) [0..<n]"
    "stops sched (cv_cronEndTime v) (cv_count v) t n" "\<And>m. m < n \<Longrightarrow> \<not> stops sched (cv_cronEndTime v) (cv_count v) t m"
    using next_times_spec [of "[]" sched t t "cv_cronEndTime v" "cv_count v"] by auto
  have "CronVisitor_Visit lib v s = (v\<lparr>cv_isCron := True, cv_nextTimes := map (\<lambda>i. (sched ^^ Suc i) t) [0..<n]\<rparr>, s)"
    using assms n(1) by (cases "length fs = 6") (simp_all add: CronVisitor_Visit_def Let_def)
  with n(2,3) show ?thesis by blast
qed

section \<open>A file read without options\<close>

lemma fold_appendError [simp]:
  "sp_errs (fold (\<lambda>e. appendError e pl) es s) = sp_errs s @ map (\<lambda>e. error_text e pl) es"
  "sp_Stages (fold (\<lambda>e. appendError e pl) es s) = sp_Stages s"
  "sp_Cron (fold (\<lambda>e. appendError e pl) es s) = sp_Cron s"
  by (induction es arbitrary: s) (simp_all add: appendError_def)

definition cron_ok :: "cron_lib \<Rightarrow> string \<Rightarrow> bool" where
  "cron_ok lib c \<longleftrightarrow> c = [] \<or>
     (let fs = strings_Fields c
      in \<not> isl (if length fs = 7 then cl_Parse lib (strings_Join (butlast fs) '' '')
                else if length fs = 6 then cl_Parse lib c else cl_ParseStandard lib c))"

lemma VersionVisitor_keeps:
  "sp_Stages (VersionVisitor_Visit s) = sp_Stages s" "sp_Cron (VersionVisitor_Visit s) = sp_Cron s"
  "sp_Envs (VersionVisitor_Visit s) = sp_Envs s" "prefix (sp_errs s) (sp_errs (VersionVisitor_Visit s))"
  "sp_errs (VersionVisitor_Visit s) = sp_errs s \<longleftrightarrow> sp_Version s = ''1.1''"
  by (simp_all add: VersionVisitor_Visit_def appendError_def)

lemma EnvVisitor_keeps:
  "sp_Stages (EnvVisitor_Visit envs s) = sp_Stages s" "sp_Cron (EnvVisitor_Visit envs s) = sp_Cron s"
  "prefix (sp_errs s) (sp_errs (EnvVisitor_Visit envs s))"
  "sp_errs (EnvVisitor_Visit [] s) = sp_errs s \<longleftrightarrow>
     list_all (\<lambda>(k, _). envKeyRegexp k) (case sp_Envs s of None \<Rightarrow> [] | Some es \<Rightarrow> es)"
  by (auto simp: EnvVisitor_Visit_def Let_def CheckEnvs_def list_all_iff filter_empty_conv split: option.splits)

lemma CronVisitor_keeps:
  "sp_Stages (snd (CronVisitor_Visit lib v s)) = sp_Stages s"
  "prefix (sp_errs s) (sp_errs (snd (CronVisitor_Visit lib v s)))"
  "sp_errs (snd (CronVisitor_Visit lib v s)) = sp_errs s \<longleftrightarrow> cron_ok lib (sp_Cron s)"
  by (auto simp: CronVisitor_Visit_def Let_def appendError_def cron_ok_def split: sum.splits)

lemma timeout_loop_keeps:
  "\<forall>(si, x)\<in>set xs. x \<noteq> None \<Longrightarrow>
     \<exists>s'. timeout_loop xs s = Some s' \<and> sp_Stages s' = sp_Stages s \<and> prefix (sp_errs s) (sp_errs s') \<and>
       (sp_errs s' = sp_errs s \<longleftrightarrow> (\<forall>(si, x)\<in>set xs. ac_Timeout (the x) \<ge> - 1))"
proof (induction xs arbitrary: s)
  case (Cons x xs)
  obtain si a where x: "x = (si, Some a)" using Cons.prems by (cases x) auto
  define s1 where "s1 = the (check_timeout x s)"
  have s1: "check_timeout x s = Some s1" "sp_Stages s1 = sp_Stages s" "prefix (sp_errs s) (sp_errs s1)"
    "sp_errs s1 = sp_errs s \<longleftrightarrow> ac_Timeout a \<ge> - 1"
    by (auto simp: s1_def x check_timeout_def appendError_def TimeoutDuration4Forever_def)
  obtain s' where s': "timeout_loop xs s1 = Some s'" "sp_Stages s' = sp_Stages s1" "prefix (sp_errs s1) (sp_errs s')"
    "sp_errs s' = sp_errs s1 \<longleftrightarrow> (\<forall>(si, x)\<in>set xs. ac_Timeout (the x) \<ge> - 1)"
    using Cons.IH [of s1] Cons.prems by auto
  have "sp_errs s' = sp_errs s \<longleftrightarrow> sp_errs s1 = sp_errs s \<and> sp_errs s' = sp_errs s1"
    using s1(3) s'(3) prefix_order.antisym by force
  moreover have "prefix (sp_errs s) (sp_errs s')" using s1(3) s'(3) by (rule prefix_order.trans)
  ultimately show ?case using s1(1,2,4) s' by (simp add: x)
qed simp

text \<open>The stages, the schedule and the steps of a call without options.\<close>

lemma parse_current:
  assumes "nl_Version lib b = Inr ''1.1''" "nl_Unmarshal lib b (py_s y) = (None, s)"
  shows "yml_parse lib b errs y = Some (Going (y\<lparr>py_s := s\<rparr>))"
  by (subst yml_parse.simps) (simp add: assms)

text \<open>A graph is read by way of the text it is converted to.\<close>

lemma parse_graph:
  assumes "nl_Version lib b = Inr ''1.1''" "nl_Unmarshal lib b (py_s y) = (Some err, s)"
    and "nl_Graph lib b = Inr g" "spec_of_graph (nl_oor lib) g = Some s0" "nl_Encode lib (polishNamespaces s0) = Inr c"
    and "nl_Version lib c = Inr ''1.1''" "nl_Unmarshal lib c s = (None, s')"
  shows "yml_parse lib b errs y = Some (Going (y\<lparr>py_s := s', py_data := c\<rparr>))"
proof -
  have "ConvertGraphPipelineYmlContent lib b = Some (Inr c)"
    using assms(3-5) by (simp add: ConvertGraphPipelineYmlContent_def GenerateYml_def Let_def)
  moreover have "yml_parse lib c e (y\<lparr>py_s := s, py_data := c\<rparr>) = Some (Going (y\<lparr>py_s := s', py_data := c\<rparr>))" for e
    using parse_current [OF assms(6), of "y\<lparr>py_s := s, py_data := c\<rparr>" s' e] assms(7) by simp
  ultimately show ?thesis by (subst yml_parse.simps) (simp add: assms(1,2))
qed

lemma yml_New_default:
  assumes "nl_Version lib (NormalizeNewlines b) = Inr ''1.1''" "nl_Unmarshal lib (NormalizeNewlines b) empty_Spec = (None, s)"
    and "s1 = EnvVisitor_Visit [] (VersionVisitor_Visit s)"
    and "s2 = StageVisitor_Visit (nl_yml lib) False (nl_iter lib) s1"
    and "TimeoutVisitor_Visit (snd (CronVisitor_Visit (nl_cron lib) NewCronVisitor s2)) = Some s4"
  shows "yml_New lib b (new_PipelineYml b) = Some (new_result (Going ((new_PipelineYml b)\<lparr>py_s := s4\<rparr>)))"
  using assms(5) parse_current [OF assms(1), of "new_PipelineYml b" s "[]"] assms(2)
  by (simp add: yml_New_def visit_steps_def labels_step_def secrets_step_def params_step_def stages_step_def refs_step_def
      new_PipelineYml_def Let_def assms(3,4))

definition file_ok :: "new_lib \<Rightarrow> Spec \<Rightarrow> bool" where
  "file_ok lib s \<longleftrightarrow>
     sp_Version s = ''1.1'' \<and>
     list_all (\<lambda>(k, _). envKeyRegexp k) (case sp_Envs s of None \<Rightarrow> [] | Some es \<Rightarrow> es) \<and>
     stages_ok (nl_yml lib) False (sp_Stages s) \<and> cron_ok (nl_cron lib) (sp_Cron s) \<and>
     (\<forall>(si, e)\<in>set (file_entries (sp_Stages s)). ac_Timeout (entry_action e) \<ge> - 1)"

lemma yml_New_without_options:
  assumes "lists_map (nl_iter lib)" "nl_Version lib (NormalizeNewlines b) = Inr ''1.1''"
    and "nl_Unmarshal lib (NormalizeNewlines b) empty_Spec = (None, s)" "sp_errs s = []"
  obtains s1 s4 where "sp_Stages s1 = sp_Stages s"
    "sp_Stages s4 = sp_Stages (StageVisitor_Visit (nl_yml lib) False (nl_iter lib) s1)"
    "yml_New lib b (new_PipelineYml b) = Some (new_result (Going ((new_PipelineYml b)\<lparr>py_s := s4\<rparr>)))"
    "mergeErrors s4 = None \<longleftrightarrow> file_ok lib s"
proof -
  define s0 where "s0 = VersionVisitor_Visit s"
  define s1 where "s1 = EnvVisitor_Visit [] s0"
  define s2 where "s2 = StageVisitor_Visit (nl_yml lib) False (nl_iter lib) s1"
  define s3 where "s3 = snd (CronVisitor_Visit (nl_cron lib) NewCronVisitor s2)"
  note visited = visit_keeps [where lib = "nl_yml lib" and flat = False and iter = "nl_iter lib" and s = s1, folded s2_def]
    and cron = CronVisitor_keeps [where lib = "nl_cron lib" and v = NewCronVisitor and s = s2, folded s3_def]
  note keeps = VersionVisitor_keeps [where s = s, folded s0_def]
    EnvVisitor_keeps(1-3) [where envs = "[]" and s = s0, folded s1_def] EnvVisitor_keeps(4) [where s = s0, folded s1_def]
    visited cron
  have st: "sp_Stages s1 = sp_Stages s" using keeps by simp
  have l2: "list_all2 (\<lambda>(si, e) (si', x). si' = si \<and> (\<exists>a. x = Some a \<and> needs_earlier (sp_Stages s) si e a))
      (file_entries (sp_Stages s)) (LoopStagesActions s3)"
    using visit_needs [OF assms(1), of s1 "nl_yml lib" False] cron(1) st
    by (simp add: s2_def LoopStagesActions_def)
  then have all: "\<forall>(si, x)\<in>set (LoopStagesActions s3). x \<noteq> None"
    "(\<forall>(si, x)\<in>set (LoopStagesActions s3). ac_Timeout (the x) \<ge> - 1) \<longleftrightarrow>
       (\<forall>(si, e)\<in>set (file_entries (sp_Stages s)). ac_Timeout (entry_action e) \<ge> - 1)"
    by (induction rule: list_all2_induct) (auto simp: needs_earlier_def dest: keeps_rest_fields)
  obtain s4 where s4: "TimeoutVisitor_Visit s3 = Some s4" "sp_Stages s4 = sp_Stages s3" "prefix (sp_errs s3) (sp_errs s4)"
    "sp_errs s4 = sp_errs s3 \<longleftrightarrow> (\<forall>(si, e)\<in>set (file_entries (sp_Stages s)). ac_Timeout (entry_action e) \<ge> - 1)"
    using timeout_loop_keeps [OF all(1), of s3] unfolding all(2) TimeoutVisitor_Visit_def by blast
  have "sp_errs s4 = [] \<longleftrightarrow> sp_errs s0 = sp_errs s \<and> sp_errs s1 = sp_errs s0 \<and> sp_errs s2 = sp_errs s1 \<and>
      sp_errs s3 = sp_errs s2 \<and> sp_errs s4 = sp_errs s3"
    using keeps s4(3) assms(4) by auto
  moreover have "sp_errs s2 = sp_errs s1 \<longleftrightarrow> stages_ok (nl_yml lib) False (sp_Stages s)"
    using visit_reports [of "nl_yml lib" False "nl_iter lib" s1] st by (simp add: s2_def)
  ultimately have "mergeErrors s4 = None \<longleftrightarrow> file_ok lib s"
    using keeps s4(4) by (simp add: mergeErrors_def file_ok_def)
  then show ?thesis
    using that [OF st _ yml_New_default [OF assms(2,3) s1_def [unfolded s0_def] s2_def s4(1) [unfolded s3_def]]]
      s4(2) cron(1) by (simp add: s2_def)
qed

text \<open>
  C4: a file that says it is of version 1.1 and can be decoded, read without options, is always
  read to an end, and accepted exactly when its version is 1.1, the keys of its environment are
  names, its stages are in order, its cron expression can be parsed, and no timeout is below -1.\<close>

theorem New_accepts_exactly:
  assumes "lists_map (nl_iter lib)" "nl_Version lib (NormalizeNewlines b) = Inr ''1.1''"
    and "nl_Unmarshal lib (NormalizeNewlines b) empty_Spec = (None, s)" "sp_errs s = []"
  shows "\<exists>r. yml_New lib b (new_PipelineYml b) = Some r \<and> ((\<exists>y. r = Inr y) \<longleftrightarrow>
     sp_Version s = ''1.1'' \<and>
     list_all (\<lambda>(k, _). envKeyRegexp k) (case sp_Envs s of None \<Rightarrow> [] | Some es \<Rightarrow> es) \<and>
     stages_ok (nl_yml lib) False (sp_Stages s) \<and> cron_ok (nl_cron lib) (sp_Cron s) \<and>
     (\<forall>(si, e)\<in>set (file_entries (sp_Stages s)). ac_Timeout (entry_action e) \<ge> - 1))"
  using assms
proof (rule yml_New_without_options)
  fix s4
  assume "yml_New lib b (new_PipelineYml b) = Some (new_result (Going ((new_PipelineYml b)\<lparr>py_s := s4\<rparr>)))"
    and "mergeErrors s4 = None \<longleftrightarrow> file_ok lib s"
  then show ?thesis unfolding file_ok_def [symmetric] by (auto simp: new_result_def split: option.splits)
qed

section \<open>A file as a graph\<close>

lemma new_result_Inr: "new_result (Going y) = Inr y' \<Longrightarrow> y' = y"
  by (auto simp: new_result_def split: option.splits)

lemma polished_entry:
  assumes "stage \<in> set (sp_Stages (polishNamespaces s))" "tam \<in> set (sg_Actions stage)" "e \<in> set tam"
  shows "\<exists>(si, x)\<in>set (LoopStagesActions s). snd e = map_option (\<lambda>a. a\<lparr>ac_Namespaces := RemoveSlice (ac_Namespaces a) [ac_Alias a]\<rparr>) x"
proof -
  obtain st tam0 t x where st: "st \<in> set (sp_Stages s)" "tam0 \<in> set (sg_Actions st)" "(t, x) \<in> set tam0"
    and e: "snd e = map_option (\<lambda>a. a\<lparr>ac_Namespaces := RemoveSlice (ac_Namespaces a) [ac_Alias a]\<rparr>) x"
    using assms by (auto simp: polishNamespaces_def)
  obtain si where "si < length (sp_Stages s)" "st = sp_Stages s ! si" using st(1) by (auto simp: in_set_conv_nth)
  then have "(si, x) \<in> set (LoopStagesActions s)"
    using st(2,3) by (force simp: LoopStagesActions_def in_set_enumerate_eq)
  with e show ?thesis by auto
qed


section \<open>An example\<close>

definition example_cron :: cron_lib where
  "example_cron =
     \<lparr>cl_Parse = (\<lambda>_. Inl ''no schedule''), cl_ParseStandard = (\<lambda>_. Inr (\<lambda>t. t + 60)), cl_now = 0\<rparr>"

text \<open>A parser that reads one file.\<close>

definition example_new_lib :: new_lib where
  "example_new_lib =
     \<lparr>nl_Version = (\<lambda>_. Inr ''1.1''), nl_Graph = (\<lambda>_. Inl ''no graph''), nl_Encode = (\<lambda>_. Inr []),
      nl_Unmarshal = (\<lambda>_ _. (None, two_stages ''jar'')), nl_parseV1 = (\<lambda>_. Failed ''no 1.0''), nl_Errorf = (\<lambda>s. s), nl_oor = (\<lambda>_. 0),
      nl_yml = example_lib,
      nl_ref = \<lparr>rl_MockValue = (\<lambda>_. []), rl_Base64Decode = Inr, rl_Marshal = (\<lambda>_. Inr []), rl_Unmarshal = (\<lambda>_. Inr)\<rparr>,
      nl_cron = example_cron, nl_iter = (\<lambda>_ _ xs. xs), nl_iter2 = (\<lambda>_ _ xs. xs), nl_panic = ''index out of range''\<rparr>"

theorem CronVisitor_lists_next_times_witness:
  "cv_nextTimes (fst (CronVisitor_Visit example_cron (NewCronVisitor\<lparr>cv_count := 2\<rparr>) (empty_Spec\<lparr>sp_Cron := ''* * * * *''\<rparr>))) =
     [60, 120]"
proof -
  let ?v = "NewCronVisitor\<lparr>cv_count := 2\<rparr>" and ?s = "empty_Spec\<lparr>sp_Cron := ''* * * * *''\<rparr>"
  have "\<exists>n. CronVisitor_Visit example_cron ?v ?s =
       (?v\<lparr>cv_isCron := True, cv_nextTimes := map (\<lambda>i. ((\<lambda>t. t + 60) ^^ Suc i) 0) [0..<n]\<rparr>, ?s) \<and>
     stops (\<lambda>t. t + 60) (cv_cronEndTime ?v) (cv_count ?v) 0 n \<and>
     (\<forall>m<n. \<not> stops (\<lambda>t. t + 60) (cv_cronEndTime ?v) (cv_count ?v) 0 m)"
    by (rule CronVisitor_lists_next_times [OF _ _ refl])
      (simp_all add: example_cron_def NewCronVisitor_def strings_Fields_def is_space_def)
  then obtain n where n: "CronVisitor_Visit example_cron ?v ?s =
       (?v\<lparr>cv_isCron := True, cv_nextTimes := map (\<lambda>i. ((\<lambda>t. t + 60) ^^ Suc i) 0) [0..<n]\<rparr>, ?s)"
    "stops (\<lambda>t. t + 60) (cv_cronEndTime ?v) (cv_count ?v) 0 n"
    "\<And>m. m < n \<Longrightarrow> \<not> stops (\<lambda>t. t + 60) (cv_cronEndTime ?v) (cv_count ?v) 0 m" by blast
  have v: "cv_cronEndTime ?v = None" "cv_count ?v = 2" by (simp_all add: NewCronVisitor_def)
  have "n \<ge> 2" using n(2) unfolding v by (auto simp: stops_def maxListNextScheduleCount_def)
  moreover have "\<not> 2 < n" using n(3) [of 2] unfolding v by (auto simp: stops_def)
  ultimately have "n = 2" by simp
  with n(1) show ?thesis by (simp add: eval_nat_numeral)
qed

lemma example_reads:
  "lists_map (nl_iter example_new_lib)" "nl_Version example_new_lib d = Inr ''1.1''"
  "nl_Unmarshal example_new_lib d s = (None, two_stages ''jar'')" "sp_errs (two_stages alias) = []"
  "sp_Version (two_stages alias) = ''1.1''" "sp_Envs (two_stages alias) = None" "sp_Cron (two_stages alias) = []"
  "\<forall>(si, e)\<in>set (file_entries (sp_Stages (two_stages alias))). ac_Timeout (entry_action e) \<ge> - 1"
  by (auto simp: example_new_lib_def lists_map_def two_stages_def empty_Spec_def file_entries_def entry_action_def empty_Action_def)

theorem New_accepts_exactly_witness:
  "(\<exists>y. yml_New example_new_lib ''file'' (new_PipelineYml ''file'') = Some (Inr y)) \<and>
   (\<exists>err. yml_New (example_new_lib\<lparr>nl_Unmarshal := \<lambda>_ _. (None, two_stages ''git'')\<rparr>) ''file'' (new_PipelineYml ''file'') =
      Some (Inl err))"
proof -
  let ?git = "example_new_lib\<lparr>nl_Unmarshal := \<lambda>_ _. (None, two_stages ''git'')\<rparr>"
  have yl: "nl_yml example_new_lib = example_lib" "nl_yml ?git = example_lib" by (simp_all add: example_new_lib_def)
  have "\<exists>y. yml_New example_new_lib ''file'' (new_PipelineYml ''file'') = Some (Inr y)"
    using New_accepts_exactly [OF example_reads(1-4), of "''file''"]
    by (auto simp: example_reads yl stages_ok_two_stages cron_ok_def)
  moreover have "\<exists>err. yml_New ?git ''file'' (new_PipelineYml ''file'') = Some (Inl err)"
    using New_accepts_exactly [of ?git "''file''" "two_stages ''git''"]
    by (auto simp: example_reads yl not_stages_ok_two_stages) (metis sum.exhaust)
  ultimately show ?thesis by blast
qed

lemma example_accepted: "\<exists>y. yml_New example_new_lib ''file'' (new_PipelineYml ''file'') = Some (Inr y)"
proof (rule yml_New_without_options [OF example_reads(1-4), of "''file''"])
  fix s4
  assume "yml_New example_new_lib ''file'' (new_PipelineYml ''file'') =
      Some (new_result (Going ((new_PipelineYml ''file'')\<lparr>py_s := s4\<rparr>)))"
    and "mergeErrors s4 = None \<longleftrightarrow> file_ok example_new_lib (two_stages ''jar'')"
  moreover have "file_ok example_new_lib (two_stages ''jar'')"
    using stages_ok_two_stages example_reads by (simp add: file_ok_def cron_ok_def example_new_lib_def)
  ultimately show ?thesis by (simp add: new_result_def)
qed


end
