(* ===== verification/Merge_Tasks.thy ===== *)
theory Merge_Tasks
  imports Pipeline_Parse Reconciler
begin

text \<open>
  From a pipeline file to tasks (\<^verbatim>\<open>create.go\<close> and \<^verbatim>\<open>create_task.go\<close> of
  \<^verbatim>\<open>src/modules/pipeline/services/pipelinesvc\<close>): a task for every action, the operations asked for
  before the run, and the rows that exist already. The lemmas join the parser, this step and the
  reconciler: the tasks of an accepted file can always be scheduled, stage after stage. \<open>None\<close>
  stands for a panic.
\<close>

section \<open>Data\<close>

record PipelineStage =
  ps_ID :: nat
  ps_PipelineID :: nat
  ps_Name :: string
  ps_Status :: PipelineStatus
  ps_CostTimeSec :: int
  ps_StageOrder :: nat

record job_resources =
  jr_CPU :: rat
  jr_Mem :: int
  jr_MaxCPU :: rat
  jr_MaxMem :: int

record ActionExecutor =
  ae_Kind :: string
  ae_Name :: string

text \<open>Of the description of an action: the executor; of its job: the resources.\<close>

record PassedDataWhenCreate =
  pd_actionJobDefines :: "(string \<times> job_resources) list option"
  pd_actionJobSpecs :: "(string \<times> ActionExecutor option) list option"

record task_conf =
  cf_TaskDefaultCPU :: rat
  cf_TaskDefaultMEM :: rat

definition GetActionJobDefine :: "PassedDataWhenCreate option \<Rightarrow> string \<Rightarrow> job_resources option" where
  "GetActionJobDefine that actionTypeVersion =
     (case that of
        None \<Rightarrow> None
      | Some d \<Rightarrow>
          (case pd_actionJobDefines d of
             None \<Rightarrow> None
           | Some m \<Rightarrow> map_of m actionTypeVersion))"

text \<open>The guard looks at the other map: with definitions but no map of specifications it panics.\<close>

definition GetActionJobSpecs :: "PassedDataWhenCreate option \<Rightarrow> string \<Rightarrow> ActionExecutor option option option" where
  "GetActionJobSpecs that actionTypeVersion =
     (case that of
        None \<Rightarrow> Some None
      | Some d \<Rightarrow>
          (case pd_actionJobDefines d of
             None \<Rightarrow> Some None
           | Some _ \<Rightarrow>
               (case pd_actionJobSpecs d of
                  None \<Rightarrow> None
                | Some m \<Rightarrow> Some (map_of m actionTypeVersion))))"

definition MakeActionTypeVersion :: "Action \<Rightarrow> string" where
  "MakeActionTypeVersion action =
     (let r = ac_Type action in if ac_Version action \<noteq> [] then r @ ''@'' @ ac_Version action else r)"

section \<open>Resources\<close>

text \<open>Package numeral; the numbers are finite, and only compared.\<close>

fun first_num :: "bool \<Rightarrow> rat \<Rightarrow> rat list \<Rightarrow> rat" where
  "first_num ignoreZero r [] = r"
| "first_num ignoreZero r (num # nums) = (if num = 0 \<and> ignoreZero then first_num ignoreZero r nums else num)"

definition MinFloat64 :: "rat list \<Rightarrow> bool \<Rightarrow> rat" where
  "MinFloat64 nums ignoreZero =
     (if nums = [] then 0
      else fold (\<lambda>num r. if num = 0 \<and> ignoreZero then r else if num < r then num else r) nums
             (first_num ignoreZero 0 nums))"

definition MaxFloat64 :: "rat list \<Rightarrow> rat" where
  "MaxFloat64 nums = (if nums = [] then 0 else fold (\<lambda>num r. if num > r then num else r) nums (hd nums))"

definition calculateNormalTaskLimitResource ::
  "Action \<Rightarrow> job_resources option \<Rightarrow> PipelineAppliedResource \<Rightarrow> PipelineAppliedResource" where
  "calculateNormalTaskLimitResource action actionDefine defaultRes =
     (let (maxCPU, maxMemoryMB) =
            (case actionDefine of
               None \<Rightarrow> (0, 0)
             | Some d \<Rightarrow>
                 (MaxFloat64 [jr_MaxCPU d, jr_CPU d, rs_MaxCPU (ac_Resources action), rs_CPU (ac_Resources action)],
                  MaxFloat64 [of_int (jr_MaxMem d), of_int (jr_Mem d), of_int (rs_Mem (ac_Resources action))]))
      in \<lparr>ar_CPU = (if maxCPU = 0 then ar_CPU defaultRes else maxCPU),
          ar_MemoryMB = (if maxMemoryMB = 0 then ar_MemoryMB defaultRes else maxMemoryMB)\<rparr>)"

definition calculateNormalTaskRequestResource ::
  "Action \<Rightarrow> job_resources option \<Rightarrow> PipelineAppliedResource \<Rightarrow> PipelineAppliedResource" where
  "calculateNormalTaskRequestResource action actionDefine defaultRes =
     (let (requestCPU, requestMemoryMB) =
            (case actionDefine of
               None \<Rightarrow> (0, 0)
             | Some d \<Rightarrow>
                 (MinFloat64 [jr_MaxCPU d, jr_CPU d] True,
                  MinFloat64 [of_int (jr_MaxMem d), of_int (jr_Mem d)] True));
          c = MinFloat64 [rs_MaxCPU (ac_Resources action), rs_CPU (ac_Resources action)] True;
          requestCPU = (if c > 0 then c else requestCPU);
          m = rs_Mem (ac_Resources action);
          requestMemoryMB = (if m > 0 then of_int m else requestMemoryMB)
      in \<lparr>ar_CPU = (if requestCPU = 0 then ar_CPU defaultRes else requestCPU),
          ar_MemoryMB = (if requestMemoryMB = 0 then ar_MemoryMB defaultRes else requestMemoryMB)\<rparr>)"

definition calculateNormalTaskResources ::
  "task_conf \<Rightarrow> Action \<Rightarrow> job_resources option \<Rightarrow> PipelineAppliedResources" where
  "calculateNormalTaskResources cf action actionDefine =
     (let defaultRes = \<lparr>ar_CPU = cf_TaskDefaultCPU cf, ar_MemoryMB = cf_TaskDefaultMEM cf\<rparr>
      in \<lparr>ar_Limits = calculateNormalTaskLimitResource action actionDefine defaultRes,
          ar_Requests = calculateNormalTaskRequestResource action actionDefine defaultRes\<rparr>)"

definition GenDefaultTaskResource :: "task_conf \<Rightarrow> RuntimeResource" where
  "GenDefaultTaskResource cf = \<lparr>rr_CPU = cf_TaskDefaultCPU cf, rr_Memory = cf_TaskDefaultMEM cf, rr_Disk = 0\<rparr>"

section \<open>A task for an action\<close>

definition ExecutorKind_Check :: "string \<Rightarrow> bool" where
  "ExecutorKind_Check that \<longleftrightarrow> that \<in> {''SCHEDULER'', ''MEMORY'', ''APITEST''}"

definition ExecutorName_Check :: "string \<Rightarrow> bool" where
  "ExecutorName_Check that \<longleftrightarrow> that \<in> {'''', ''scheduler'', ''api-test''}"

definition judgeTaskExecutor :: "ActionExecutor option option \<Rightarrow> string \<times> string" where
  "judgeTaskExecutor actionSpec =
     (case actionSpec of
        Some (Some ex) \<Rightarrow>
          if ae_Kind ex = [] \<or> ae_Name ex = [] \<or> \<not> ExecutorKind_Check (ae_Kind ex) \<or> \<not> ExecutorName_Check (ae_Name ex)
          then (''SCHEDULER'', ''scheduler'') else (ae_Kind ex, ae_Name ex)
      | _ \<Rightarrow> (''SCHEDULER'', ''scheduler''))"

definition calculateTaskTimeoutDuration :: "Action \<Rightarrow> duration" where
  "calculateTaskTimeoutDuration action =
     (if ac_Timeout action = TimeoutDuration4Forever then TimeoutDuration4Forever
      else wrap64 (ac_Timeout action * 1000000000))"

definition calculateTaskRunAfter :: "Action \<Rightarrow> string list" where
  "calculateTaskRunAfter action = ac_Needs action"

definition isFlinkSparkAction :: "string \<Rightarrow> bool" where
  "isFlinkSparkAction action \<longleftrightarrow> action = ''flink'' \<or> action = ''spark''"

definition getString :: "yml_lib \<Rightarrow> yaml_value option \<Rightarrow> string" where
  "getString lib v =
     (case v of
        None \<Rightarrow> []
      | Some YNil \<Rightarrow> []
      | Some (YString s) \<Rightarrow> s
      | Some w \<Rightarrow> yl_Sprint lib w)"

definition zero_AppliedResources :: PipelineAppliedResources where
  "zero_AppliedResources =
     \<lparr>ar_Limits = \<lparr>ar_CPU = 0, ar_MemoryMB = 0\<rparr>, ar_Requests = \<lparr>ar_CPU = 0, ar_MemoryMB = 0\<rparr>\<rparr>"

definition zero_PipelineTaskExtra :: PipelineTaskExtra where
  "zero_PipelineTaskExtra =
     \<lparr>te_Namespace = [], te_NotPipelineControlledNs = False, te_ExecutorName = [], te_ClusterName = [],
      te_AllowFailure = False, te_Pause = False, te_Timeout = 0, te_PrivateEnvs = [], te_PublicEnvs = [],
      te_RuntimeResource = \<lparr>rr_CPU = 0, rr_Memory = 0, rr_Disk = 0\<rparr>, te_UUID = [], te_TimeBeginQueue = 0,
      te_TimeEndQueue = 0, te_StageOrder = 0, te_RunAfter = [], te_FlinkSparkConf = empty_FlinkSparkConf,
      te_ActionIf = [], te_LoopOptions = None, te_Volumes = [], te_AppliedResources = zero_AppliedResources\<rparr>"

definition zero_PipelineTask :: PipelineTask where
  "zero_PipelineTask =
     \<lparr>task_ID = 0, task_PipelineID = 0, task_StageID = 0, task_Name = [], task_Type = [], task_ExecutorKind = [],
      task_Status = PipelineEmptyStatus, task_Extra = zero_PipelineTaskExtra, task_Context = empty_PipelineTaskContext,
      task_Result = empty_PipelineTaskResult, task_IsSnippet = False, task_SnippetPipelineID = None,
      task_SnippetPipelineDetail = None, task_CostTimeSec = 0, task_QueueTimeSec = 0, task_TimeBegin = 0,
      task_TimeEnd = 0, task_TimeUpdated = 0\<rparr>"

text \<open>
  What the service knows: the libraries, the configuration, \<open>json.Unmarshal\<close> into a map of strings,
  and the query for a stage. Of the action the task keeps the condition.
\<close>

record task_lib =
  tb_yml :: yml_lib
  tb_conf :: task_conf
  tb_Unmarshal :: "string \<Rightarrow> (string \<times> string) list option"
  tb_GetPipelineStage :: "nat \<Rightarrow> string + PipelineStage"

definition action_env :: "task_lib \<Rightarrow> Action \<Rightarrow> (string \<times> string) list" where
  "action_env lib action =
     (case ac_SnippetConfig action of
        None \<Rightarrow> []
      | Some sc \<Rightarrow>
          (if sc_Labels sc = [] then []
           else case tb_Unmarshal lib (case map_of (sc_Labels sc) ''action_env'' of None \<Rightarrow> [] | Some v \<Rightarrow> v) of
                  Some envs \<Rightarrow> envs
                | None \<Rightarrow> []))"

definition makeNormalPipelineTask ::
  "task_lib \<Rightarrow> Pipeline \<Rightarrow> PipelineStage \<Rightarrow> Action \<Rightarrow> PassedDataWhenCreate option \<Rightarrow> PipelineTask option" where
  "makeNormalPipelineTask lib p ps action passed =
     map_option (\<lambda>actionSpec.
       let (executorKind, executorName) = judgeTaskExecutor actionSpec;
           params = map_of (ac_Params action)
       in zero_PipelineTask\<lparr>
            task_PipelineID := p_ID p, task_StageID := ps_ID ps, task_Name := ac_Alias action,
            task_Type := ac_Type action, task_ExecutorKind := executorKind,
            task_Status := PipelineStatusAnalyzed, task_CostTimeSec := - 1, task_QueueTimeSec := - 1,
            task_Extra := zero_PipelineTaskExtra\<lparr>
              te_Namespace := p_Namespace p, te_NotPipelineControlledNs := p_NotPipelineControlledNs p,
              te_ClusterName := p_ClusterName p, te_ExecutorName := executorName,
              te_AllowFailure := False, te_Pause := False,
              te_Timeout := (if ac_Timeout action < 0 then ac_Timeout action
                             else wrap64 (ac_Timeout action * 1000000000)),
              te_StageOrder := ps_StageOrder ps,
              te_RuntimeResource := \<lparr>rr_CPU = cf_TaskDefaultCPU (tb_conf lib), rr_Memory = cf_TaskDefaultMEM (tb_conf lib), rr_Disk = 0\<rparr>,
              te_FlinkSparkConf :=
                (if isFlinkSparkAction (ac_Type action)
                 then \<lparr>fs_Depend = getString (tb_yml lib) (params ''depends''),
                       fs_MainClass = getString (tb_yml lib) (params ''main_class''),
                       fs_MainArgs = [getString (tb_yml lib) (params ''main_args'')], fs_JarResource = []\<rparr>
                 else empty_FlinkSparkConf),
              te_ActionIf := ac_If action,
              te_RunAfter := ac_Needs action,
              te_PrivateEnvs := action_env lib action,
              te_AppliedResources := calculateNormalTaskResources (tb_conf lib) action
                (GetActionJobDefine passed (MakeActionTypeVersion action))\<rparr>\<rparr>)
       (GetActionJobSpecs passed (MakeActionTypeVersion action))"

definition genSnippetTaskExtra :: "task_lib \<Rightarrow> Pipeline \<Rightarrow> Action \<Rightarrow> PipelineTaskExtra" where
  "genSnippetTaskExtra lib p action =
     zero_PipelineTaskExtra\<lparr>
       te_Namespace := p_Namespace p, te_NotPipelineControlledNs := p_NotPipelineControlledNs p,
       te_ExecutorName := [], te_ClusterName := p_ClusterName p, te_AllowFailure := False, te_Pause := False,
       te_Timeout := calculateTaskTimeoutDuration action, te_PrivateEnvs := [], te_PublicEnvs := [],
       te_RuntimeResource := GenDefaultTaskResource (tb_conf lib),
       te_RunAfter := calculateTaskRunAfter action, te_ActionIf := ac_If action\<rparr>"

definition makeSnippetPipelineTask :: "task_lib \<Rightarrow> Pipeline \<Rightarrow> PipelineStage \<Rightarrow> Action \<Rightarrow> PipelineTask" where
  "makeSnippetPipelineTask lib p stage action =
     zero_PipelineTask\<lparr>
       task_PipelineID := p_ID p, task_StageID := ps_ID stage, task_Name := ac_Alias action,
       task_Type := ''snippet'', task_ExecutorKind := ''SCHEDULER'', task_Status := PipelineStatusAnalyzed,
       task_Extra := genSnippetTaskExtra lib p action, task_IsSnippet := True,
       task_CostTimeSec := - 1, task_QueueTimeSec := - 1\<rparr>"

text \<open>A stage index beyond the rows, or a nil action, is a panic.\<close>

definition make_task ::
  "task_lib \<Rightarrow> Pipeline \<Rightarrow> PipelineStage list \<Rightarrow> PassedDataWhenCreate option \<Rightarrow> nat \<times> Action option
   \<Rightarrow> PipelineTask option" where
  "make_task lib p dbStages passed x =
     (case x of
        (stageIndex, None) \<Rightarrow> None
      | (stageIndex, Some action) \<Rightarrow>
          if stageIndex < length dbStages
          then (if IsSnippet (ac_Type action) then Some (makeSnippetPipelineTask lib p (dbStages ! stageIndex) action)
                else makeNormalPipelineTask lib p (dbStages ! stageIndex) action passed)
          else None)"

definition getYmlActionTasks ::
  "task_lib \<Rightarrow> Spec \<Rightarrow> Pipeline \<Rightarrow> PipelineStage list \<Rightarrow> PassedDataWhenCreate option \<Rightarrow> PipelineTask list option" where
  "getYmlActionTasks lib s p dbStages passed =
     (if length dbStages \<le> 0 then Some []
      else those (map (make_task lib p dbStages passed) (LoopStagesActions s)))"

section \<open>Operations asked for before the run\<close>

definition wrap_operate :: "string \<Rightarrow> string \<Rightarrow> string \<Rightarrow> string" where
  "wrap_operate alias opAction err =
     ''failed to operate pipeline, task ['' @ alias @ ''], action ['' @ opAction @ '']: '' @ err"

definition operate_disable :: "PipelineTaskOperateRequest \<Rightarrow> PipelineTask \<Rightarrow> string + PipelineTask" where
  "operate_disable taskOp task =
     (case to_Disable taskOp of
        None \<Rightarrow> Inr task
      | Some True \<Rightarrow>
          if \<not> (task_Status task = PipelineStatusAnalyzed \<or> task_Status task = PipelineStatusPaused)
          then Inl (wrap_operate (to_TaskAlias taskOp) ''DISABLE-TASK'' (''invalid status ['' @ String (task_Status task) @ '']''))
          else Inr (task\<lparr>task_Status := PipelineStatusDisabled\<rparr>)
      | Some False \<Rightarrow> Inr (task\<lparr>task_Status := PipelineStatusAnalyzed\<rparr>))"

definition set_pause :: "bool \<Rightarrow> PipelineStatus \<Rightarrow> PipelineTask \<Rightarrow> PipelineTask" where
  "set_pause b st task = task\<lparr>task_Status := st, task_Extra := (task_Extra task)\<lparr>te_Pause := b\<rparr>\<rparr>"

definition operate_pause ::
  "(nat \<Rightarrow> string + PipelineStage) \<Rightarrow> PipelineTaskOperateRequest \<Rightarrow> PipelineTask \<Rightarrow> string + PipelineTask" where
  "operate_pause getStage taskOp task =
     (case to_Pause taskOp of
        None \<Rightarrow> Inr task
      | Some True \<Rightarrow>
          if \<not> CanPause (task_Status task)
          then Inl (wrap_operate (to_TaskAlias taskOp) ''PAUSE-TASK'' (''status ['' @ String (task_Status task) @ '']''))
          else Inr (set_pause True PipelineStatusPaused task)
      | Some False \<Rightarrow>
          if \<not> CanUnpause (task_Status task)
          then Inl (wrap_operate (to_TaskAlias taskOp) ''UNPAUSE-TASK'' (''status ['' @ String (task_Status task) @ '']''))
          else (case getStage (task_StageID task) of
                  Inl err \<Rightarrow> Inl err
                | Inr stage \<Rightarrow>
                    Inr (set_pause False (if ps_Status stage = PipelineStatusBorn then PipelineStatusBorn
                                          else PipelineStatusMark) task)))"

fun operate_loop ::
  "(nat \<Rightarrow> string + PipelineStage) \<Rightarrow> PipelineTaskOperateRequest list \<Rightarrow> PipelineTask \<Rightarrow> string + PipelineTask" where
  "operate_loop getStage [] task = Inr task"
| "operate_loop getStage (taskOp # taskOps) task =
     (if to_TaskAlias taskOp \<noteq> task_Name task then operate_loop getStage taskOps task
      else if task_ID task > 0 then operate_loop getStage taskOps task
      else (case operate_disable taskOp task of
              Inl err \<Rightarrow> Inl err
            | Inr task \<Rightarrow>
                (case operate_pause getStage taskOp task of
                   Inl err \<Rightarrow> Inl err
                 | Inr task \<Rightarrow> operate_loop getStage taskOps task)))"

definition OperateTask :: "task_lib \<Rightarrow> Pipeline \<Rightarrow> PipelineTask \<Rightarrow> string + PipelineTask" where
  "OperateTask lib p task = operate_loop (tb_GetPipelineStage lib) (p_TaskOperates p) task"

fun operate_all :: "task_lib \<Rightarrow> Pipeline \<Rightarrow> PipelineTask list \<Rightarrow> string + PipelineTask list" where
  "operate_all lib p [] = Inr []"
| "operate_all lib p (actionTask # actionTasks) =
     (case OperateTask lib p actionTask of
        Inl err \<Rightarrow> Inl err
      | Inr operateTask \<Rightarrow>
          (case operate_all lib p actionTasks of
             Inl err \<Rightarrow> Inl err
           | Inr rest \<Rightarrow> Inr (operateTask # rest)))"

section \<open>Rows that exist\<close>

definition same_task :: "PipelineTask \<Rightarrow> PipelineTask \<Rightarrow> bool" where
  "same_task actionTask dbTask \<longleftrightarrow>
     task_PipelineID actionTask = task_PipelineID dbTask \<and> task_StageID actionTask = task_StageID dbTask \<and>
     task_Type actionTask = task_Type dbTask \<and> task_Name actionTask = task_Name dbTask"

fun merge_task :: "PipelineTask \<Rightarrow> PipelineTask list \<Rightarrow> PipelineTask option \<Rightarrow> PipelineTask option" where
  "merge_task actionTask [] mergeTask = mergeTask"
| "merge_task actionTask (dbTask # dbTasks) mergeTask =
     merge_task actionTask dbTasks (if same_task actionTask dbTask then Some dbTask else mergeTask)"

definition ymlTasksMergeDBTasks :: "PipelineTask list \<Rightarrow> PipelineTask list \<Rightarrow> PipelineTask list" where
  "ymlTasksMergeDBTasks actionTasks dbTasks =
     map (\<lambda>actionTask. case merge_task actionTask dbTasks None of None \<Rightarrow> actionTask | Some t \<Rightarrow> t) actionTasks"

definition MergePipelineYmlTasks ::
  "task_lib \<Rightarrow> Spec \<Rightarrow> PipelineTask list \<Rightarrow> Pipeline \<Rightarrow> PipelineStage list \<Rightarrow> PassedDataWhenCreate option
   \<Rightarrow> (string + PipelineTask list) option" where
  "MergePipelineYmlTasks lib s dbTasks p dbStages passed =
     map_option (\<lambda>actionTasks.
       (case operate_all lib p actionTasks of
          Inl err \<Rightarrow> Inl err
        | Inr operateActionTasks \<Rightarrow> Inr (ymlTasksMergeDBTasks operateActionTasks dbTasks)))
       (getYmlActionTasks lib s p dbStages passed)"

text \<open>
  The rows of the stages of a new pipeline: \<open>insertRow\<close> is the database, which answers with the
  identifier of the new row or an error.
\<close>

fun create_stages ::
  "(PipelineStage \<Rightarrow> string + nat) \<Rightarrow> Pipeline \<Rightarrow> nat list \<Rightarrow> string + PipelineStage list" where
  "create_stages insertRow p [] = Inr []"
| "create_stages insertRow p (si # sis) =
     (let ps = \<lparr>ps_ID = 0, ps_PipelineID = p_ID p, ps_Name = [], ps_Status = PipelineStatusAnalyzed,
                ps_CostTimeSec = - 1, ps_StageOrder = si\<rparr>
      in (case insertRow ps of
            Inl err \<Rightarrow> Inl err
          | Inr i \<Rightarrow>
              (case create_stages insertRow p sis of
                 Inl err \<Rightarrow> Inl err
               | Inr dbStages \<Rightarrow> Inr (ps\<lparr>ps_ID := i\<rparr> # dbStages))))"

definition createPipelineGraphStage ::
  "(PipelineStage \<Rightarrow> string + nat) \<Rightarrow> Pipeline \<Rightarrow> Spec \<Rightarrow> string + PipelineStage list" where
  "createPipelineGraphStage insertRow p s = create_stages insertRow p [0..<length (sp_Stages s)]"


section \<open>What a task takes from its action\<close>

lemma those_map_Some: "those (map f xs) = Some ys \<longleftrightarrow> list_all2 (\<lambda>x y. f x = Some y) xs ys"
proof (induction xs arbitrary: ys)
  case (Cons x xs)
  show ?case
  proof (cases "f x")
    case (Some y)
    then show ?thesis by (cases ys; cases "those (map f xs)") (auto simp: Cons.IH [symmetric])
  qed (auto simp: list_all2_Cons1)
qed auto

text \<open>The task of an action: its name, its type, its stage and what it runs after.\<close>

definition task_of_action :: "Pipeline \<Rightarrow> PipelineStage list \<Rightarrow> nat \<Rightarrow> Action \<Rightarrow> PipelineTask \<Rightarrow> bool" where
  "task_of_action p dbStages si a t \<longleftrightarrow>
     task_ID t = 0 \<and> task_PipelineID t = p_ID p \<and> task_StageID t = ps_ID (dbStages ! si) \<and>
     task_Name t = ac_Alias a \<and> task_Type t = ac_Type a \<and> te_RunAfter (task_Extra t) = ac_Needs a"

lemma makeNormalPipelineTask_action:
  assumes "makeNormalPipelineTask lib p (dbStages ! si) a passed = Some t"
  shows "task_of_action p dbStages si a t" "task_Status t = PipelineStatusAnalyzed"
  using assms
  by (auto simp: makeNormalPipelineTask_def task_of_action_def zero_PipelineTask_def Let_def case_prod_unfold)

lemma makeSnippetPipelineTask_action:
  assumes "IsSnippet (ac_Type a)"
  shows "task_of_action p dbStages si a (makeSnippetPipelineTask lib p (dbStages ! si) a)"
    "task_Status (makeSnippetPipelineTask lib p ps a) = PipelineStatusAnalyzed"
  using assms
  by (simp_all add: makeSnippetPipelineTask_def task_of_action_def zero_PipelineTask_def IsSnippet_def
      genSnippetTaskExtra_def calculateTaskRunAfter_def)

lemma make_task_of_action:
  "make_task lib p dbStages passed (si, x) = Some t \<Longrightarrow>
     \<exists>a. x = Some a \<and> si < length dbStages \<and> task_of_action p dbStages si a t \<and> task_Status t = PipelineStatusAnalyzed"
  by (auto simp: make_task_def makeSnippetPipelineTask_action dest: makeNormalPipelineTask_action
      split: option.splits if_splits)

lemma operate_keeps:
  "operate_disable taskOp t = Inr t' \<Longrightarrow> task_of_action p dbStages si a t' = task_of_action p dbStages si a t"
  "operate_pause getStage taskOp t = Inr t' \<Longrightarrow> task_of_action p dbStages si a t' = task_of_action p dbStages si a t"
  by (auto simp: operate_disable_def operate_pause_def set_pause_def task_of_action_def
      split: option.splits bool.splits if_splits sum.splits)

lemma operate_loop_keeps:
  "operate_loop getStage ops t = Inr t' \<Longrightarrow> task_of_action p dbStages si a t' = task_of_action p dbStages si a t"
  by (induction getStage ops t rule: operate_loop.induct)
    (auto simp: operate_keeps split: if_splits sum.splits)

lemma operate_all_Inr:
  "operate_all lib p ts = Inr ts' \<Longrightarrow> list_all2 (\<lambda>t t'. OperateTask lib p t = Inr t') ts ts'"
  by (induction ts arbitrary: ts') (auto split: sum.splits)

lemma merge_task_Some:
  "merge_task a dbTasks m = Some t \<Longrightarrow> t \<in> set dbTasks \<and> same_task a t \<or> m = Some t"
  by (induction dbTasks arbitrary: m) (fastforce split: if_splits)+

lemma merge_task_cong: "(\<And>d. same_task a d = same_task b d) \<Longrightarrow> merge_task a ds m = merge_task b ds m"
  by (induction ds arbitrary: m) auto

section \<open>The tasks of a file\<close>

lemma in_file_entries:
  "(si, e) \<in> set (file_entries ss) \<longleftrightarrow> si < length ss \<and> e \<in> set (stage_entries (ss ! si))"
  by (fastforce simp: file_entries_def in_set_enumerate_eq nth_enumerate_eq)

lemma in_earlier_aliases:
  assumes "si \<le> length ss"
  shows "x \<in> earlier_aliases si ss \<longleftrightarrow> (\<exists>j e. (j, e) \<in> set (file_entries ss) \<and> j < si \<and> entry_alias e = x)"
proof -
  have "x \<in> earlier_aliases si ss \<longleftrightarrow> (\<exists>j<si. x \<in> set (stage_aliases (ss ! j)))"
    using assms by (auto simp flip: nth_image)
  also have "\<dots> \<longleftrightarrow> (\<exists>j e. (j, e) \<in> set (file_entries ss) \<and> j < si \<and> entry_alias e = x)"
    unfolding in_file_entries stage_aliases_set image_iff Bex_def using less_le_trans [OF _ assms] by blast
  finally show ?thesis .
qed

lemma file_aliases: "map (\<lambda>(si, e). entry_alias e) (file_entries ss) = concat (map stage_aliases ss)"
proof -
  have "map (\<lambda>(si, e). entry_alias e) (concat (map (\<lambda>(si, st). map (Pair si) (stage_entries st)) (List.enumerate n ss))) =
      concat (map stage_aliases ss)" for n
    by (induction ss arbitrary: n) (simp_all add: stage_aliases_def comp_def)
  then show ?thesis by (simp add: file_entries_def)
qed

text \<open>The rows in the database were made from this file.\<close>

definition rows_of_file :: "Stage list \<Rightarrow> PipelineTask list \<Rightarrow> bool" where
  "rows_of_file ss dbTasks \<longleftrightarrow>
     (\<forall>d\<in>set dbTasks. \<forall>(si, e)\<in>set (file_entries ss).
        task_Name d = entry_alias e \<longrightarrow> set (te_RunAfter (task_Extra d)) = earlier_aliases si ss)"

definition no_needs :: "Stage list \<Rightarrow> bool" where
  "no_needs ss \<longleftrightarrow> (\<forall>(si, e)\<in>set (file_entries ss). ac_Needs (entry_action e) = [])"

definition tasks_of_file :: "Stage list \<Rightarrow> PipelineTask list \<Rightarrow> bool" where
  "tasks_of_file ss ts \<longleftrightarrow>
     list_all2 (\<lambda>(si, e) t. task_Name t = entry_alias e \<and> set (te_RunAfter (task_Extra t)) = earlier_aliases si ss)
       (file_entries ss) ts"


lemma MergePipelineYmlTasks_origin:
  assumes "MergePipelineYmlTasks lib s dbTasks p dbStages passed = Some (Inr tasks)" "dbStages \<noteq> []"
  shows "list_all2 (\<lambda>(si, x) t. \<exists>a t0. x = Some a \<and> si < length dbStages \<and> task_of_action p dbStages si a t0 \<and>
           (t = t0 \<or> t \<in> set dbTasks \<and> same_task t0 t)) (LoopStagesActions s) tasks"
proof -
  from assms obtain ats where a: "those (map (make_task lib p dbStages passed) (LoopStagesActions s)) = Some ats"
    and m: "(case operate_all lib p ats of Inl err \<Rightarrow> Inl err | Inr ots \<Rightarrow> Inr (ymlTasksMergeDBTasks ots dbTasks)) = Inr tasks"
    by (auto simp: MergePipelineYmlTasks_def getYmlActionTasks_def)
  from m obtain ots where o: "operate_all lib p ats = Inr ots" and t: "tasks = ymlTasksMergeDBTasks ots dbTasks"
    by (cases "operate_all lib p ats") auto
   have "list_all2 (\<lambda>(si, x) t. \<exists>a. x = Some a \<and> si < length dbStages \<and> task_of_action p dbStages si a t)
      (LoopStagesActions s) ats"
    using a unfolding those_map_Some by (rule list_all2_mono) (auto dest: make_task_of_action)
  then have "list_all2 (\<lambda>(si, x) t. \<exists>a. x = Some a \<and> si < length dbStages \<and> task_of_action p dbStages si a t)
      (LoopStagesActions s) ots"
    by (rule list_all2_trans [rotated, OF _ operate_all_Inr [OF o]])
      (auto simp: OperateTask_def operate_loop_keeps)
  then show ?thesis
    unfolding t ymlTasksMergeDBTasks_def list.rel_map
    by (rule list_all2_mono) (fastforce dest: merge_task_Some split: option.splits)
qed

lemma merged_tasks_of_file_nonempty:
  assumes "MergePipelineYmlTasks lib (StageVisitor_Visit yl flat iter s) dbTasks p dbStages passed = Some (Inr tasks)"
    and "dbStages \<noteq> []" "lists_map iter" "no_needs (sp_Stages s)" "rows_of_file (sp_Stages s) dbTasks"
  shows "tasks_of_file (sp_Stages s) tasks"
proof -
  let ?ss = "sp_Stages s" and ?L = "LoopStagesActions (StageVisitor_Visit yl flat iter s)"
  note v = visit_needs [OF assms(3), of s yl flat] and o = MergePipelineYmlTasks_origin [OF assms(1,2)]
  have len: "length tasks = length (file_entries ?ss)" using v o by (auto dest!: list_all2_lengthD)
  have "task_Name (tasks ! k) = entry_alias e \<and> set (te_RunAfter (task_Extra (tasks ! k))) = earlier_aliases si ?ss"
    if k: "k < length (file_entries ?ss)" and e: "file_entries ?ss ! k = (si, e)" for k si e
  proof -
    have m: "(si, e) \<in> set (file_entries ?ss)" using nth_mem [OF k] e by simp
    obtain a where a: "?L ! k = (si, Some a)" "needs_earlier ?ss si e a"
      using list_all2_nthD [OF v k] e by (auto split: prod.splits)
    have "k < length ?L" using k list_all2_lengthD [OF v] by simp
    then obtain t0 where t0: "task_of_action p dbStages si a t0"
      "tasks ! k = t0 \<or> tasks ! k \<in> set dbTasks \<and> same_task t0 (tasks ! k)"
      using list_all2_nthD [OF o] a(1) by force
    have n: "ac_Needs (entry_action e) = []" using assms(4) m by (auto simp: no_needs_def)
    have t: "task_Name t0 = entry_alias e" "set (te_RunAfter (task_Extra t0)) = earlier_aliases si ?ss"
      using t0(1) a(2) n by (simp_all add: task_of_action_def needs_earlier_def)
    moreover have "set (te_RunAfter (task_Extra d)) = earlier_aliases si ?ss"
      if "d \<in> set dbTasks" "same_task t0 d" for d
      using assms(5) that m t(1) by (fastforce simp: rows_of_file_def same_task_def)
    ultimately show ?thesis using t0(2) by (auto simp: same_task_def)
  qed
  then show ?thesis using len by (auto simp: tasks_of_file_def list_all2_conv_all_nth split: prod.splits)
qed


lemma merged_tasks_of_file:
  assumes m: "MergePipelineYmlTasks lib (StageVisitor_Visit yl flat iter s) dbTasks p dbStages passed = Some (Inr tasks)"
    and st: "length dbStages = length (sp_Stages s)"
    and r: "lists_map iter" "no_needs (sp_Stages s)" "rows_of_file (sp_Stages s) dbTasks"
  shows "tasks_of_file (sp_Stages s) tasks"
proof (cases "dbStages = []")
  case True
  then show ?thesis using m st
    by (simp add: MergePipelineYmlTasks_def getYmlActionTasks_def ymlTasksMergeDBTasks_def tasks_of_file_def
        file_entries_def)
next
  case False
  show ?thesis using merged_tasks_of_file_nonempty [OF m False r] .
qed

text \<open>The stage of the action with a name.\<close>

definition stage_of :: "Stage list \<Rightarrow> string \<Rightarrow> nat" where
  "stage_of ss n = the (map_of (map (\<lambda>(si, e). (entry_alias e, si)) (file_entries ss)) n)"

lemma stage_of_entry:
  assumes "distinct (concat (map stage_aliases ss))" "(si, e) \<in> set (file_entries ss)"
  shows "stage_of ss (entry_alias e) = si"
proof -
  have "map fst (map (\<lambda>(si, e). (entry_alias e, si)) (file_entries ss)) = concat (map stage_aliases ss)"
    by (simp add: file_aliases [symmetric] comp_def case_prod_unfold)
  then have "map_of (map (\<lambda>(si, e). (entry_alias e, si)) (file_entries ss)) (entry_alias e) = Some si"
    using assms by (intro map_of_is_SomeI) force+
  then show ?thesis by (simp add: stage_of_def)
qed

lemma tasks_of_file_names:
  assumes "tasks_of_file ss tasks"
  shows "map task_Name tasks = concat (map stage_aliases ss)"
proof -
  have "list_all2 (\<lambda>x t. task_Name t = (\<lambda>(si, e). entry_alias e) x) (file_entries ss) tasks"
    using assms unfolding tasks_of_file_def by (rule list_all2_mono) auto
  then have "map task_Name tasks = map (\<lambda>(si, e). entry_alias e) (file_entries ss)"
    by (auto simp: list_all2_conv_all_nth intro: nth_equalityI)
  then show ?thesis by (simp only: file_aliases)
qed

lemma tasks_of_file_task:
  assumes "tasks_of_file ss tasks" "t \<in> set tasks"
  obtains si e where "(si, e) \<in> set (file_entries ss)" "task_Name t = entry_alias e"
    "\<And>x. x \<in> set (te_RunAfter (task_Extra t)) \<longleftrightarrow> (\<exists>j e'. (j, e') \<in> set (file_entries ss) \<and> j < si \<and> entry_alias e' = x)"
proof -
  obtain k where k: "k < length tasks" "t = tasks ! k" using assms(2) by (auto simp: in_set_conv_nth)
  obtain si e where e: "file_entries ss ! k = (si, e)" by (rule prod.exhaust)
  have "k < length (file_entries ss)" using assms(1) k by (auto simp: tasks_of_file_def dest: list_all2_lengthD)
  then have m: "(si, e) \<in> set (file_entries ss)" using e by (metis nth_mem)
  moreover have "task_Name t = entry_alias e" "set (te_RunAfter (task_Extra t)) = earlier_aliases si ss"
    using list_all2_nthD2 [OF assms(1) [unfolded tasks_of_file_def] k(1)] e k(2) by simp_all
  moreover have "si \<le> length ss" using m by (simp add: in_file_entries)
  ultimately show ?thesis using that in_earlier_aliases by simp
qed

lemma tasks_of_file_RunAfter:
  assumes "tasks_of_file ss tasks" "distinct (concat (map stage_aliases ss))" "t \<in> set tasks"
  shows "m \<in> set (te_RunAfter (task_Extra t)) \<longleftrightarrow> m \<in> task_Name ` set tasks \<and> stage_of ss m < stage_of ss (task_Name t)"
  using assms(1,3)
proof (rule tasks_of_file_task)
  have "task_Name ` set tasks = set (map (\<lambda>(si, e). entry_alias e) (file_entries ss))"
    unfolding file_aliases tasks_of_file_names [OF assms(1), symmetric] by simp
  then have nm: "task_Name ` set tasks = {entry_alias e |j e. (j, e) \<in> set (file_entries ss)}" by auto
  fix si e
  assume e: "(si, e) \<in> set (file_entries ss)" "task_Name t = entry_alias e"
    "\<And>x. x \<in> set (te_RunAfter (task_Extra t)) \<longleftrightarrow> (\<exists>j e'. (j, e') \<in> set (file_entries ss) \<and> j < si \<and> entry_alias e' = x)"
  show ?thesis
    unfolding e(2,3) nm stage_of_entry [OF assms(2) e(1)] using stage_of_entry [OF assms(2)] by blast
qed

lemma tasks_of_file_runs_after:
  assumes "tasks_of_file ss tasks" "distinct (concat (map stage_aliases ss))"
  shows "runs_after tasks = {(m, n). m \<in> task_Name ` set tasks \<and> n \<in> task_Name ` set tasks \<and> stage_of ss m < stage_of ss n}"
  unfolding runs_after_def using tasks_of_file_RunAfter [OF assms] by auto

lemma tasks_of_file_graph:
  assumes "tasks_of_file ss tasks" "distinct (concat (map stage_aliases ss))"
  shows "tasks_ok tasks" "acyclic (runs_after tasks)"
proof -
  show "acyclic (runs_after tasks)"
    unfolding tasks_of_file_runs_after [OF assms]
    by (rule acyclic_subset [OF wf_acyclic [OF wf_measure [of "stage_of ss"]]]) auto
  have "p \<in> task_Name ` set tasks" if "t \<in> set tasks" "p \<in> set (te_RunAfter (task_Extra t))" for p t
  proof -
    have "(p, task_Name t) \<in> runs_after tasks" using that by (auto simp: runs_after_def)
    then show ?thesis unfolding tasks_of_file_runs_after [OF assms] by blast
  qed
  then show "tasks_ok tasks" using assms(2) tasks_of_file_names [OF assms(1)] by (auto simp: tasks_ok_def)
qed


section \<open>From the file to the schedule\<close>

text \<open>
  A run of an accepted file: it is read without an error, every stage has its row, no action came
  with needs of its own (the field is not read from YAML), and the rows of tasks are those of the file.
\<close>

definition accepted_run ::
  "task_lib \<Rightarrow> new_lib \<Rightarrow> string \<Rightarrow> Spec \<Rightarrow> PipelineTask list \<Rightarrow> Pipeline \<Rightarrow> PipelineStage list
   \<Rightarrow> PassedDataWhenCreate option \<Rightarrow> PipelineTask list \<Rightarrow> bool" where
  "accepted_run lib nl b s dbTasks p dbStages passed tasks \<longleftrightarrow>
     lists_map (nl_iter nl) \<and> nl_Version nl (NormalizeNewlines b) = Inr ''1.1'' \<and>
     nl_Unmarshal nl (NormalizeNewlines b) empty_Spec = (None, s) \<and> sp_errs s = [] \<and> no_needs (sp_Stages s) \<and>
     length dbStages = length (sp_Stages s) \<and> rows_of_file (sp_Stages s) dbTasks \<and>
     (\<exists>y. yml_New nl b (new_PipelineYml b) = Some (Inr y) \<and>
       MergePipelineYmlTasks lib (py_s y) dbTasks p dbStages passed = Some (Inr tasks))"

lemma merge_cong:
  "sp_Stages s = sp_Stages s' \<Longrightarrow>
     MergePipelineYmlTasks lib s dbTasks p dbStages passed = MergePipelineYmlTasks lib s' dbTasks p dbStages passed"
  by (simp add: MergePipelineYmlTasks_def getYmlActionTasks_def LoopStagesActions_def)

lemma accepted_run_tasks:
  assumes "accepted_run lib nl b s dbTasks p dbStages passed tasks"
  shows "tasks_of_file (sp_Stages s) tasks" "distinct (concat (map stage_aliases (sp_Stages s)))"
proof -
  obtain y where y: "yml_New nl b (new_PipelineYml b) = Some (Inr y)"
    and m: "MergePipelineYmlTasks lib (py_s y) dbTasks p dbStages passed = Some (Inr tasks)"
    and rd: "lists_map (nl_iter nl)" "nl_Version nl (NormalizeNewlines b) = Inr ''1.1''"
      "nl_Unmarshal nl (NormalizeNewlines b) empty_Spec = (None, s)" "sp_errs s = []"
    and rest: "no_needs (sp_Stages s)" "length dbStages = length (sp_Stages s)" "rows_of_file (sp_Stages s) dbTasks"
    using assms by (auto simp: accepted_run_def)
  obtain s1 where s1: "sp_Stages s1 = sp_Stages s" "file_ok nl s"
    "sp_Stages (py_s y) = sp_Stages (StageVisitor_Visit (nl_yml nl) False (nl_iter nl) s1)"
    using y by (rule_tac yml_New_without_options [OF rd]) (auto simp: new_result_def split: option.splits)
  show "tasks_of_file (sp_Stages s) tasks"
    using merged_tasks_of_file [OF m [unfolded merge_cong [OF s1(3)]]] rest rd(1) s1(1) by simp
  show "distinct (concat (map stage_aliases (sp_Stages s)))"
    using s1(2) by (simp add: file_ok_def stages_ok_def)
qed

text \<open>
  C3: stages run in series. The tasks made of a file that the parser accepts, joined with the rows
  they already have, can always be scheduled: choosing tasks to start never fails, a task is
  chosen only when all tasks of all earlier stages are done, and if a task is left and nobody is at
  work, one is chosen.\<close>

theorem stages_run_in_series:
  assumes run: "accepted_run lib nl b s dbTasks p dbStages passed tasks"
    and ord: "distinct ord" "set ord = task_Name ` set tasks"
    and ord': "distinct ord'" "set ord' = task_Name ` set tasks"
  shows "\<exists>ts r'. getSchedulableTasks ord ord' pid tasks r = Some (Inr ts, r') \<and>
     (\<forall>t\<in>set ts. t \<in> set tasks \<and> (\<forall>t'\<in>set tasks.
        stage_of (sp_Stages s) (task_Name t') < stage_of (sp_Stages s) (task_Name t) \<longrightarrow>
        task_Name t' \<in> set (DoneTasks tasks))) \<and>
     ((\<exists>t\<in>set tasks. task_Name t \<notin> set (DoneTasks tasks)) \<and>
      (\<forall>t\<in>set tasks. buildTaskDagName pid (task_Name t) \<notin> set (rc_processingTasks r)) \<longrightarrow> ts \<noteq> [])"
proof -
  note f = accepted_run_tasks [OF run]
  note g = tasks_of_file_graph [OF f]
  obtain ts r' where s: "getSchedulableTasks ord ord' pid tasks r = Some (Inr ts, r')" "schedules pid tasks r ts r'"
    using getSchedulableTasks_schedules [OF g(1) ord ord'] by blast
  have may: "may_start pid tasks r t" if "t \<in> set ts" for t using s(2) that by (simp add: schedules_def)
  have "task_Name t' \<in> set (DoneTasks tasks)"
    if "t \<in> set ts" "t' \<in> set tasks" "stage_of (sp_Stages s) (task_Name t') < stage_of (sp_Stages s) (task_Name t)" for t t'
    using may [OF that(1)] tasks_of_file_RunAfter [OF f, of t "task_Name t'"] that(2,3)
    by (auto simp: may_start_def)
  moreover have "t \<in> set tasks" if "t \<in> set ts" for t using may [OF that] by (simp add: may_start_def)
  moreover have "ts \<noteq> []" if "\<exists>t\<in>set tasks. task_Name t \<notin> set (DoneTasks tasks)"
    "\<forall>t\<in>set tasks. buildTaskDagName pid (task_Name t) \<notin> set (rc_processingTasks r)"
    using schedulable_progress [OF g ord ord' that] s(1) by auto
  ultimately show ?thesis using s(1) by blast
qed


section \<open>Rows of nested tasks\<close>

lemma merge_task_fresh:
  "(\<And>d. d \<in> set dbTasks \<Longrightarrow> \<not> same_task a d) \<Longrightarrow> merge_task a dbTasks m = m"
  by (induction dbTasks arbitrary: m) auto



section \<open>Merging does not panic\<close>

lemma those_total: "(\<And>x. x \<in> set xs \<Longrightarrow> f x \<noteq> None) \<Longrightarrow> \<exists>ys. those (map f xs) = Some ys"
  by (induction xs) fastforce+

definition passed_ok :: "PassedDataWhenCreate option \<Rightarrow> bool" where
  "passed_ok passed \<longleftrightarrow> (case passed of None \<Rightarrow> True | Some d \<Rightarrow> pd_actionJobSpecs d \<noteq> None)"

lemma makeNormalPipelineTask_total: "passed_ok passed \<Longrightarrow> makeNormalPipelineTask lib p ps a passed \<noteq> None"
  by (auto simp: passed_ok_def makeNormalPipelineTask_def GetActionJobSpecs_def split: option.splits)

lemma getYmlActionTasks_total:
  assumes "lists_map iter" "length dbStages = length (sp_Stages s)" "passed_ok passed"
  shows "\<exists>ts. getYmlActionTasks lib (StageVisitor_Visit yl flat iter s) p dbStages passed = Some ts"
proof -
  let ?L = "LoopStagesActions (StageVisitor_Visit yl flat iter s)"
  note v = visit_needs [OF assms(1), of s yl flat]
  have "make_task lib p dbStages passed x \<noteq> None" if x: "x \<in> set ?L" for x
  proof -
    obtain k where k: "k < length ?L" "x = ?L ! k" using x by (auto simp: in_set_conv_nth)
    then have k': "k < length (file_entries (sp_Stages s))" using list_all2_lengthD [OF v] by simp
    obtain si e where e: "file_entries (sp_Stages s) ! k = (si, e)" by (rule prod.exhaust)
    then have "si < length dbStages" using nth_mem [OF k'] assms(2) by (auto simp: in_file_entries)
    moreover obtain a where "x = (si, Some a)" using list_all2_nthD [OF v k'] e k(2) by (auto split: prod.splits)
    ultimately show ?thesis using makeNormalPipelineTask_total [OF assms(3)] by (simp add: make_task_def)
  qed
  then show ?thesis using those_total [of ?L] by (auto simp: getYmlActionTasks_def)
qed

lemma operate_all_no_ops: "p_TaskOperates p = [] \<Longrightarrow> operate_all lib p ts = Inr ts"
  by (induction ts) (simp_all add: OperateTask_def)

section \<open>An example: the two stages run\<close>

definition example_task_lib :: task_lib where
  "example_task_lib =
     \<lparr>tb_yml = example_lib, tb_conf = \<lparr>cf_TaskDefaultCPU = 1 / 2, cf_TaskDefaultMEM = 2048\<rparr>,
      tb_Unmarshal = (\<lambda>_. None), tb_GetPipelineStage = (\<lambda>_. Inl ''not found'')\<rparr>"

definition example_stage :: "nat \<Rightarrow> PipelineStage" where
  "example_stage si =
     \<lparr>ps_ID = si + 10, ps_PipelineID = 1, ps_Name = [], ps_Status = PipelineStatusAnalyzed, ps_CostTimeSec = - 1,
      ps_StageOrder = si\<rparr>"

lemma two_stages_run:
  obtains tasks where
    "accepted_run example_task_lib example_new_lib ''file'' (two_stages ''jar'') [] sample_pipeline
       [example_stage 0, example_stage 1] None tasks"
    "task_Name ` set tasks = {''git'', ''jar'', ''js''}"
proof -
  let ?st = "[example_stage 0, example_stage 1]" and ?nl = example_new_lib
  obtain y where y: "yml_New ?nl ''file'' (new_PipelineYml ''file'') = Some (Inr y)"
    using example_accepted by blast
  obtain s1 where s1: "sp_Stages s1 = sp_Stages (two_stages ''jar'')"
    "sp_Stages (py_s y) = sp_Stages (StageVisitor_Visit (nl_yml ?nl) False (nl_iter ?nl) s1)"
    using y by (rule_tac yml_New_without_options [OF example_reads(1-4), of "''file''"])
      (auto simp: new_result_def split: option.splits)
  have len: "length ?st = length (sp_Stages s1)" by (simp add: s1 two_stages_def)
  obtain ts where ts: "getYmlActionTasks example_task_lib (StageVisitor_Visit (nl_yml ?nl) False (nl_iter ?nl) s1)
      sample_pipeline ?st None = Some ts"
    using getYmlActionTasks_total [OF example_reads(1) len, of None] by (simp add: passed_ok_def) blast
  have "p_TaskOperates sample_pipeline = []" by (simp add: sample_pipeline_def)
  then have "MergePipelineYmlTasks example_task_lib (py_s y) [] sample_pipeline ?st None = Some (Inr (ymlTasksMergeDBTasks ts []))"
    unfolding merge_cong [OF s1(2)] using ts by (simp add: MergePipelineYmlTasks_def operate_all_no_ops)
  moreover have "no_needs (sp_Stages (two_stages ''jar''))"
    by (auto simp: no_needs_def file_entries_def two_stages_def entry_action_def empty_Action_def)
  ultimately have run: "accepted_run example_task_lib ?nl ''file'' (two_stages ''jar'') [] sample_pipeline ?st None
      (ymlTasksMergeDBTasks ts [])"
    using y len s1(1) example_reads by (auto simp: accepted_run_def rows_of_file_def)
  then have "map task_Name (ymlTasksMergeDBTasks ts []) = concat (map stage_aliases (sp_Stages (two_stages ''jar'')))"
    using tasks_of_file_names accepted_run_tasks(1) by blast
  also have "\<dots> = [''git'', ''jar'', ''js'']" by (simp add: yml_eval)
  finally have "set (map task_Name (ymlTasksMergeDBTasks ts [])) = {''git'', ''jar'', ''js''}" by simp
  then show ?thesis using that run by simp
qed

theorem stages_run_in_series_witness:
  "\<exists>tasks ts r'. task_Name ` set tasks = {''git'', ''jar'', ''js''} \<and>
     getSchedulableTasks [''git'', ''jar'', ''js''] [''js'', ''jar'', ''git''] 1 tasks (example_reconciler tasks) =
       Some (Inr ts, r')"
proof (rule two_stages_run)
  fix tasks
  assume run: "accepted_run example_task_lib example_new_lib ''file'' (two_stages ''jar'') [] sample_pipeline
       [example_stage 0, example_stage 1] None tasks" and n: "task_Name ` set tasks = {''git'', ''jar'', ''js''}"
  have "\<exists>ts r'. getSchedulableTasks [''git'', ''jar'', ''js''] [''js'', ''jar'', ''git''] 1 tasks (example_reconciler tasks) =
       Some (Inr ts, r')"
    using stages_run_in_series [OF run, of "[''git'', ''jar'', ''js'']" "[''js'', ''jar'', ''git'']" 1 "example_reconciler tasks"] n
    by fastforce
  then show ?thesis using n by blast
qed


end
