(* ===== verification/Go_Ieee.thy ===== *)
theory Go_Ieee
  imports Go_Float "HOL-Library.Word"
begin

unbundle bit_operations_syntax

text \<open>
  Go's \<open>float64\<close> with its bits: a value is the pattern that \<open>math.Float64bits\<close> shows, so
  that both zeros, the infinities and every NaN are told apart. A pattern is decoded into a sign
  and a magnitude, the operation is carried out exactly and rounded to the nearest value, ties to
  even. What the language leaves to the machine is in the record \<open>platform\<close>: the NaN an
  operation produces, and the conversion of a float that does not fit into an integer.
\<close>

section \<open>Patterns and their values\<close>

type_synonym bits64 = "64 word"

datatype fval = FNaN | FInf bool | FFin bool rat

definition decode :: "bits64 \<Rightarrow> fval" where
  "decode w =
     (let s = bit w 63; e = uint (take_bit 11 (drop_bit 52 w)); m = uint (take_bit 52 w)
      in if e = 2047 then (if m = 0 then FInf s else FNaN)
         else if e = 0 then FFin s (scale2 (of_int m) (- 1074))
         else FFin s (scale2 (of_int (2 ^ 52 + m)) (e - 1075)))"

text \<open>
  The pattern of a magnitude without its sign. The exponent field counts multiples of
  \<open>2 ^ 52\<close>, and a carry out of the mantissa moves into it.
\<close>

definition magnitude_bits :: "rat \<Rightarrow> int" where
  "magnitude_bits q =
     (case quotient_of q of (a, b) \<Rightarrow>
        if a = 0 then 0
        else let e = max (frac_exponent a b - 52) (- 1074);
                 m = (if e \<ge> 0 then round_div_even a (b * 2 ^ nat e)
                      else round_div_even (a * 2 ^ nat (- e)) b)
             in min ((e + 1074) * 2 ^ 52 + m) (2047 * 2 ^ 52))"

definition sign_bits :: "bool \<Rightarrow> int" where
  "sign_bits s = (if s then 2 ^ 63 else 0)"

fun encode :: "bits64 \<Rightarrow> fval \<Rightarrow> bits64" where
  "encode nan FNaN = nan"
| "encode nan (FInf s) = word_of_int (sign_bits s + 2047 * 2 ^ 52)"
| "encode nan (FFin s q) = word_of_int (sign_bits s + magnitude_bits q)"

fun signed_val :: "bool \<Rightarrow> rat \<Rightarrow> rat" where
  "signed_val s q = (if s then - q else q)"

section \<open>Arithmetic\<close>

text \<open>The exact sum has the sign of zero only when both operands are negative zeros.\<close>

fun fv_add :: "fval \<Rightarrow> fval \<Rightarrow> fval" where
  "fv_add FNaN y = FNaN"
| "fv_add x FNaN = FNaN"
| "fv_add (FInf s) (FInf t) = (if s = t then FInf s else FNaN)"
| "fv_add (FInf s) (FFin t q) = FInf s"
| "fv_add (FFin s p) (FInf t) = FInf t"
| "fv_add (FFin s p) (FFin t q) =
     (let r = signed_val s p + signed_val t q
      in if r = 0 then FFin (s \<and> t) 0 else FFin (r < 0) \<bar>r\<bar>)"

fun fv_neg :: "fval \<Rightarrow> fval" where
  "fv_neg FNaN = FNaN"
| "fv_neg (FInf s) = FInf (\<not> s)"
| "fv_neg (FFin s q) = FFin (\<not> s) q"

definition fv_sub :: "fval \<Rightarrow> fval \<Rightarrow> fval" where
  "fv_sub x y = fv_add x (fv_neg y)"

fun fv_mul :: "fval \<Rightarrow> fval \<Rightarrow> fval" where
  "fv_mul FNaN y = FNaN"
| "fv_mul x FNaN = FNaN"
| "fv_mul (FInf s) (FInf t) = FInf (s \<noteq> t)"
| "fv_mul (FInf s) (FFin t q) = (if q = 0 then FNaN else FInf (s \<noteq> t))"
| "fv_mul (FFin s p) (FInf t) = (if p = 0 then FNaN else FInf (s \<noteq> t))"
| "fv_mul (FFin s p) (FFin t q) = FFin (s \<noteq> t) (p * q)"

fun fv_div :: "fval \<Rightarrow> fval \<Rightarrow> fval" where
  "fv_div FNaN y = FNaN"
| "fv_div x FNaN = FNaN"
| "fv_div (FInf s) (FInf t) = FNaN"
| "fv_div (FInf s) (FFin t q) = FInf (s \<noteq> t)"
| "fv_div (FFin s p) (FInf t) = FFin (s \<noteq> t) 0"
| "fv_div (FFin s p) (FFin t q) =
     (if q = 0 then (if p = 0 then FNaN else FInf (s \<noteq> t)) else FFin (s \<noteq> t) (p / q))"

record platform =
  pf_nan :: "bits64 \<Rightarrow> bits64 \<Rightarrow> bits64"
  pf_int64 :: "bits64 \<Rightarrow> 64 word"
  pf_uint64 :: "bits64 \<Rightarrow> 64 word"
  pf_nan32 :: "32 word \<Rightarrow> bits64"

definition f64_op :: "(fval \<Rightarrow> fval \<Rightarrow> fval) \<Rightarrow> platform \<Rightarrow> bits64 \<Rightarrow> bits64 \<Rightarrow> bits64" where
  "f64_op f pf x y = encode (pf_nan pf x y) (f (decode x) (decode y))"

abbreviation f64_add :: "platform \<Rightarrow> bits64 \<Rightarrow> bits64 \<Rightarrow> bits64" where "f64_add \<equiv> f64_op fv_add"
abbreviation f64_sub :: "platform \<Rightarrow> bits64 \<Rightarrow> bits64 \<Rightarrow> bits64" where "f64_sub \<equiv> f64_op fv_sub"
abbreviation f64_mul :: "platform \<Rightarrow> bits64 \<Rightarrow> bits64 \<Rightarrow> bits64" where "f64_mul \<equiv> f64_op fv_mul"
abbreviation f64_div :: "platform \<Rightarrow> bits64 \<Rightarrow> bits64 \<Rightarrow> bits64" where "f64_div \<equiv> f64_op fv_div"

text \<open>Negation changes the sign bit, also of a NaN.\<close>

definition f64_neg :: "bits64 \<Rightarrow> bits64" where
  "f64_neg x = x XOR push_bit 63 1"

section \<open>Comparisons\<close>

fun fv_less :: "fval \<Rightarrow> fval \<Rightarrow> bool" where
  "fv_less FNaN y = False"
| "fv_less x FNaN = False"
| "fv_less (FInf s) (FInf t) = (s \<and> \<not> t)"
| "fv_less (FInf s) (FFin t q) = s"
| "fv_less (FFin s p) (FInf t) = (\<not> t)"
| "fv_less (FFin s p) (FFin t q) = (signed_val s p < signed_val t q)"

fun fv_eq :: "fval \<Rightarrow> fval \<Rightarrow> bool" where
  "fv_eq FNaN y = False"
| "fv_eq x FNaN = False"
| "fv_eq (FInf s) (FInf t) = (s = t)"
| "fv_eq (FInf s) (FFin t q) = False"
| "fv_eq (FFin s p) (FInf t) = False"
| "fv_eq (FFin s p) (FFin t q) = (signed_val s p = signed_val t q)"

definition f64_less :: "bits64 \<Rightarrow> bits64 \<Rightarrow> bool" where
  "f64_less x y = fv_less (decode x) (decode y)"

definition f64_eq :: "bits64 \<Rightarrow> bits64 \<Rightarrow> bool" where
  "f64_eq x y = fv_eq (decode x) (decode y)"

definition f64_le :: "bits64 \<Rightarrow> bits64 \<Rightarrow> bool" where
  "f64_le x y = (f64_less x y \<or> f64_eq x y)"

section \<open>Conversions\<close>

definition f64_of_int :: "int \<Rightarrow> bits64" where
  "f64_of_int n = encode 0 (FFin (n < 0) (of_int \<bar>n\<bar>))"

abbreviation f64_of_int64 :: "64 word \<Rightarrow> bits64" where "f64_of_int64 w \<equiv> f64_of_int (sint w)"
abbreviation f64_of_uint64 :: "64 word \<Rightarrow> bits64" where "f64_of_uint64 w \<equiv> f64_of_int (uint w)"

definition f64_to_int64 :: "platform \<Rightarrow> bits64 \<Rightarrow> 64 word" where
  "f64_to_int64 pf x =
     (case decode x of
        FFin s q \<Rightarrow>
          let n = trunc_rat (signed_val s q)
          in if - (2 ^ 63) \<le> n \<and> n < 2 ^ 63 then word_of_int n else pf_int64 pf x
      | _ \<Rightarrow> pf_int64 pf x)"

definition f64_to_uint64 :: "platform \<Rightarrow> bits64 \<Rightarrow> 64 word" where
  "f64_to_uint64 pf x =
     (case decode x of
        FFin s q \<Rightarrow>
          let n = trunc_rat (signed_val s q)
          in if 0 \<le> n \<and> n < 2 ^ 64 then word_of_int n else pf_uint64 pf x
      | _ \<Rightarrow> pf_uint64 pf x)"

text \<open>A \<open>float32\<close> is converted without loss.\<close>

definition decode32 :: "32 word \<Rightarrow> fval" where
  "decode32 w =
     (let s = bit w 31; e = uint (take_bit 8 (drop_bit 23 w)); m = uint (take_bit 23 w)
      in if e = 255 then (if m = 0 then FInf s else FNaN)
         else if e = 0 then FFin s (scale2 (of_int m) (- 149))
         else FFin s (scale2 (of_int (2 ^ 23 + m)) (e - 150)))"

definition f64_of_f32 :: "platform \<Rightarrow> 32 word \<Rightarrow> bits64" where
  "f64_of_f32 pf w = encode (pf_nan32 pf w) (decode32 w)"

end
