(* ===== verification/Tsql_Value.thy ===== *)
theory Tsql_Value
  imports Go_Ieee Strutil
begin

text \<open>
  The values and operators of the metric query language
  (\<^verbatim>\<open>src/modules/core/monitor/metric/query/es-tsql/operator.go\<close>): the operators and their
  names, the data types, the normalisation \<open>ValueOf\<close> and the helpers that the operators share.
  A 64-bit integer, signed or not, is a word, so that the conversions between \<open>int64\<close>,
  \<open>uint64\<close> and \<open>time.Duration\<close> are the identity; a float is its pattern.
\<close>

section \<open>Operators\<close>

datatype Operator =
    OpILLEGAL | OpADD | OpSUB | OpMUL | OpDIV | OpMOD | OpBITAND | OpBITOR | OpBITXOR | OpAND | OpOR
  | OpEQ | OpNEQ | OpEQREGEX | OpNEQREGEX | OpLT | OpLTE | OpGT | OpGTE | OpBeyond "32 word"

definition operators :: "(Operator \<times> string) list" where
  "operators = [(OpILLEGAL, ''ILLEGAL''), (OpADD, ''+''), (OpSUB, ''-''), (OpMUL, ''*''), (OpDIV, ''/''),
     (OpMOD, ''%''), (OpBITAND, ''&''), (OpBITOR, ''|''), (OpBITXOR, ''^''), (OpAND, ''&&''), (OpOR, ''||''),
     (OpEQ, ''=''), (OpNEQ, ''!=''), (OpEQREGEX, ''=~''), (OpNEQREGEX, ''!~''), (OpLT, ''<''), (OpLTE, ''<=''),
     (OpGT, ''>''), (OpGTE, ''>='')]"

definition Operator_String :: "Operator \<Rightarrow> string" where
  "Operator_String op = (case map_of operators op of None \<Rightarrow> ''ILLEGAL'' | Some name \<Rightarrow> name)"

definition operatorStrings :: "string \<rightharpoonup> Operator" where
  "operatorStrings = foldl (\<lambda>m (op, name). m(name \<mapsto> op)) Map.empty operators"

definition ParseOperator :: "string \<Rightarrow> Operator" where
  "ParseOperator name = (case operatorStrings name of Some op \<Rightarrow> op | None \<Rightarrow> OpILLEGAL)"

section \<open>Values\<close>

datatype DataType =
    NullType | BoolType | IntType | UintType | FloatType | StringType | TimeType | DurationType | RegexpType
  | UnknownType

text \<open>
  An instant with its location, a compiled pattern behind a pointer (\<open>None\<close> is the nil
  pointer), and a value of any other type: two such values are equal when they have the same
  type and identity, and comparing values of a type without equality panics.
\<close>

record go_time =
  gt_at :: time
  gt_loc :: nat

record regexp =
  re_addr :: nat
  re_text :: string

record go_other =
  ot_type :: string
  ot_comparable :: bool
  ot_id :: nat

datatype tsql_value =
    NilV | BoolV bool | IntV "64 word" | UintV "64 word" | FloatV bits64 | StringV string | TimeV go_time
  | DurationV "64 word" | RegexpV "regexp option" | OtherV go_other

datatype go_any =
    GInt "64 word" | GInt8 "8 word" | GInt16 "16 word" | GInt32 "32 word"
  | GUint "64 word" | GUint8 "8 word" | GUint16 "16 word" | GUint32 "32 word"
  | GFloat32 "32 word" | GAny tsql_value

fun TypeOf_value :: "tsql_value \<Rightarrow> DataType" where
  "TypeOf_value NilV = NullType"
| "TypeOf_value (BoolV b) = BoolType"
| "TypeOf_value (IntV n) = IntType"
| "TypeOf_value (UintV n) = UintType"
| "TypeOf_value (FloatV x) = FloatType"
| "TypeOf_value (StringV s) = StringType"
| "TypeOf_value (TimeV t) = TimeType"
| "TypeOf_value (DurationV d) = DurationType"
| "TypeOf_value (RegexpV r) = RegexpType"
| "TypeOf_value (OtherV x) = UnknownType"

fun TypeOf :: "go_any \<Rightarrow> DataType" where
  "TypeOf (GInt n) = IntType"
| "TypeOf (GInt8 n) = IntType"
| "TypeOf (GInt16 n) = IntType"
| "TypeOf (GInt32 n) = IntType"
| "TypeOf (GUint n) = UintType"
| "TypeOf (GUint8 n) = UintType"
| "TypeOf (GUint16 n) = UintType"
| "TypeOf (GUint32 n) = UintType"
| "TypeOf (GFloat32 x) = FloatType"
| "TypeOf (GAny v) = TypeOf_value v"

text \<open>
  What the operators use of Go's library beyond the arithmetic: the machine, the text of floats,
  durations, instants and other values, the parsers of floats, durations and instants
  (\<open>None\<close> is their error), matching, the local time zone; and \<open>conv.ToInt\<close> and
  \<open>conv.ToFloat64\<close> of a third-party package, a number for any value with a default.
\<close>

record golib =
  lib_platform :: platform
  lib_ParseFloat :: "string \<Rightarrow> bits64 option"
  lib_FormatFloat :: "bits64 \<Rightarrow> string"
  lib_ParseDuration :: "string \<Rightarrow> 64 word option"
  lib_DurationString :: "64 word \<Rightarrow> string"
  lib_TimeString :: "go_time \<Rightarrow> string"
  lib_Sprint :: "tsql_value \<Rightarrow> string"
  lib_Match :: "regexp \<Rightarrow> string \<Rightarrow> bool"
  lib_TimeParse :: "string \<Rightarrow> string \<Rightarrow> go_time option"
  lib_Local :: nat
  lib_Sprint32 :: "32 word \<Rightarrow> string"
  lib_ToInt :: "go_any \<Rightarrow> 64 word \<Rightarrow> 64 word"
  lib_ToFloat64 :: "go_any \<Rightarrow> bits64 \<Rightarrow> bits64"

fun ValueOf :: "golib \<Rightarrow> go_any \<Rightarrow> tsql_value" where
  "ValueOf lib (GInt n) = IntV n"
| "ValueOf lib (GInt8 n) = IntV (word_of_int (sint n))"
| "ValueOf lib (GInt16 n) = IntV (word_of_int (sint n))"
| "ValueOf lib (GInt32 n) = IntV (word_of_int (sint n))"
| "ValueOf lib (GUint n) = UintV n"
| "ValueOf lib (GUint8 n) = UintV (word_of_int (uint n))"
| "ValueOf lib (GUint16 n) = UintV (word_of_int (uint n))"
| "ValueOf lib (GUint32 n) = UintV (word_of_int (uint n))"
| "ValueOf lib (GFloat32 x) = FloatV (f64_of_f32 (lib_platform lib) x)"
| "ValueOf lib (GAny v) = v"

section \<open>Results\<close>

datatype tsql_error =
    ErrParse string string
  | ErrOperator Operator
  | ErrNotSupport string Operator string

datatype result = Ret tsql_value | Err tsql_error | Panic

text \<open>A type switch without a case for the operands yields \<open>None\<close>.\<close>

abbreviation ret :: "tsql_value \<Rightarrow> result option" where
  "ret v \<equiv> Some (Ret v)"

section \<open>Helpers of the operators\<close>

definition boolToInt :: "bool \<Rightarrow> 64 word" where
  "boolToInt v = (if v then 1 else 0)"

definition valueToBool :: "tsql_value \<Rightarrow> bool" where
  "valueToBool v =
     (case v of
        NilV \<Rightarrow> False
      | BoolV val \<Rightarrow> val
      | IntV val \<Rightarrow> val \<noteq> 0
      | UintV val \<Rightarrow> val \<noteq> 0
      | FloatV val \<Rightarrow> \<not> f64_eq val 0
      | StringV val \<Rightarrow> length val > 0
      | TimeV val \<Rightarrow> \<not> IsZero (gt_at val)
      | DurationV val \<Rightarrow> val \<noteq> 0
      | RegexpV val \<Rightarrow> val \<noteq> None
      | OtherV val \<Rightarrow> True)"

text \<open>Nanoseconds from Go's zero time to the Unix epoch; \<open>UnixNano\<close> keeps the low 64 bits.\<close>

definition unix_epoch :: time where
  "unix_epoch = 62135596800 * 10 ^ 9"

definition UnixNano :: "go_time \<Rightarrow> 64 word" where
  "UnixNano t = word_of_int (gt_at t - unix_epoch)"

definition time_Add :: "go_time \<Rightarrow> 64 word \<Rightarrow> go_time" where
  "time_Add t d = t\<lparr>gt_at := gt_at t + sint d\<rparr>"

text \<open>The difference of two instants is cut off at the least and the greatest duration.\<close>

definition time_Sub :: "go_time \<Rightarrow> go_time \<Rightarrow> 64 word" where
  "time_Sub t u = word_of_int (max (- (2 ^ 63)) (min (2 ^ 63 - 1) (gt_at t - gt_at u)))"

definition FormatBool :: "bool \<Rightarrow> string" where
  "FormatBool b = (if b then ''true'' else ''false'')"

definition FormatInt :: "64 word \<Rightarrow> string" where
  "FormatInt n = Itoa (sint n)"

definition FormatUint64 :: "64 word \<Rightarrow> string" where
  "FormatUint64 n = FormatUint (unat n)"

definition Sprint :: "golib \<Rightarrow> tsql_value \<Rightarrow> string" where
  "Sprint lib v =
     (case v of
        NilV \<Rightarrow> ''<nil>''
      | BoolV b \<Rightarrow> FormatBool b
      | IntV n \<Rightarrow> FormatInt n
      | UintV n \<Rightarrow> FormatUint64 n
      | StringV s \<Rightarrow> s
      | TimeV t \<Rightarrow> lib_TimeString lib t
      | DurationV d \<Rightarrow> lib_DurationString lib d
      | _ \<Rightarrow> lib_Sprint lib v)"

definition string_le :: "string \<Rightarrow> string \<Rightarrow> bool" where
  "string_le s t \<longleftrightarrow> s = t \<or> string_less s t"

abbreviation fadd :: "golib \<Rightarrow> bits64 \<Rightarrow> bits64 \<Rightarrow> bits64" where "fadd lib \<equiv> f64_add (lib_platform lib)"
abbreviation fsub :: "golib \<Rightarrow> bits64 \<Rightarrow> bits64 \<Rightarrow> bits64" where "fsub lib \<equiv> f64_sub (lib_platform lib)"
abbreviation fmul :: "golib \<Rightarrow> bits64 \<Rightarrow> bits64 \<Rightarrow> bits64" where "fmul lib \<equiv> f64_mul (lib_platform lib)"
abbreviation fdiv :: "golib \<Rightarrow> bits64 \<Rightarrow> bits64 \<Rightarrow> bits64" where "fdiv lib \<equiv> f64_div (lib_platform lib)"
abbreviation int64_of :: "golib \<Rightarrow> bits64 \<Rightarrow> 64 word" where "int64_of lib \<equiv> f64_to_int64 (lib_platform lib)"
abbreviation uint64_of :: "golib \<Rightarrow> bits64 \<Rightarrow> 64 word" where "uint64_of lib \<equiv> f64_to_uint64 (lib_platform lib)"

text \<open>Integer division: it truncates, and a zero divisor panics.\<close>

definition trunc_div :: "int \<Rightarrow> int \<Rightarrow> int" where
  "trunc_div a b = (let q = \<bar>a\<bar> div \<bar>b\<bar> in if (a < 0) = (b < 0) then q else - q)"

definition trunc_mod :: "int \<Rightarrow> int \<Rightarrow> int" where
  "trunc_mod a b = (let r = \<bar>a\<bar> mod \<bar>b\<bar> in if a < 0 then - r else r)"

definition squot :: "(64 word \<Rightarrow> tsql_value) \<Rightarrow> 64 word \<Rightarrow> 64 word \<Rightarrow> result option" where
  "squot V a b = Some (if b = 0 then Panic else Ret (V (word_of_int (trunc_div (sint a) (sint b)))))"

definition srem :: "(64 word \<Rightarrow> tsql_value) \<Rightarrow> 64 word \<Rightarrow> 64 word \<Rightarrow> result option" where
  "srem V a b = Some (if b = 0 then Panic else Ret (V (word_of_int (trunc_mod (sint a) (sint b)))))"

definition uquot :: "(64 word \<Rightarrow> tsql_value) \<Rightarrow> 64 word \<Rightarrow> 64 word \<Rightarrow> result option" where
  "uquot V a b = Some (if b = 0 then Panic else Ret (V (a div b)))"

definition urem :: "(64 word \<Rightarrow> tsql_value) \<Rightarrow> 64 word \<Rightarrow> 64 word \<Rightarrow> result option" where
  "urem V a b = Some (if b = 0 then Panic else Ret (V (a mod b)))"

text \<open>Parsing an operand: the error of the parser is returned.\<close>

definition parse_float :: "golib \<Rightarrow> string \<Rightarrow> (bits64 \<Rightarrow> result option) \<Rightarrow> result option" where
  "parse_float lib s k =
     (case lib_ParseFloat lib s of None \<Rightarrow> Some (Err (ErrParse ''ParseFloat'' s)) | Some x \<Rightarrow> k x)"

definition parse_duration :: "golib \<Rightarrow> string \<Rightarrow> (64 word \<Rightarrow> result option) \<Rightarrow> result option" where
  "parse_duration lib s k =
     (case lib_ParseDuration lib s of None \<Rightarrow> Some (Err (ErrParse ''ParseDuration'' s)) | Some d \<Rightarrow> k d)"

definition parse_int :: "string \<Rightarrow> (64 word \<Rightarrow> result option) \<Rightarrow> result option" where
  "parse_int s k =
     (case Atoi64 s of None \<Rightarrow> Some (Err (ErrParse ''ParseInt'' s)) | Some n \<Rightarrow> k (word_of_int n))"

definition parse_uint :: "string \<Rightarrow> (64 word \<Rightarrow> result option) \<Rightarrow> result option" where
  "parse_uint s k =
     (case ParseUint s of None \<Rightarrow> Some (Err (ErrParse ''ParseUint'' s)) | Some n \<Rightarrow> k (word_of_nat n))"

text \<open>The text of a pattern; a nil pointer is dereferenced.\<close>

definition with_text :: "regexp option \<Rightarrow> (string \<Rightarrow> result option) \<Rightarrow> result option" where
  "with_text r k = (case r of None \<Rightarrow> Some Panic | Some re \<Rightarrow> k (re_text re))"

section \<open>Names of operators\<close>

lemma operatorStrings_map_of: "operatorStrings = map_of (rev (map prod.swap operators))"
  by (simp add: operatorStrings_def operators_def)

lemma ParseOperator_String:
  assumes "op \<in> fst ` set operators" shows "ParseOperator (Operator_String op) = op"
  using assms by (auto simp: ParseOperator_def Operator_String_def operatorStrings_def operators_def)

end
