(* ===== verification/Tsql_Arith.thy ===== *)
theory Tsql_Arith
  imports Tsql_Value
begin

text \<open>
  The arithmetic operators of \<^verbatim>\<open>es-tsql/operator.go\<close>: \<open>OperateValues\<close> switches on the
  type of the left operand and then on that of the right one. Every type of the left operand has
  a function, with an equation for every case of its switch.
\<close>

section \<open>Addition\<close>

fun add_nil :: "golib \<Rightarrow> tsql_value \<Rightarrow> result option" where
  "add_nil lib NilV = ret (IntV 0)"
| "add_nil lib (BoolV bv) = ret (IntV (boolToInt bv))"
| "add_nil lib (IntV bv) = ret (IntV bv)"
| "add_nil lib (UintV bv) = ret (UintV bv)"
| "add_nil lib (FloatV bv) = ret (FloatV bv)"
| "add_nil lib (StringV bv) = ret (StringV bv)"
| "add_nil lib (TimeV bv) = ret (TimeV bv)"
| "add_nil lib (DurationV bv) = ret (DurationV bv)"
| "add_nil lib (RegexpV bv) = ret (RegexpV bv)"
| "add_nil lib b = None"

fun add_bool :: "golib \<Rightarrow> bool \<Rightarrow> tsql_value \<Rightarrow> result option" where
  "add_bool lib av NilV = ret (IntV (boolToInt av))"
| "add_bool lib av (BoolV bv) = ret (IntV (boolToInt av + boolToInt bv))"
| "add_bool lib av (IntV bv) = ret (IntV (boolToInt av + bv))"
| "add_bool lib av (UintV bv) = ret (UintV (boolToInt av + bv))"
| "add_bool lib av (FloatV bv) = ret (FloatV (fadd lib (f64_of_int64 (boolToInt av)) bv))"
| "add_bool lib av (StringV bv) = ret (StringV (FormatBool av @ bv))"
| "add_bool lib av (DurationV bv) = ret (DurationV (boolToInt av + bv))"
| "add_bool lib av b = None"

fun add_int :: "golib \<Rightarrow> 64 word \<Rightarrow> tsql_value \<Rightarrow> result option" where
  "add_int lib av NilV = ret (IntV av)"
| "add_int lib av (BoolV bv) = ret (IntV (av + boolToInt bv))"
| "add_int lib av (IntV bv) = ret (IntV (av + bv))"
| "add_int lib av (UintV bv) = ret (UintV (av + bv))"
| "add_int lib av (FloatV bv) = ret (FloatV (fadd lib (f64_of_int64 av) bv))"
| "add_int lib av (StringV bv) = ret (StringV (FormatInt av @ bv))"
| "add_int lib av (TimeV bv) = ret (TimeV (time_Add bv av))"
| "add_int lib av (DurationV bv) = ret (DurationV (av + bv))"
| "add_int lib av b = None"

fun add_uint :: "golib \<Rightarrow> 64 word \<Rightarrow> tsql_value \<Rightarrow> result option" where
  "add_uint lib av NilV = ret (UintV av)"
| "add_uint lib av (BoolV bv) = ret (UintV (av + boolToInt bv))"
| "add_uint lib av (IntV bv) = ret (UintV (av + bv))"
| "add_uint lib av (UintV bv) = ret (UintV (av + bv))"
| "add_uint lib av (FloatV bv) = ret (FloatV (fadd lib (f64_of_uint64 av) bv))"
| "add_uint lib av (StringV bv) = ret (StringV (FormatUint64 av @ bv))"
| "add_uint lib av (TimeV bv) = ret (TimeV (time_Add bv av))"
| "add_uint lib av (DurationV bv) = ret (DurationV (av + bv))"
| "add_uint lib av b = None"

fun add_float :: "golib \<Rightarrow> bits64 \<Rightarrow> tsql_value \<Rightarrow> result option" where
  "add_float lib av NilV = ret (FloatV av)"
| "add_float lib av (BoolV bv) = ret (FloatV (fadd lib av (f64_of_int64 (boolToInt bv))))"
| "add_float lib av (IntV bv) = ret (FloatV (fadd lib av (f64_of_int64 bv)))"
| "add_float lib av (UintV bv) = ret (FloatV (fadd lib av (f64_of_uint64 bv)))"
| "add_float lib av (FloatV bv) = ret (FloatV (fadd lib av bv))"
| "add_float lib av (StringV bv) = ret (StringV (lib_FormatFloat lib av @ bv))"
| "add_float lib av (TimeV bv) = ret (TimeV (time_Add bv (int64_of lib av)))"
| "add_float lib av (DurationV bv) = ret (DurationV (int64_of lib (fadd lib av (f64_of_int64 bv))))"
| "add_float lib av b = None"

definition add_string :: "golib \<Rightarrow> string \<Rightarrow> tsql_value \<Rightarrow> result option" where
  "add_string lib av b = (if b = NilV then ret (StringV av) else ret (StringV (av @ Sprint lib b)))"

fun add_time :: "golib \<Rightarrow> go_time \<Rightarrow> tsql_value \<Rightarrow> result option" where
  "add_time lib av NilV = ret (TimeV av)"
| "add_time lib av (IntV bv) = ret (TimeV (time_Add av bv))"
| "add_time lib av (UintV bv) = ret (TimeV (time_Add av bv))"
| "add_time lib av (FloatV bv) = ret (TimeV (time_Add av (int64_of lib bv)))"
| "add_time lib av (StringV bv) = ret (StringV (lib_TimeString lib av @ bv))"
| "add_time lib av (DurationV bv) = ret (TimeV (time_Add av bv))"
| "add_time lib av b = None"

fun add_duration :: "golib \<Rightarrow> 64 word \<Rightarrow> tsql_value \<Rightarrow> result option" where
  "add_duration lib av NilV = ret (DurationV av)"
| "add_duration lib av (BoolV bv) = ret (DurationV (av + boolToInt bv))"
| "add_duration lib av (IntV bv) = ret (DurationV (av + bv))"
| "add_duration lib av (UintV bv) = ret (DurationV (av + bv))"
| "add_duration lib av (FloatV bv) = ret (DurationV (int64_of lib (fadd lib (f64_of_int64 av) bv)))"
| "add_duration lib av (StringV bv) = ret (StringV (lib_DurationString lib av @ bv))"
| "add_duration lib av (TimeV bv) = ret (TimeV (time_Add bv av))"
| "add_duration lib av (DurationV bv) = ret (DurationV (av + bv))"
| "add_duration lib av b = None"

fun add_regexp :: "golib \<Rightarrow> regexp option \<Rightarrow> tsql_value \<Rightarrow> result option" where
  "add_regexp lib av NilV = ret (RegexpV av)"
| "add_regexp lib av (StringV bv) = with_text av (\<lambda>s. ret (StringV (s @ bv)))"
| "add_regexp lib av b = None"

definition op_add :: "golib \<Rightarrow> tsql_value \<Rightarrow> tsql_value \<Rightarrow> result option" where
  "op_add lib a b =
     (case a of
        NilV \<Rightarrow> add_nil lib b
      | BoolV av \<Rightarrow> add_bool lib av b
      | IntV av \<Rightarrow> add_int lib av b
      | UintV av \<Rightarrow> add_uint lib av b
      | FloatV av \<Rightarrow> add_float lib av b
      | StringV av \<Rightarrow> add_string lib av b
      | TimeV av \<Rightarrow> add_time lib av b
      | DurationV av \<Rightarrow> add_duration lib av b
      | RegexpV av \<Rightarrow> add_regexp lib av b
      | _ \<Rightarrow> None)"

section \<open>Subtraction\<close>

fun sub_nil :: "golib \<Rightarrow> tsql_value \<Rightarrow> result option" where
  "sub_nil lib NilV = ret (IntV 0)"
| "sub_nil lib (BoolV bv) = ret (IntV (- (boolToInt bv)))"
| "sub_nil lib (IntV bv) = ret (IntV (- bv))"
| "sub_nil lib (UintV bv) = ret (UintV (- bv))"
| "sub_nil lib (FloatV bv) = ret (FloatV (f64_neg bv))"
| "sub_nil lib (StringV bv) =
     (if bv = [] then ret (IntV 0) else parse_float lib bv (\<lambda>bn. ret (FloatV (f64_neg bn))))"
| "sub_nil lib (DurationV bv) = ret (DurationV (- bv))"
| "sub_nil lib (TimeV bv) = ret (DurationV (- (UnixNano bv)))"
| "sub_nil lib b = None"

fun sub_bool :: "golib \<Rightarrow> bool \<Rightarrow> tsql_value \<Rightarrow> result option" where
  "sub_bool lib av NilV = ret (IntV (boolToInt av))"
| "sub_bool lib av (BoolV bv) = ret (IntV (boolToInt av - boolToInt bv))"
| "sub_bool lib av (IntV bv) = ret (IntV (boolToInt av - bv))"
| "sub_bool lib av (UintV bv) = ret (UintV (boolToInt av - bv))"
| "sub_bool lib av (FloatV bv) = ret (FloatV (fsub lib (f64_of_int64 (boolToInt av)) bv))"
| "sub_bool lib av (StringV bv) =
     (if bv = [] then ret (IntV (boolToInt av)) else parse_float lib bv
       (\<lambda>bn. ret (FloatV (fsub lib (f64_of_int64 (boolToInt av)) bn))))"
| "sub_bool lib av (DurationV bv) = ret (DurationV (boolToInt av - bv))"
| "sub_bool lib av b = None"

fun sub_int :: "golib \<Rightarrow> 64 word \<Rightarrow> tsql_value \<Rightarrow> result option" where
  "sub_int lib av NilV = ret (IntV av)"
| "sub_int lib av (BoolV bv) = ret (IntV (av - boolToInt bv))"
| "sub_int lib av (IntV bv) = ret (IntV (av - bv))"
| "sub_int lib av (UintV bv) = ret (UintV (av - bv))"
| "sub_int lib av (FloatV bv) = ret (FloatV (fsub lib (f64_of_int64 av) bv))"
| "sub_int lib av (StringV bv) =
     (if bv = [] then ret (IntV av) else parse_float lib bv
       (\<lambda>bn. ret (FloatV (fsub lib (f64_of_int64 av) bn))))"
| "sub_int lib av (DurationV bv) = ret (DurationV (av - bv))"
| "sub_int lib av b = None"

fun sub_uint :: "golib \<Rightarrow> 64 word \<Rightarrow> tsql_value \<Rightarrow> result option" where
  "sub_uint lib av NilV = ret (UintV av)"
| "sub_uint lib av (BoolV bv) = ret (UintV (av - boolToInt bv))"
| "sub_uint lib av (IntV bv) = ret (UintV (av - bv))"
| "sub_uint lib av (UintV bv) = ret (UintV (av - bv))"
| "sub_uint lib av (FloatV bv) = ret (FloatV (fsub lib (f64_of_uint64 av) bv))"
| "sub_uint lib av (StringV bv) =
     (if bv = [] then ret (UintV av) else parse_float lib bv
       (\<lambda>bn. ret (FloatV (fsub lib (f64_of_uint64 av) bn))))"
| "sub_uint lib av (DurationV bv) = ret (DurationV (av - bv))"
| "sub_uint lib av b = None"

fun sub_float :: "golib \<Rightarrow> bits64 \<Rightarrow> tsql_value \<Rightarrow> result option" where
  "sub_float lib av NilV = ret (FloatV av)"
| "sub_float lib av (BoolV bv) = ret (FloatV (fsub lib av (f64_of_int64 (boolToInt bv))))"
| "sub_float lib av (IntV bv) = ret (FloatV (fsub lib av (f64_of_int64 bv)))"
| "sub_float lib av (UintV bv) = ret (FloatV (fsub lib av (f64_of_uint64 bv)))"
| "sub_float lib av (FloatV bv) = ret (FloatV (fsub lib av bv))"
| "sub_float lib av (StringV bv) =
     (if bv = [] then ret (FloatV av) else parse_float lib bv (\<lambda>bn. ret (FloatV (fsub lib av bn))))"
| "sub_float lib av (DurationV bv) = ret (DurationV (int64_of lib (fsub lib av (f64_of_int64 bv))))"
| "sub_float lib av b = None"

fun sub_string_num :: "golib \<Rightarrow> 64 word \<Rightarrow> tsql_value \<Rightarrow> result option" where
  "sub_string_num lib an NilV = ret (FloatV an)"
| "sub_string_num lib an (BoolV bv) = ret (FloatV (fsub lib an (f64_of_int64 (boolToInt bv))))"
| "sub_string_num lib an (IntV bv) = ret (FloatV (fsub lib an (f64_of_int64 bv)))"
| "sub_string_num lib an (UintV bv) = ret (FloatV (fsub lib an (f64_of_uint64 bv)))"
| "sub_string_num lib an (FloatV bv) = ret (FloatV (fsub lib an bv))"
| "sub_string_num lib an (StringV bv) =
     (if bv = [] then ret (FloatV an) else parse_float lib bv (\<lambda>bn. ret (FloatV (fsub lib an bn))))"
| "sub_string_num lib an b = None"

definition sub_string :: "golib \<Rightarrow> string \<Rightarrow> tsql_value \<Rightarrow> result option" where
  "sub_string lib av b =
     (case b of
        DurationV bv \<Rightarrow> parse_duration lib av (\<lambda>an. ret (DurationV (an - bv)))
      | _ \<Rightarrow> if av \<noteq> [] then parse_float lib av (\<lambda>an. sub_string_num lib an b) else sub_string_num lib 0 b)"

fun sub_time :: "golib \<Rightarrow> go_time \<Rightarrow> tsql_value \<Rightarrow> result option" where
  "sub_time lib av NilV = ret (DurationV (UnixNano av))"
| "sub_time lib av (IntV bv) = ret (TimeV (time_Add av (- bv)))"
| "sub_time lib av (UintV bv) = ret (TimeV (time_Add av (- bv)))"
| "sub_time lib av (FloatV bv) = ret (TimeV (time_Add av (- (int64_of lib bv))))"
| "sub_time lib av (StringV bv) =
     (if bv = [] then ret (TimeV av) else parse_duration lib bv
       (\<lambda>bn. ret (TimeV (time_Add av (- bn)))))"
| "sub_time lib av (TimeV bv) = ret (DurationV (time_Sub av bv))"
| "sub_time lib av (DurationV bv) = ret (TimeV (time_Add av (- bv)))"
| "sub_time lib av b = None"

fun sub_duration :: "golib \<Rightarrow> 64 word \<Rightarrow> tsql_value \<Rightarrow> result option" where
  "sub_duration lib av NilV = ret (DurationV av)"
| "sub_duration lib av (BoolV bv) = ret (DurationV (av - boolToInt bv))"
| "sub_duration lib av (IntV bv) = ret (DurationV (av - bv))"
| "sub_duration lib av (UintV bv) = ret (DurationV (av - bv))"
| "sub_duration lib av (FloatV bv) = ret (DurationV (int64_of lib (fsub lib (f64_of_int64 av) bv)))"
| "sub_duration lib av (StringV bv) =
     (if bv = [] then ret (DurationV av) else parse_duration lib bv (\<lambda>bn. ret (DurationV (av - bn))))"
| "sub_duration lib av (DurationV bv) = ret (DurationV (av + bv))"
| "sub_duration lib av b = None"

fun sub_regexp :: "golib \<Rightarrow> regexp option \<Rightarrow> tsql_value \<Rightarrow> result option" where
  "sub_regexp lib av NilV = ret (RegexpV av)"
| "sub_regexp lib av b = None"

definition op_sub :: "golib \<Rightarrow> tsql_value \<Rightarrow> tsql_value \<Rightarrow> result option" where
  "op_sub lib a b =
     (case a of
        NilV \<Rightarrow> sub_nil lib b
      | BoolV av \<Rightarrow> sub_bool lib av b
      | IntV av \<Rightarrow> sub_int lib av b
      | UintV av \<Rightarrow> sub_uint lib av b
      | FloatV av \<Rightarrow> sub_float lib av b
      | StringV av \<Rightarrow> sub_string lib av b
      | TimeV av \<Rightarrow> sub_time lib av b
      | DurationV av \<Rightarrow> sub_duration lib av b
      | RegexpV av \<Rightarrow> sub_regexp lib av b
      | _ \<Rightarrow> None)"

section \<open>Multiplication\<close>

fun mul_nil :: "golib \<Rightarrow> tsql_value \<Rightarrow> result option" where
  "mul_nil lib NilV = ret (IntV 0)"
| "mul_nil lib (BoolV bv) = ret (IntV 0)"
| "mul_nil lib (IntV bv) = ret (IntV 0)"
| "mul_nil lib (UintV bv) = ret (UintV 0)"
| "mul_nil lib (FloatV bv) = ret (FloatV 0)"
| "mul_nil lib (StringV bv) = (if bv = [] then ret (IntV 0) else parse_float lib bv (\<lambda>_. ret (FloatV 0)))"
| "mul_nil lib (DurationV bv) = ret (DurationV 0)"
| "mul_nil lib b = None"

fun mul_bool :: "golib \<Rightarrow> bool \<Rightarrow> tsql_value \<Rightarrow> result option" where
  "mul_bool lib av NilV = ret (IntV 0)"
| "mul_bool lib av (BoolV bv) = ret (IntV (boolToInt av * boolToInt bv))"
| "mul_bool lib av (IntV bv) = ret (IntV (boolToInt av * bv))"
| "mul_bool lib av (UintV bv) = ret (UintV (boolToInt av * bv))"
| "mul_bool lib av (FloatV bv) = ret (FloatV (fmul lib (f64_of_int64 (boolToInt av)) bv))"
| "mul_bool lib av (StringV bv) =
     (if bv = [] then ret (IntV 0) else parse_float lib bv
       (\<lambda>bn. ret (FloatV (fmul lib (f64_of_int64 (boolToInt av)) bn))))"
| "mul_bool lib av (DurationV bv) = ret (DurationV (boolToInt av * bv))"
| "mul_bool lib av b = None"

fun mul_int :: "golib \<Rightarrow> 64 word \<Rightarrow> tsql_value \<Rightarrow> result option" where
  "mul_int lib av NilV = ret (IntV 0)"
| "mul_int lib av (BoolV bv) = ret (IntV (av * boolToInt bv))"
| "mul_int lib av (IntV bv) = ret (IntV (av * bv))"
| "mul_int lib av (UintV bv) = ret (UintV (av * bv))"
| "mul_int lib av (FloatV bv) = ret (FloatV (fmul lib (f64_of_int64 av) bv))"
| "mul_int lib av (StringV bv) =
     (if bv = [] then ret (IntV 0) else parse_float lib bv
       (\<lambda>bn. ret (FloatV (fmul lib (f64_of_int64 av) bn))))"
| "mul_int lib av (DurationV bv) = ret (DurationV (av * bv))"
| "mul_int lib av b = None"

fun mul_uint :: "golib \<Rightarrow> 64 word \<Rightarrow> tsql_value \<Rightarrow> result option" where
  "mul_uint lib av NilV = ret (UintV 0)"
| "mul_uint lib av (BoolV bv) = ret (UintV (av * boolToInt bv))"
| "mul_uint lib av (IntV bv) = ret (UintV (av * bv))"
| "mul_uint lib av (UintV bv) = ret (UintV (av * bv))"
| "mul_uint lib av (FloatV bv) = ret (FloatV (fadd lib (f64_of_uint64 av) bv))"
| "mul_uint lib av (StringV bv) =
     (if bv = [] then ret (UintV 0) else parse_float lib bv
       (\<lambda>bn. ret (FloatV (fmul lib (f64_of_uint64 av) bn))))"
| "mul_uint lib av (DurationV bv) = ret (DurationV (av * bv))"
| "mul_uint lib av b = None"

fun mul_float :: "golib \<Rightarrow> bits64 \<Rightarrow> tsql_value \<Rightarrow> result option" where
  "mul_float lib av NilV = ret (FloatV 0)"
| "mul_float lib av (BoolV bv) = ret (FloatV (fmul lib av (f64_of_int64 (boolToInt bv))))"
| "mul_float lib av (IntV bv) = ret (FloatV (fmul lib av (f64_of_int64 bv)))"
| "mul_float lib av (UintV bv) = ret (FloatV (fmul lib av (f64_of_uint64 bv)))"
| "mul_float lib av (FloatV bv) = ret (FloatV (fmul lib av bv))"
| "mul_float lib av (StringV bv) =
     (if bv = [] then ret (FloatV 0) else parse_float lib bv (\<lambda>bn. ret (FloatV (fmul lib av bn))))"
| "mul_float lib av (DurationV bv) = ret (DurationV (int64_of lib (fmul lib av (f64_of_int64 bv))))"
| "mul_float lib av b = None"

fun mul_string_num :: "golib \<Rightarrow> 64 word \<Rightarrow> tsql_value \<Rightarrow> result option" where
  "mul_string_num lib an NilV = ret (FloatV 0)"
| "mul_string_num lib an (BoolV bv) = ret (FloatV (fmul lib an (f64_of_int64 (boolToInt bv))))"
| "mul_string_num lib an (IntV bv) = ret (FloatV (fmul lib an (f64_of_int64 bv)))"
| "mul_string_num lib an (UintV bv) = ret (FloatV (fmul lib an (f64_of_uint64 bv)))"
| "mul_string_num lib an (FloatV bv) = ret (FloatV (fmul lib an bv))"
| "mul_string_num lib an (StringV bv) =
     (if bv = [] then ret (FloatV 0) else parse_float lib bv (\<lambda>bn. ret (FloatV (fmul lib an bn))))"
| "mul_string_num lib an (DurationV bv) = ret (DurationV (int64_of lib (fmul lib an (f64_of_int64 bv))))"
| "mul_string_num lib an b = None"

definition mul_string :: "golib \<Rightarrow> string \<Rightarrow> tsql_value \<Rightarrow> result option" where
  "mul_string lib av b =
     (if av \<noteq> [] then parse_float lib av (\<lambda>an. mul_string_num lib an b) else mul_string_num lib 0 b)"

fun mul_duration :: "golib \<Rightarrow> 64 word \<Rightarrow> tsql_value \<Rightarrow> result option" where
  "mul_duration lib av NilV = ret (DurationV 0)"
| "mul_duration lib av (IntV bv) = ret (DurationV (av * bv))"
| "mul_duration lib av (UintV bv) = ret (DurationV (av * bv))"
| "mul_duration lib av (FloatV bv) = ret (DurationV (int64_of lib (fmul lib (f64_of_int64 av) bv)))"
| "mul_duration lib av (StringV bv) =
     (if bv = [] then ret (DurationV 0) else parse_float lib bv
       (\<lambda>bn. ret (DurationV (int64_of lib (fmul lib (f64_of_int64 av) bn)))))"
| "mul_duration lib av (DurationV bv) = ret (DurationV (av * bv))"
| "mul_duration lib av b = None"

definition op_mul :: "golib \<Rightarrow> tsql_value \<Rightarrow> tsql_value \<Rightarrow> result option" where
  "op_mul lib a b =
     (case a of
        NilV \<Rightarrow> mul_nil lib b
      | BoolV av \<Rightarrow> mul_bool lib av b
      | IntV av \<Rightarrow> mul_int lib av b
      | UintV av \<Rightarrow> mul_uint lib av b
      | FloatV av \<Rightarrow> mul_float lib av b
      | StringV av \<Rightarrow> mul_string lib av b
      | DurationV av \<Rightarrow> mul_duration lib av b
      | _ \<Rightarrow> None)"

section \<open>Division\<close>

fun div_nil :: "golib \<Rightarrow> tsql_value \<Rightarrow> result option" where
  "div_nil lib (BoolV bv) = (if boolToInt bv = 0 then ret NilV else ret (IntV 0))"
| "div_nil lib (IntV bv) = (if bv = 0 then ret NilV else ret (IntV 0))"
| "div_nil lib (UintV bv) = (if bv = 0 then ret NilV else ret (UintV 0))"
| "div_nil lib (FloatV bv) = (if f64_eq bv 0 then ret NilV else ret (FloatV 0))"
| "div_nil lib (StringV bv) =
     (if bv = [] then ret NilV else parse_float lib bv (\<lambda>bn. (if f64_eq bn 0 then ret NilV
       else ret (FloatV 0))))"
| "div_nil lib (DurationV bv) = (if bv = 0 then ret NilV else ret (DurationV 0))"
| "div_nil lib b = None"

fun div_bool :: "golib \<Rightarrow> bool \<Rightarrow> tsql_value \<Rightarrow> result option" where
  "div_bool lib av (BoolV bv) = (if boolToInt bv = 0 then ret NilV else squot IntV (boolToInt av) (boolToInt bv))"
| "div_bool lib av (IntV bv) = (if bv = 0 then ret NilV else squot IntV (boolToInt av) bv)"
| "div_bool lib av (UintV bv) = (if bv = 0 then ret NilV else uquot UintV (boolToInt av) bv)"
| "div_bool lib av (FloatV bv) =
     (if f64_eq bv 0 then ret NilV else ret (FloatV (fdiv lib (f64_of_int64 (boolToInt av)) bv)))"
| "div_bool lib av (StringV bv) =
     (if bv = [] then ret NilV else parse_float lib bv (\<lambda>bn. (if f64_eq bn 0 then ret NilV
       else ret (FloatV (fdiv lib (f64_of_int64 (boolToInt av)) bn)))))"
| "div_bool lib av (DurationV bv) = (if bv = 0 then ret NilV else squot DurationV (boolToInt av) bv)"
| "div_bool lib av b = None"

fun div_int :: "golib \<Rightarrow> 64 word \<Rightarrow> tsql_value \<Rightarrow> result option" where
  "div_int lib av (BoolV bv) = (if boolToInt bv = 0 then ret NilV else squot IntV av (boolToInt bv))"
| "div_int lib av (IntV bv) = (if bv = 0 then ret NilV else squot IntV av bv)"
| "div_int lib av (UintV bv) = (if bv = 0 then ret NilV else uquot UintV av bv)"
| "div_int lib av (FloatV bv) = (if f64_eq bv 0 then ret NilV else ret (FloatV (fdiv lib (f64_of_int64 av) bv)))"
| "div_int lib av (StringV bv) =
     (if bv = [] then ret NilV else parse_float lib bv (\<lambda>bn. (if f64_eq bn 0 then ret NilV
       else ret (FloatV (fdiv lib (f64_of_int64 av) bn)))))"
| "div_int lib av (DurationV bv) = (if bv = 0 then ret NilV else squot DurationV av bv)"
| "div_int lib av b = None"

fun div_uint :: "golib \<Rightarrow> 64 word \<Rightarrow> tsql_value \<Rightarrow> result option" where
  "div_uint lib av (BoolV bv) = (if boolToInt bv = 0 then ret NilV else uquot UintV av (boolToInt bv))"
| "div_uint lib av (IntV bv) = (if bv = 0 then ret NilV else uquot UintV av bv)"
| "div_uint lib av (UintV bv) = (if bv = 0 then ret NilV else uquot UintV av bv)"
| "div_uint lib av (FloatV bv) =
     (if f64_eq bv 0 then ret NilV else ret (FloatV (fdiv lib (f64_of_uint64 av) bv)))"
| "div_uint lib av (StringV bv) =
     (if bv = [] then ret NilV else parse_float lib bv (\<lambda>bn. (if f64_eq bn 0 then ret NilV
       else ret (FloatV (fdiv lib (f64_of_uint64 av) bn)))))"
| "div_uint lib av (DurationV bv) = (if bv = 0 then ret NilV else uquot DurationV av bv)"
| "div_uint lib av b = None"

fun div_float :: "golib \<Rightarrow> bits64 \<Rightarrow> tsql_value \<Rightarrow> result option" where
  "div_float lib av (BoolV bv) =
     (if boolToInt bv = 0 then ret NilV else ret (FloatV (fdiv lib av (f64_of_int64 (boolToInt bv)))))"
| "div_float lib av (IntV bv) = (if bv = 0 then ret NilV else ret (FloatV (fdiv lib av (f64_of_int64 bv))))"
| "div_float lib av (UintV bv) = (if bv = 0 then ret NilV else ret (FloatV (fdiv lib av (f64_of_uint64 bv))))"
| "div_float lib av (FloatV bv) = (if f64_eq bv 0 then ret NilV else ret (FloatV (fdiv lib av bv)))"
| "div_float lib av (StringV bv) =
     (if bv = [] then ret NilV else parse_float lib bv (\<lambda>bn. (if f64_eq bn 0 then ret NilV
       else ret (FloatV (fdiv lib av bn)))))"
| "div_float lib av (DurationV bv) =
     (if bv = 0 then ret NilV else ret (DurationV (int64_of lib (fmul lib av (f64_of_int64 bv)))))"
| "div_float lib av b = None"

fun div_string_num :: "golib \<Rightarrow> 64 word \<Rightarrow> tsql_value \<Rightarrow> result option" where
  "div_string_num lib an (BoolV bv) =
     (if boolToInt bv = 0 then ret NilV else ret (FloatV (fdiv lib an (f64_of_int64 (boolToInt bv)))))"
| "div_string_num lib an (IntV bv) = (if bv = 0 then ret NilV else ret (FloatV (fdiv lib an (f64_of_int64 bv))))"
| "div_string_num lib an (UintV bv) =
     (if bv = 0 then ret NilV else ret (FloatV (fdiv lib an (f64_of_uint64 bv))))"
| "div_string_num lib an (FloatV bv) = (if f64_eq bv 0 then ret NilV else ret (FloatV (fdiv lib an bv)))"
| "div_string_num lib an (StringV bv) =
     (if bv = [] then ret NilV else parse_float lib bv (\<lambda>bn. (if f64_eq bn 0 then ret NilV
       else ret (FloatV (fdiv lib an bn)))))"
| "div_string_num lib an (DurationV bv) =
     (if bv = 0 then ret NilV else ret (DurationV (int64_of lib (fdiv lib an (f64_of_int64 bv)))))"
| "div_string_num lib an b = None"

definition div_string :: "golib \<Rightarrow> string \<Rightarrow> tsql_value \<Rightarrow> result option" where
  "div_string lib av b =
     (if av \<noteq> [] then parse_float lib av (\<lambda>an. div_string_num lib an b) else div_string_num lib 0 b)"

fun div_duration :: "golib \<Rightarrow> 64 word \<Rightarrow> tsql_value \<Rightarrow> result option" where
  "div_duration lib av (IntV bv) = (if bv = 0 then ret NilV else squot DurationV av bv)"
| "div_duration lib av (UintV bv) = (if bv = 0 then ret NilV else uquot DurationV av bv)"
| "div_duration lib av (FloatV bv) =
     (if f64_eq bv 0 then ret NilV else ret (DurationV (int64_of lib (fdiv lib (f64_of_int64 av) bv))))"
| "div_duration lib av (StringV bv) =
     (if bv = [] then ret NilV else parse_float lib bv (\<lambda>bn. (if f64_eq bn 0 then ret NilV
       else ret (DurationV (int64_of lib (fdiv lib (f64_of_int64 av) bn))))))"
| "div_duration lib av (DurationV bv) = (if bv = 0 then ret NilV else squot DurationV av bv)"
| "div_duration lib av b = None"

definition op_div :: "golib \<Rightarrow> tsql_value \<Rightarrow> tsql_value \<Rightarrow> result option" where
  "op_div lib a b =
     (if b = NilV then ret NilV else
     (case a of
        NilV \<Rightarrow> div_nil lib b
      | BoolV av \<Rightarrow> div_bool lib av b
      | IntV av \<Rightarrow> div_int lib av b
      | UintV av \<Rightarrow> div_uint lib av b
      | FloatV av \<Rightarrow> div_float lib av b
      | StringV av \<Rightarrow> div_string lib av b
      | DurationV av \<Rightarrow> div_duration lib av b
      | _ \<Rightarrow> None))"

section \<open>Remainder\<close>

fun mod_nil :: "golib \<Rightarrow> tsql_value \<Rightarrow> result option" where
  "mod_nil lib (BoolV bv) = (if boolToInt bv = 0 then ret NilV else ret (IntV 0))"
| "mod_nil lib (IntV bv) = (if bv = 0 then ret NilV else ret (IntV 0))"
| "mod_nil lib (UintV bv) = (if bv = 0 then ret NilV else ret (UintV 0))"
| "mod_nil lib (FloatV bv) = (if f64_eq bv 0 then ret NilV else ret (FloatV 0))"
| "mod_nil lib (StringV bv) =
     (if bv = [] then ret NilV else parse_float lib bv (\<lambda>bn. (if f64_eq bn 0 then ret NilV
       else ret (FloatV 0))))"
| "mod_nil lib (DurationV bv) = (if bv = 0 then ret NilV else ret (DurationV 0))"
| "mod_nil lib b = None"

fun mod_bool :: "golib \<Rightarrow> bool \<Rightarrow> tsql_value \<Rightarrow> result option" where
  "mod_bool lib av (BoolV bv) = (if boolToInt bv = 0 then ret NilV else srem IntV (boolToInt av) (boolToInt bv))"
| "mod_bool lib av (IntV bv) = (if bv = 0 then ret NilV else srem IntV (boolToInt av) bv)"
| "mod_bool lib av (UintV bv) = (if bv = 0 then ret NilV else urem UintV (boolToInt av) bv)"
| "mod_bool lib av (FloatV bv) = (if f64_eq bv 0 then ret NilV else srem IntV (boolToInt av) (int64_of lib bv))"
| "mod_bool lib av (StringV bv) =
     (if bv = [] then ret NilV else parse_int bv (\<lambda>bn. (if bn = 0 then ret NilV
       else srem IntV (boolToInt av) bn)))"
| "mod_bool lib av (DurationV bv) = (if bv = 0 then ret NilV else srem DurationV (boolToInt av) bv)"
| "mod_bool lib av b = None"

fun mod_int :: "golib \<Rightarrow> 64 word \<Rightarrow> tsql_value \<Rightarrow> result option" where
  "mod_int lib av (BoolV bv) = (if boolToInt bv = 0 then ret NilV else srem IntV av (boolToInt bv))"
| "mod_int lib av (IntV bv) = (if bv = 0 then ret NilV else srem IntV av bv)"
| "mod_int lib av (UintV bv) = (if bv = 0 then ret NilV else urem UintV av bv)"
| "mod_int lib av (FloatV bv) = (if f64_eq bv 0 then ret NilV else srem IntV av (int64_of lib bv))"
| "mod_int lib av (StringV bv) =
     (if bv = [] then ret NilV else parse_int bv (\<lambda>bn. (if bn = 0 then ret NilV else srem IntV av bn)))"
| "mod_int lib av (DurationV bv) = (if bv = 0 then ret NilV else srem DurationV av bv)"
| "mod_int lib av b = None"

fun mod_uint :: "golib \<Rightarrow> 64 word \<Rightarrow> tsql_value \<Rightarrow> result option" where
  "mod_uint lib av (BoolV bv) = (if boolToInt bv = 0 then ret NilV else urem UintV av (boolToInt bv))"
| "mod_uint lib av (IntV bv) = (if bv = 0 then ret NilV else urem UintV av bv)"
| "mod_uint lib av (UintV bv) = (if bv = 0 then ret NilV else urem UintV av bv)"
| "mod_uint lib av (FloatV bv) = (if f64_eq bv 0 then ret NilV else urem UintV av (uint64_of lib bv))"
| "mod_uint lib av (StringV bv) =
     (if bv = [] then ret NilV else parse_uint bv (\<lambda>bn. (if bn = 0 then ret NilV
       else urem UintV av bn)))"
| "mod_uint lib av (DurationV bv) = (if bv = 0 then ret NilV else urem DurationV av bv)"
| "mod_uint lib av b = None"

fun mod_float :: "golib \<Rightarrow> bits64 \<Rightarrow> tsql_value \<Rightarrow> result option" where
  "mod_float lib av (BoolV bv) =
     (if boolToInt bv = 0 then ret NilV else srem IntV (int64_of lib av) (boolToInt bv))"
| "mod_float lib av (IntV bv) = (if bv = 0 then ret NilV else srem IntV (int64_of lib av) bv)"
| "mod_float lib av (UintV bv) = (if bv = 0 then ret NilV else urem UintV (uint64_of lib av) bv)"
| "mod_float lib av (FloatV bv) =
     (if f64_eq bv 0 then ret NilV else srem IntV (int64_of lib av) (int64_of lib bv))"
| "mod_float lib av (StringV bv) =
     (if bv = [] then ret NilV else parse_int bv (\<lambda>bn. (if bn = 0 then ret NilV
       else srem IntV (int64_of lib av) bn)))"
| "mod_float lib av (DurationV bv) = (if bv = 0 then ret NilV else srem DurationV (int64_of lib av) bv)"
| "mod_float lib av b = None"

fun mod_string_num :: "golib \<Rightarrow> 64 word \<Rightarrow> tsql_value \<Rightarrow> result option" where
  "mod_string_num lib an (BoolV bv) = (if boolToInt bv = 0 then ret NilV else srem IntV an (boolToInt bv))"
| "mod_string_num lib an (IntV bv) = (if bv = 0 then ret NilV else srem IntV an bv)"
| "mod_string_num lib an (UintV bv) = (if bv = 0 then ret NilV else urem UintV an bv)"
| "mod_string_num lib an (FloatV bv) = (if f64_eq bv 0 then ret NilV else srem IntV an (int64_of lib bv))"
| "mod_string_num lib an (StringV bv) =
     (if bv = [] then ret NilV else parse_int bv (\<lambda>bn. (if bn = 0 then ret NilV else srem IntV an bn)))"
| "mod_string_num lib an (DurationV bv) = (if bv = 0 then ret NilV else srem DurationV an bv)"
| "mod_string_num lib an b = None"

definition mod_string :: "golib \<Rightarrow> string \<Rightarrow> tsql_value \<Rightarrow> result option" where
  "mod_string lib av b =
     (if av \<noteq> [] then parse_int av (\<lambda>an. mod_string_num lib an b) else mod_string_num lib 0 b)"

fun mod_duration :: "golib \<Rightarrow> 64 word \<Rightarrow> tsql_value \<Rightarrow> result option" where
  "mod_duration lib av (IntV bv) = (if bv = 0 then ret NilV else srem DurationV av bv)"
| "mod_duration lib av (UintV bv) = (if bv = 0 then ret NilV else urem DurationV av bv)"
| "mod_duration lib av (FloatV bv) = (if f64_eq bv 0 then ret NilV else srem DurationV av (int64_of lib bv))"
| "mod_duration lib av (StringV bv) =
     (if bv = [] then ret NilV else parse_int bv (\<lambda>bn. (if bn = 0 then ret NilV
       else srem DurationV av bn)))"
| "mod_duration lib av (DurationV bv) = (if bv = 0 then ret NilV else srem DurationV av bv)"
| "mod_duration lib av b = None"

definition op_mod :: "golib \<Rightarrow> tsql_value \<Rightarrow> tsql_value \<Rightarrow> result option" where
  "op_mod lib a b =
     (if b = NilV then ret NilV else
     (case a of
        NilV \<Rightarrow> mod_nil lib b
      | BoolV av \<Rightarrow> mod_bool lib av b
      | IntV av \<Rightarrow> mod_int lib av b
      | UintV av \<Rightarrow> mod_uint lib av b
      | FloatV av \<Rightarrow> mod_float lib av b
      | StringV av \<Rightarrow> mod_string lib av b
      | DurationV av \<Rightarrow> mod_duration lib av b
      | _ \<Rightarrow> None))"

end
