(* ===== verification/Tsql_Bits.thy ===== *)
theory Tsql_Bits
  imports Tsql_Value
begin

text \<open>
  The bit operators of \<^verbatim>\<open>es-tsql/operator.go\<close>, written as the arithmetic ones: a function
  for every type of the left operand, an equation for every case.
\<close>

section \<open>And\<close>

fun bitand_nil :: "golib \<Rightarrow> tsql_value \<Rightarrow> result option" where
  "bitand_nil lib NilV = ret (IntV 0)"
| "bitand_nil lib (BoolV bv) = ret (IntV 0)"
| "bitand_nil lib (IntV bv) = ret (IntV 0)"
| "bitand_nil lib (UintV bv) = ret (UintV 0)"
| "bitand_nil lib (FloatV bv) = ret (FloatV 0)"
| "bitand_nil lib (DurationV bv) = ret (DurationV 0)"
| "bitand_nil lib b = None"

fun bitand_bool :: "golib \<Rightarrow> bool \<Rightarrow> tsql_value \<Rightarrow> result option" where
  "bitand_bool lib av NilV = ret (IntV 0)"
| "bitand_bool lib av (BoolV bv) = ret (IntV (boolToInt av AND boolToInt bv))"
| "bitand_bool lib av (IntV bv) = ret (IntV (boolToInt av AND bv))"
| "bitand_bool lib av (UintV bv) = ret (UintV (boolToInt av AND bv))"
| "bitand_bool lib av (FloatV bv) = ret (FloatV (boolToInt av AND bv))"
| "bitand_bool lib av (DurationV bv) = ret (DurationV (boolToInt av AND bv))"
| "bitand_bool lib av b = None"

fun bitand_int :: "golib \<Rightarrow> 64 word \<Rightarrow> tsql_value \<Rightarrow> result option" where
  "bitand_int lib av NilV = ret (IntV 0)"
| "bitand_int lib av (BoolV bv) = ret (IntV (av AND boolToInt bv))"
| "bitand_int lib av (IntV bv) = ret (IntV (av AND bv))"
| "bitand_int lib av (UintV bv) = ret (UintV (av AND bv))"
| "bitand_int lib av (FloatV bv) = ret (FloatV (av AND bv))"
| "bitand_int lib av (DurationV bv) = ret (DurationV (av AND bv))"
| "bitand_int lib av b = None"

fun bitand_uint :: "golib \<Rightarrow> 64 word \<Rightarrow> tsql_value \<Rightarrow> result option" where
  "bitand_uint lib av NilV = ret (UintV 0)"
| "bitand_uint lib av (BoolV bv) = ret (UintV (av AND boolToInt bv))"
| "bitand_uint lib av (IntV bv) = ret (UintV (av AND bv))"
| "bitand_uint lib av (UintV bv) = ret (UintV (av AND bv))"
| "bitand_uint lib av (FloatV bv) = ret (FloatV (av AND bv))"
| "bitand_uint lib av (DurationV bv) = ret (DurationV (av AND bv))"
| "bitand_uint lib av b = None"

fun bitand_float :: "golib \<Rightarrow> bits64 \<Rightarrow> tsql_value \<Rightarrow> result option" where
  "bitand_float lib av NilV = ret (FloatV 0)"
| "bitand_float lib av (BoolV bv) = ret (FloatV (av AND boolToInt bv))"
| "bitand_float lib av (IntV bv) = ret (FloatV (av AND bv))"
| "bitand_float lib av (UintV bv) = ret (FloatV (av AND bv))"
| "bitand_float lib av (FloatV bv) = ret (FloatV (av AND bv))"
| "bitand_float lib av (DurationV bv) = ret (DurationV (av AND bv))"
| "bitand_float lib av b = None"

fun bitand_duration :: "golib \<Rightarrow> 64 word \<Rightarrow> tsql_value \<Rightarrow> result option" where
  "bitand_duration lib av NilV = ret (DurationV 0)"
| "bitand_duration lib av (IntV bv) = ret (DurationV (av AND bv))"
| "bitand_duration lib av (UintV bv) = ret (DurationV (av AND bv))"
| "bitand_duration lib av (FloatV bv) = ret (DurationV (av AND bv))"
| "bitand_duration lib av (DurationV bv) = ret (DurationV (av AND bv))"
| "bitand_duration lib av b = None"

definition op_bitand :: "golib \<Rightarrow> tsql_value \<Rightarrow> tsql_value \<Rightarrow> result option" where
  "op_bitand lib a b =
     (case a of
        NilV \<Rightarrow> bitand_nil lib b
      | BoolV av \<Rightarrow> bitand_bool lib av b
      | IntV av \<Rightarrow> bitand_int lib av b
      | UintV av \<Rightarrow> bitand_uint lib av b
      | FloatV av \<Rightarrow> bitand_float lib av b
      | DurationV av \<Rightarrow> bitand_duration lib av b
      | _ \<Rightarrow> None)"

section \<open>Or\<close>

fun bitor_nil :: "golib \<Rightarrow> tsql_value \<Rightarrow> result option" where
  "bitor_nil lib NilV = ret (IntV 0)"
| "bitor_nil lib (BoolV bv) = ret (IntV (boolToInt bv))"
| "bitor_nil lib (IntV bv) = ret (IntV bv)"
| "bitor_nil lib (UintV bv) = ret (UintV bv)"
| "bitor_nil lib (FloatV bv) = ret (FloatV bv)"
| "bitor_nil lib (DurationV bv) = ret (DurationV bv)"
| "bitor_nil lib b = None"

fun bitor_bool :: "golib \<Rightarrow> bool \<Rightarrow> tsql_value \<Rightarrow> result option" where
  "bitor_bool lib av NilV = ret (IntV (boolToInt av))"
| "bitor_bool lib av (BoolV bv) = ret (IntV (boolToInt av OR boolToInt bv))"
| "bitor_bool lib av (IntV bv) = ret (IntV (boolToInt av OR bv))"
| "bitor_bool lib av (UintV bv) = ret (UintV (boolToInt av OR bv))"
| "bitor_bool lib av (FloatV bv) = ret (FloatV (boolToInt av OR bv))"
| "bitor_bool lib av (DurationV bv) = ret (DurationV (boolToInt av OR bv))"
| "bitor_bool lib av b = None"

fun bitor_int :: "golib \<Rightarrow> 64 word \<Rightarrow> tsql_value \<Rightarrow> result option" where
  "bitor_int lib av NilV = ret (IntV av)"
| "bitor_int lib av (BoolV bv) = ret (IntV (av OR boolToInt bv))"
| "bitor_int lib av (IntV bv) = ret (IntV (av OR bv))"
| "bitor_int lib av (UintV bv) = ret (UintV (av OR bv))"
| "bitor_int lib av (FloatV bv) = ret (FloatV (av OR bv))"
| "bitor_int lib av (DurationV bv) = ret (DurationV (av OR bv))"
| "bitor_int lib av b = None"

fun bitor_uint :: "golib \<Rightarrow> 64 word \<Rightarrow> tsql_value \<Rightarrow> result option" where
  "bitor_uint lib av NilV = ret (UintV av)"
| "bitor_uint lib av (BoolV bv) = ret (UintV (av OR boolToInt bv))"
| "bitor_uint lib av (IntV bv) = ret (UintV (av OR bv))"
| "bitor_uint lib av (UintV bv) = ret (UintV (av OR bv))"
| "bitor_uint lib av (FloatV bv) = ret (FloatV (av OR bv))"
| "bitor_uint lib av (DurationV bv) = ret (DurationV (av OR bv))"
| "bitor_uint lib av b = None"

fun bitor_float :: "golib \<Rightarrow> bits64 \<Rightarrow> tsql_value \<Rightarrow> result option" where
  "bitor_float lib av NilV = ret (FloatV av)"
| "bitor_float lib av (BoolV bv) = ret (FloatV (av OR boolToInt bv))"
| "bitor_float lib av (IntV bv) = ret (FloatV (av OR bv))"
| "bitor_float lib av (UintV bv) = ret (FloatV (av OR bv))"
| "bitor_float lib av (FloatV bv) = ret (FloatV (av OR bv))"
| "bitor_float lib av (DurationV bv) = ret (DurationV (av OR bv))"
| "bitor_float lib av b = None"

fun bitor_duration :: "golib \<Rightarrow> 64 word \<Rightarrow> tsql_value \<Rightarrow> result option" where
  "bitor_duration lib av NilV = ret (DurationV av)"
| "bitor_duration lib av (IntV bv) = ret (DurationV (av OR bv))"
| "bitor_duration lib av (UintV bv) = ret (DurationV (av OR bv))"
| "bitor_duration lib av (FloatV bv) = ret (DurationV (av OR bv))"
| "bitor_duration lib av (DurationV bv) = ret (DurationV (av OR bv))"
| "bitor_duration lib av b = None"

definition op_bitor :: "golib \<Rightarrow> tsql_value \<Rightarrow> tsql_value \<Rightarrow> result option" where
  "op_bitor lib a b =
     (case a of
        NilV \<Rightarrow> bitor_nil lib b
      | BoolV av \<Rightarrow> bitor_bool lib av b
      | IntV av \<Rightarrow> bitor_int lib av b
      | UintV av \<Rightarrow> bitor_uint lib av b
      | FloatV av \<Rightarrow> bitor_float lib av b
      | DurationV av \<Rightarrow> bitor_duration lib av b
      | _ \<Rightarrow> None)"

section \<open>Exclusive or\<close>

fun bitxor_nil :: "golib \<Rightarrow> tsql_value \<Rightarrow> result option" where
  "bitxor_nil lib NilV = ret (IntV 0)"
| "bitxor_nil lib (BoolV bv) = ret (IntV (boolToInt bv))"
| "bitxor_nil lib (IntV bv) = ret (IntV bv)"
| "bitxor_nil lib (UintV bv) = ret (UintV bv)"
| "bitxor_nil lib (FloatV bv) = ret (FloatV bv)"
| "bitxor_nil lib (DurationV bv) = ret (DurationV bv)"
| "bitxor_nil lib b = None"

fun bitxor_bool :: "golib \<Rightarrow> bool \<Rightarrow> tsql_value \<Rightarrow> result option" where
  "bitxor_bool lib av NilV = ret (IntV (boolToInt av))"
| "bitxor_bool lib av (BoolV bv) = ret (IntV (boolToInt av XOR boolToInt bv))"
| "bitxor_bool lib av (IntV bv) = ret (IntV (boolToInt av XOR bv))"
| "bitxor_bool lib av (UintV bv) = ret (UintV (boolToInt av XOR bv))"
| "bitxor_bool lib av (FloatV bv) = ret (FloatV (boolToInt av XOR bv))"
| "bitxor_bool lib av (DurationV bv) = ret (DurationV (boolToInt av XOR bv))"
| "bitxor_bool lib av b = None"

fun bitxor_int :: "golib \<Rightarrow> 64 word \<Rightarrow> tsql_value \<Rightarrow> result option" where
  "bitxor_int lib av NilV = ret (IntV av)"
| "bitxor_int lib av (BoolV bv) = ret (IntV (av XOR boolToInt bv))"
| "bitxor_int lib av (IntV bv) = ret (IntV (av XOR bv))"
| "bitxor_int lib av (UintV bv) = ret (UintV (av XOR bv))"
| "bitxor_int lib av (FloatV bv) = ret (FloatV (av XOR bv))"
| "bitxor_int lib av (DurationV bv) = ret (DurationV (av XOR bv))"
| "bitxor_int lib av b = None"

fun bitxor_uint :: "golib \<Rightarrow> 64 word \<Rightarrow> tsql_value \<Rightarrow> result option" where
  "bitxor_uint lib av NilV = ret (UintV av)"
| "bitxor_uint lib av (BoolV bv) = ret (UintV (av XOR boolToInt bv))"
| "bitxor_uint lib av (IntV bv) = ret (UintV (av XOR bv))"
| "bitxor_uint lib av (UintV bv) = ret (UintV (av XOR bv))"
| "bitxor_uint lib av (FloatV bv) = ret (FloatV (av XOR bv))"
| "bitxor_uint lib av (DurationV bv) = ret (DurationV (av XOR bv))"
| "bitxor_uint lib av b = None"

fun bitxor_float :: "golib \<Rightarrow> bits64 \<Rightarrow> tsql_value \<Rightarrow> result option" where
  "bitxor_float lib av NilV = ret (FloatV av)"
| "bitxor_float lib av (BoolV bv) = ret (FloatV (av XOR boolToInt bv))"
| "bitxor_float lib av (IntV bv) = ret (FloatV (av XOR bv))"
| "bitxor_float lib av (UintV bv) = ret (FloatV (av XOR bv))"
| "bitxor_float lib av (FloatV bv) = ret (FloatV (av XOR bv))"
| "bitxor_float lib av (DurationV bv) = ret (DurationV (av OR bv))"
| "bitxor_float lib av b = None"

fun bitxor_duration :: "golib \<Rightarrow> 64 word \<Rightarrow> tsql_value \<Rightarrow> result option" where
  "bitxor_duration lib av NilV = ret (DurationV av)"
| "bitxor_duration lib av (IntV bv) = ret (DurationV (av XOR bv))"
| "bitxor_duration lib av (UintV bv) = ret (DurationV (av XOR bv))"
| "bitxor_duration lib av (FloatV bv) = ret (DurationV (av XOR bv))"
| "bitxor_duration lib av (DurationV bv) = ret (DurationV (av XOR bv))"
| "bitxor_duration lib av b = None"

definition op_bitxor :: "golib \<Rightarrow> tsql_value \<Rightarrow> tsql_value \<Rightarrow> result option" where
  "op_bitxor lib a b =
     (case a of
        NilV \<Rightarrow> bitxor_nil lib b
      | BoolV av \<Rightarrow> bitxor_bool lib av b
      | IntV av \<Rightarrow> bitxor_int lib av b
      | UintV av \<Rightarrow> bitxor_uint lib av b
      | FloatV av \<Rightarrow> bitxor_float lib av b
      | DurationV av \<Rightarrow> bitxor_duration lib av b
      | _ \<Rightarrow> None)"

end
