(* ===== verification/Tsql_Compare.thy ===== *)
theory Tsql_Compare
  imports Tsql_Value
begin

text \<open>
  The order comparisons of \<^verbatim>\<open>es-tsql/operator.go\<close>, written as the arithmetic operators: a
  function for every type of the left operand, an equation for every case. A string on the left
  is compared with its own text whatever stands on the right, as in the source.
\<close>

section \<open>Less\<close>

fun lt_nil :: "golib \<Rightarrow> tsql_value \<Rightarrow> result option" where
  "lt_nil lib NilV = ret (BoolV False)"
| "lt_nil lib (BoolV bv) = ret (BoolV (0 <s boolToInt bv))"
| "lt_nil lib (IntV bv) = ret (BoolV (0 <s bv))"
| "lt_nil lib (UintV bv) = ret (BoolV (0 < bv))"
| "lt_nil lib (FloatV bv) = ret (BoolV (f64_less 0 bv))"
| "lt_nil lib (StringV bv) = ret (BoolV (string_less [] bv))"
| "lt_nil lib (DurationV bv) = ret (BoolV (0 <s bv))"
| "lt_nil lib (TimeV bv) = ret (BoolV (0 <s UnixNano bv))"
| "lt_nil lib (RegexpV bv) = ret (BoolV True)"
| "lt_nil lib b = None"

fun lt_bool :: "golib \<Rightarrow> bool \<Rightarrow> tsql_value \<Rightarrow> result option" where
  "lt_bool lib av NilV = ret (BoolV False)"
| "lt_bool lib av (BoolV bv) = ret (BoolV (boolToInt av <s boolToInt bv))"
| "lt_bool lib av (IntV bv) = ret (BoolV (boolToInt av <s bv))"
| "lt_bool lib av (UintV bv) = ret (BoolV (boolToInt av < bv))"
| "lt_bool lib av (FloatV bv) = ret (BoolV (f64_less (f64_of_int64 (boolToInt av)) bv))"
| "lt_bool lib av (StringV bv) = ret (BoolV (string_less (FormatBool av) bv))"
| "lt_bool lib av (DurationV bv) = ret (BoolV (boolToInt av <s bv))"
| "lt_bool lib av (TimeV bv) = ret (BoolV (boolToInt av <s UnixNano bv))"
| "lt_bool lib av b = None"

fun lt_int :: "golib \<Rightarrow> 64 word \<Rightarrow> tsql_value \<Rightarrow> result option" where
  "lt_int lib av NilV = ret (BoolV (av <s 0))"
| "lt_int lib av (BoolV bv) = ret (BoolV (av <s boolToInt bv))"
| "lt_int lib av (IntV bv) = ret (BoolV (av <s bv))"
| "lt_int lib av (UintV bv) = ret (BoolV (av < bv))"
| "lt_int lib av (FloatV bv) = ret (BoolV (f64_less (f64_of_int64 av) bv))"
| "lt_int lib av (StringV bv) = ret (BoolV (string_less (FormatInt av) bv))"
| "lt_int lib av (DurationV bv) = ret (BoolV (av <s bv))"
| "lt_int lib av (TimeV bv) = ret (BoolV (av <s UnixNano bv))"
| "lt_int lib av b = None"

fun lt_uint :: "golib \<Rightarrow> 64 word \<Rightarrow> tsql_value \<Rightarrow> result option" where
  "lt_uint lib av NilV = ret (BoolV (av < 0))"
| "lt_uint lib av (BoolV bv) = ret (BoolV (av < boolToInt bv))"
| "lt_uint lib av (IntV bv) = ret (BoolV (av < bv))"
| "lt_uint lib av (UintV bv) = ret (BoolV (av < bv))"
| "lt_uint lib av (FloatV bv) = ret (BoolV (f64_less (f64_of_uint64 av) bv))"
| "lt_uint lib av (StringV bv) = ret (BoolV (string_less (FormatUint64 av) bv))"
| "lt_uint lib av (DurationV bv) = ret (BoolV (av < bv))"
| "lt_uint lib av (TimeV bv) = ret (BoolV (av < UnixNano bv))"
| "lt_uint lib av b = None"

fun lt_float :: "golib \<Rightarrow> bits64 \<Rightarrow> tsql_value \<Rightarrow> result option" where
  "lt_float lib av NilV = ret (BoolV (f64_less av 0))"
| "lt_float lib av (BoolV bv) = ret (BoolV (f64_less av (f64_of_int64 (boolToInt bv))))"
| "lt_float lib av (IntV bv) = ret (BoolV (f64_less av (f64_of_int64 bv)))"
| "lt_float lib av (UintV bv) = ret (BoolV (f64_less av (f64_of_uint64 bv)))"
| "lt_float lib av (FloatV bv) = ret (BoolV (f64_less av bv))"
| "lt_float lib av (StringV bv) = ret (BoolV (string_less (lib_FormatFloat lib av) bv))"
| "lt_float lib av (DurationV bv) = ret (BoolV (f64_less av (f64_of_int64 bv)))"
| "lt_float lib av (TimeV bv) = ret (BoolV (f64_less av (f64_of_int64 (UnixNano bv))))"
| "lt_float lib av b = None"

definition lt_string :: "golib \<Rightarrow> string \<Rightarrow> tsql_value \<Rightarrow> result option" where
  "lt_string lib av b =
     (if b = NilV then ret (BoolV (string_less av []))
      else ret (BoolV (string_less av (Sprint lib (StringV av)))))"

fun lt_time :: "golib \<Rightarrow> go_time \<Rightarrow> tsql_value \<Rightarrow> result option" where
  "lt_time lib av NilV = ret (BoolV False)"
| "lt_time lib av (BoolV bv) = ret (BoolV (UnixNano av <s boolToInt bv))"
| "lt_time lib av (IntV bv) = ret (BoolV (UnixNano av <s bv))"
| "lt_time lib av (UintV bv) = ret (BoolV (UnixNano av < bv))"
| "lt_time lib av (FloatV bv) = ret (BoolV (f64_less (f64_of_int64 (UnixNano av)) bv))"
| "lt_time lib av (StringV bv) = ret (BoolV (string_less (lib_TimeString lib av) bv))"
| "lt_time lib av (DurationV bv) = ret (BoolV (UnixNano av <s bv))"
| "lt_time lib av (TimeV bv) = ret (BoolV (gt_at av < gt_at bv))"
| "lt_time lib av b = None"

fun lt_duration :: "golib \<Rightarrow> 64 word \<Rightarrow> tsql_value \<Rightarrow> result option" where
  "lt_duration lib av NilV = ret (BoolV (av <s 0))"
| "lt_duration lib av (BoolV bv) = ret (BoolV (av <s boolToInt bv))"
| "lt_duration lib av (IntV bv) = ret (BoolV (av <s bv))"
| "lt_duration lib av (UintV bv) = ret (BoolV (av < bv))"
| "lt_duration lib av (FloatV bv) = ret (BoolV (f64_less (f64_of_int64 av) bv))"
| "lt_duration lib av (StringV bv) = ret (BoolV (string_less (lib_DurationString lib av) bv))"
| "lt_duration lib av (DurationV bv) = ret (BoolV (av <s bv))"
| "lt_duration lib av (TimeV bv) = ret (BoolV (av <s UnixNano bv))"
| "lt_duration lib av b = None"

fun lt_regexp :: "golib \<Rightarrow> regexp option \<Rightarrow> tsql_value \<Rightarrow> result option" where
  "lt_regexp lib av NilV = ret (BoolV False)"
| "lt_regexp lib av (StringV bv) = with_text av (\<lambda>s. ret (BoolV (string_less s bv)))"
| "lt_regexp lib av (RegexpV bv) =
     with_text av (\<lambda>s. with_text bv (\<lambda>t. ret (BoolV (string_less s t))))"
| "lt_regexp lib av b = None"

definition op_lt :: "golib \<Rightarrow> tsql_value \<Rightarrow> tsql_value \<Rightarrow> result option" where
  "op_lt lib a b =
     (case a of
        NilV \<Rightarrow> lt_nil lib b
      | BoolV av \<Rightarrow> lt_bool lib av b
      | IntV av \<Rightarrow> lt_int lib av b
      | UintV av \<Rightarrow> lt_uint lib av b
      | FloatV av \<Rightarrow> lt_float lib av b
      | StringV av \<Rightarrow> lt_string lib av b
      | TimeV av \<Rightarrow> lt_time lib av b
      | DurationV av \<Rightarrow> lt_duration lib av b
      | RegexpV av \<Rightarrow> lt_regexp lib av b
      | _ \<Rightarrow> None)"

section \<open>Less or equal\<close>

fun lte_nil :: "golib \<Rightarrow> tsql_value \<Rightarrow> result option" where
  "lte_nil lib NilV = ret (BoolV True)"
| "lte_nil lib (BoolV bv) = ret (BoolV True)"
| "lte_nil lib (TimeV bv) = ret (BoolV True)"
| "lte_nil lib (RegexpV bv) = ret (BoolV True)"
| "lte_nil lib (IntV bv) = ret (BoolV (0 \<le>s bv))"
| "lte_nil lib (UintV bv) = ret (BoolV (0 \<le> bv))"
| "lte_nil lib (FloatV bv) = ret (BoolV (f64_le 0 bv))"
| "lte_nil lib (StringV bv) = ret (BoolV (string_le [] bv))"
| "lte_nil lib (DurationV bv) = ret (BoolV (0 \<le>s bv))"
| "lte_nil lib b = None"

fun lte_bool :: "golib \<Rightarrow> bool \<Rightarrow> tsql_value \<Rightarrow> result option" where
  "lte_bool lib av NilV = ret (BoolV (boolToInt av \<le>s 0))"
| "lte_bool lib av (BoolV bv) = ret (BoolV (boolToInt av \<le>s boolToInt bv))"
| "lte_bool lib av (IntV bv) = ret (BoolV (boolToInt av \<le>s bv))"
| "lte_bool lib av (UintV bv) = ret (BoolV (boolToInt av \<le> bv))"
| "lte_bool lib av (FloatV bv) = ret (BoolV (f64_le (f64_of_int64 (boolToInt av)) bv))"
| "lte_bool lib av (StringV bv) = ret (BoolV (string_le (FormatBool av) bv))"
| "lte_bool lib av (DurationV bv) = ret (BoolV (boolToInt av \<le>s bv))"
| "lte_bool lib av (TimeV bv) = ret (BoolV (boolToInt av \<le>s UnixNano bv))"
| "lte_bool lib av b = None"

fun lte_int :: "golib \<Rightarrow> 64 word \<Rightarrow> tsql_value \<Rightarrow> result option" where
  "lte_int lib av NilV = ret (BoolV (av \<le>s 0))"
| "lte_int lib av (BoolV bv) = ret (BoolV (av \<le>s boolToInt bv))"
| "lte_int lib av (IntV bv) = ret (BoolV (av \<le>s bv))"
| "lte_int lib av (UintV bv) = ret (BoolV (av \<le> bv))"
| "lte_int lib av (FloatV bv) = ret (BoolV (f64_le (f64_of_int64 av) bv))"
| "lte_int lib av (StringV bv) = ret (BoolV (string_le (FormatInt av) bv))"
| "lte_int lib av (DurationV bv) = ret (BoolV (av \<le>s bv))"
| "lte_int lib av (TimeV bv) = ret (BoolV (av \<le>s UnixNano bv))"
| "lte_int lib av b = None"

fun lte_uint :: "golib \<Rightarrow> 64 word \<Rightarrow> tsql_value \<Rightarrow> result option" where
  "lte_uint lib av NilV = ret (BoolV (av \<le> 0))"
| "lte_uint lib av (BoolV bv) = ret (BoolV (av \<le> boolToInt bv))"
| "lte_uint lib av (IntV bv) = ret (BoolV (av \<le> bv))"
| "lte_uint lib av (UintV bv) = ret (BoolV (av \<le> bv))"
| "lte_uint lib av (FloatV bv) = ret (BoolV (f64_le (f64_of_uint64 av) bv))"
| "lte_uint lib av (StringV bv) = ret (BoolV (string_le (FormatUint64 av) bv))"
| "lte_uint lib av (DurationV bv) = ret (BoolV (av \<le> bv))"
| "lte_uint lib av (TimeV bv) = ret (BoolV (av \<le> UnixNano bv))"
| "lte_uint lib av b = None"

fun lte_float :: "golib \<Rightarrow> bits64 \<Rightarrow> tsql_value \<Rightarrow> result option" where
  "lte_float lib av NilV = ret (BoolV (f64_le av 0))"
| "lte_float lib av (BoolV bv) = ret (BoolV (f64_le av (f64_of_int64 (boolToInt bv))))"
| "lte_float lib av (IntV bv) = ret (BoolV (f64_le av (f64_of_int64 bv)))"
| "lte_float lib av (UintV bv) = ret (BoolV (f64_le av (f64_of_uint64 bv)))"
| "lte_float lib av (FloatV bv) = ret (BoolV (f64_le av bv))"
| "lte_float lib av (StringV bv) = ret (BoolV (string_le (lib_FormatFloat lib av) bv))"
| "lte_float lib av (DurationV bv) = ret (BoolV (f64_le av (f64_of_int64 bv)))"
| "lte_float lib av (TimeV bv) = ret (BoolV (f64_le av (f64_of_int64 (UnixNano bv))))"
| "lte_float lib av b = None"

definition lte_string :: "golib \<Rightarrow> string \<Rightarrow> tsql_value \<Rightarrow> result option" where
  "lte_string lib av b =
     (if b = NilV then ret (BoolV (string_le av []))
      else ret (BoolV (string_le av (Sprint lib (StringV av)))))"

fun lte_time :: "golib \<Rightarrow> go_time \<Rightarrow> tsql_value \<Rightarrow> result option" where
  "lte_time lib av NilV = ret (BoolV (UnixNano av \<le>s 0))"
| "lte_time lib av (BoolV bv) = ret (BoolV (UnixNano av \<le>s boolToInt bv))"
| "lte_time lib av (IntV bv) = ret (BoolV (UnixNano av \<le>s bv))"
| "lte_time lib av (UintV bv) = ret (BoolV (UnixNano av \<le> bv))"
| "lte_time lib av (FloatV bv) = ret (BoolV (f64_le (f64_of_int64 (UnixNano av)) bv))"
| "lte_time lib av (StringV bv) = ret (BoolV (string_le (lib_TimeString lib av) bv))"
| "lte_time lib av (TimeV bv) = ret (BoolV (UnixNano av \<le>s UnixNano bv))"
| "lte_time lib av b = None"

fun lte_duration :: "golib \<Rightarrow> 64 word \<Rightarrow> tsql_value \<Rightarrow> result option" where
  "lte_duration lib av NilV = ret (BoolV (av \<le>s 0))"
| "lte_duration lib av (IntV bv) = ret (BoolV (av \<le>s bv))"
| "lte_duration lib av (UintV bv) = ret (BoolV (av \<le> bv))"
| "lte_duration lib av (FloatV bv) = ret (BoolV (f64_le (f64_of_int64 av) bv))"
| "lte_duration lib av (StringV bv) = ret (BoolV (string_le (lib_DurationString lib av) bv))"
| "lte_duration lib av (DurationV bv) = ret (BoolV (av \<le>s bv))"
| "lte_duration lib av (TimeV bv) = ret (BoolV (av \<le>s UnixNano bv))"
| "lte_duration lib av b = None"

fun lte_regexp :: "golib \<Rightarrow> regexp option \<Rightarrow> tsql_value \<Rightarrow> result option" where
  "lte_regexp lib av NilV = ret (BoolV False)"
| "lte_regexp lib av (StringV bv) = with_text av (\<lambda>s. ret (BoolV (string_le s bv)))"
| "lte_regexp lib av (RegexpV bv) =
     with_text av (\<lambda>s. with_text bv (\<lambda>t. ret (BoolV (string_le s t))))"
| "lte_regexp lib av b = None"

definition op_lte :: "golib \<Rightarrow> tsql_value \<Rightarrow> tsql_value \<Rightarrow> result option" where
  "op_lte lib a b =
     (case a of
        NilV \<Rightarrow> lte_nil lib b
      | BoolV av \<Rightarrow> lte_bool lib av b
      | IntV av \<Rightarrow> lte_int lib av b
      | UintV av \<Rightarrow> lte_uint lib av b
      | FloatV av \<Rightarrow> lte_float lib av b
      | StringV av \<Rightarrow> lte_string lib av b
      | TimeV av \<Rightarrow> lte_time lib av b
      | DurationV av \<Rightarrow> lte_duration lib av b
      | RegexpV av \<Rightarrow> lte_regexp lib av b
      | _ \<Rightarrow> None)"

section \<open>Greater\<close>

fun gt_nil :: "golib \<Rightarrow> tsql_value \<Rightarrow> result option" where
  "gt_nil lib NilV = ret (BoolV False)"
| "gt_nil lib (BoolV bv) = ret (BoolV False)"
| "gt_nil lib (StringV bv) = ret (BoolV False)"
| "gt_nil lib (TimeV bv) = ret (BoolV False)"
| "gt_nil lib (RegexpV bv) = ret (BoolV False)"
| "gt_nil lib (IntV bv) = ret (BoolV (bv <s 0))"
| "gt_nil lib (UintV bv) = ret (BoolV (bv < 0))"
| "gt_nil lib (FloatV bv) = ret (BoolV (f64_less bv 0))"
| "gt_nil lib (DurationV bv) = ret (BoolV (bv <s 0))"
| "gt_nil lib b = None"

fun gt_bool :: "golib \<Rightarrow> bool \<Rightarrow> tsql_value \<Rightarrow> result option" where
  "gt_bool lib av NilV = ret (BoolV (0 <s boolToInt av))"
| "gt_bool lib av (BoolV bv) = ret (BoolV (boolToInt bv <s boolToInt av))"
| "gt_bool lib av (IntV bv) = ret (BoolV (bv <s boolToInt av))"
| "gt_bool lib av (UintV bv) = ret (BoolV (bv < boolToInt av))"
| "gt_bool lib av (FloatV bv) = ret (BoolV (f64_less bv (f64_of_int64 (boolToInt av))))"
| "gt_bool lib av (StringV bv) = ret (BoolV (string_less bv (FormatBool av)))"
| "gt_bool lib av (DurationV bv) = ret (BoolV (bv <s boolToInt av))"
| "gt_bool lib av (TimeV bv) = ret (BoolV (UnixNano bv <s boolToInt av))"
| "gt_bool lib av b = None"

fun gt_int :: "golib \<Rightarrow> 64 word \<Rightarrow> tsql_value \<Rightarrow> result option" where
  "gt_int lib av NilV = ret (BoolV (0 <s av))"
| "gt_int lib av (BoolV bv) = ret (BoolV (boolToInt bv <s av))"
| "gt_int lib av (IntV bv) = ret (BoolV (bv <s av))"
| "gt_int lib av (UintV bv) = ret (BoolV (bv < av))"
| "gt_int lib av (FloatV bv) = ret (BoolV (f64_less bv (f64_of_int64 av)))"
| "gt_int lib av (StringV bv) = ret (BoolV (string_less bv (FormatInt av)))"
| "gt_int lib av (DurationV bv) = ret (BoolV (bv <s av))"
| "gt_int lib av (TimeV bv) = ret (BoolV (UnixNano bv <s av))"
| "gt_int lib av b = None"

fun gt_uint :: "golib \<Rightarrow> 64 word \<Rightarrow> tsql_value \<Rightarrow> result option" where
  "gt_uint lib av NilV = ret (BoolV (0 < av))"
| "gt_uint lib av (BoolV bv) = ret (BoolV (boolToInt bv < av))"
| "gt_uint lib av (IntV bv) = ret (BoolV (bv < av))"
| "gt_uint lib av (UintV bv) = ret (BoolV (bv < av))"
| "gt_uint lib av (FloatV bv) = ret (BoolV (f64_less bv (f64_of_uint64 av)))"
| "gt_uint lib av (StringV bv) = ret (BoolV (string_less bv (FormatUint64 av)))"
| "gt_uint lib av (DurationV bv) = ret (BoolV (bv < av))"
| "gt_uint lib av (TimeV bv) = ret (BoolV (UnixNano bv < av))"
| "gt_uint lib av b = None"

fun gt_float :: "golib \<Rightarrow> bits64 \<Rightarrow> tsql_value \<Rightarrow> result option" where
  "gt_float lib av NilV = ret (BoolV (f64_less 0 av))"
| "gt_float lib av (BoolV bv) = ret (BoolV (f64_less (f64_of_int64 (boolToInt bv)) av))"
| "gt_float lib av (IntV bv) = ret (BoolV (f64_less (f64_of_int64 bv) av))"
| "gt_float lib av (UintV bv) = ret (BoolV (f64_less (f64_of_uint64 bv) av))"
| "gt_float lib av (FloatV bv) = ret (BoolV (f64_less bv av))"
| "gt_float lib av (StringV bv) = ret (BoolV (string_less bv (lib_FormatFloat lib av)))"
| "gt_float lib av (DurationV bv) = ret (BoolV (f64_less (f64_of_int64 bv) av))"
| "gt_float lib av (TimeV bv) = ret (BoolV (f64_less (f64_of_int64 (UnixNano bv)) av))"
| "gt_float lib av b = None"

definition gt_string :: "golib \<Rightarrow> string \<Rightarrow> tsql_value \<Rightarrow> result option" where
  "gt_string lib av b =
     (if b = NilV then ret (BoolV (string_less [] av))
      else ret (BoolV (string_less (Sprint lib (StringV av)) av)))"

fun gt_time :: "golib \<Rightarrow> go_time \<Rightarrow> tsql_value \<Rightarrow> result option" where
  "gt_time lib av NilV = ret (BoolV (0 <s UnixNano av))"
| "gt_time lib av (BoolV bv) = ret (BoolV (boolToInt bv <s UnixNano av))"
| "gt_time lib av (IntV bv) = ret (BoolV (bv <s UnixNano av))"
| "gt_time lib av (UintV bv) = ret (BoolV (bv < UnixNano av))"
| "gt_time lib av (FloatV bv) = ret (BoolV (f64_less bv (f64_of_int64 (UnixNano av))))"
| "gt_time lib av (StringV bv) = ret (BoolV (string_less bv (lib_TimeString lib av)))"
| "gt_time lib av (DurationV bv) = ret (BoolV (bv <s UnixNano av))"
| "gt_time lib av (TimeV bv) = ret (BoolV (gt_at bv < gt_at av))"
| "gt_time lib av b = None"

fun gt_duration :: "golib \<Rightarrow> 64 word \<Rightarrow> tsql_value \<Rightarrow> result option" where
  "gt_duration lib av NilV = ret (BoolV (0 <s av))"
| "gt_duration lib av (BoolV bv) = ret (BoolV (boolToInt bv <s av))"
| "gt_duration lib av (IntV bv) = ret (BoolV (bv <s av))"
| "gt_duration lib av (UintV bv) = ret (BoolV (bv < av))"
| "gt_duration lib av (FloatV bv) = ret (BoolV (f64_less bv (f64_of_int64 av)))"
| "gt_duration lib av (StringV bv) = ret (BoolV (string_less bv (lib_DurationString lib av)))"
| "gt_duration lib av (DurationV bv) = ret (BoolV (bv <s av))"
| "gt_duration lib av (TimeV bv) = ret (BoolV (UnixNano bv <s av))"
| "gt_duration lib av b = None"

fun gt_regexp :: "golib \<Rightarrow> regexp option \<Rightarrow> tsql_value \<Rightarrow> result option" where
  "gt_regexp lib av NilV = ret (BoolV True)"
| "gt_regexp lib av (StringV bv) = with_text av (\<lambda>s. ret (BoolV (string_less bv s)))"
| "gt_regexp lib av (RegexpV bv) =
     with_text av (\<lambda>s. with_text bv (\<lambda>t. ret (BoolV (string_less t s))))"
| "gt_regexp lib av b = None"

definition op_gt :: "golib \<Rightarrow> tsql_value \<Rightarrow> tsql_value \<Rightarrow> result option" where
  "op_gt lib a b =
     (case a of
        NilV \<Rightarrow> gt_nil lib b
      | BoolV av \<Rightarrow> gt_bool lib av b
      | IntV av \<Rightarrow> gt_int lib av b
      | UintV av \<Rightarrow> gt_uint lib av b
      | FloatV av \<Rightarrow> gt_float lib av b
      | StringV av \<Rightarrow> gt_string lib av b
      | TimeV av \<Rightarrow> gt_time lib av b
      | DurationV av \<Rightarrow> gt_duration lib av b
      | RegexpV av \<Rightarrow> gt_regexp lib av b
      | _ \<Rightarrow> None)"

section \<open>Greater or equal\<close>

fun gte_nil :: "golib \<Rightarrow> tsql_value \<Rightarrow> result option" where
  "gte_nil lib NilV = ret (BoolV True)"
| "gte_nil lib (BoolV bv) = ret (BoolV (boolToInt bv \<le>s 0))"
| "gte_nil lib (IntV bv) = ret (BoolV (bv \<le>s 0))"
| "gte_nil lib (UintV bv) = ret (BoolV (bv \<le> 0))"
| "gte_nil lib (FloatV bv) = ret (BoolV (f64_le bv 0))"
| "gte_nil lib (StringV bv) = ret (BoolV (string_le bv []))"
| "gte_nil lib (DurationV bv) = ret (BoolV (bv \<le>s 0))"
| "gte_nil lib (TimeV bv) = ret (BoolV (UnixNano bv \<le>s 0))"
| "gte_nil lib (RegexpV bv) = ret (BoolV False)"
| "gte_nil lib b = None"

fun gte_bool :: "golib \<Rightarrow> bool \<Rightarrow> tsql_value \<Rightarrow> result option" where
  "gte_bool lib av NilV = ret (BoolV (0 \<le>s boolToInt av))"
| "gte_bool lib av (BoolV bv) = ret (BoolV (boolToInt bv \<le>s boolToInt av))"
| "gte_bool lib av (IntV bv) = ret (BoolV (bv \<le>s boolToInt av))"
| "gte_bool lib av (UintV bv) = ret (BoolV (bv \<le> boolToInt av))"
| "gte_bool lib av (FloatV bv) = ret (BoolV (f64_le bv (f64_of_int64 (boolToInt av))))"
| "gte_bool lib av (StringV bv) = ret (BoolV (string_le bv (FormatBool av)))"
| "gte_bool lib av (DurationV bv) = ret (BoolV (bv \<le>s boolToInt av))"
| "gte_bool lib av (TimeV bv) = ret (BoolV (UnixNano bv \<le>s boolToInt av))"
| "gte_bool lib av b = None"

fun gte_int :: "golib \<Rightarrow> 64 word \<Rightarrow> tsql_value \<Rightarrow> result option" where
  "gte_int lib av NilV = ret (BoolV (0 \<le>s av))"
| "gte_int lib av (BoolV bv) = ret (BoolV (boolToInt bv \<le>s av))"
| "gte_int lib av (IntV bv) = ret (BoolV (bv \<le>s av))"
| "gte_int lib av (UintV bv) = ret (BoolV (bv \<le> av))"
| "gte_int lib av (FloatV bv) = ret (BoolV (f64_le bv (f64_of_int64 av)))"
| "gte_int lib av (StringV bv) = ret (BoolV (string_le bv (FormatInt av)))"
| "gte_int lib av (DurationV bv) = ret (BoolV (bv \<le>s av))"
| "gte_int lib av (TimeV bv) = ret (BoolV (UnixNano bv \<le>s av))"
| "gte_int lib av b = None"

fun gte_uint :: "golib \<Rightarrow> 64 word \<Rightarrow> tsql_value \<Rightarrow> result option" where
  "gte_uint lib av NilV = ret (BoolV (0 \<le> av))"
| "gte_uint lib av (BoolV bv) = ret (BoolV (boolToInt bv \<le> av))"
| "gte_uint lib av (IntV bv) = ret (BoolV (bv \<le> av))"
| "gte_uint lib av (UintV bv) = ret (BoolV (bv \<le> av))"
| "gte_uint lib av (FloatV bv) = ret (BoolV (f64_le bv (f64_of_uint64 av)))"
| "gte_uint lib av (StringV bv) = ret (BoolV (string_le bv (FormatUint64 av)))"
| "gte_uint lib av (DurationV bv) = ret (BoolV (bv \<le> av))"
| "gte_uint lib av (TimeV bv) = ret (BoolV (UnixNano bv \<le> av))"
| "gte_uint lib av b = None"

fun gte_float :: "golib \<Rightarrow> bits64 \<Rightarrow> tsql_value \<Rightarrow> result option" where
  "gte_float lib av NilV = ret (BoolV (f64_le 0 av))"
| "gte_float lib av (BoolV bv) = ret (BoolV (f64_le (f64_of_int64 (boolToInt bv)) av))"
| "gte_float lib av (IntV bv) = ret (BoolV (f64_le (f64_of_int64 bv) av))"
| "gte_float lib av (UintV bv) = ret (BoolV (f64_le (f64_of_uint64 bv) av))"
| "gte_float lib av (FloatV bv) = ret (BoolV (f64_le bv av))"
| "gte_float lib av (StringV bv) = ret (BoolV (string_le bv (lib_FormatFloat lib av)))"
| "gte_float lib av (DurationV bv) = ret (BoolV (f64_le (f64_of_int64 bv) av))"
| "gte_float lib av (TimeV bv) = ret (BoolV (f64_le (f64_of_int64 (UnixNano bv)) av))"
| "gte_float lib av b = None"

definition gte_string :: "golib \<Rightarrow> string \<Rightarrow> tsql_value \<Rightarrow> result option" where
  "gte_string lib av b =
     (if b = NilV then ret (BoolV (True))
      else ret (BoolV (string_le (Sprint lib (StringV av)) av)))"

fun gte_time :: "golib \<Rightarrow> go_time \<Rightarrow> tsql_value \<Rightarrow> result option" where
  "gte_time lib av NilV = ret (BoolV (0 \<le>s UnixNano av))"
| "gte_time lib av (BoolV bv) = ret (BoolV (boolToInt bv \<le>s UnixNano av))"
| "gte_time lib av (IntV bv) = ret (BoolV (bv \<le>s UnixNano av))"
| "gte_time lib av (UintV bv) = ret (BoolV (bv \<le> UnixNano av))"
| "gte_time lib av (FloatV bv) = ret (BoolV (f64_le bv (f64_of_int64 (UnixNano av))))"
| "gte_time lib av (StringV bv) = ret (BoolV (string_le bv (lib_TimeString lib av)))"
| "gte_time lib av (TimeV bv) = ret (BoolV (UnixNano bv \<le>s UnixNano av))"
| "gte_time lib av b = None"

fun gte_duration :: "golib \<Rightarrow> 64 word \<Rightarrow> tsql_value \<Rightarrow> result option" where
  "gte_duration lib av NilV = ret (BoolV (0 \<le>s av))"
| "gte_duration lib av (IntV bv) = ret (BoolV (bv \<le>s av))"
| "gte_duration lib av (UintV bv) = ret (BoolV (bv \<le> av))"
| "gte_duration lib av (FloatV bv) = ret (BoolV (f64_le bv (f64_of_int64 av)))"
| "gte_duration lib av (StringV bv) = ret (BoolV (string_le bv (lib_DurationString lib av)))"
| "gte_duration lib av (DurationV bv) = ret (BoolV (bv \<le>s av))"
| "gte_duration lib av (TimeV bv) = ret (BoolV (UnixNano bv \<le>s av))"
| "gte_duration lib av b = None"

fun gte_regexp :: "golib \<Rightarrow> regexp option \<Rightarrow> tsql_value \<Rightarrow> result option" where
  "gte_regexp lib av NilV = ret (BoolV True)"
| "gte_regexp lib av (StringV bv) = with_text av (\<lambda>s. ret (BoolV (string_le bv s)))"
| "gte_regexp lib av (RegexpV bv) =
     with_text av (\<lambda>s. with_text bv (\<lambda>t. ret (BoolV (string_le t s))))"
| "gte_regexp lib av b = None"

definition op_gte :: "golib \<Rightarrow> tsql_value \<Rightarrow> tsql_value \<Rightarrow> result option" where
  "op_gte lib a b =
     (case a of
        NilV \<Rightarrow> gte_nil lib b
      | BoolV av \<Rightarrow> gte_bool lib av b
      | IntV av \<Rightarrow> gte_int lib av b
      | UintV av \<Rightarrow> gte_uint lib av b
      | FloatV av \<Rightarrow> gte_float lib av b
      | StringV av \<Rightarrow> gte_string lib av b
      | TimeV av \<Rightarrow> gte_time lib av b
      | DurationV av \<Rightarrow> gte_duration lib av b
      | RegexpV av \<Rightarrow> gte_regexp lib av b
      | _ \<Rightarrow> None)"

end
