(* ===== verification/Tsql_Operator.thy ===== *)
theory Tsql_Operator
  imports Tsql_Arith Tsql_Bits Tsql_Compare
begin

text \<open>
  \<open>OperateValues\<close> of \<^verbatim>\<open>es-tsql/operator.go\<close> in full, and what its type switches amount to. On
  numbers they are one rule: both operands are promoted to the wider of their kinds (signed,
  unsigned, float) and the result is a duration as soon as one operand is. The theorems show this
  rule for the arithmetic operators, the bit operators and the comparisons, with the cases that
  deviate from it.
\<close>

section \<open>Equality, matching and the whole switch\<close>

text \<open>Go's \<open>==\<close> on interface values; \<open>None\<close> is the panic for a type without equality.\<close>

fun any_eq :: "tsql_value \<Rightarrow> tsql_value \<Rightarrow> bool option" where
  "any_eq (FloatV x) (FloatV y) = Some (f64_eq x y)"
| "any_eq (RegexpV x) (RegexpV y) = Some (map_option re_addr x = map_option re_addr y)"
| "any_eq (OtherV x) (OtherV y) =
     (if ot_type x \<noteq> ot_type y then Some False
      else if \<not> ot_comparable x then None
      else Some (ot_id x = ot_id y))"
| "any_eq x y = Some (x = y)"

definition op_eq :: "(bool \<Rightarrow> bool) \<Rightarrow> tsql_value \<Rightarrow> tsql_value \<Rightarrow> result option" where
  "op_eq f a b = (case any_eq a b of None \<Rightarrow> Some Panic | Some e \<Rightarrow> ret (BoolV (f e)))"

fun op_match :: "golib \<Rightarrow> (bool \<Rightarrow> bool) \<Rightarrow> tsql_value \<Rightarrow> tsql_value \<Rightarrow> result option" where
  "op_match lib f (StringV av) (RegexpV bv) =
     (case bv of None \<Rightarrow> Some Panic | Some re \<Rightarrow> ret (BoolV (f (lib_Match lib re av))))"
| "op_match lib f (RegexpV av) (StringV bv) =
     (case av of None \<Rightarrow> Some Panic | Some re \<Rightarrow> ret (BoolV (f (lib_Match lib re bv))))"
| "op_match lib f a b = None"

fun reflect_TypeOf :: "tsql_value \<Rightarrow> string" where
  "reflect_TypeOf NilV = ''%!s(<nil>)''"
| "reflect_TypeOf (BoolV b) = ''bool''"
| "reflect_TypeOf (IntV n) = ''int64''"
| "reflect_TypeOf (UintV n) = ''uint64''"
| "reflect_TypeOf (FloatV x) = ''float64''"
| "reflect_TypeOf (StringV s) = ''string''"
| "reflect_TypeOf (TimeV t) = ''time.Time''"
| "reflect_TypeOf (DurationV d) = ''time.Duration''"
| "reflect_TypeOf (RegexpV r) = ''*regexp.Regexp''"
| "reflect_TypeOf (OtherV x) = ot_type x"

definition operate :: "golib \<Rightarrow> tsql_value \<Rightarrow> Operator \<Rightarrow> tsql_value \<Rightarrow> result option" where
  "operate lib a op b =
     (case op of
        OpADD \<Rightarrow> op_add lib a b
      | OpSUB \<Rightarrow> op_sub lib a b
      | OpMUL \<Rightarrow> op_mul lib a b
      | OpDIV \<Rightarrow> op_div lib a b
      | OpMOD \<Rightarrow> op_mod lib a b
      | OpBITAND \<Rightarrow> op_bitand lib a b
      | OpBITOR \<Rightarrow> op_bitor lib a b
      | OpBITXOR \<Rightarrow> op_bitxor lib a b
      | OpAND \<Rightarrow> ret (BoolV (valueToBool a \<and> valueToBool b))
      | OpOR \<Rightarrow> ret (BoolV (valueToBool a \<or> valueToBool b))
      | OpEQ \<Rightarrow> op_eq id a b
      | OpNEQ \<Rightarrow> op_eq Not a b
      | OpEQREGEX \<Rightarrow> op_match lib id a b
      | OpNEQREGEX \<Rightarrow> op_match lib Not a b
      | OpLT \<Rightarrow> op_lt lib a b
      | OpLTE \<Rightarrow> op_lte lib a b
      | OpGT \<Rightarrow> op_gt lib a b
      | OpGTE \<Rightarrow> op_gte lib a b
      | _ \<Rightarrow> Some (Err (ErrOperator op)))"

definition OperateValues :: "golib \<Rightarrow> go_any \<Rightarrow> Operator \<Rightarrow> go_any \<Rightarrow> result" where
  "OperateValues lib a op b =
     (let a = ValueOf lib a; b = ValueOf lib b
      in case operate lib a op b of
           Some r \<Rightarrow> r
         | None \<Rightarrow> Err (ErrNotSupport (reflect_TypeOf a) op (reflect_TypeOf b)))"

section \<open>Promotion\<close>

datatype num_kind = KInt | KUint | KFloat

instantiation num_kind :: linorder
begin

definition less_eq_num_kind :: "num_kind \<Rightarrow> num_kind \<Rightarrow> bool" where
  "less_eq_num_kind x y \<longleftrightarrow> x = KInt \<or> y = KFloat \<or> x = y"

definition less_num_kind :: "num_kind \<Rightarrow> num_kind \<Rightarrow> bool" where
  "less_num_kind x y \<longleftrightarrow> x \<le> y \<and> x \<noteq> y"

instance
proof
  fix x y z :: num_kind
  show "x < y \<longleftrightarrow> x \<le> y \<and> \<not> y \<le> x"
    by (cases x; cases y) (simp_all add: less_num_kind_def less_eq_num_kind_def)
  show "x \<le> x" by (simp add: less_eq_num_kind_def)
  show "x \<le> y \<Longrightarrow> y \<le> z \<Longrightarrow> x \<le> z"
    by (cases x; cases y; cases z) (simp_all add: less_eq_num_kind_def)
  show "x \<le> y \<Longrightarrow> y \<le> x \<Longrightarrow> x = y"
    by (cases x; cases y) (simp_all add: less_eq_num_kind_def)
  show "x \<le> y \<or> y \<le> x"
    by (cases x; cases y) (simp_all add: less_eq_num_kind_def)
qed

end

lemma max_num_kind [simp]:
  "max KInt k = k" "max k KInt = k" "max KFloat k = KFloat" "max k KFloat = KFloat" "max k k = (k :: num_kind)"
  by (cases k; simp add: max_def less_eq_num_kind_def)+

fun kind_of :: "tsql_value \<Rightarrow> num_kind" where
  "kind_of (UintV n) = KUint"
| "kind_of (FloatV x) = KFloat"
| "kind_of v = KInt"

fun num_word :: "tsql_value \<Rightarrow> 64 word" where
  "num_word (BoolV b) = boolToInt b"
| "num_word (IntV n) = n"
| "num_word (UintV n) = n"
| "num_word (FloatV x) = x"
| "num_word (DurationV d) = d"
| "num_word (TimeV t) = UnixNano t"
| "num_word v = 0"

fun is_duration :: "tsql_value \<Rightarrow> bool" where
  "is_duration (DurationV d) = True"
| "is_duration v = False"

fun is_number :: "tsql_value \<Rightarrow> bool" where
  "is_number (BoolV b) = True"
| "is_number (IntV n) = True"
| "is_number (UintV n) = True"
| "is_number (FloatV x) = True"
| "is_number (DurationV d) = True"
| "is_number v = False"

text \<open>An operand as a member of the wider kind.\<close>

definition promoted :: "num_kind \<Rightarrow> tsql_value \<Rightarrow> 64 word" where
  "promoted k v =
     (if k \<noteq> KFloat then num_word v
      else case kind_of v of
             KInt \<Rightarrow> f64_of_int64 (num_word v)
           | KUint \<Rightarrow> f64_of_uint64 (num_word v)
           | KFloat \<Rightarrow> num_word v)"

abbreviation join_kind :: "tsql_value \<Rightarrow> tsql_value \<Rightarrow> num_kind" where
  "join_kind a b \<equiv> max (kind_of a) (kind_of b)"

definition number :: "num_kind \<Rightarrow> 64 word \<Rightarrow> tsql_value" where
  "number k w = (case k of KInt \<Rightarrow> IntV w | KUint \<Rightarrow> UintV w | KFloat \<Rightarrow> FloatV w)"

section \<open>The reference\<close>

definition is_zero :: "tsql_value \<Rightarrow> bool" where
  "is_zero v = (case v of FloatV x \<Rightarrow> f64_eq x 0 | _ \<Rightarrow> num_word v = 0)"

definition arith :: "golib \<Rightarrow> Operator \<Rightarrow> num_kind \<Rightarrow> 64 word \<Rightarrow> 64 word \<Rightarrow> 64 word" where
  "arith lib op k x y =
     (case op of
        OpADD \<Rightarrow> if k = KFloat then fadd lib x y else x + y
      | OpSUB \<Rightarrow> if k = KFloat then fsub lib x y else x - y
      | OpMUL \<Rightarrow> if k = KFloat then fmul lib x y else x * y
      | _ \<Rightarrow> (case k of
                KFloat \<Rightarrow> fdiv lib x y
              | KUint \<Rightarrow> x div y
              | KInt \<Rightarrow> word_of_int (trunc_div (sint x) (sint y))))"

definition arith_ref :: "golib \<Rightarrow> Operator \<Rightarrow> tsql_value \<Rightarrow> tsql_value \<Rightarrow> tsql_value" where
  "arith_ref lib op a b =
     (if op = OpDIV \<and> is_zero b then NilV
      else
        let k = join_kind a b; w = arith lib op k (promoted k a) (promoted k b)
        in if is_duration a \<or> is_duration b then DurationV (if k = KFloat then int64_of lib w else w)
           else number k w)"

text \<open>The pairs of operands whose case in the source is not this rule.\<close>

definition irregular :: "Operator \<Rightarrow> tsql_value \<Rightarrow> tsql_value \<Rightarrow> bool" where
  "irregular op a b \<longleftrightarrow>
     (op, TypeOf_value a, TypeOf_value b) \<in>
       {(OpSUB, DurationType, DurationType), (OpMUL, UintType, FloatType), (OpDIV, FloatType, DurationType),
        (OpMUL, DurationType, BoolType), (OpDIV, DurationType, BoolType)}"

lemma squot_nonzero: "b \<noteq> 0 \<Longrightarrow> squot V a b = ret (V (word_of_int (trunc_div (sint a) (sint b))))"
  by (simp add: squot_def)

lemma uquot_nonzero: "b \<noteq> 0 \<Longrightarrow> uquot V a b = ret (V (a div b))"
  by (simp add: uquot_def)

lemma operate_regular:
  assumes "op \<in> {OpADD, OpSUB, OpMUL, OpDIV}" and "is_number a" and "is_number b" and "\<not> irregular op a b"
  shows "operate lib a op b = ret (arith_ref lib op a b)"
  using assms
  by (cases a; cases b)
    (auto simp: operate_def op_add_def op_sub_def op_mul_def op_div_def irregular_def arith_ref_def
      arith_def promoted_def number_def is_zero_def squot_nonzero uquot_nonzero)

text \<open>On numbers and nil the bit operators work on the patterns.\<close>

definition bits_ref :: "(64 word \<Rightarrow> 64 word \<Rightarrow> 64 word) \<Rightarrow> tsql_value \<Rightarrow> tsql_value \<Rightarrow> tsql_value" where
  "bits_ref f a b =
     (let w = f (num_word a) (num_word b)
      in if is_duration a \<or> is_duration b then DurationV w else number (join_kind a b) w)"

definition bit_function :: "Operator \<Rightarrow> 64 word \<Rightarrow> 64 word \<Rightarrow> 64 word" where
  "bit_function op = (case op of OpBITAND \<Rightarrow> (AND) | OpBITOR \<Rightarrow> (OR) | _ \<Rightarrow> (XOR))"

lemma operate_bits:
  assumes "op \<in> {OpBITAND, OpBITOR, OpBITXOR}" and "is_number a \<or> a = NilV" and "is_number b \<or> b = NilV"
    and "(op, TypeOf_value a, TypeOf_value b) \<noteq> (OpBITXOR, FloatType, DurationType)"
    and "(TypeOf_value a, TypeOf_value b) \<noteq> (DurationType, BoolType)"
  shows "operate lib a op b = ret (bits_ref (bit_function op) a b)"
  using assms
  by (cases a; cases b)
    (auto simp: operate_def op_bitand_def op_bitor_def op_bitxor_def bits_ref_def bit_function_def number_def
      boolToInt_def)

text \<open>Comparisons, also of instants that \<open>UnixNano\<close> represents as a number that is not negative.\<close>

fun is_ordered :: "tsql_value \<Rightarrow> bool" where
  "is_ordered (TimeV t) \<longleftrightarrow> unix_epoch \<le> gt_at t \<and> gt_at t < unix_epoch + 2 ^ 63"
| "is_ordered v \<longleftrightarrow> is_number v \<or> v = NilV"

definition num_less :: "num_kind \<Rightarrow> 64 word \<Rightarrow> 64 word \<Rightarrow> bool" where
  "num_less k x y = (case k of KInt \<Rightarrow> x <s y | KUint \<Rightarrow> x < y | KFloat \<Rightarrow> f64_less x y)"

definition num_le :: "num_kind \<Rightarrow> 64 word \<Rightarrow> 64 word \<Rightarrow> bool" where
  "num_le k x y = (case k of KInt \<Rightarrow> x \<le>s y | KUint \<Rightarrow> x \<le> y | KFloat \<Rightarrow> f64_le x y)"

definition compare_ref :: "Operator \<Rightarrow> tsql_value \<Rightarrow> tsql_value \<Rightarrow> bool" where
  "compare_ref op a b =
     (let k = join_kind a b; x = promoted k a; y = promoted k b
      in case op of
           OpLT \<Rightarrow> num_less k x y
         | OpGT \<Rightarrow> num_less k y x
         | OpLTE \<Rightarrow> num_le k x y
         | _ \<Rightarrow> num_le k y x)"

lemma f64_of_int_0 [simp]: "f64_of_int 0 = 0"
  by (simp add: f64_of_int_def magnitude_bits_def sign_bits_def)

lemma sint_UnixNano:
  assumes "unix_epoch \<le> gt_at t" and "gt_at t < unix_epoch + 2 ^ 63"
  shows "sint (UnixNano t) = gt_at t - unix_epoch"
  unfolding UnixNano_def sint_sbintrunc' using assms by (simp add: signed_take_bit_int_eq_self)

lemma boolToInt_sless [simp]: "\<not> boolToInt b <s 0" "0 \<le>s boolToInt b"
  by (simp_all add: boolToInt_def word_sless_alt word_sle_eq)

lemmas order_defs = compare_ref_def num_less_def num_le_def promoted_def word_sless_alt word_sle_eq
  sint_UnixNano boolToInt_def

lemma operate_compare:
  assumes "op \<in> {OpLT, OpGT}" and "is_ordered a" and "is_ordered b"
  shows "operate lib a op b = ret (BoolV (compare_ref op a b))"
  using assms
  by (cases a; cases b) (auto simp: operate_def op_lt_def op_gt_def order_defs)

lemma operate_compare_eq:
  assumes "op \<in> {OpLTE, OpGTE}" and "is_ordered a" and "is_ordered b"
    and "(TypeOf_value a, TypeOf_value b) \<notin> {(DurationType, BoolType), (TimeType, DurationType)}"
  shows "operate lib a op b = ret (BoolV (compare_ref op a b))"
  using assms
  by (cases a; cases b) (auto simp: operate_def op_lte_def op_gte_def order_defs)

section \<open>Panics\<close>

fun no_panic_value :: "tsql_value \<Rightarrow> bool" where
  "no_panic_value (RegexpV r) \<longleftrightarrow> r \<noteq> None"
| "no_panic_value (OtherV x) \<longleftrightarrow> ot_comparable x"
| "no_panic_value v \<longleftrightarrow> True"

text \<open>The divisor of a remainder is the truncated float, which is zero for a float below one.\<close>

definition zero_divisor :: "golib \<Rightarrow> tsql_value \<Rightarrow> bits64 \<Rightarrow> bool" where
  "zero_divisor lib a x =
     (case a of
        UintV n \<Rightarrow> uint64_of lib x = 0
      | StringV s \<Rightarrow> (s = [] \<or> Atoi64 s \<noteq> None) \<and> int64_of lib x = 0
      | _ \<Rightarrow> is_number a \<and> int64_of lib x = 0)"

lemmas parse_defs = parse_float_def parse_int_def parse_uint_def parse_duration_def with_text_def

lemma arithmetic_no_panic:
  assumes "no_panic_value a" and "no_panic_value b"
  shows "op_add lib a b \<noteq> Some Panic" "op_sub lib a b \<noteq> Some Panic" "op_mul lib a b \<noteq> Some Panic"
    "op_div lib a b \<noteq> Some Panic"
proof -
  show "op_add lib a b \<noteq> Some Panic"
    using assms by (cases a; cases b) (auto simp: op_add_def add_string_def parse_defs split: option.splits)
  show "op_sub lib a b \<noteq> Some Panic"
    using assms by (cases a; cases b) (auto simp: op_sub_def sub_string_def parse_defs split: option.splits)
  show "op_mul lib a b \<noteq> Some Panic"
    using assms by (cases a; cases b) (auto simp: op_mul_def mul_string_def parse_defs split: option.splits)
  show "op_div lib a b \<noteq> Some Panic"
    using assms by (cases a; cases b)
      (auto simp: op_div_def div_string_def parse_defs squot_nonzero uquot_nonzero split: option.splits)
qed

lemma bits_no_panic:
  "op_bitand lib a b \<noteq> Some Panic" "op_bitor lib a b \<noteq> Some Panic" "op_bitxor lib a b \<noteq> Some Panic"
  by (cases a; cases b; simp add: op_bitand_def op_bitor_def op_bitxor_def)+

lemma compare_no_panic:
  assumes "no_panic_value a" and "no_panic_value b"
  shows "op_lt lib a b \<noteq> Some Panic" "op_lte lib a b \<noteq> Some Panic" "op_gt lib a b \<noteq> Some Panic"
    "op_gte lib a b \<noteq> Some Panic"
proof -
  show "op_lt lib a b \<noteq> Some Panic"
    using assms by (cases a; cases b) (auto simp: op_lt_def lt_string_def parse_defs)
  show "op_lte lib a b \<noteq> Some Panic"
    using assms by (cases a; cases b) (auto simp: op_lte_def lte_string_def parse_defs)
  show "op_gt lib a b \<noteq> Some Panic"
    using assms by (cases a; cases b) (auto simp: op_gt_def gt_string_def parse_defs)
  show "op_gte lib a b \<noteq> Some Panic"
    using assms by (cases a; cases b) (auto simp: op_gte_def gte_string_def parse_defs)
qed

lemma eq_no_panic:
  assumes "no_panic_value a" and "no_panic_value b"
  shows "op_eq f a b \<noteq> Some Panic" "op_match lib f a b \<noteq> Some Panic"
  using assms by (cases a; cases b; auto simp: op_eq_def)+

lemma remainder_panics:
  assumes "no_panic_value a" and "no_panic_value b"
  shows "op_mod lib a b = Some Panic \<longleftrightarrow> (\<exists>x. b = FloatV x \<and> \<not> f64_eq x 0 \<and> zero_divisor lib a x)"
  using assms
  by (cases a; cases b)
    (auto simp: op_mod_def mod_string_def parse_defs srem_def urem_def zero_divisor_def split: option.splits)

section \<open>Properties\<close>

lemma OperateValues_operate:
  "operate lib (ValueOf lib a) op (ValueOf lib b) = Some r \<Longrightarrow> OperateValues lib a op b = r"
  by (simp add: OperateValues_def Let_def)






section \<open>Examples\<close>

definition example_platform :: platform where
  "example_platform = \<lparr>pf_nan = (\<lambda>x y. 0x7FF8000000000001), pf_int64 = (\<lambda>x. push_bit 63 1),
     pf_uint64 = (\<lambda>x. push_bit 63 1), pf_nan32 = (\<lambda>x. 0x7FF8000000000001)\<rparr>"

definition example_lib :: golib where
  "example_lib = \<lparr>lib_platform = example_platform, lib_ParseFloat = (\<lambda>s. None), lib_FormatFloat = (\<lambda>x. []),
     lib_ParseDuration = (\<lambda>s. None), lib_DurationString = (\<lambda>d. []), lib_TimeString = (\<lambda>t. []),
     lib_Sprint = (\<lambda>v. []), lib_Match = (\<lambda>re s. False), lib_TimeParse = (\<lambda>l s. None),
     lib_Local = 0, lib_Sprint32 = (\<lambda>x. []), lib_ToInt = (\<lambda>v n. case v of GAny (IntV k) \<Rightarrow> k | _ \<Rightarrow> n),
     lib_ToFloat64 = (\<lambda>v x. case v of GAny (FloatV y) \<Rightarrow> y | _ \<Rightarrow> x)\<rparr>"





end
