(* ===== verification/Tsql_Functions.thy ===== *)
theory Tsql_Functions
  imports Tsql_Operator
begin

text \<open>
  The built-in functions of the metric query language (\<^verbatim>\<open>es-tsql/functions.go\<close>) that compute
  on their arguments, the time units of \<^verbatim>\<open>es-tsql/query.go\<close>, and the order of rows of
  \<^verbatim>\<open>es-tsql/influxql/query.go\<close>. Arguments keep their Go types, so that an \<open>int\<close> and an
  \<open>int64\<close> are different values, as they are for \<open>==\<close>.
\<close>

section \<open>Results and arguments\<close>

datatype fn_error =
    ErrFewArgs string nat | ErrManyArgs string nat nat | ErrArgsMin string nat
  | ErrNotString string nat go_any | ErrNotTime string nat go_any | ErrConvert string go_any
  | ErrNotBool nat | ErrNotNumerical nat | ErrText string

datatype fn_result = FRet go_any | FErr fn_error | FPanic

abbreviation fret :: "tsql_value \<Rightarrow> fn_result" where
  "fret v \<equiv> FRet (GAny v)"

definition MustFuncArgsNum :: "string \<Rightarrow> nat \<Rightarrow> nat \<Rightarrow> fn_error option" where
  "MustFuncArgsNum name args num =
     (if args < num then Some (ErrFewArgs name num)
      else if args > num then Some (ErrManyArgs name num args)
      else None)"

definition MustFuncArgsMinNum :: "string \<Rightarrow> nat \<Rightarrow> nat \<Rightarrow> fn_error option" where
  "MustFuncArgsMinNum name args num = (if args < num then Some (ErrArgsMin name num) else None)"

definition with_args :: "fn_error option \<Rightarrow> fn_result \<Rightarrow> fn_result" where
  "with_args e r = (case e of Some err \<Rightarrow> FErr err | None \<Rightarrow> r)"

abbreviation with_num :: "string \<Rightarrow> 'a list \<Rightarrow> nat \<Rightarrow> fn_result \<Rightarrow> fn_result" where
  "with_num name args num \<equiv> with_args (MustFuncArgsNum name (length args) num)"

abbreviation with_min :: "string \<Rightarrow> 'a list \<Rightarrow> nat \<Rightarrow> fn_result \<Rightarrow> fn_result" where
  "with_min name args num \<equiv> with_args (MustFuncArgsMinNum name (length args) num)"

fun getStringArg :: "string \<Rightarrow> nat \<Rightarrow> go_any \<Rightarrow> fn_error + string" where
  "getStringArg name i (GAny (StringV text)) = Inr text"
| "getStringArg name i arg = Inl (ErrNotString name i arg)"

text \<open>Go's \<open>==\<close> on arguments: values of different types are different.\<close>

fun raw_eq :: "go_any \<Rightarrow> go_any \<Rightarrow> bool option" where
  "raw_eq (GAny x) (GAny y) = any_eq x y"
| "raw_eq (GFloat32 x) (GFloat32 y) = Some (fv_eq (decode32 x) (decode32 y))"
| "raw_eq x y = Some (x = y)"

definition raw_eq_result :: "(bool \<Rightarrow> bool) \<Rightarrow> go_any \<Rightarrow> go_any \<Rightarrow> fn_result" where
  "raw_eq_result f x y = (case raw_eq x y of None \<Rightarrow> FPanic | Some e \<Rightarrow> fret (BoolV (f e)))"

section \<open>Choice and comparison\<close>

definition fn_default_value :: "go_any list \<Rightarrow> fn_result" where
  "fn_default_value args = with_num ''default_value'' args 2
     (if args ! 0 = GAny NilV then FRet (args ! 1) else FRet (args ! 0))"

text \<open>The error of \<open>OperateValues\<close> is dropped and its nil result asserted to be a bool.\<close>

definition fn_max_value :: "golib \<Rightarrow> go_any list \<Rightarrow> fn_result" where
  "fn_max_value lib args = with_num ''max_value'' args 2
     (case OperateValues lib (args ! 0) OpLT (args ! 1) of
        Ret (BoolV v) \<Rightarrow> if v then FRet (args ! 1) else FRet (args ! 0)
      | _ \<Rightarrow> FPanic)"

definition fn_min_value :: "golib \<Rightarrow> go_any list \<Rightarrow> fn_result" where
  "fn_min_value lib args = with_num ''min_value'' args 2
     (case OperateValues lib (args ! 0) OpGT (args ! 1) of
        Ret (BoolV v) \<Rightarrow> if v then FRet (args ! 1) else FRet (args ! 0)
      | _ \<Rightarrow> FPanic)"

definition fn_if :: "go_any list \<Rightarrow> fn_result" where
  "fn_if args = with_num ''if'' args 3
     (case args ! 0 of
        GAny (BoolV b) \<Rightarrow> if b then FRet (args ! 1) else FRet (args ! 2)
      | _ \<Rightarrow> FErr (ErrNotBool 0))"

definition fn_eq :: "go_any list \<Rightarrow> fn_result" where
  "fn_eq args = with_num ''eq'' args 2 (raw_eq_result id (args ! 0) (args ! 1))"

definition fn_neq :: "go_any list \<Rightarrow> fn_result" where
  "fn_neq args = with_num ''neq'' args 2 (raw_eq_result Not (args ! 0) (args ! 1))"

fun include_loop :: "go_any \<Rightarrow> go_any list \<Rightarrow> fn_result" where
  "include_loop val [] = fret (BoolV False)"
| "include_loop val (arg # args) =
     (case raw_eq val arg of
        None \<Rightarrow> FPanic
      | Some e \<Rightarrow> if e then fret (BoolV True) else include_loop val args)"

definition fn_include :: "go_any list \<Rightarrow> fn_result" where
  "fn_include args = with_min ''include'' args 2 (include_loop (hd args) (drop 1 args))"

fun andf_loop :: "nat \<Rightarrow> go_any list \<Rightarrow> fn_result" where
  "andf_loop index [] = fret (BoolV True)"
| "andf_loop index (val # args) =
     (case val of
        GAny (BoolV b) \<Rightarrow> if \<not> b then fret (BoolV False) else andf_loop (Suc index) args
      | _ \<Rightarrow> FErr (ErrNotBool index))"

definition fn_andf :: "go_any list \<Rightarrow> fn_result" where
  "fn_andf args = with_min ''andf'' args 2 (andf_loop 0 args)"

fun orf_loop :: "nat \<Rightarrow> go_any list \<Rightarrow> fn_result" where
  "orf_loop index [] = fret (BoolV False)"
| "orf_loop index (val # args) =
     (case val of
        GAny (BoolV b) \<Rightarrow> if b then fret (BoolV True) else orf_loop (Suc index) args
      | _ \<Rightarrow> FErr (ErrNotBool index))"

definition fn_orf :: "go_any list \<Rightarrow> fn_result" where
  "fn_orf args = with_min ''orf'' args 2 (orf_loop 0 args)"

definition convertToFloat64 :: "golib \<Rightarrow> go_any \<Rightarrow> bits64 option" where
  "convertToFloat64 lib v =
     (case ValueOf lib v of
        IntV val \<Rightarrow> Some (f64_of_int64 val)
      | UintV val \<Rightarrow> Some (f64_of_uint64 val)
      | FloatV val \<Rightarrow> Some val
      | DurationV val \<Rightarrow> Some (f64_of_int64 val)
      | _ \<Rightarrow> None)"

fun CheckNumerical_loop :: "golib \<Rightarrow> nat \<Rightarrow> go_any list \<Rightarrow> fn_error + bits64 list" where
  "CheckNumerical_loop lib index [] = Inr []"
| "CheckNumerical_loop lib index (val # v) =
     (case convertToFloat64 lib val of
        None \<Rightarrow> Inl (ErrNotNumerical index)
      | Some floatVal \<Rightarrow>
          (case CheckNumerical_loop lib (Suc index) v of
             Inl e \<Rightarrow> Inl e
           | Inr arrFloat \<Rightarrow> Inr (floatVal # arrFloat)))"

definition CheckNumerical :: "golib \<Rightarrow> go_any list \<Rightarrow> fn_error + bits64 list" where
  "CheckNumerical lib v = CheckNumerical_loop lib 0 v"

definition numeric_comparison ::
  "string \<Rightarrow> (bits64 \<Rightarrow> bits64 \<Rightarrow> bool) \<Rightarrow> golib \<Rightarrow> go_any list \<Rightarrow> fn_result" where
  "numeric_comparison name f lib args = with_num name args 2
     (case CheckNumerical lib args of
        Inl e \<Rightarrow> FErr e
      | Inr arrFloat \<Rightarrow> fret (BoolV (f (arrFloat ! 0) (arrFloat ! 1))))"

definition fn_gt :: "golib \<Rightarrow> go_any list \<Rightarrow> fn_result" where
  "fn_gt = numeric_comparison ''gt'' (\<lambda>x y. f64_less y x)"

definition fn_gte :: "golib \<Rightarrow> go_any list \<Rightarrow> fn_result" where
  "fn_gte = numeric_comparison ''gte'' (\<lambda>x y. f64_le y x)"

definition fn_lt :: "golib \<Rightarrow> go_any list \<Rightarrow> fn_result" where
  "fn_lt = numeric_comparison ''lt'' f64_less"

definition fn_lte :: "golib \<Rightarrow> go_any list \<Rightarrow> fn_result" where
  "fn_lte = numeric_comparison ''lte'' f64_le"

section \<open>Conversions\<close>

definition fn_int :: "golib \<Rightarrow> go_any list \<Rightarrow> fn_result" where
  "fn_int lib args = with_num ''int'' args 1
     (case ValueOf lib (args ! 0) of
        NilV \<Rightarrow> fret (IntV 0)
      | BoolV val \<Rightarrow> fret (IntV (boolToInt val))
      | IntV val \<Rightarrow> fret (IntV val)
      | UintV val \<Rightarrow> fret (IntV val)
      | FloatV val \<Rightarrow> fret (IntV (int64_of lib val))
      | StringV val \<Rightarrow> (case Atoi64 val of
                          Some v \<Rightarrow> fret (IntV (word_of_int v))
                        | None \<Rightarrow> FErr (ErrConvert ''int'' (args ! 0)))
      | DurationV val \<Rightarrow> fret (IntV val)
      | TimeV val \<Rightarrow> fret (IntV (UnixNano val))
      | _ \<Rightarrow> FErr (ErrConvert ''int'' (args ! 0)))"

text \<open>An \<open>int\<close> is true when it is positive, every other number when it is not zero.\<close>

definition fn_bool :: "golib \<Rightarrow> go_any list \<Rightarrow> fn_result" where
  "fn_bool lib args = with_num ''bool'' args 1
     (case args ! 0 of
        GInt val \<Rightarrow> fret (BoolV (0 <s val))
      | arg \<Rightarrow>
          (case ValueOf lib arg of
             NilV \<Rightarrow> fret (BoolV False)
           | BoolV val \<Rightarrow> fret (BoolV val)
           | IntV val \<Rightarrow> fret (BoolV (val \<noteq> 0))
           | UintV val \<Rightarrow> fret (BoolV (val \<noteq> 0))
           | FloatV val \<Rightarrow> fret (BoolV (\<not> f64_eq val 0))
           | StringV val \<Rightarrow> fret (BoolV (length val > 0))
           | DurationV val \<Rightarrow> fret (BoolV (val \<noteq> 0))
           | TimeV val \<Rightarrow> fret (BoolV (UnixNano val \<noteq> 0))
           | _ \<Rightarrow> fret (BoolV True)))"

definition fn_float :: "golib \<Rightarrow> go_any list \<Rightarrow> fn_result" where
  "fn_float lib args = with_num ''float'' args 1
     (case ValueOf lib (args ! 0) of
        NilV \<Rightarrow> fret (FloatV 0)
      | BoolV val \<Rightarrow> fret (FloatV (f64_of_int64 (boolToInt val)))
      | IntV val \<Rightarrow> fret (FloatV (f64_of_int64 val))
      | UintV val \<Rightarrow> fret (FloatV (f64_of_uint64 val))
      | FloatV val \<Rightarrow> fret (FloatV val)
      | StringV val \<Rightarrow> (case lib_ParseFloat lib val of
                          Some v \<Rightarrow> fret (FloatV v)
                        | None \<Rightarrow> FErr (ErrConvert ''float'' (args ! 0)))
      | DurationV val \<Rightarrow> fret (FloatV (f64_of_int64 val))
      | TimeV val \<Rightarrow> fret (FloatV (f64_of_int64 (UnixNano val)))
      | _ \<Rightarrow> FErr (ErrConvert ''float'' (args ! 0)))"

text \<open>A text that is no duration yields zero and no error.\<close>

definition fn_duration :: "golib \<Rightarrow> go_any list \<Rightarrow> fn_result" where
  "fn_duration lib args = with_num ''duration'' args 1
     (case ValueOf lib (args ! 0) of
        NilV \<Rightarrow> fret (DurationV 0)
      | BoolV val \<Rightarrow> fret (DurationV (boolToInt val))
      | IntV val \<Rightarrow> fret (DurationV val)
      | UintV val \<Rightarrow> fret (DurationV val)
      | FloatV val \<Rightarrow> fret (DurationV (int64_of lib val))
      | StringV val \<Rightarrow> (case lib_ParseDuration lib val of
                          Some v \<Rightarrow> fret (DurationV v)
                        | None \<Rightarrow> fret (DurationV 0))
      | DurationV val \<Rightarrow> fret (DurationV val)
      | _ \<Rightarrow> FErr (ErrConvert ''duration'' (args ! 0)))"

definition raw_Sprint :: "golib \<Rightarrow> go_any \<Rightarrow> string" where
  "raw_Sprint lib v = (case v of GFloat32 x \<Rightarrow> lib_Sprint32 lib x | _ \<Rightarrow> Sprint lib (ValueOf lib v))"

text \<open>The arguments of \<open>string\<close> are counted in the name of \<open>duration\<close>.\<close>

definition fn_string :: "golib \<Rightarrow> go_any list \<Rightarrow> fn_result" where
  "fn_string lib args = with_num ''duration'' args 1 (fret (StringV (raw_Sprint lib (args ! 0))))"

definition fn_tostring :: "golib \<Rightarrow> go_any list \<Rightarrow> fn_result" where
  "fn_tostring lib args = with_num ''tostring'' args 1
     (if args ! 0 = GAny NilV then fret (StringV []) else fret (StringV (raw_Sprint lib (args ! 0))))"

text \<open>The type of the first argument of \<open>map\<close> selects a conversion of the keys.\<close>

fun int_key :: "golib \<Rightarrow> go_any \<Rightarrow> go_any" where
  "int_key lib (GInt v) = GAny (IntV v)"
| "int_key lib (GUint v) = GAny (IntV v)"
| "int_key lib (GAny (UintV v)) = GAny (IntV v)"
| "int_key lib (GFloat32 v) = GAny (IntV (int64_of lib (f64_of_f32 (lib_platform lib) v)))"
| "int_key lib (GAny (FloatV v)) = GAny (IntV (int64_of lib v))"
| "int_key lib v = v"

fun uint_key :: "golib \<Rightarrow> go_any \<Rightarrow> go_any" where
  "uint_key lib (GInt v) = GAny (UintV v)"
| "uint_key lib (GAny (IntV v)) = GAny (UintV v)"
| "uint_key lib (GUint v) = GAny (UintV v)"
| "uint_key lib (GFloat32 v) = GAny (UintV (uint64_of lib (f64_of_f32 (lib_platform lib) v)))"
| "uint_key lib (GAny (FloatV v)) = GAny (UintV (uint64_of lib v))"
| "uint_key lib v = v"

fun float_key :: "golib \<Rightarrow> go_any \<Rightarrow> go_any" where
  "float_key lib (GInt v) = GAny (FloatV (f64_of_int64 v))"
| "float_key lib (GAny (IntV v)) = GAny (FloatV (f64_of_int64 v))"
| "float_key lib (GUint v) = GAny (FloatV (f64_of_uint64 v))"
| "float_key lib (GAny (UintV v)) = GAny (FloatV (f64_of_uint64 v))"
| "float_key lib (GFloat32 v) = GAny (FloatV (f64_of_f32 (lib_platform lib) v))"
| "float_key lib v = v"

fun map_key :: "golib \<Rightarrow> go_any \<Rightarrow> go_any \<Rightarrow> go_any" where
  "map_key lib (GInt n) = int_key lib"
| "map_key lib (GAny (IntV n)) = int_key lib"
| "map_key lib (GUint n) = uint_key lib"
| "map_key lib (GAny (UintV n)) = uint_key lib"
| "map_key lib (GFloat32 x) = float_key lib"
| "map_key lib (GAny (FloatV x)) = float_key lib"
| "map_key lib arg = id"

fun map_loop :: "golib \<Rightarrow> go_any \<Rightarrow> go_any list \<Rightarrow> fn_result" where
  "map_loop lib arg (k # v # rest) =
     (case raw_eq (map_key lib arg k) arg of
        None \<Rightarrow> FPanic
      | Some e \<Rightarrow> if e then FRet v else map_loop lib arg rest)"
| "map_loop lib arg rest = FRet arg"

definition fn_map :: "golib \<Rightarrow> go_any list \<Rightarrow> fn_result" where
  "fn_map lib args = with_min ''map'' args 3
     (if length args mod 2 \<noteq> 1 then FErr (ErrText ''invalid key-value pairs'')
      else map_loop lib (hd args) (drop 1 args))"

section \<open>Text\<close>

definition stringTrim :: "string \<Rightarrow> go_any list \<Rightarrow> (string \<Rightarrow> string \<Rightarrow> string) \<Rightarrow> fn_result" where
  "stringTrim name args fn = with_num name args 2
     (case getStringArg name 0 (args ! 0) of
        Inl e \<Rightarrow> FErr e
      | Inr text \<Rightarrow>
          (case getStringArg name 1 (args ! 1) of
             Inl e \<Rightarrow> FErr e
           | Inr arg \<Rightarrow> fret (StringV (fn text arg))))"

definition fn_trim :: "go_any list \<Rightarrow> fn_result" where
  "fn_trim args = stringTrim ''trim'' args strings_Trim"

definition fn_trim_left :: "go_any list \<Rightarrow> fn_result" where
  "fn_trim_left args = stringTrim ''trim_left'' args (\<lambda>s cs. trim_left (\<lambda>c. c \<in> set cs) s)"

definition fn_trim_right :: "go_any list \<Rightarrow> fn_result" where
  "fn_trim_right args = stringTrim ''trim_right'' args (\<lambda>s cs. trim_right (\<lambda>c. c \<in> set cs) s)"

definition fn_trim_space :: "go_any list \<Rightarrow> fn_result" where
  "fn_trim_space args = with_num ''trim_space'' args 1
     (case getStringArg ''trim_space'' 0 (args ! 0) of
        Inl e \<Rightarrow> FErr e
      | Inr text \<Rightarrow> fret (StringV (strings_TrimSpace text)))"

definition fn_trim_prefix :: "go_any list \<Rightarrow> fn_result" where
  "fn_trim_prefix args = stringTrim ''trim_prefix'' args strings_TrimPrefix"

definition fn_trim_suffix :: "go_any list \<Rightarrow> fn_result" where
  "fn_trim_suffix args = stringTrim ''trim_suffix'' args strings_TrimSuffix"

text \<open>A negative start is not corrected, and slicing with it panics.\<close>

definition fn_substring :: "golib \<Rightarrow> go_any list \<Rightarrow> fn_result" where
  "fn_substring lib args = with_min ''substring'' args 2
     (case args ! 0 of
        GAny (StringV s) \<Rightarrow>
          let n = int (length s);
              start = sint (lib_ToInt lib (args ! 1) 0);
              end1 = (if length args > 2 then sint (lib_ToInt lib (args ! 2) (word_of_int n)) else n);
              start = (if start > n then n else start);
              end1 = (if end1 > n then n else end1);
              start = (if start > end1 then end1 else start)
          in if start < 0 then FPanic else fret (StringV (drop (nat start) (take (nat end1) s)))
      | _ \<Rightarrow> FErr (ErrText ''args[0] is not string''))"

section \<open>Durations and instants\<close>

primrec shrink_base :: "nat \<Rightarrow> int \<Rightarrow> int" where
  "shrink_base 0 base = base"
| "shrink_base (Suc n) base = shrink_base n (base div 10)"

definition duration_base :: "int \<Rightarrow> int" where
  "duration_base val = (if val \<le> 10 ^ 6 then 10 ^ 3 else if val \<le> 10 ^ 9 then 10 ^ 6 else 10 ^ 9)"

text \<open>The duration whose text \<open>FormatDuration\<close> returns.\<close>

definition rounded_duration :: "64 word \<Rightarrow> int \<Rightarrow> 64 word" where
  "rounded_duration d precision =
     (let val = sint d
      in if val \<le> 10 ^ 3 then d
         else let base = shrink_base (nat precision) (duration_base val)
              in if base > 1
                 then (if val mod base \<ge> base div 2 then word_of_int ((val div base + 1) * base)
                       else word_of_int (val div base * base))
                 else d)"

definition FormatDuration :: "golib \<Rightarrow> 64 word \<Rightarrow> int \<Rightarrow> string" where
  "FormatDuration lib d precision = lib_DurationString lib (rounded_duration d precision)"

definition unit_factor :: "string \<Rightarrow> int" where
  "unit_factor unit =
     (if unit = ''ms'' then 10 ^ 6
      else if unit = ''s'' then 10 ^ 9
      else if unit = ''m'' \<or> unit = ''min'' then 60 * 10 ^ 9
      else if unit = ''h'' then 3600 * 10 ^ 9
      else if unit = ''d'' then 24 * 3600 * 10 ^ 9
      else 1)"

definition fn_format_duration :: "golib \<Rightarrow> go_any list \<Rightarrow> fn_result" where
  "fn_format_duration lib args =
     (if length args < 1 then FErr (ErrArgsMin ''format_duration'' 1)
      else case (if length args > 1 then getStringArg ''format_duration'' 1 (args ! 1) else Inr ''ns'') of
        Inl e \<Rightarrow> FErr e
      | Inr unit \<Rightarrow>
          let v = lib_ToFloat64 lib (args ! 0) 0;
              v = (if unit_factor unit = 1 then v else fmul lib v (f64_of_int (unit_factor unit)));
              d = int64_of lib v
          in fret (StringV (if length args > 2 then FormatDuration lib d (sint (lib_ToInt lib (args ! 2) 2))
                            else lib_DurationString lib d)))"

type_synonym time_unit = "64 word"

definition ParseTimeUnit :: "string \<Rightarrow> time_unit option" where
  "ParseTimeUnit u =
     (if u = ''ns'' then Some 1
      else if u = ''us'' \<or> u = [CHR 0xC2, CHR 0xB5, CHR 0x73] \<or> u = [CHR 0xCE, CHR 0xBC, CHR 0x73]
      then Some 1000
      else if u = ''ms'' then Some (10 ^ 6)
      else if u = ''s'' then Some (10 ^ 9)
      else if u = ''m'' then Some (60 * 10 ^ 9)
      else if u = ''h'' then Some (3600 * 10 ^ 9)
      else if u = ''day'' then Some (24 * 3600 * 10 ^ 9)
      else None)"

definition ConvertTimestamp :: "64 word \<Rightarrow> time_unit \<Rightarrow> time_unit \<Rightarrow> 64 word" where
  "ConvertTimestamp t from to =
     (if to = 0 then t
      else let from = (if from = 0 then 1 else from)
           in word_of_int (trunc_div (sint (t * from)) (sint to)))"

definition time_Unix :: "golib \<Rightarrow> 64 word \<Rightarrow> go_time" where
  "time_Unix lib n = \<lparr>gt_at = unix_epoch + sint n, gt_loc = lib_Local lib\<rparr>"

fun first_layout :: "golib \<Rightarrow> string list \<Rightarrow> string \<Rightarrow> go_time option" where
  "first_layout lib [] val = None"
| "first_layout lib (layout # layouts) val =
     (case lib_TimeParse lib layout val of Some t \<Rightarrow> Some t | None \<Rightarrow> first_layout lib layouts val)"

definition getTimeValue :: "golib \<Rightarrow> go_any \<Rightarrow> string list \<Rightarrow> go_time option" where
  "getTimeValue lib v layouts =
     (case ValueOf lib v of
        IntV val \<Rightarrow> Some (time_Unix lib val)
      | UintV val \<Rightarrow> Some (time_Unix lib val)
      | FloatV val \<Rightarrow> Some (time_Unix lib (int64_of lib val))
      | StringV val \<Rightarrow>
          (case first_layout lib layouts val of
             Some t \<Rightarrow> Some t
           | None \<Rightarrow> map_option (\<lambda>n. time_Unix lib (word_of_int n)) (Atoi64 val))
      | TimeV val \<Rightarrow> Some val
      | _ \<Rightarrow> None)"

definition timeLayouts :: "string list" where
  "timeLayouts = [''2006-01-02T15:04:05Z07:00'', ''2006-01-02 15:04:05'', ''2006-01-02'']"

definition getTimeArg :: "golib \<Rightarrow> string \<Rightarrow> nat \<Rightarrow> go_any \<Rightarrow> string list \<Rightarrow> fn_error + go_time" where
  "getTimeArg lib name i arg layouts =
     (case getTimeValue lib arg (if length layouts > 0 then layouts else timeLayouts) of
        Some t \<Rightarrow> Inr t
      | None \<Rightarrow> Inl (ErrNotTime name i arg))"

definition fn_parse_time :: "golib \<Rightarrow> go_any list \<Rightarrow> fn_result" where
  "fn_parse_time lib args = with_min ''parse_time'' args 1
     (case (if length args > 1
            then (case args ! 1 of GAny (StringV layout) \<Rightarrow> Inr [layout]
                                 | _ \<Rightarrow> Inl (ErrText ''args[1] is not time layout''))
            else Inr timeLayouts) of
        Inl e \<Rightarrow> FErr e
      | Inr layouts \<Rightarrow>
          (case getTimeArg lib ''parse_time'' 0 (args ! 0) layouts of
             Inl e \<Rightarrow> FErr e
           | Inr t \<Rightarrow> fret (TimeV t)))"

definition GetTimestampValue :: "golib \<Rightarrow> go_any \<Rightarrow> 64 word option" where
  "GetTimestampValue lib v =
     (case ValueOf lib v of
        IntV val \<Rightarrow> Some val
      | UintV val \<Rightarrow> Some val
      | FloatV val \<Rightarrow> Some (int64_of lib val)
      | StringV val \<Rightarrow>
          (case first_layout lib timeLayouts val of
             Some t \<Rightarrow> Some (UnixNano t)
           | None \<Rightarrow> map_option word_of_int (Atoi64 val))
      | TimeV val \<Rightarrow> Some (UnixNano val)
      | _ \<Rightarrow> None)"

definition fn_interval :: "64 word \<times> 64 word \<Rightarrow> go_any list \<Rightarrow> fn_result" where
  "fn_interval bounds args =
     (case bounds of (start, end1) \<Rightarrow>
        if end1 \<le>s start then FRet (GInt 1)
        else let interval = end1 - start
             in case args of
                  [] \<Rightarrow> fret (IntV interval)
                | GAny (StringV unit) # _ \<Rightarrow>
                    if length unit > 0
                    then (case ParseTimeUnit unit of
                            None \<Rightarrow> FErr (ErrText (''invaild time unit '' @ [CHR 0x27] @ unit @ [CHR 0x27]))
                          | Some u \<Rightarrow> fret (IntV (word_of_int (trunc_div (sint interval) (sint u)))))
                    else fret (IntV interval)
                | _ \<Rightarrow> FErr (ErrText ''invalid time unit''))"

section \<open>The order of rows\<close>

record Column =
  col_Name :: string

text \<open>The columns to sort by, with their direction, in the order of the sort fields.\<close>

definition sort_items :: "(string \<times> bool) list \<Rightarrow> Column list \<Rightarrow> (bool \<times> nat) list" where
  "sort_items sorts columns =
     concat (map (\<lambda>(expr, ascending).
       map (Pair ascending) (filter (\<lambda>i. col_Name (columns ! i) = expr) [0..<length columns])) sorts)"

text \<open>The comparison that is given to \<open>sort.Slice\<close>; \<open>None\<close> is a panic.\<close>

fun row_less :: "golib \<Rightarrow> (bool \<times> nat) list \<Rightarrow> go_any list \<Rightarrow> go_any list \<Rightarrow> bool option" where
  "row_less lib [] a b = Some False"
| "row_less lib ((ascending, i) # idx) a b =
     (if i \<ge> length a \<or> i \<ge> length b then None
      else case raw_eq (a ! i) (b ! i) of
        None \<Rightarrow> None
      | Some True \<Rightarrow> row_less lib idx a b
      | Some False \<Rightarrow>
          (case OperateValues lib (a ! i) OpLT (b ! i) of
             Panic \<Rightarrow> None
           | Ret (BoolV lt) \<Rightarrow> Some (if ascending then lt else \<not> lt)
           | _ \<Rightarrow> row_less lib idx a b))"

section \<open>Facts\<close>

lemma with_args_num [simp]: "n = m \<Longrightarrow> with_args (MustFuncArgsNum name n m) r = r"
  by (simp add: with_args_def MustFuncArgsNum_def)

lemma with_args_min [simp]: "m \<le> n \<Longrightarrow> with_args (MustFuncArgsMinNum name n m) r = r"
  by (simp add: with_args_def MustFuncArgsMinNum_def)

text \<open>A key is converted to \<open>int64\<close>, and no \<open>int64\<close> equals the \<open>int\<close> it is looked up for.\<close>

lemma int_key_not_int [simp]: "int_key lib k \<noteq> GInt n"
  by (induction lib k rule: int_key.induct) simp_all

lemma map_of_int_never_matches: "map_loop lib (GInt n) kvs = FRet (GInt n)"
  by (induction lib "GInt n" kvs rule: map_loop.induct) auto

lemma bool_of_a_negative_int:
  "fn_bool lib [GInt (- 1)] = fret (BoolV False)" "fn_bool lib [GInt32 (- 1)] = fret (BoolV True)"
  by (simp_all add: fn_bool_def word_sless_alt)

lemma substring_panics:
  "fn_substring lib [GAny (StringV s), i] = FPanic \<longleftrightarrow> sint (lib_ToInt lib i 0) < 0"
  by (simp add: fn_substring_def Let_def)

lemma shrink_base_div: "shrink_base n base = base div 10 ^ n"
  by (induction n arbitrary: base) (simp_all add: zdiv_zmult2_eq)

lemma sint_word_of_int64: "- (2 ^ 63) \<le> n \<Longrightarrow> n < 2 ^ 63 \<Longrightarrow> sint (word_of_int n :: 64 word) = n"
  unfolding sint_sbintrunc' by (simp add: signed_take_bit_int_eq_self)

lemma ConvertTimestamp_exact:
  assumes "to \<noteq> 0" and "from \<noteq> 0" and "is_int64 (sint t * sint from)"
    and "is_int64 (trunc_div (sint t * sint from) (sint to))"
  shows "sint (ConvertTimestamp t from to) = trunc_div (sint t * sint from) (sint to)"
proof -
  have "t * from = word_of_int (sint t * sint from)" by (simp add: of_int_sint)
  then have "sint (t * from) = sint t * sint from"
    using assms(3) by (simp only: is_int64_def sint_word_of_int64)
  with assms show ?thesis
    by (simp add: ConvertTimestamp_def is_int64_def sint_word_of_int64)
qed

definition nearest :: "int \<Rightarrow> int \<Rightarrow> int" where
  "nearest v base = (if v mod base \<ge> base div 2 then (v div base + 1) * base else v div base * base)"

lemma nearest_multiple:
  assumes "0 < base" and "even base"
  shows "base dvd nearest v base" and "2 * \<bar>nearest v base - v\<bar> \<le> base"
proof -
  have m: "v = v div base * base + v mod base" "0 \<le> v mod base" "v mod base < base"
    using assms(1) by simp_all
  show "base dvd nearest v base" by (simp add: nearest_def)
  have "nearest v base - v = (if v mod base \<ge> base div 2 then base - v mod base else - (v mod base))"
    using m(1) by (simp add: nearest_def distrib_right minus_mod_eq_div_mult [symmetric])
  then show "2 * \<bar>nearest v base - v\<bar> \<le> base" using m assms(2) by auto
qed

lemma even_duration_base:
  assumes "0 < duration_base v div 10 ^ n" and "duration_base v div 10 ^ n \<noteq> 1"
  shows "even (duration_base v div 10 ^ n)"
proof -
  obtain k where k: "duration_base v = 10 ^ k" unfolding duration_base_def by metis
  have "n < k"
  proof (rule ccontr)
    assume "\<not> n < k"
    then have "(10::int) ^ k \<le> 10 ^ n" by (simp add: power_increasing)
    with assms k show False by (cases "(10::int) ^ k = 10 ^ n") simp_all
  qed
  then have "(10::int) ^ k div 10 ^ n = 10 ^ (k - n)" by (simp add: power_diff)
  with \<open>n < k\<close> k show ?thesis by simp
qed

lemma lex_less_irrefl: "\<not> lex_less xs xs"
  by (induction xs) simp_all

lemma string_less_irrefl [simp]: "\<not> string_less s s"
  by (simp add: string_less_def lex_less_irrefl)

section \<open>Properties\<close>

text \<open>
  C33: Sorting by a column of texts does not compare them: the order given to \<open>sort.Slice\<close> says of
  two different texts that neither comes first when the order is ascending, and that each comes
  before the other when it is descending. For a column of integers it is their order.
\<close>

theorem order_of_rows:
  assumes "i < length a" and "i < length b"
  shows "(\<forall>s t. a ! i = GAny (StringV s) \<and> b ! i = GAny (StringV t) \<and> s \<noteq> t \<longrightarrow>
      row_less lib ((asc, i) # idx) a b = Some (\<not> asc) \<and> row_less lib ((asc, i) # idx) b a = Some (\<not> asc)) \<and>
    (\<forall>m n. a ! i = GAny (IntV m) \<and> b ! i = GAny (IntV n) \<and> m \<noteq> n \<longrightarrow>
      row_less lib ((asc, i) # idx) a b = Some (if asc then m <s n else n <s m))"
proof -
  have "OperateValues lib (GAny (StringV s)) OpLT (GAny (StringV t)) = Ret (BoolV False)" for s t
    by (simp add: OperateValues_def operate_def op_lt_def lt_string_def Sprint_def string_less_irrefl)
  moreover have "OperateValues lib (GAny (IntV m)) OpLT (GAny (IntV n)) = Ret (BoolV (m <s n))" for m n
    by (simp add: OperateValues_def operate_def op_lt_def)
  moreover have "(\<not> m <s n) = (n <s m)" if "m \<noteq> n" for m n :: "64 word"
  proof -
    have "sint m \<noteq> sint n" using that signed_word_eqI [of m n] by blast
    then show ?thesis by (auto simp: word_sless_alt)
  qed
  ultimately show ?thesis
    using assms by auto
qed


text \<open>
  C35: The text of a duration above a microsecond is that of the nearest multiple of its unit
  (microsecond, millisecond, second) divided by ten to the precision: at most half of it away.
\<close>

theorem FormatDuration_rounds:
  assumes "10 ^ 3 < sint d" and "sint d < 2 ^ 63 - 10 ^ 9"
    and "base = duration_base (sint d) div 10 ^ nat precision"
  shows "\<exists>r. FormatDuration lib d precision = lib_DurationString lib r \<and>
    max 1 base dvd sint r \<and> 2 * \<bar>sint r - sint d\<bar> \<le> base"
proof -
  define v where "v = sint d"
  let ?r = "rounded_duration d precision"
  have b: "0 \<le> base" "base \<le> 10 ^ 9" "base \<le> v"
    using assms zdiv_mono2 [of "duration_base v" 1 "10 ^ nat precision"]
    by (auto simp: v_def duration_base_def pos_imp_zdiv_nonneg_iff split: if_splits)
  have r: "?r = (if base > 1 then word_of_int (nearest v base) else d)"
    using assms by (simp add: rounded_duration_def Let_def v_def nearest_def shrink_base_div)
  have "max 1 base dvd sint ?r \<and> 2 * \<bar>sint ?r - v\<bar> \<le> base"
  proof (cases "base > 1")
    case True
    then have n: "base dvd nearest v base" "2 * \<bar>nearest v base - v\<bar> \<le> base"
      using nearest_multiple [of base v] even_duration_base [of v "nat precision"] assms(3) by (auto simp: v_def)
    have "- (2 ^ 63) \<le> nearest v base" "nearest v base < 2 ^ 63"
      using n(2) b assms(1,2) by (simp_all add: v_def abs_if split: if_splits)
    then have "sint ?r = nearest v base"
      using True by (simp only: r if_True sint_word_of_int64)
    with n True show ?thesis by simp
  next
    case False
    with b show ?thesis by (simp add: r v_def)
  qed
  then show ?thesis
    by (auto simp: FormatDuration_def v_def)
qed

section \<open>Examples\<close>

theorem order_of_rows_witness:
  "row_less example_lib [(False, 0)] [GAny (StringV ''a'')] [GAny (StringV ''b'')] = Some True \<and>
   row_less example_lib [(False, 0)] [GAny (StringV ''b'')] [GAny (StringV ''a'')] = Some True \<and>
   row_less example_lib [(False, 0)] [GAny (IntV 5)] [GAny (IntV 7)] = Some False"
  using order_of_rows [of 0 "[GAny (StringV ''a'')]" "[GAny (StringV ''b'')]" example_lib False "[]"]
    order_of_rows [of 0 "[GAny (IntV 5)]" "[GAny (IntV 7)]" example_lib False "[]"]
  by simp


theorem FormatDuration_rounds_witness:
  "\<exists>r. FormatDuration example_lib 1234567 2 = lib_DurationString example_lib r \<and>
     10000 dvd sint r \<and> 2 * \<bar>sint r - 1234567\<bar> \<le> 10000"
  using FormatDuration_rounds [of 1234567 10000 2 example_lib] by (simp add: duration_base_def max_def)

end
